(* ===== verification/Prelude.thy ===== *)
theory Prelude
  imports Main "HOL-Library.Finite_Map" "HOL-Library.Multiset"
begin

text \<open>
  Shared base of the development: what a Go function call may do (\<open>outcome\<close>), the state
  passing functions that model Go code with effects (\<open>go\<close>) with the combinators for
  \<^verbatim>\<open>if err != nil { return err }\<close>, for error handlers and for loops, the equations that say
  what each combinator returns, issues and leaves behind, the closure rules that carry a
  property of every issued effect through the combinators, and the generic lemmas on lists
  and finite maps that the component theories use.
\<close>

section \<open>Types shared by every component\<close>

text \<open>
  A Go \<^verbatim>\<open>map[string]string\<close> is a finite map. Where the code distinguishes the nil map from
  the empty one, the type is \<open>strmap option\<close> and \<open>None\<close> is nil.
  Values of third-party API types that the operator copies and never looks into (a toleration,
  an affinity, a security context) are kept in their serialised form, an \<open>opaque\<close>.
\<close>

type_synonym strmap = "(string, string) fmap"
type_synonym opaque = string

text \<open>
  An error value. The operator asks of an error only whether the API server said
  \<^emph>\<open>not found\<close> (\<^verbatim>\<open>apierrors.IsNotFound\<close>) and for its text (\<^verbatim>\<open>err.Error()\<close>).
\<close>

datatype goerr = NotFoundErr string | GoErr string

fun errString :: "goerr \<Rightarrow> string" where
  "errString (NotFoundErr s) = s"
| "errString (GoErr s) = s"

fun isNotFound :: "goerr \<Rightarrow> bool" where
  "isNotFound (NotFoundErr _) = True"
| "isNotFound (GoErr _) = False"

text \<open>
  A call returns a value, returns a non-nil error, or panics. A panic (nil dereference, index
  out of range, write to a nil map) is not an error value: no \<^verbatim>\<open>if err != nil\<close> sees it.
\<close>

datatype 'a outcome = Ok 'a | Err goerr | Panic string

text \<open>
  A function with effects takes the state \<open>'s\<close> of the outside world and returns its outcome,
  the effects it issued in order (calls to the API server, events, HTTP requests), and the
  state they left behind.
\<close>

type_synonym ('s, 'e, 'a) go = "'s \<Rightarrow> 'a outcome \<times> 'e list \<times> 's"

definition res :: "('s, 'e, 'a) go \<Rightarrow> 's \<Rightarrow> 'a outcome" where
  "res m s = fst (m s)"

definition effs :: "('s, 'e, 'a) go \<Rightarrow> 's \<Rightarrow> 'e list" where
  "effs m s = fst (snd (m s))"

definition post :: "('s, 'e, 'a) go \<Rightarrow> 's \<Rightarrow> 's" where
  "post m s = snd (snd (m s))"

section \<open>Combinators\<close>

text \<open>
  The collection \<open>go_run\<close> says what each combinator returns, issues and leaves behind.
\<close>

named_theorems go_run

definition ret :: "'a \<Rightarrow> ('s, 'e, 'a) go" where
  "ret x = (\<lambda>s. (Ok x, [], s))"

definition throw :: "goerr \<Rightarrow> ('s, 'e, 'a) go" where
  "throw e = (\<lambda>s. (Err e, [], s))"

definition panic :: "string \<Rightarrow> ('s, 'e, 'a) go" where
  "panic p = (\<lambda>s. (Panic p, [], s))"

text \<open>Issue one effect that has no answer.\<close>

definition tell :: "'e \<Rightarrow> ('s, 'e, unit) go" where
  "tell e = (\<lambda>s. (Ok (), [e], s))"

text \<open>Issue one effect whose answer comes from the outside world.\<close>

definition ask :: "'e \<Rightarrow> ('s \<Rightarrow> (goerr + 'a) \<times> 's) \<Rightarrow> ('s, 'e, 'a) go" where
  "ask e f = (\<lambda>s. case f s of
      (Inl err, s') \<Rightarrow> (Err err, [e], s')
    | (Inr x, s') \<Rightarrow> (Ok x, [e], s'))"

text \<open>\<open>bindE m f\<close>: \<^verbatim>\<open>x, err := m; if err != nil { return err }; f(x)\<close>.\<close>

definition bindE :: "('s, 'e, 'a) go \<Rightarrow> ('a \<Rightarrow> ('s, 'e, 'b) go) \<Rightarrow> ('s, 'e, 'b) go" where
  "bindE m f = (\<lambda>s. case m s of
      (Ok x, l, s') \<Rightarrow> (case f x s' of (r, l', s'') \<Rightarrow> (r, l @ l', s''))
    | (Err e, l, s') \<Rightarrow> (Err e, l, s')
    | (Panic p, l, s') \<Rightarrow> (Panic p, l, s'))"

text \<open>\<open>handleE m h f\<close>: \<^verbatim>\<open>x, err := m; if err != nil { h(err) } else { f(x) }\<close>.\<close>

definition handleE :: "('s, 'e, 'a) go \<Rightarrow> (goerr \<Rightarrow> ('s, 'e, 'b) go)
    \<Rightarrow> ('a \<Rightarrow> ('s, 'e, 'b) go) \<Rightarrow> ('s, 'e, 'b) go" where
  "handleE m h f = (\<lambda>s. case m s of
      (Ok x, l, s') \<Rightarrow> (case f x s' of (r, l', s'') \<Rightarrow> (r, l @ l', s''))
    | (Err e, l, s') \<Rightarrow> (case h e s' of (r, l', s'') \<Rightarrow> (r, l @ l', s''))
    | (Panic p, l, s') \<Rightarrow> (Panic p, l, s'))"

text \<open>A value computed without effects that may be an error.\<close>

definition liftE :: "goerr + 'a \<Rightarrow> ('s, 'e, 'a) go" where
  "liftE r = (case r of Inl e \<Rightarrow> throw e | Inr x \<Rightarrow> ret x)"

text \<open>A value computed without effects that may be an error or a panic.\<close>

definition liftO :: "'a outcome \<Rightarrow> ('s, 'e, 'a) go" where
  "liftO r = (\<lambda>s. (r, [], s))"

text \<open>A \<^verbatim>\<open>for range\<close> loop that carries a value from round to round and stops at the first error.\<close>

fun foldE :: "('acc \<Rightarrow> 'x \<Rightarrow> ('s, 'e, 'acc) go) \<Rightarrow> 'acc \<Rightarrow> 'x list \<Rightarrow> ('s, 'e, 'acc) go" where
  "foldE f a [] = ret a"
| "foldE f a (x # xs) = bindE (f a x) (\<lambda>a'. foldE f a' xs)"

text \<open>A \<^verbatim>\<open>for range\<close> loop whose rounds only have effects.\<close>

definition forE :: "('x \<Rightarrow> ('s, 'e, unit) go) \<Rightarrow> 'x list \<Rightarrow> ('s, 'e, unit) go" where
  "forE f xs = foldE (\<lambda>_ x. f x) () xs"

text \<open>
  A loop whose body may also return from the enclosing function: \<open>Return\<close> ends the loop with
  the function's result, \<open>Next\<close> goes on.
\<close>

datatype ('acc, 'r) flow = Next 'acc | Return 'r

fun loopE :: "('acc \<Rightarrow> 'x \<Rightarrow> ('s, 'e, ('acc, 'r) flow) go) \<Rightarrow> 'acc \<Rightarrow> 'x list
    \<Rightarrow> ('s, 'e, ('acc, 'r) flow) go" where
  "loopE f a [] = ret (Next a)"
| "loopE f a (x # xs) = bindE (f a x)
     (\<lambda>r. case r of Next a' \<Rightarrow> loopE f a' xs | Return y \<Rightarrow> ret (Return y))"

section \<open>What the combinators return, issue and leave behind\<close>

lemmas go_defs = res_def effs_def post_def

lemma ret_run [go_run]: "res (ret x) s = Ok x" "effs (ret x) s = []" "post (ret x) s = s"
  by (simp_all add: go_defs ret_def)

lemma throw_run [go_run]: "res (throw e) s = Err e" "effs (throw e) s = []" "post (throw e) s = s"
  by (simp_all add: go_defs throw_def)

lemma panic_run [go_run]: "res (panic p) s = Panic p" "effs (panic p) s = []" "post (panic p) s = s"
  by (simp_all add: go_defs panic_def)

lemma tell_run [go_run]: "res (tell e) s = Ok ()" "effs (tell e) s = [e]" "post (tell e) s = s"
  by (simp_all add: go_defs tell_def)

lemma ask_run [go_run]:
  "res (ask e f) s = (case fst (f s) of Inl err \<Rightarrow> Err err | Inr x \<Rightarrow> Ok x)"
  "effs (ask e f) s = [e]"
  "post (ask e f) s = snd (f s)"
  by (simp_all add: go_defs ask_def split: prod.split sum.split)

lemma liftO_run [go_run]: "res (liftO r) s = r" "effs (liftO r) s = []" "post (liftO r) s = s"
  by (simp_all add: go_defs liftO_def)

lemma liftE_run [go_run]:
  "res (liftE r) s = (case r of Inl e \<Rightarrow> Err e | Inr x \<Rightarrow> Ok x)"
  "effs (liftE r) s = []"
  "post (liftE r) s = s"
  by (simp_all add: liftE_def go_run split: sum.split)

lemma bindE_run [go_run]:
  "res (bindE m f) s = (case res m s of Ok x \<Rightarrow> res (f x) (post m s)
      | Err e \<Rightarrow> Err e | Panic p \<Rightarrow> Panic p)"
  "effs (bindE m f) s = effs m s @ (case res m s of Ok x \<Rightarrow> effs (f x) (post m s)
      | Err e \<Rightarrow> [] | Panic p \<Rightarrow> [])"
  "post (bindE m f) s = (case res m s of Ok x \<Rightarrow> post (f x) (post m s)
      | Err e \<Rightarrow> post m s | Panic p \<Rightarrow> post m s)"
  by (simp_all add: go_defs bindE_def split: prod.split outcome.split)

lemma handleE_run [go_run]:
  "res (handleE m h f) s = (case res m s of Ok x \<Rightarrow> res (f x) (post m s)
      | Err e \<Rightarrow> res (h e) (post m s) | Panic p \<Rightarrow> Panic p)"
  "effs (handleE m h f) s = effs m s @ (case res m s of Ok x \<Rightarrow> effs (f x) (post m s)
      | Err e \<Rightarrow> effs (h e) (post m s) | Panic p \<Rightarrow> [])"
  "post (handleE m h f) s = (case res m s of Ok x \<Rightarrow> post (f x) (post m s)
      | Err e \<Rightarrow> post (h e) (post m s) | Panic p \<Rightarrow> post m s)"
  by (simp_all add: go_defs handleE_def split: prod.split outcome.split)

lemma forE_Nil [simp]: "forE f [] = ret ()"
  by (simp add: forE_def)

lemma forE_Cons [simp]: "forE f (x # xs) = bindE (f x) (\<lambda>_. forE f xs)"
  by (simp add: forE_def)

lemma go_eqI:
  "(\<And>s. res m s = res n s) \<Longrightarrow> (\<And>s. effs m s = effs n s) \<Longrightarrow> (\<And>s. post m s = post n s) \<Longrightarrow> m = n"
  by (rule ext) (simp add: go_defs prod_eq_iff)

text \<open>The combinators form an error monad.\<close>

lemma bindE_ret [simp]: "bindE (ret x) f = f x"
  by (rule go_eqI) (simp_all add: go_run)

lemma bindE_throw [simp]: "bindE (throw e) f = throw e"
  by (rule go_eqI) (simp_all add: go_run)

lemma bindE_panic [simp]: "bindE (panic p) f = panic p"
  by (rule go_eqI) (simp_all add: go_run)

lemma bindE_assoc: "bindE (bindE m f) g = bindE m (\<lambda>x. bindE (f x) g)"
  by (rule go_eqI) (simp_all add: go_run split: outcome.split)

lemma bindE_ret_right [simp]: "bindE m ret = m"
  by (rule go_eqI) (simp_all add: go_run split: outcome.split)

lemma handleE_throw: "handleE m throw f = bindE m f"
  by (rule go_eqI) (simp_all add: go_run split: outcome.split)

lemma foldE_append: "foldE f a (xs @ ys) = bindE (foldE f a xs) (\<lambda>a'. foldE f a' ys)"
  by (induction xs arbitrary: a) (simp_all add: bindE_assoc)

lemma forE_append: "forE f (xs @ ys) = bindE (forE f xs) (\<lambda>_. forE f ys)"
  by (simp add: forE_def foldE_append)

section \<open>Effects all satisfy a property\<close>

text \<open>
  \<open>only Q m\<close>: whatever state \<open>m\<close> runs in, every effect it issues satisfies \<open>Q\<close>. The
  collection \<open>only_intro\<close> holds the closure rules; a component adds a rule per operation.
\<close>

named_theorems only_intro

definition only :: "('e \<Rightarrow> bool) \<Rightarrow> ('s, 'e, 'a) go \<Rightarrow> bool" where
  "only Q m \<longleftrightarrow> (\<forall>s. list_all Q (effs m s))"

lemma onlyD: "only Q m \<Longrightarrow> e \<in> set (effs m s) \<Longrightarrow> Q e"
  by (auto simp: only_def list_all_iff)

lemma only_mono: "only Q m \<Longrightarrow> (\<And>e. Q e \<Longrightarrow> Q' e) \<Longrightarrow> only Q' m"
  by (auto simp: only_def list_all_iff)

lemma only_ret [only_intro]: "only Q (ret x)"
  by (simp add: only_def go_run)

lemma only_throw [only_intro]: "only Q (throw e)"
  by (simp add: only_def go_run)

lemma only_panic [only_intro]: "only Q (panic p)"
  by (simp add: only_def go_run)

lemma only_liftE [only_intro]: "only Q (liftE r)"
  by (simp add: only_def go_run)

lemma only_liftO [only_intro]: "only Q (liftO r)"
  by (simp add: only_def go_run)

lemma only_tell [only_intro]: "Q e \<Longrightarrow> only Q (tell e)"
  by (simp add: only_def go_run)

lemma only_ask [only_intro]: "Q e \<Longrightarrow> only Q (ask e f)"
  by (simp add: only_def go_run)

lemma only_bindE [only_intro]: "only Q m \<Longrightarrow> (\<And>x. only Q (f x)) \<Longrightarrow> only Q (bindE m f)"
  by (simp add: only_def go_run split: outcome.split)

lemma only_handleE [only_intro]:
  "only Q m \<Longrightarrow> (\<And>e. only Q (h e)) \<Longrightarrow> (\<And>x. only Q (f x)) \<Longrightarrow> only Q (handleE m h f)"
  by (simp add: only_def go_run split: outcome.split)

lemma only_foldE [only_intro]:
  "(\<And>a x. x \<in> set xs \<Longrightarrow> only Q (f a x)) \<Longrightarrow> only Q (foldE f a xs)"
proof (induction xs arbitrary: a)
  case Nil
  then show ?case by (simp add: only_ret)
next
  case (Cons x xs)
  then show ?case by (auto intro!: only_bindE)
qed

lemma only_forE [only_intro]:
  "(\<And>x. x \<in> set xs \<Longrightarrow> only Q (f x)) \<Longrightarrow> only Q (forE f xs)"
  by (simp add: forE_def only_foldE)

lemma only_loopE [only_intro]:
  "(\<And>a x. x \<in> set xs \<Longrightarrow> only Q (f a x)) \<Longrightarrow> only Q (loopE f a xs)"
proof (induction xs arbitrary: a)
  case Nil
  then show ?case by (simp add: only_ret)
next
  case (Cons x xs)
  then show ?case by (auto intro!: only_bindE only_ret split: flow.split)
qed

lemma only_if [only_intro]: "(b \<Longrightarrow> only Q m) \<Longrightarrow> (\<not> b \<Longrightarrow> only Q n) \<Longrightarrow> only Q (if b then m else n)"
  by simp

lemma only_case_option [only_intro]:
  "(x = None \<Longrightarrow> only Q m) \<Longrightarrow> (\<And>y. x = Some y \<Longrightarrow> only Q (f y)) \<Longrightarrow>
   only Q (case x of None \<Rightarrow> m | Some y \<Rightarrow> f y)"
  by (cases x) auto

lemma only_case_flow [only_intro]:
  "(\<And>y. x = Next y \<Longrightarrow> only Q (f y)) \<Longrightarrow> (\<And>y. x = Return y \<Longrightarrow> only Q (g y)) \<Longrightarrow>
   only Q (case x of Next y \<Rightarrow> f y | Return y \<Rightarrow> g y)"
  by (cases x) auto

lemma only_case_sum [only_intro]:
  "(\<And>y. x = Inl y \<Longrightarrow> only Q (f y)) \<Longrightarrow> (\<And>y. x = Inr y \<Longrightarrow> only Q (g y)) \<Longrightarrow>
   only Q (case x of Inl y \<Rightarrow> f y | Inr y \<Rightarrow> g y)"
  by (cases x) auto

lemma only_case_prod [only_intro]:
  "(\<And>a b. p = (a, b) \<Longrightarrow> only Q (f a b)) \<Longrightarrow> only Q (case p of (a, b) \<Rightarrow> f a b)"
  by (cases p) simp

text \<open>An effect of a loop is an effect of one of its rounds, in some state.\<close>

lemma effs_forE_in:
  "e \<in> set (effs (forE f xs) s) \<Longrightarrow> \<exists>x \<in> set xs. \<exists>w. e \<in> set (effs (f x) w)"
  by (induction xs arbitrary: s) (auto simp: go_run split: outcome.splits)

section \<open>Lists\<close>

lemma list_all_filter_conv: "list_all P (filter Q xs) \<longleftrightarrow> (\<forall>x \<in> set xs. Q x \<longrightarrow> P x)"
  by (auto simp: list_all_iff)

lemma filter_eq_self_iff: "filter P xs = xs \<longleftrightarrow> list_all P xs"
  by (auto simp: list_all_iff filter_id_conv)

end
