(* ===== verification/K8s_Objects.thy ===== *)
theory K8s_Objects
  imports Prelude
begin

text \<open>
  The Kubernetes API objects the operator builds, reads and compares, with the fields it uses.
  Every object embeds its type and object metadata (\<open>k8s_object\<close>) as the Go structs do, by
  record extension. A pointer, slice or map whose nil value the code tests is an \<open>option\<close>.
  These types belong to the Kubernetes API packages, not to the operator.
\<close>

section \<open>Metadata\<close>

record owner_reference =
  ownAPIVersion :: string
  ownKind :: string
  ownName :: string
  ownUID :: string
  ownController :: "bool option"

record object_meta =
  metaName :: string
  metaNamespace :: string
  metaLabels :: "strmap option"
  metaAnnotations :: "strmap option"
  metaResourceVersion :: string
  metaUID :: string
  metaGeneration :: int
  metaDeletionTimestamp :: "string option"
  metaFinalizers :: "string list"
  metaOwnerReferences :: "owner_reference list"

record k8s_object =
  tmAPIVersion :: string
  tmKind :: string
  objMeta :: object_meta

definition zeroMeta :: object_meta where
  "zeroMeta = \<lparr>metaName = [], metaNamespace = [], metaLabels = None, metaAnnotations = None,
     metaResourceVersion = [], metaUID = [], metaGeneration = 0, metaDeletionTimestamp = None,
     metaFinalizers = [], metaOwnerReferences = []\<rparr>"

text \<open>The accessors of \<^verbatim>\<open>metav1.Object\<close>. Reading a key of a nil map gives no value.\<close>

abbreviation GetName :: "('a k8s_object_scheme) \<Rightarrow> string" where
  "GetName obj \<equiv> metaName (objMeta obj)"

abbreviation GetNamespace :: "('a k8s_object_scheme) \<Rightarrow> string" where
  "GetNamespace obj \<equiv> metaNamespace (objMeta obj)"

abbreviation GetResourceVersion :: "('a k8s_object_scheme) \<Rightarrow> string" where
  "GetResourceVersion obj \<equiv> metaResourceVersion (objMeta obj)"

definition GetAnnotations :: "('a k8s_object_scheme) \<Rightarrow> strmap" where
  "GetAnnotations obj = (case metaAnnotations (objMeta obj) of None \<Rightarrow> fmempty | Some m \<Rightarrow> m)"

definition GetLabels :: "('a k8s_object_scheme) \<Rightarrow> strmap" where
  "GetLabels obj = (case metaLabels (objMeta obj) of None \<Rightarrow> fmempty | Some m \<Rightarrow> m)"

text \<open>Reading a missing key of a \<^verbatim>\<open>map[string]string\<close> gives the empty string.\<close>

definition mapGet :: "strmap \<Rightarrow> string \<Rightarrow> string" where
  "mapGet m k = (case fmlookup m k of None \<Rightarrow> [] | Some v \<Rightarrow> v)"

definition SetLabels :: "strmap \<Rightarrow> ('a k8s_object_scheme) \<Rightarrow> ('a k8s_object_scheme)" where
  "SetLabels l obj = obj\<lparr>objMeta := (objMeta obj)\<lparr>metaLabels := Some l\<rparr>\<rparr>"

definition SetAnnotations :: "strmap \<Rightarrow> ('a k8s_object_scheme) \<Rightarrow> ('a k8s_object_scheme)" where
  "SetAnnotations l obj = obj\<lparr>objMeta := (objMeta obj)\<lparr>metaAnnotations := Some l\<rparr>\<rparr>"

definition SetResourceVersion :: "string \<Rightarrow> ('a k8s_object_scheme) \<Rightarrow> ('a k8s_object_scheme)" where
  "SetResourceVersion v obj = obj\<lparr>objMeta := (objMeta obj)\<lparr>metaResourceVersion := v\<rparr>\<rparr>"

definition SetFinalizers :: "string list \<Rightarrow> ('a k8s_object_scheme) \<Rightarrow> ('a k8s_object_scheme)" where
  "SetFinalizers fs obj = obj\<lparr>objMeta := (objMeta obj)\<lparr>metaFinalizers := fs\<rparr>\<rparr>"

definition SetOwnerReferences ::
  "owner_reference list \<Rightarrow> ('a k8s_object_scheme) \<Rightarrow> ('a k8s_object_scheme)" where
  "SetOwnerReferences os obj = obj\<lparr>objMeta := (objMeta obj)\<lparr>metaOwnerReferences := os\<rparr>\<rparr>"

lemmas metaSet_defs = SetLabels_def SetAnnotations_def SetResourceVersion_def SetFinalizers_def
  SetOwnerReferences_def

lemma SetAnnotations_GetAnnotations [simp]: "GetAnnotations (SetAnnotations a obj) = a"
  by (simp add: GetAnnotations_def SetAnnotations_def)

lemma SetLabels_GetLabels [simp]: "GetLabels (SetLabels a obj) = a"
  by (simp add: GetLabels_def SetLabels_def)

section \<open>Pod building blocks\<close>

text \<open>\<^verbatim>\<open>intstr.IntOrString\<close>: \<open>iosIsStr\<close> is \<^verbatim>\<open>Type == String\<close>.\<close>

record int_or_string =
  iosIsStr :: bool
  iosIntVal :: int
  iosStrVal :: string

definition fromInt :: "int \<Rightarrow> int_or_string" where
  "fromInt i = \<lparr>iosIsStr = False, iosIntVal = i, iosStrVal = []\<rparr>"

record http_get_action =
  hgPath :: string
  hgPort :: int_or_string
  hgRest :: opaque

record probe =
  prHTTPGet :: "http_get_action option"
  prOtherHandler :: opaque
  prInitialDelaySeconds :: int
  prTimeoutSeconds :: int
  prPeriodSeconds :: int
  prSuccessThreshold :: int
  prFailureThreshold :: int
  prRest :: opaque

record env_var =
  envName :: string
  envValue :: string
  envFromRef :: opaque

record container_port =
  cpName :: string
  cpContainerPort :: int
  cpRest :: opaque

record volume_mount =
  vmName :: string
  vmMountPath :: string
  vmReadOnly :: bool
  vmRest :: opaque

record volume =
  volName :: string
  volConfigMapName :: "string option"
  volPVCClaimName :: "string option"
  volRest :: opaque

record container =
  ctName :: string
  ctImage :: string
  ctCommand :: "string list"
  ctArgs :: "string list"
  ctImagePullPolicy :: string
  ctPorts :: "container_port list"
  ctResources :: opaque
  ctEnv :: "env_var list"
  ctEnvFrom :: "opaque list option"
  ctVolumeMounts :: "volume_mount list"
  ctLivenessProbe :: "probe option"
  ctReadinessProbe :: "probe option"
  ctStartupProbe :: "probe option"
  ctLifecycle :: "opaque option"
  ctSecurityContext :: "opaque option"

record pod_spec =
  psNodeSelector :: "strmap option"
  psTopologySpreadConstraints :: "opaque list"
  psTolerations :: "opaque list"
  psAffinity :: opaque
  psImagePullSecrets :: "opaque list option"
  psInitContainers :: "container list"
  psContainers :: "container list"
  psTerminationGracePeriodSeconds :: "int option"
  psVolumes :: "volume list"
  psSecurityContext :: "opaque option"
  psServiceAccountName :: string
  psPriorityClassName :: string
  psDNSPolicy :: string
  psDNSConfig :: "opaque option"

record pod_template =
  ptLabels :: strmap
  ptAnnotations :: "strmap option"
  ptSpec :: pod_spec

section \<open>Objects by kind\<close>

text \<open>
  A \<^verbatim>\<open>resource.Quantity\<close> is its exact value in nano-units, the finest scale the API keeps; \<^verbatim>\<open>Cmp\<close>
  compares values.
\<close>

type_synonym quantity = int

definition quantityCmp :: "quantity \<Rightarrow> quantity \<Rightarrow> int" where
  "quantityCmp a b = (if a < b then - 1 else if a > b then 1 else 0)"

record configmap = k8s_object +
  cmData :: strmap

record service_port =
  spName :: string
  spPort :: int
  spTargetPort :: int_or_string
  spRest :: opaque

record service = k8s_object +
  svcSelector :: "strmap option"
  svcPorts :: "service_port list option"
  svcClusterIP :: string
  svcRest :: opaque

record pvc = k8s_object +
  pvcStorageClassName :: "string option"
  pvcRequests :: "(string, quantity) fmap option"
  pvcRest :: opaque

record statefulset_spec =
  stsServiceName :: string
  stsMatchLabels :: strmap
  stsReplicas :: int
  stsPodManagementPolicy :: string
  stsUpdateStrategy :: opaque
  stsTemplate :: pod_template
  stsVolumeClaimTemplates :: "pvc list"

record statefulset_status =
  stReplicas :: int
  stReadyReplicas :: int
  stCurrentReplicas :: int
  stCurrentRevision :: string
  stUpdateRevision :: string

record statefulset = k8s_object +
  stsSpec :: statefulset_spec
  stsStatus :: statefulset_status

record rolling_update =
  ruMaxUnavailable :: "int_or_string option"
  ruMaxSurge :: "int_or_string option"

record deployment_spec =
  dpMatchLabels :: strmap
  dpReplicas :: int
  dpTemplate :: pod_template
  dpStrategyType :: string
  dpRollingUpdate :: rolling_update

record condition =
  condType :: string
  condStatus :: string
  condReason :: string

record deployment_status =
  dsConditions :: "condition list"
  dsReadyReplicas :: int
  dsReplicas :: int

record deployment = k8s_object +
  depSpec :: deployment_spec
  depStatus :: deployment_status

record container_status =
  csName :: string
  csRestartCount :: int

record pod = k8s_object +
  podVolumes :: "volume list option"
  podPhase :: string
  podConditions :: "condition list"
  podContainerStatuses :: "container_status list"

record pdb_spec =
  pdbMatchLabels :: "strmap option"
  pdbRest :: opaque

record pdb = k8s_object +
  pdbSpec :: pdb_spec

record hpa = k8s_object +
  hpaSpec :: opaque

record ingress = k8s_object +
  ingSpec :: opaque

record storageclass = k8s_object +
  scAllowVolumeExpansion :: "bool option"

record secret = k8s_object +
  secData :: strmap

end
