(* ===== verification/Druid_Types.thy ===== *)
theory Druid_Types
  imports K8s_Objects
begin

text \<open>
  The custom resource \<^verbatim>\<open>Druid\<close> of \<^verbatim>\<open>apis/druid/v1alpha1/druid_types.go\<close>: the cluster spec, the
  node group spec, the additional containers and the status, field by field.
  A Go map iterates in an unspecified order: the node groups are an association list in the
  order an iteration takes, with distinct keys (\<open>wf_nodes\<close>). Facts about the groups are
  proved for every such list, so they hold whatever order the runtime picks.
\<close>

section \<open>Authentication (pkg/druidapi)\<close>

record secret_reference =
  refName :: string
  refNamespace :: string

record druid_auth =
  authType :: string
  authSecretRef :: secret_reference
  authUsernameKey :: string
  authPasswordKey :: string

text \<open>\<^verbatim>\<open>runtime.RawExtension\<close>: the raw bytes, \<open>None\<close> when the field is absent (size 0).\<close>

type_synonym raw_extension = "string option"

section \<open>Spec\<close>

record additional_container =
  acRunAsInit :: bool
  acImage :: string
  acContainerName :: string
  acCommand :: "string list"
  acImagePullPolicy :: string
  acArgs :: "string list"
  acContainerSecurityContext :: "opaque option"
  acResources :: opaque
  acVolumeMounts :: "volume_mount list"
  acEnv :: "env_var list"
  acEnvFrom :: "opaque list option"

record object_reference =
  orName :: string
  orNamespace :: string

text \<open>\<^verbatim>\<open>ZookeeperSpec\<close>, \<^verbatim>\<open>MetadataStoreSpec\<close> and \<^verbatim>\<open>DeepStorageSpec\<close> have the same two fields.\<close>

record zookeeper_spec =
  zkType :: string
  zkSpec :: string

record metadata_store_spec =
  mdsType :: string
  mdsSpec :: string

record deep_storage_spec =
  dstType :: string
  dstSpec :: string

record druid_node_spec =
  ndNodeType :: string
  ndDruidPort :: int
  ndKind :: string
  ndReplicas :: int
  ndPodLabels :: strmap
  ndPodDisruptionBudgetSpec :: "pdb_spec option"
  ndPriorityClassName :: string
  ndRuntimeProperties :: string
  ndJvmOptions :: string
  ndExtraJvmOptions :: string
  ndLog4jConfig :: string
  ndNodeConfigMountPath :: string
  ndServices :: "service list option"
  ndTolerations :: "opaque list"
  ndAffinity :: "opaque option"
  ndNodeSelector :: "strmap option"
  ndTerminationGracePeriodSeconds :: "int option"
  ndPorts :: "container_port list"
  ndImage :: string
  ndImagePullSecrets :: "opaque list option"
  ndImagePullPolicy :: string
  ndEnv :: "env_var list option"
  ndEnvFrom :: "opaque list option"
  ndResources :: opaque
  ndPodSecurityContext :: "opaque option"
  ndContainerSecurityContext :: "opaque option"
  ndPodAnnotations :: "strmap option"
  ndPodManagementPolicy :: string
  ndMaxSurge :: "int option"
  ndMaxUnavailable :: "int option"
  ndUpdateStrategy :: "opaque option"
  ndLivenessProbe :: "probe option"
  ndReadinessProbe :: "probe option"
  ndStartUpProbe :: "probe option"
  ndIngressAnnotations :: "strmap option"
  ndWorkloadAnnotations :: strmap
  ndIngress :: "opaque option"
  ndPersistentVolumeClaim :: "pvc list option"
  ndLifecycle :: "opaque option"
  ndHPAutoScaler :: "opaque option"
  ndTopologySpreadConstraints :: "opaque list"
  ndVolumeClaimTemplates :: "pvc list"
  ndVolumeMounts :: "volume_mount list"
  ndVolumes :: "volume list"
  ndAdditionalContainer :: "additional_container list"
  ndServiceAccountName :: string
  ndDynamicConfig :: raw_extension
  ndDNSPolicy :: string
  ndDNSConfig :: "opaque option"

record druid_spec =
  crIgnored :: bool
  crCommonRuntimeProperties :: string
  crExtraCommonConfig :: "object_reference list"
  crForceDeleteStsPodOnError :: bool
  crScalePvcSts :: bool
  crCommonConfigMountPath :: string
  crDisablePVCDeletionFinalizer :: bool
  crDeleteOrphanPvc :: bool
  crStartScript :: string
  crImage :: string
  crServiceAccount :: string
  crImagePullSecrets :: "opaque list option"
  crImagePullPolicy :: string
  crEnv :: "env_var list option"
  crEnvFrom :: "opaque list option"
  crJvmOptions :: string
  crLog4jConfig :: string
  crPodSecurityContext :: "opaque option"
  crContainerSecurityContext :: "opaque option"
  crVolumeClaimTemplates :: "pvc list"
  crVolumeMounts :: "volume_mount list"
  crVolumes :: "volume list"
  crPodAnnotations :: "strmap option"
  crWorkloadAnnotations :: "strmap option"
  crPodManagementPolicy :: string
  crPodLabels :: strmap
  crPriorityClassName :: string
  crUpdateStrategy :: "opaque option"
  crLivenessProbe :: "probe option"
  crReadinessProbe :: "probe option"
  crStartUpProbe :: "probe option"
  crServices :: "service list option"
  crNodeSelector :: "strmap option"
  crTolerations :: "opaque list"
  crAffinity :: "opaque option"
  crNodes :: "(string \<times> druid_node_spec) list"
  crAdditionalContainer :: "additional_container list"
  crRollingDeploy :: bool
  crDefaultProbes :: bool
  crZookeeper :: "zookeeper_spec option"
  crMetadataStore :: "metadata_store_spec option"
  crDeepStorage :: "deep_storage_spec option"
  crDimensionsMapPath :: string
  crHdfsSite :: string
  crCoreSite :: string
  crDynamicConfig :: raw_extension
  crAuth :: druid_auth
  crDNSPolicy :: string
  crDNSConfig :: "opaque option"

section \<open>Status\<close>

text \<open>The condition of a Druid node; the empty condition is the zero value of a fresh status.\<close>

datatype druid_node_condition_type =
  NoCondition | DruidClusterReady | DruidNodeRollingUpdate | DruidNodeErrorState

record druid_node_type_status =
  dnDruidNode :: string
  dnConditionStatus :: string
  dnConditionType :: druid_node_condition_type
  dnReason :: string

text \<open>\<open>None\<close> is a nil slice, which \<^verbatim>\<open>reflect.DeepEqual\<close> tells from an empty one.\<close>

record druid_cluster_status =
  csDruidNodeStatus :: druid_node_type_status
  csStatefulSets :: "string list option"
  csDeployments :: "string list option"
  csServices :: "string list option"
  csConfigMaps :: "string list option"
  csPodDisruptionBudgets :: "string list option"
  csIngress :: "string list option"
  csHPAutoScalers :: "string list option"
  csPods :: "string list option"
  csPersistentVolumeClaims :: "string list option"

record druid = k8s_object +
  drSpec :: druid_spec
  drStatus :: druid_cluster_status

definition wf_nodes :: "druid \<Rightarrow> bool" where
  "wf_nodes m \<longleftrightarrow> distinct (map fst (crNodes (drSpec m)))"

text \<open>The constants of \<^verbatim>\<open>v1\<close>: condition statuses and pod phases.\<close>

abbreviation ConditionTrue :: string where "ConditionTrue \<equiv> ''True''"
abbreviation ConditionFalse :: string where "ConditionFalse \<equiv> ''False''"
abbreviation PodRunning :: string where "PodRunning \<equiv> ''Running''"
abbreviation PodPending :: string where "PodPending \<equiv> ''Pending''"
abbreviation PodFailed :: string where "PodFailed \<equiv> ''Failed''"
abbreviation PodUnknown :: string where "PodUnknown \<equiv> ''Unknown''"
abbreviation PodReady :: string where "PodReady \<equiv> ''Ready''"
abbreviation ContainersReady :: string where "ContainersReady \<equiv> ''ContainersReady''"

text \<open>The node types of \<^verbatim>\<open>controllers/druid/types.go\<close>.\<close>

abbreviation broker :: string where "broker \<equiv> ''broker''"
abbreviation coordinator :: string where "coordinator \<equiv> ''coordinator''"
abbreviation overlord :: string where "overlord \<equiv> ''overlord''"
abbreviation middleManager :: string where "middleManager \<equiv> ''middleManager''"
abbreviation indexer :: string where "indexer \<equiv> ''indexer''"
abbreviation historical :: string where "historical \<equiv> ''historical''"
abbreviation router :: string where "router \<equiv> ''router''"

section \<open>Zero values\<close>

text \<open>
  The Go zero value of each struct (every field nil, empty, 0 or false). A concrete
  configuration is written as an update of it.
\<close>

definition zeroNode :: druid_node_spec where
  "zeroNode = \<lparr>ndNodeType = [], ndDruidPort = 0, ndKind = [], ndReplicas = 0, ndPodLabels = fmempty,
     ndPodDisruptionBudgetSpec = None, ndPriorityClassName = [], ndRuntimeProperties = [],
     ndJvmOptions = [], ndExtraJvmOptions = [], ndLog4jConfig = [], ndNodeConfigMountPath = [],
     ndServices = None, ndTolerations = [], ndAffinity = None, ndNodeSelector = None,
     ndTerminationGracePeriodSeconds = None, ndPorts = [], ndImage = [], ndImagePullSecrets = None,
     ndImagePullPolicy = [], ndEnv = None, ndEnvFrom = None, ndResources = [],
     ndPodSecurityContext = None, ndContainerSecurityContext = None, ndPodAnnotations = None,
     ndPodManagementPolicy = [], ndMaxSurge = None, ndMaxUnavailable = None,
     ndUpdateStrategy = None, ndLivenessProbe = None, ndReadinessProbe = None,
     ndStartUpProbe = None, ndIngressAnnotations = None, ndWorkloadAnnotations = fmempty,
     ndIngress = None, ndPersistentVolumeClaim = None, ndLifecycle = None, ndHPAutoScaler = None,
     ndTopologySpreadConstraints = [], ndVolumeClaimTemplates = [], ndVolumeMounts = [],
     ndVolumes = [], ndAdditionalContainer = [], ndServiceAccountName = [], ndDynamicConfig = None,
     ndDNSPolicy = [], ndDNSConfig = None\<rparr>"

definition zeroAuth :: druid_auth where
  "zeroAuth = \<lparr>authType = [], authSecretRef = \<lparr>refName = [], refNamespace = []\<rparr>,
     authUsernameKey = [], authPasswordKey = []\<rparr>"

definition zeroSpec :: druid_spec where
  "zeroSpec = \<lparr>crIgnored = False, crCommonRuntimeProperties = [], crExtraCommonConfig = [],
     crForceDeleteStsPodOnError = False, crScalePvcSts = False, crCommonConfigMountPath = [],
     crDisablePVCDeletionFinalizer = False, crDeleteOrphanPvc = False, crStartScript = [],
     crImage = [], crServiceAccount = [], crImagePullSecrets = None, crImagePullPolicy = [],
     crEnv = None, crEnvFrom = None, crJvmOptions = [], crLog4jConfig = [],
     crPodSecurityContext = None, crContainerSecurityContext = None, crVolumeClaimTemplates = [],
     crVolumeMounts = [], crVolumes = [], crPodAnnotations = None, crWorkloadAnnotations = None,
     crPodManagementPolicy = [], crPodLabels = fmempty, crPriorityClassName = [],
     crUpdateStrategy = None, crLivenessProbe = None, crReadinessProbe = None,
     crStartUpProbe = None, crServices = None, crNodeSelector = None, crTolerations = [],
     crAffinity = None, crNodes = [], crAdditionalContainer = [], crRollingDeploy = False,
     crDefaultProbes = False, crZookeeper = None, crMetadataStore = None, crDeepStorage = None,
     crDimensionsMapPath = [], crHdfsSite = [], crCoreSite = [], crDynamicConfig = None,
     crAuth = zeroAuth, crDNSPolicy = [], crDNSConfig = None\<rparr>"

definition zeroStatus :: druid_cluster_status where
  "zeroStatus = \<lparr>csDruidNodeStatus = \<lparr>dnDruidNode = [], dnConditionStatus = [],
       dnConditionType = NoCondition, dnReason = []\<rparr>,
     csStatefulSets = None, csDeployments = None, csServices = None, csConfigMaps = None,
     csPodDisruptionBudgets = None, csIngress = None, csHPAutoScalers = None, csPods = None,
     csPersistentVolumeClaims = None\<rparr>"

definition zeroDruid :: druid where
  "zeroDruid = \<lparr>tmAPIVersion = [], tmKind = [], objMeta = zeroMeta, drSpec = zeroSpec,
     drStatus = zeroStatus\<rparr>"

end
