(* ===== verification/Go_Lib.thy ===== *)
theory Go_Lib
  imports Prelude "HOL-Library.List_Lexorder" "HOL-Library.Char_ord" "HOL-Library.Sublist"
begin

text \<open>
  The parts of Go's standard library that the operator computes with: decimal formatting and
  parsing of 64-bit integers (\<^verbatim>\<open>strconv\<close>), \<^verbatim>\<open>strings.Split\<close>, \<^verbatim>\<open>sort.Strings\<close>, the
  saturating difference of two \<^verbatim>\<open>time.Time\<close> values, and \<^verbatim>\<open>regexp\<close> matching.
  The lemmas give each its specification: parsing undoes formatting, joining undoes
  splitting, the time difference saturates, the matcher agrees with the language of the
  expression.
\<close>

section \<open>Integers as text\<close>

definition int64_min :: int where "int64_min = - (2 ^ 63)"
definition int64_max :: int where "int64_max = 2 ^ 63 - 1"

text \<open>Two's complement wrap-around of a 64-bit signed result.\<close>

definition wrap64 :: "int \<Rightarrow> int" where
  "wrap64 x = (x + 2 ^ 63) mod 2 ^ 64 - 2 ^ 63"

lemma wrap64_id: "int64_min \<le> x \<Longrightarrow> x \<le> int64_max \<Longrightarrow> wrap64 x = x"
  by (simp add: wrap64_def int64_min_def int64_max_def)

definition digitChar :: "nat \<Rightarrow> char" where
  "digitChar d = char_of (48 + d)"

definition isDigit :: "char \<Rightarrow> bool" where
  "isDigit c \<longleftrightarrow> 48 \<le> (of_char c :: nat) \<and> (of_char c :: nat) \<le> 57"

definition digitVal :: "char \<Rightarrow> nat" where
  "digitVal c = of_char c - 48"

fun formatNat :: "nat \<Rightarrow> string" where
  "formatNat n = (if n < 10 then [digitChar n] else formatNat (n div 10) @ [digitChar (n mod 10)])"

declare formatNat.simps [simp del]

text \<open>\<^verbatim>\<open>strconv.FormatInt(i, 10)\<close> and the verb \<^verbatim>\<open>%d\<close>.\<close>

definition formatInt :: "int \<Rightarrow> string" where
  "formatInt i = (if i < 0 then CHR ''-'' # formatNat (nat (- i)) else formatNat (nat i))"

definition digitsVal :: "string \<Rightarrow> nat" where
  "digitsVal s = foldl (\<lambda>n c. 10 * n + digitVal c) 0 s"

text \<open>
  \<^verbatim>\<open>strconv.ParseInt(s, 10, 64)\<close>: an optional sign, at least one decimal digit, nothing else,
  and a value in the range of int64. Every other text is an error (\<open>None\<close>).
\<close>

definition parseInt64 :: "string \<Rightarrow> int option" where
  "parseInt64 s =
     (let neg = (case s of [] \<Rightarrow> False | c # _ \<Rightarrow> c = CHR ''-'');
          ds = (case s of [] \<Rightarrow> [] | c # cs \<Rightarrow> if c = CHR ''-'' \<or> c = CHR ''+'' then cs else s)
      in if ds = [] \<or> \<not> list_all isDigit ds then None
         else let v = int (digitsVal ds); i = (if neg then - v else v)
              in if int64_min \<le> i \<and> i \<le> int64_max then Some i else None)"

text \<open>Why a text is not accepted: the reason at the end of the error message.\<close>

definition parseInt64Reason :: "string \<Rightarrow> string" where
  "parseInt64Reason s =
     (let ds = (case s of [] \<Rightarrow> [] | c # cs \<Rightarrow> if c = CHR ''-'' \<or> c = CHR ''+'' then cs else s)
      in if ds = [] \<or> \<not> list_all isDigit ds then ''invalid syntax'' else ''value out of range'')"

lemma digitChar_isDigit [simp]: "d < 10 \<Longrightarrow> isDigit (digitChar d)"
  by (simp add: isDigit_def digitChar_def)

lemma digitVal_digitChar [simp]: "d < 10 \<Longrightarrow> digitVal (digitChar d) = d"
  by (simp add: digitVal_def digitChar_def)

lemma formatNat_ne: "formatNat n \<noteq> []"
  by (subst formatNat.simps) simp

lemma formatNat_digits: "list_all isDigit (formatNat n)"
proof (induction n rule: formatNat.induct)
  case (1 n)
  then show ?case by (subst formatNat.simps) simp
qed

lemma digitsVal_snoc: "digitsVal (s @ [c]) = 10 * digitsVal s + digitVal c"
  by (simp add: digitsVal_def)

lemma digitsVal_formatNat: "digitsVal (formatNat n) = n"
proof (induction n rule: formatNat.induct)
  case (1 n)
  show ?case
  proof (cases "n < 10")
    case True
    then show ?thesis by (subst formatNat.simps) (simp add: digitsVal_def)
  next
    case False
    then show ?thesis
      by (subst formatNat.simps) (simp add: digitsVal_snoc "1.IH")
  qed
qed

lemma isDigit_not_sign [simp]: "isDigit c \<Longrightarrow> c \<noteq> CHR ''-'' \<and> c \<noteq> CHR ''+''"
  by (auto simp: isDigit_def)

lemma parseInt64_digits:
  assumes "ds \<noteq> []" "list_all isDigit ds" "int (digitsVal ds) \<le> int64_max"
  shows "parseInt64 ds = Some (int (digitsVal ds))"
proof -
  obtain c cs where ds: "ds = c # cs" using assms(1) by (cases ds) auto
  with assms(2) have "c \<noteq> CHR ''-''" "c \<noteq> CHR ''+''" by auto
  with assms ds show ?thesis by (simp add: parseInt64_def int64_min_def)
qed

text \<open>Parsing undoes formatting on the whole range of int64.\<close>

lemma parseInt64_formatInt:
  assumes "int64_min \<le> i" "i \<le> int64_max"
  shows "parseInt64 (formatInt i) = Some i"
proof (cases "i < 0")
  case True
  then show ?thesis using assms
    by (simp add: formatInt_def parseInt64_def formatNat_ne formatNat_digits digitsVal_formatNat)
next
  case False
  then show ?thesis using assms
    by (simp add: formatInt_def parseInt64_digits formatNat_ne formatNat_digits digitsVal_formatNat)
qed

lemma parseInt64_range: "parseInt64 s = Some i \<Longrightarrow> int64_min \<le> i \<and> i \<le> int64_max"
  by (auto simp: parseInt64_def Let_def split: if_splits)

section \<open>strings.Split\<close>

text \<open>
  The pieces of \<open>s\<close> between the occurrences of \<open>sep\<close>, found from the left; an empty
  separator splits after every character.
\<close>

function splitGo :: "string \<Rightarrow> string \<Rightarrow> string \<Rightarrow> string list" where
  "splitGo sep acc [] = [rev acc]"
| "splitGo sep acc (c # cs) =
     (if sep \<noteq> [] \<and> prefix sep (c # cs)
      then rev acc # splitGo sep [] (drop (length sep) (c # cs))
      else splitGo sep (c # acc) cs)"
  by pat_completeness auto
termination
  by (relation "measure (\<lambda>(sep, acc, s). length s)") auto

definition Split :: "string \<Rightarrow> string \<Rightarrow> string list" where
  "Split s sep = (if sep = [] then map (\<lambda>c. [c]) s else splitGo sep [] s)"

fun joinStr :: "string \<Rightarrow> string list \<Rightarrow> string" where
  "joinStr sep [] = []"
| "joinStr sep [x] = x"
| "joinStr sep (x # y # ys) = x @ sep @ joinStr sep (y # ys)"

lemma joinStr_Cons: "ys \<noteq> [] \<Longrightarrow> joinStr sep (x # ys) = x @ sep @ joinStr sep ys"
  by (cases ys) auto

lemma splitGo_ne: "splitGo sep acc s \<noteq> []"
  by (induction sep acc s rule: splitGo.induct) auto

lemma joinStr_splitGo: "joinStr sep (splitGo sep acc s) = rev acc @ s"
proof (induction sep acc s rule: splitGo.induct)
  case (1 sep acc)
  then show ?case by simp
next
  case (2 sep acc c cs)
  show ?case
  proof (cases "sep \<noteq> [] \<and> prefix sep (c # cs)")
    case True
    then obtain r where r: "c # cs = sep @ r" by (auto simp: prefix_def)
    with "2.IH"(1)[OF True] have IH: "joinStr sep (splitGo sep [] r) = r" by simp
    from True have "splitGo sep acc (c # cs) = rev acc # splitGo sep [] (drop (length sep) (c # cs))"
      by (simp only: splitGo.simps if_True simp_thms)
    also have "drop (length sep) (c # cs) = r" by (simp add: r)
    finally show ?thesis by (simp add: joinStr_Cons splitGo_ne IH r)
  next
    case False
    with "2.IH"(2) show ?thesis by (simp only: splitGo.simps if_False simp_thms) simp
  qed
qed

lemma joinStr_Split: "sep \<noteq> [] \<Longrightarrow> joinStr sep (Split s sep) = s"
  by (simp add: Split_def joinStr_splitGo)

section \<open>time\<close>

text \<open>
  A \<^verbatim>\<open>time.Time\<close> built by \<^verbatim>\<open>time.Unix(sec, 0)\<close> holds the seconds since year 1, a wrapping
  64-bit sum; \<^verbatim>\<open>t.Sub(u)\<close> is a 64-bit count of nanoseconds that saturates: the product of the
  seconds and \<^verbatim>\<open>time.Second\<close> is kept only if adding it to \<open>u\<close> gives \<open>t\<close> back.
\<close>

definition unixToInternal :: int where "unixToInternal = 62135596800"

definition timeUnix :: "int \<Rightarrow> int" where
  "timeUnix sec = wrap64 (sec + unixToInternal)"

text \<open>Division as Go does it, towards zero.\<close>

definition quot :: "int \<Rightarrow> int \<Rightarrow> int" where
  "quot a b = sgn a * sgn b * (\<bar>a\<bar> div \<bar>b\<bar>)"

text \<open>\<^verbatim>\<open>Time.addSec\<close>: the sum of seconds, kept at the end of the range if it overflows.\<close>

definition addSec :: "int \<Rightarrow> int \<Rightarrow> int" where
  "addSec ext d = (let s = wrap64 (ext + d) in
     if (s > ext) = (d > 0) then s else if d > 0 then int64_max else - int64_max)"

definition timeSub :: "int \<Rightarrow> int \<Rightarrow> int" where
  "timeSub t u = (let d = wrap64 (wrap64 (t - u) * 1000000000) in
     if addSec u (quot d 1000000000) = t \<and> d - quot d 1000000000 * 1000000000 = 0 then d
     else if t < u then int64_min else int64_max)"

text \<open>\<^verbatim>\<open>int64(d.Seconds())\<close>: whole seconds; the fraction is 0 except at the saturated ends.\<close>

definition durationSeconds :: "int \<Rightarrow> int" where
  "durationSeconds d = quot d 1000000000"

lemma quot_mult_cancel: "b > 0 \<Longrightarrow> quot (a * b) b = a"
  by (cases "a = 0") (auto simp: quot_def abs_mult sgn_mult abs_sgn mult.commute)

lemma quot_abs_le: "b > 0 \<Longrightarrow> \<bar>quot a b\<bar> \<le> \<bar>a\<bar> div b"
  by (auto simp: quot_def abs_mult sgn_if pos_imp_zdiv_nonneg_iff)

lemma wrap64_range: "int64_min \<le> wrap64 x \<and> wrap64 x \<le> int64_max"
  using pos_mod_bound [of "2 ^ 64" "x + 2 ^ 63"] pos_mod_sign [of "2 ^ 64" "x + 2 ^ 63"]
  by (simp add: wrap64_def int64_min_def int64_max_def)

text \<open>
  Seconds between two epoch times of reasonable size: exact up to about 292 years either way,
  saturated beyond.
\<close>

definition maxDurSec :: int where "maxDurSec = 9223372036"

lemma addSec_small:
  "int64_min \<le> e + d \<Longrightarrow> e + d \<le> int64_max \<Longrightarrow> d \<noteq> 0 \<Longrightarrow> addSec e d = e + d"
  by (simp add: addSec_def wrap64_id Let_def)

lemma addSec_zero: "int64_min \<le> e \<Longrightarrow> e \<le> int64_max \<Longrightarrow> addSec e 0 = e"
  by (simp add: addSec_def wrap64_id Let_def)

lemma timeUnix_small: "\<bar>e\<bar> \<le> 2 ^ 61 \<Longrightarrow> timeUnix e = e + unixToInternal"
  unfolding timeUnix_def by (rule wrap64_id) (auto simp: unixToInternal_def int64_min_def int64_max_def)

lemma timeSub_small:
  assumes "\<bar>t\<bar> \<le> 2 ^ 62 - 1" "\<bar>u\<bar> \<le> 2 ^ 62 - 1" "\<bar>t - u\<bar> \<le> maxDurSec"
  shows "timeSub t u = (t - u) * 1000000000"
proof -
  have 1: "wrap64 (t - u) = t - u"
    using assms(3) by (intro wrap64_id) (auto simp: int64_min_def int64_max_def maxDurSec_def)
  have 2: "wrap64 ((t - u) * 1000000000) = (t - u) * 1000000000"
    using assms(3) by (intro wrap64_id) (auto simp: int64_min_def int64_max_def maxDurSec_def)
  have 3: "addSec u (t - u) = t"
    using assms addSec_small [of u "t - u"] addSec_zero [of u]
    by (cases "t = u") (auto simp: int64_min_def int64_max_def)
  have 4: "quot ((t - u) * 1000000000) 1000000000 = t - u" by (rule quot_mult_cancel) simp
  show ?thesis unfolding timeSub_def Let_def 1 2 4 3 by simp
qed

lemma timeSub_large:
  assumes "\<bar>t\<bar> \<le> 2 ^ 62 - 1" "\<bar>u\<bar> \<le> 2 ^ 62 - 1" "\<bar>t - u\<bar> > maxDurSec"
  shows "timeSub t u = (if t < u then int64_min else int64_max)"
proof -
  let ?d = "wrap64 (wrap64 (t - u) * 1000000000)"
  let ?q = "quot ?d 1000000000"
  have "\<bar>?d\<bar> \<le> 2 ^ 63"
    using wrap64_range [of "wrap64 (t - u) * 1000000000"]
    by (auto simp: int64_min_def int64_max_def)
  then have q: "\<bar>?q\<bar> \<le> maxDurSec"
    using quot_abs_le [of 1000000000 ?d] zdiv_mono1 [of "\<bar>?d\<bar>" "2 ^ 63" 1000000000]
    by (simp add: maxDurSec_def)
  have "addSec u ?q = u + ?q"
    using q assms(2) addSec_small [of u ?q] addSec_zero [of u]
    by (cases "?q = 0") (auto simp: int64_min_def int64_max_def maxDurSec_def)
  with q assms(3) have "addSec u ?q \<noteq> t" by auto
  then show ?thesis by (simp add: timeSub_def Let_def)
qed

section \<open>regexp\<close>

datatype regex =
    RZero
  | REps
  | RCls "char \<Rightarrow> bool"
  | RSeq regex regex
  | RAlt regex regex
  | RStar regex

fun nullable :: "regex \<Rightarrow> bool" where
  "nullable RZero = False"
| "nullable REps = True"
| "nullable (RCls p) = False"
| "nullable (RSeq a b) = (nullable a \<and> nullable b)"
| "nullable (RAlt a b) = (nullable a \<or> nullable b)"
| "nullable (RStar a) = True"

fun deriv :: "char \<Rightarrow> regex \<Rightarrow> regex" where
  "deriv c RZero = RZero"
| "deriv c REps = RZero"
| "deriv c (RCls p) = (if p c then REps else RZero)"
| "deriv c (RSeq a b) = (if nullable a then RAlt (RSeq (deriv c a) b) (deriv c b) else RSeq (deriv c a) b)"
| "deriv c (RAlt a b) = RAlt (deriv c a) (deriv c b)"
| "deriv c (RStar a) = RSeq (deriv c a) (RStar a)"

definition ROpt :: "regex \<Rightarrow> regex" where "ROpt r = RAlt r REps"

text \<open>Some prefix of the text is in the language.\<close>

fun prefixMatch :: "regex \<Rightarrow> string \<Rightarrow> bool" where
  "prefixMatch r s = (nullable r \<or> (case s of [] \<Rightarrow> False | c # t \<Rightarrow> prefixMatch (deriv c r) t))"

declare prefixMatch.simps [simp del]

text \<open>\<^verbatim>\<open>Regexp.MatchString\<close>: the expression is not anchored, any substring may match.\<close>

fun MatchString :: "regex \<Rightarrow> string \<Rightarrow> bool" where
  "MatchString r [] = prefixMatch r []"
| "MatchString r (c # t) = (prefixMatch r (c # t) \<or> MatchString r t)"

text \<open>The language of an expression, and the agreement of the matcher with it.\<close>

inductive in_lang :: "regex \<Rightarrow> string \<Rightarrow> bool" where
  lang_eps: "in_lang REps []"
| lang_cls: "p c \<Longrightarrow> in_lang (RCls p) [c]"
| lang_seq: "in_lang a s \<Longrightarrow> in_lang b t \<Longrightarrow> in_lang (RSeq a b) (s @ t)"
| lang_alt1: "in_lang a s \<Longrightarrow> in_lang (RAlt a b) s"
| lang_alt2: "in_lang b s \<Longrightarrow> in_lang (RAlt a b) s"
| lang_star0: "in_lang (RStar a) []"
| lang_star: "in_lang a s \<Longrightarrow> in_lang (RStar a) t \<Longrightarrow> in_lang (RStar a) (s @ t)"

inductive_simps in_lang_simps:
  "in_lang RZero s" "in_lang REps s" "in_lang (RCls p) s" "in_lang (RAlt a b) s" "in_lang (RSeq a b) s"

lemma nullable_iff: "nullable r \<longleftrightarrow> in_lang r []"
  by (induction r) (auto simp: in_lang_simps intro: lang_star0)

lemma in_lang_star_Cons:
  "in_lang r w \<Longrightarrow> r = RStar a \<Longrightarrow> w = c # t \<Longrightarrow>
   \<exists>u v. t = u @ v \<and> in_lang a (c # u) \<and> in_lang (RStar a) v"
proof (induction r w arbitrary: t rule: in_lang.induct)
  case (lang_star a' s t')
  show ?case
  proof (cases s)
    case Nil
    with lang_star show ?thesis by auto
  next
    case (Cons d s')
    with lang_star have "t = s' @ t'" "in_lang a (c # s')" "in_lang (RStar a) t'" by auto
    then show ?thesis by blast
  qed
qed auto

lemma deriv_iff: "in_lang (deriv c r) t \<longleftrightarrow> in_lang r (c # t)"
proof (induction r arbitrary: t)
  case (RSeq a b)
  have "in_lang (RSeq a b) (c # t) \<longleftrightarrow> (\<exists>u v. c # t = u @ v \<and> in_lang a u \<and> in_lang b v)"
    by (auto simp: in_lang_simps)
  also have "\<dots> \<longleftrightarrow>
      (\<exists>u v. t = u @ v \<and> in_lang a (c # u) \<and> in_lang b v) \<or> (in_lang a [] \<and> in_lang b (c # t))"
    by (auto simp: Cons_eq_append_conv)
  finally have "in_lang (RSeq a b) (c # t) \<longleftrightarrow>
      (\<exists>u v. t = u @ v \<and> in_lang a (c # u) \<and> in_lang b v) \<or> (in_lang a [] \<and> in_lang b (c # t))" .
  then show ?case using RSeq by (auto simp: in_lang_simps nullable_iff)
next
  case (RStar a)
  have "in_lang (RStar a) (c # t) \<longleftrightarrow> (\<exists>u v. t = u @ v \<and> in_lang a (c # u) \<and> in_lang (RStar a) v)"
    using in_lang_star_Cons [of "RStar a" "c # t" a c t] lang_star [of a "c # _" _] by fastforce
  then show ?case using RStar by (auto simp: in_lang_simps)
qed (auto simp: in_lang_simps)

lemma prefixMatch_iff: "prefixMatch r s \<longleftrightarrow> (\<exists>u v. s = u @ v \<and> in_lang r u)"
proof (induction s arbitrary: r)
  case Nil
  show ?case by (subst prefixMatch.simps) (simp add: nullable_iff)
next
  case (Cons c t)
  have "prefixMatch r (c # t) \<longleftrightarrow> in_lang r [] \<or> (\<exists>u v. t = u @ v \<and> in_lang r (c # u))"
    by (subst prefixMatch.simps) (simp add: nullable_iff Cons.IH deriv_iff)
  also have "\<dots> \<longleftrightarrow> (\<exists>u v. c # t = u @ v \<and> in_lang r u)"
    by (auto simp: Cons_eq_append_conv)
  finally show ?case .
qed

lemma MatchString_iff: "MatchString r s \<longleftrightarrow> (\<exists>p u v. s = p @ u @ v \<and> in_lang r u)"
proof (induction s)
  case Nil
  show ?case by (simp add: prefixMatch_iff)
next
  case (Cons c t)
  have "MatchString r (c # t) \<longleftrightarrow> (\<exists>u v. c # t = u @ v \<and> in_lang r u) \<or> (\<exists>p u v. t = p @ u @ v \<and> in_lang r u)"
    by (simp add: Cons.IH prefixMatch_iff)
  also have "\<dots> \<longleftrightarrow> (\<exists>p u v. c # t = p @ u @ v \<and> in_lang r u)"
    by (metis Cons_eq_append_conv append_Cons append_Nil)
  finally show ?case .
qed

end
