(* ===== verification/Util_Funcs.thy ===== *)
theory Util_Funcs
  imports Go_Lib
begin

text \<open>
  \<^verbatim>\<open>controllers/druid/util.go\<close>: the helpers the controller is written with. The lemmas give each
  loop its set or list specification, and the bounds of \<open>timeDifference\<close>.
\<close>

section \<open>Operations\<close>

definition firstNonEmptyStr :: "string \<Rightarrow> string \<Rightarrow> string" where
  "firstNonEmptyStr s1 s2 = (if length s1 > 0 then s1 else s2)"

text \<open>The arguments are pointers, slices or maps; \<open>None\<close> is nil.\<close>

definition firstNonNilValue :: "'a option \<Rightarrow> 'a option \<Rightarrow> 'a option" where
  "firstNonNilValue v1 v2 = (if v1 \<noteq> None then v1 else v2)"

text \<open>\<open>env\<close> is the process environment, \<^verbatim>\<open>os.LookupEnv\<close>.\<close>

definition getDenyListEnv :: "(string \<Rightarrow> string option) \<Rightarrow> string \<Rightarrow> string \<Rightarrow> string" where
  "getDenyListEnv env key defaultVal = (case env key of Some v \<Rightarrow> v | None \<Rightarrow> defaultVal)"

definition getEnvAsSlice ::
  "(string \<Rightarrow> string option) \<Rightarrow> string \<Rightarrow> string list \<Rightarrow> string \<Rightarrow> string list" where
  "getEnvAsSlice env name defaultVal sep =
     (let valStr = getDenyListEnv env name [] in
      if valStr = [] then defaultVal else Split valStr sep)"

fun ContainsString :: "string list \<Rightarrow> string \<Rightarrow> bool" where
  "ContainsString [] s = False"
| "ContainsString (item # slice) s = (if item = s then True else ContainsString slice s)"

fun containsString :: "string list \<Rightarrow> string \<Rightarrow> bool" where
  "containsString [] s = False"
| "containsString (x # xs) s = (if x = s then True else containsString xs s)"

text \<open>\<^verbatim>\<open>result = append(result, item)\<close> for the items that differ from \<open>s\<close>.\<close>

fun RemoveString_loop :: "string list \<Rightarrow> string list \<Rightarrow> string \<Rightarrow> string list" where
  "RemoveString_loop result [] s = result"
| "RemoveString_loop result (item # slice) s =
     (if item = s then RemoveString_loop result slice s
      else RemoveString_loop (result @ [item]) slice s)"

definition RemoveString :: "string list \<Rightarrow> string \<Rightarrow> string list" where
  "RemoveString slice s = RemoveString_loop [] slice s"

text \<open>\<^verbatim>\<open>strconv.Atoi\<close> on a 64-bit platform accepts what \<open>parseInt64\<close> accepts.\<close>

definition Str2Int :: "string \<Rightarrow> int" where
  "Str2Int s = (case parseInt64 s of None \<Rightarrow> 1 | Some i \<Rightarrow> i)"

definition timeDifference :: "int \<Rightarrow> int \<Rightarrow> int" where
  "timeDifference epochTime1 epochTime2 =
     (let t1 = timeUnix epochTime1; t2 = timeUnix epochTime2; diff = timeSub t2 t1
      in durationSeconds diff)"

fun hasDuplicateString_loop :: "string set \<Rightarrow> string list \<Rightarrow> bool \<times> string" where
  "hasDuplicateString_loop seen [] = (False, [])"
| "hasDuplicateString_loop seen (s # slice) =
     (if s \<in> seen then (True, s) else hasDuplicateString_loop (insert s seen) slice)"

definition hasDuplicateString :: "string list \<Rightarrow> bool \<times> string" where
  "hasDuplicateString slice = hasDuplicateString_loop {} slice"

section \<open>Lemmas\<close>

lemma ContainsString_iff [simp]: "ContainsString xs s \<longleftrightarrow> s \<in> set xs"
  by (induction xs) auto

lemma containsString_eq [simp]: "containsString xs s = ContainsString xs s"
  by (induction xs) auto

lemma RemoveString_loop_filter: "RemoveString_loop acc xs s = acc @ filter (\<lambda>x. x \<noteq> s) xs"
  by (induction xs arbitrary: acc) auto

lemma RemoveString_filter [simp]: "RemoveString xs s = filter (\<lambda>x. x \<noteq> s) xs"
  by (simp add: RemoveString_def RemoveString_loop_filter)

lemma firstNonNilValue_simps [simp]:
  "firstNonNilValue (Some x) v = Some x" "firstNonNilValue None v = v"
  by (simp_all add: firstNonNilValue_def)

lemma firstNonEmptyStr_simps [simp]:
  "s \<noteq> [] \<Longrightarrow> firstNonEmptyStr s t = s" "firstNonEmptyStr [] t = t"
  by (simp_all add: firstNonEmptyStr_def)

lemma firstNonEmptyStr_empty_iff: "firstNonEmptyStr s t = [] \<longleftrightarrow> s = [] \<and> t = []"
  by (auto simp: firstNonEmptyStr_def)

lemma hasDuplicateString_loop_False:
  "fst (hasDuplicateString_loop seen xs) \<longleftrightarrow> \<not> (distinct xs \<and> set xs \<inter> seen = {})"
  by (induction xs arbitrary: seen) auto

lemma hasDuplicateString_loop_first:
  "hasDuplicateString_loop seen xs = (True, s) \<Longrightarrow>
   \<exists>us vs. xs = us @ s # vs \<and> distinct us \<and> set us \<inter> seen = {} \<and> s \<in> seen \<union> set us"
proof (induction xs arbitrary: seen)
  case Nil
  then show ?case by simp
next
  case (Cons x xs)
  show ?case
  proof (cases "x \<in> seen")
    case True
    with Cons.prems show ?thesis by (intro exI [of _ "[]"] exI [of _ xs]) auto
  next
    case False
    with Cons obtain us vs where "xs = us @ s # vs" "distinct us" "set us \<inter> insert x seen = {}"
      "s \<in> insert x seen \<union> set us" by force
    with False show ?thesis by (intro exI [of _ "x # us"] exI [of _ vs]) auto
  qed
qed

text \<open>The check reports a duplicate exactly when there is one, and names the first.\<close>

lemma hasDuplicateString_iff: "fst (hasDuplicateString xs) \<longleftrightarrow> \<not> distinct xs"
  by (simp add: hasDuplicateString_def hasDuplicateString_loop_False)

lemma hasDuplicateString_first:
  "hasDuplicateString xs = (True, s) \<Longrightarrow>
   \<exists>us vs. xs = us @ s # vs \<and> distinct us \<and> s \<in> set us"
  using hasDuplicateString_loop_first [of "{}" xs s] by (auto simp: hasDuplicateString_def)

lemma durationSeconds_ends:
  "durationSeconds int64_min = - maxDurSec" "durationSeconds int64_max = maxDurSec"
  by (simp_all add: durationSeconds_def quot_def int64_min_def int64_max_def maxDurSec_def)

lemma timeDifference_clamp:
  assumes "\<bar>a\<bar> \<le> 2 ^ 61" "\<bar>b\<bar> \<le> 2 ^ 61"
  shows "timeDifference a b = max (- maxDurSec) (min maxDurSec (b - a))"
proof -
  have ta: "timeUnix a = a + unixToInternal" and tb: "timeUnix b = b + unixToInternal"
    using assms timeUnix_small by auto
  have ra: "\<bar>a + unixToInternal\<bar> \<le> 2 ^ 62 - 1" and rb: "\<bar>b + unixToInternal\<bar> \<le> 2 ^ 62 - 1"
    using assms by (auto simp: unixToInternal_def)
  show ?thesis
  proof (cases "\<bar>b - a\<bar> \<le> maxDurSec")
    case True
    then have "timeSub (timeUnix b) (timeUnix a) = (b - a) * 1000000000"
      using timeSub_small [OF rb ra] by (simp add: ta tb)
    then have "timeDifference a b = quot ((b - a) * 1000000000) 1000000000"
      by (simp add: timeDifference_def durationSeconds_def)
    also have "\<dots> = b - a" by (rule quot_mult_cancel) simp
    finally show ?thesis using True by auto
  next
    case False
    then have "timeSub (timeUnix b) (timeUnix a) = (if b < a then int64_min else int64_max)"
      using timeSub_large [OF rb ra] by (simp add: ta tb)
    then have "timeDifference a b = (if b < a then - maxDurSec else maxDurSec)"
      by (simp add: timeDifference_def durationSeconds_ends)
    then show ?thesis using False by (auto simp: maxDurSec_def)
  qed
qed

section \<open>Properties\<close>

text \<open>
  C40 (bounds). The difference of two time stamps in seconds, computed with 64-bit time values, is
  the true difference cut off at the largest duration in either direction, for stamps of at most
  \<open>2 ^ 61\<close> in absolute value (beyond, towards the ends of the 64-bit range, the conversion to the
  clock's own epoch wraps).
\<close>

theorem time_difference_saturates:
  assumes "\<bar>a\<bar> \<le> 2 ^ 61" "\<bar>b\<bar> \<le> 2 ^ 61"
  shows "timeDifference a b = max (- maxDurSec) (min maxDurSec (b - a))"
  by (rule timeDifference_clamp [OF assms])

theorem time_difference_witness:
  "timeDifference 0 60 = 60 \<and> timeDifference (2 ^ 60) 0 = - 9223372036"
  using time_difference_saturates [of 0 60] time_difference_saturates [of "2 ^ 60" 0] by (simp add: maxDurSec_def)

end
