(* ===== verification/Ordering.thy ===== *)
theory Ordering
  imports Druid_Types Util_Funcs
begin

text \<open>
  \<^verbatim>\<open>controllers/druid/ordering.go\<close>: the order in which the node groups are deployed. The code
  groups the node specs by node type in a map of slices and concatenates the groups in the
  order of \<open>druidServicesOrder\<close>. Proved: the result is the node map restricted to the known
  node types, sorted by the rank of the type, and stable with respect to the iteration order of
  the node map; another iteration order only permutes groups of the same type.
\<close>

section \<open>Operations\<close>

definition druidServicesOrder :: "string list" where
  "druidServicesOrder = [historical, overlord, middleManager, indexer, broker, coordinator, router]"

record service_group =
  sgKey :: string
  sgSpec :: druid_node_spec

type_synonym groups = "(string, service_group list) fmap"

text \<open>A missing key of the map reads as the nil slice.\<close>

definition groupOf :: "groups \<Rightarrow> string \<Rightarrow> service_group list" where
  "groupOf g t = (case fmlookup g t of None \<Rightarrow> [] | Some xs \<Rightarrow> xs)"

fun initGroups :: "string list \<Rightarrow> groups \<Rightarrow> groups" where
  "initGroups [] g = g"
| "initGroups (t # ts) g = initGroups ts (fmupd t [] g)"

fun addNodes :: "(string \<times> druid_node_spec) list \<Rightarrow> groups \<Rightarrow> groups" where
  "addNodes [] g = g"
| "addNodes ((key, nodeSpec) # nodes) g =
     (let scaledServiceSpec = groupOf g (ndNodeType nodeSpec) in
      addNodes nodes (fmupd (ndNodeType nodeSpec)
        (scaledServiceSpec @ [\<lparr>sgKey = key, sgSpec = nodeSpec\<rparr>]) g))"

fun collectGroups :: "string list \<Rightarrow> groups \<Rightarrow> service_group list \<Rightarrow> service_group list" where
  "collectGroups [] g acc = acc"
| "collectGroups (t # ts) g acc = collectGroups ts g (acc @ groupOf g t)"

definition getNodeSpecsByOrder :: "druid \<Rightarrow> service_group list" where
  "getNodeSpecsByOrder m =
     (let byType = initGroups druidServicesOrder fmempty;
          byType = addNodes (crNodes (drSpec m)) byType
      in collectGroups druidServicesOrder byType [])"

section \<open>Lemmas\<close>

definition asGroup :: "string \<times> druid_node_spec \<Rightarrow> service_group" where
  "asGroup kn = \<lparr>sgKey = fst kn, sgSpec = snd kn\<rparr>"

abbreviation nodeTypeOf :: "service_group \<Rightarrow> string" where
  "nodeTypeOf sg \<equiv> ndNodeType (sgSpec sg)"

lemma groupOf_fmupd: "groupOf (fmupd t xs g) t' = (if t = t' then xs else groupOf g t')"
  by (simp add: groupOf_def)

lemma groupOf_initGroups: "groupOf (initGroups ts g) t = (if t \<in> set ts then [] else groupOf g t)"
  by (induction ts arbitrary: g) (auto simp: groupOf_fmupd)

lemma groupOf_addNodes:
  "groupOf (addNodes nodes g) t
     = groupOf g t @ map asGroup (filter (\<lambda>(k, n). ndNodeType n = t) nodes)"
  by (induction nodes g rule: addNodes.induct) (auto simp: groupOf_fmupd asGroup_def Let_def)

lemma collectGroups_concat: "collectGroups ts g acc = acc @ concat (map (groupOf g) ts)"
  by (induction ts arbitrary: acc) auto

text \<open>The specification: for each type in order, the groups of that type in iteration order.\<close>

lemma getNodeSpecsByOrder_concat:
  "getNodeSpecsByOrder m =
     concat (map (\<lambda>t. map asGroup (filter (\<lambda>(k, n). ndNodeType n = t) (crNodes (drSpec m))))
       druidServicesOrder)"
  by (simp add: getNodeSpecsByOrder_def Let_def collectGroups_concat groupOf_addNodes
      groupOf_initGroups cong: map_cong)

text \<open>The place of a node type in the deployment order.\<close>

fun rankIn :: "string list \<Rightarrow> string \<Rightarrow> nat" where
  "rankIn [] t = 0"
| "rankIn (x # xs) t = (if x = t then 0 else Suc (rankIn xs t))"

abbreviation rank :: "string \<Rightarrow> nat" where
  "rank \<equiv> rankIn druidServicesOrder"

lemma distinct_druidServicesOrder: "distinct druidServicesOrder"
  by (simp add: druidServicesOrder_def)

lemma sorted_rank_concat:
  assumes "distinct ts" and "\<And>t x. x \<in> set (f t) \<Longrightarrow> ty x = t"
  shows "sorted_wrt (\<lambda>x y. rankIn ts (ty x) \<le> rankIn ts (ty y)) (concat (map f ts))"
  using assms(1)
proof (induction ts)
  case (Cons t ts)
  have tail: "x \<in> set (concat (map f ts)) \<Longrightarrow> ty x \<in> set ts" for x
    using assms(2) by auto
  have "sorted_wrt (\<lambda>x y. rankIn (t # ts) (ty x) \<le> rankIn (t # ts) (ty y)) (concat (map f ts))"
    using Cons by (intro sorted_wrt_mono_rel [OF _ Cons.IH]) (auto dest!: tail simp del: set_concat)
  moreover have "sorted_wrt (\<lambda>x y. rankIn (t # ts) (ty x) \<le> rankIn (t # ts) (ty y)) (f t)"
    using assms(2) [of _ t] by (auto simp: sorted_wrt_iff_nth_less)
  ultimately show ?case using assms(2) [of _ t] by (auto simp: sorted_wrt_append)
qed simp

lemma mset_concat_filter:
  assumes "distinct ts"
  shows "mset (concat (map (\<lambda>t. filter (\<lambda>x. ty x = t) xs) ts)) = mset (filter (\<lambda>x. ty x \<in> set ts) xs)"
  using assms
proof (induction ts)
  case (Cons t ts)
  have "mset (filter (\<lambda>x. ty x = t) xs) + mset (filter (\<lambda>x. ty x \<in> set ts) xs)
      = mset (filter (\<lambda>x. ty x = t \<or> ty x \<in> set ts) xs)"
    using Cons.prems by (induction xs) auto
  with Cons show ?case by simp
qed simp

lemma mset_getNodeSpecsByOrder:
  "mset (getNodeSpecsByOrder m) =
     mset (map asGroup (filter (\<lambda>(k, n). ndNodeType n \<in> set druidServicesOrder) (crNodes (drSpec m))))"
proof -
  let ?xs = "crNodes (drSpec m)"
  have "mset (getNodeSpecsByOrder m) = image_mset asGroup
      (mset (concat (map (\<lambda>t. filter (\<lambda>x. ndNodeType (snd x) = t) ?xs) druidServicesOrder)))"
    by (simp add: getNodeSpecsByOrder_concat case_prod_beta' flip: map_concat [of asGroup, unfolded map_map comp_def] mset_map)
       (simp add: map_concat comp_def)
  also have "\<dots> = image_mset asGroup (mset (filter (\<lambda>x. ndNodeType (snd x) \<in> set druidServicesOrder) ?xs))"
    by (simp only: mset_concat_filter [OF distinct_druidServicesOrder])
  finally show ?thesis by (simp add: case_prod_beta')
qed

lemma sorted_getNodeSpecsByOrder:
  "sorted_wrt (\<lambda>x y. rank (nodeTypeOf x) \<le> rank (nodeTypeOf y)) (getNodeSpecsByOrder m)"
  unfolding getNodeSpecsByOrder_concat
  by (rule sorted_rank_concat [OF distinct_druidServicesOrder]) (auto simp: asGroup_def)

lemma set_getNodeSpecsByOrder:
  "set (getNodeSpecsByOrder m) =
     {asGroup (k, n) |k n. (k, n) \<in> set (crNodes (drSpec m)) \<and> ndNodeType n \<in> set druidServicesOrder}"
  using arg_cong [OF mset_getNodeSpecsByOrder [of m], of set_mset] by auto

lemma filter_type_getNodeSpecsByOrder:
  assumes "t \<in> set druidServicesOrder"
  shows "filter (\<lambda>sg. nodeTypeOf sg = t) (getNodeSpecsByOrder m)
    = map asGroup (filter (\<lambda>(k, n). ndNodeType n = t) (crNodes (drSpec m)))"
proof -
  have "filter (\<lambda>sg. nodeTypeOf sg = t)
        (map asGroup (filter (\<lambda>(k, n). ndNodeType n = u) xs))
      = (if u = t then map asGroup (filter (\<lambda>(k, n). ndNodeType n = t) xs) else [])" for u xs
    by (induction xs) (auto simp: asGroup_def)
  then show ?thesis using assms
    by (auto simp: getNodeSpecsByOrder_concat filter_concat comp_def druidServicesOrder_def)
qed

lemma types_getNodeSpecsByOrder:
  "map nodeTypeOf (getNodeSpecsByOrder m) =
     concat (map (\<lambda>t. replicate (count (mset (map (\<lambda>(k, n). ndNodeType n) (crNodes (drSpec m)))) t) t) druidServicesOrder)"
proof -
  have "map nodeTypeOf (map asGroup (filter (\<lambda>(k, n). ndNodeType n = t) xs)) =
      replicate (count (mset (map (\<lambda>(k, n). ndNodeType n) xs)) t) t" for t xs
    by (induction xs) (auto simp: asGroup_def)
  then show ?thesis by (simp add: getNodeSpecsByOrder_concat map_concat comp_def)
qed

section \<open>Properties\<close>

text \<open>
  C30 (functional). The deployment order: the node groups come sorted by the rank of their node
  type; they are exactly the groups of the custom resource whose type is known, each as often as
  it occurs; and within a type they keep the iteration order.
\<close>

theorem node_groups_ordered:
  "sorted_wrt (\<lambda>x y. rank (nodeTypeOf x) \<le> rank (nodeTypeOf y)) (getNodeSpecsByOrder m)
   \<and> mset (getNodeSpecsByOrder m) =
       mset (map asGroup (filter (\<lambda>(k, n). ndNodeType n \<in> set druidServicesOrder) (crNodes (drSpec m))))
   \<and> getNodeSpecsByOrder m = concat (map (\<lambda>t. map asGroup (filter (\<lambda>(k, n). ndNodeType n = t) (crNodes (drSpec m)))) druidServicesOrder)"
  by (intro conjI sorted_getNodeSpecsByOrder mset_getNodeSpecsByOrder getNodeSpecsByOrder_concat)

text \<open>
  The unspecified iteration order of the node map does not matter for the
  deployment order of the types: any two iteration orders of the same nodes give the same
  sequence of node types and the same groups up to order.
\<close>

theorem iteration_order_irrelevant:
  assumes "mset (crNodes (drSpec m1)) = mset (crNodes (drSpec m2))"
  shows "map nodeTypeOf (getNodeSpecsByOrder m1) = map nodeTypeOf (getNodeSpecsByOrder m2)
    \<and> mset (getNodeSpecsByOrder m1) = mset (getNodeSpecsByOrder m2)"
  using assms
  by (simp add: types_getNodeSpecsByOrder mset_getNodeSpecsByOrder)

text \<open>Two iteration orders of a router and a historical.\<close>

definition twoNodes :: "bool \<Rightarrow> druid" where
  "twoNodes b = zeroDruid\<lparr>drSpec := zeroSpec\<lparr>crNodes :=
     (let r = (''r'', zeroNode\<lparr>ndNodeType := router\<rparr>); h = (''h'', zeroNode\<lparr>ndNodeType := historical\<rparr>)
      in if b then [r, h] else [h, r])\<rparr>\<rparr>"

theorem iteration_order_witness:
  "map nodeTypeOf (getNodeSpecsByOrder (twoNodes True)) = map nodeTypeOf (getNodeSpecsByOrder (twoNodes False))
    \<and> mset (getNodeSpecsByOrder (twoNodes True)) = mset (getNodeSpecsByOrder (twoNodes False))"
  by (rule iteration_order_irrelevant) (simp add: twoNodes_def Let_def)

end
