(* ===== verification/Ingestion_Types.thy ===== *)
theory Ingestion_Types
  imports Druid_Types
begin

text \<open>
  The custom resource \<^verbatim>\<open>DruidIngestion\<close> of \<^verbatim>\<open>apis/druid/v1alpha1/druidingestion_types.go\<close>.
  A list of rules is \<open>None\<close> when the slice is nil, which \<^verbatim>\<open>reflect.DeepEqual\<close> tells from the empty
  slice.
\<close>

text \<open>The ingestion methods, and any other text the type field may hold.\<close>

datatype druid_ingestion_method =
    Kafka | Kinesis | NativeBatchIndexParallel | QueryControllerSQL | HadoopIndexHadoop
  | OtherMethod string

record ingestion_spec =
  inType :: druid_ingestion_method
  inSpec :: string
  inNativeSpec :: raw_extension
  inCompaction :: raw_extension
  inRules :: "raw_extension list option"

record druid_ingestion_spec =
  diSuspend :: bool
  diDruidClusterName :: string
  diIngestion :: ingestion_spec
  diAuth :: druid_auth

record druid_ingestion_status =
  istTaskId :: string
  istType :: string
  istStatus :: string
  istReason :: string
  istMessage :: string
  istLastUpdateTime :: int
  istCurrentIngestionSpec :: string
  istCurrentRules :: "raw_extension list option"

record druid_ingestion = k8s_object +
  diSpec :: druid_ingestion_spec
  diStatus :: druid_ingestion_status

end
