(* ===== verification/Json_Includes.thy ===== *)
theory Json_Includes
  imports Complex_Main Prelude
begin

text \<open>
  \<^verbatim>\<open>pkg/util/util.go\<close>: comparison of a desired JSON configuration with the current one. A decoded
  JSON value is what \<^verbatim>\<open>json.Unmarshal\<close> puts into an \<^verbatim>\<open>interface{}\<close>; \<^verbatim>\<open>reflect.DeepEqual\<close> on such
  values is equality. Parsing text is a parameter (\<open>unmarshal\<close>). Proved: the recursive check
  decides the relation \<open>covered\<close>, which is a preorder, and laying the desired settings over the
  current ones always passes the check.
\<close>

section \<open>Operations\<close>

datatype json =
    JNull
  | JBool bool
  | JNum rat
  | JStr string
  | JArr "json list"
  | JObj "(string, json) fmap"

type_synonym json_map = "(string, json) fmap"

definition sliceIncludes :: "json list \<Rightarrow> json list \<Rightarrow> bool" where
  "sliceIncludes current desired =
     list_all (\<lambda>desiredItem. list_ex (\<lambda>currentItem. desiredItem = currentItem) current) desired"

lemma fmpred_fundef_cong [fundef_cong]:
  assumes "m = n" and "\<And>k v. fmlookup n k = Some v \<Longrightarrow> P k v = Q k v"
  shows "fmpred P m = fmpred Q n"
  using assms by (auto simp: fmpred_iff)

lemma size_fmap_lookup:
  assumes "fmlookup m k = Some v"
  shows "size v < Suc (size_fmap (\<lambda>_. 0) size m)"
proof -
  have "(k, v) |\<in>| fset_of_fmap m" using assms by simp
  then have "Suc (size v) \<le> (\<Sum>x \<in> fset (fset_of_fmap m). Suc ((\<lambda>(a, b). 0 + size b) x))"
    using member_le_sum [of "(k, v)" "fset (fset_of_fmap m)" "\<lambda>x. Suc ((\<lambda>(a, b). 0 + size b) x)"]
    by simp
  then show ?thesis by (simp add: size_fmap_def size_fset_simps)
qed

function includesMap :: "json_map \<Rightarrow> json_map \<Rightarrow> bool" where
  "includesMap current desired =
     fmpred (\<lambda>key desiredValue.
       case fmlookup current key of
         None \<Rightarrow> False
       | Some currentValue \<Rightarrow>
           if desiredValue \<noteq> currentValue then
             (case desiredValue of
                JObj desiredValueTyped \<Rightarrow>
                  (case currentValue of JObj currentValueTyped \<Rightarrow> includesMap currentValueTyped desiredValueTyped
                   | _ \<Rightarrow> False)
              | JArr desiredValueTyped \<Rightarrow>
                  (case currentValue of JArr currentValueTyped \<Rightarrow> sliceIncludes currentValueTyped desiredValueTyped
                   | _ \<Rightarrow> False)
              | _ \<Rightarrow> False)
           else True) desired"
  by pat_completeness auto
termination
proof (relation "measure (\<lambda>(c, d). size_fmap (\<lambda>_. 0) size d)", goal_cases)
  case (2 current desired k v cv d c)
  then show ?case using size_fmap_lookup [of desired k v] by simp
qed simp

declare includesMap.simps [simp del]

fun jsonKind :: "json \<Rightarrow> string" where
  "jsonKind JNull = ''null''"
| "jsonKind (JBool _) = ''bool''"
| "jsonKind (JNum _) = ''number''"
| "jsonKind (JStr _) = ''string''"
| "jsonKind (JArr _) = ''array''"
| "jsonKind (JObj _) = ''object''"

text \<open>
  \<^verbatim>\<open>json.Unmarshal\<close> into a \<^verbatim>\<open>map[string]interface{}\<close>: an object, or null for the nil map, which
  reads like the empty one.
\<close>

definition unmarshalMap :: "(string \<Rightarrow> goerr + json) \<Rightarrow> string \<Rightarrow> goerr + json_map" where
  "unmarshalMap unmarshal s = (case unmarshal s of
      Inl e \<Rightarrow> Inl e
    | Inr (JObj m) \<Rightarrow> Inr m
    | Inr JNull \<Rightarrow> Inr fmempty
    | Inr v \<Rightarrow> Inl (GoErr (''json: cannot unmarshal '' @ jsonKind v @ '' into Go value of type map[string]interface {}'')))"

definition ToJsonString :: "(json \<Rightarrow> goerr + string) \<Rightarrow> json \<Rightarrow> goerr + string" where
  "ToJsonString marshal data = (case marshal data of Inl err \<Rightarrow> Inl err | Inr jsonData \<Rightarrow> Inr jsonData)"

definition IncludesJson :: "(string \<Rightarrow> goerr + json) \<Rightarrow> string \<Rightarrow> string \<Rightarrow> goerr + bool" where
  "IncludesJson unmarshal currentJson desiredJson =
     (case unmarshalMap unmarshal currentJson of
        Inl err \<Rightarrow> Inl (GoErr (''error parsing current JSON: '' @ errString err))
      | Inr current \<Rightarrow>
          (case unmarshalMap unmarshal desiredJson of
             Inl err \<Rightarrow> Inl (GoErr (''error parsing desired JSON: '' @ errString err))
           | Inr desired \<Rightarrow> Inr (includesMap current desired)))"

text \<open>\<^verbatim>\<open>controllers/druid/util.go\<close>.\<close>

definition IsEqualJson :: "(string \<Rightarrow> goerr + json) \<Rightarrow> string \<Rightarrow> string \<Rightarrow> goerr + bool" where
  "IsEqualJson unmarshal s1 s2 =
     (case unmarshal s1 of
        Inl err \<Rightarrow> Inl (GoErr (''error mashalling string 1 :: '' @ errString err))
      | Inr o1 \<Rightarrow>
          (case unmarshal s2 of
             Inl err \<Rightarrow> Inl (GoErr (''error mashalling string 2 :: '' @ errString err))
           | Inr o2 \<Rightarrow> Inr (o1 = o2)))"

section \<open>Lemmas\<close>

text \<open>The relation the check decides: the desired value is covered by the current one.\<close>

inductive covered :: "json \<Rightarrow> json \<Rightarrow> bool" where
  same: "covered v v"
| arr: "set ds \<subseteq> set cs \<Longrightarrow> covered (JArr ds) (JArr cs)"
| obj: "(\<And>k v. fmlookup d k = Some v \<Longrightarrow> \<exists>w. fmlookup c k = Some w \<and> covered v w) \<Longrightarrow>
    covered (JObj d) (JObj c)"

inductive_cases covered_ObjE: "covered (JObj d) w"
inductive_cases covered_ArrE: "covered (JArr d) w"
inductive_simps covered_atoms:
  "covered JNull w" "covered (JBool b) w" "covered (JNum n) w" "covered (JStr s) w"

lemma sliceIncludes_iff: "sliceIncludes cs ds \<longleftrightarrow> set ds \<subseteq> set cs"
  by (auto simp: sliceIncludes_def list_all_iff list_ex_iff)

lemma covered_Obj_iff:
  "covered (JObj d) (JObj c) \<longleftrightarrow>
     (\<forall>k v. fmlookup d k = Some v \<longrightarrow> (\<exists>w. fmlookup c k = Some w \<and> covered v w))"
proof
  assume "covered (JObj d) (JObj c)"
  then show "\<forall>k v. fmlookup d k = Some v \<longrightarrow> (\<exists>w. fmlookup c k = Some w \<and> covered v w)"
    by (elim covered_ObjE) (auto intro: covered.same)
qed (auto intro: covered.obj)

lemma includesMap_covered: "includesMap c d \<longleftrightarrow> covered (JObj d) (JObj c)"
proof (induction c d rule: includesMap.induct)
  case (1 c d)
  have "(case fmlookup c k of None \<Rightarrow> False
       | Some w \<Rightarrow> if v \<noteq> w then (case v of
             JObj dv \<Rightarrow> (case w of JObj cv \<Rightarrow> includesMap cv dv | _ \<Rightarrow> False)
           | JArr dv \<Rightarrow> (case w of JArr cv \<Rightarrow> sliceIncludes cv dv | _ \<Rightarrow> False)
           | _ \<Rightarrow> False) else True)
     \<longleftrightarrow> (\<exists>w. fmlookup c k = Some w \<and> covered v w)" if "fmlookup d k = Some v" for k v
  proof (cases "fmlookup c k")
    case (Some w)
    show ?thesis
    proof (cases "v = w")
      case False
      have "x6 \<noteq> y6 \<Longrightarrow> v = JObj x6 \<Longrightarrow> w = JObj y6 \<Longrightarrow>
          includesMap y6 x6 \<longleftrightarrow> covered (JObj x6) (JObj y6)" for x6 y6
        using "1.IH" [OF that Some] by auto
      with False Some show ?thesis
        by (cases v; cases w) (auto simp: covered_atoms sliceIncludes_iff
            intro: covered.arr elim: covered_ObjE covered_ArrE)
    qed (use Some in \<open>simp add: covered.same\<close>)
  qed simp
  then show ?case
    by (subst includesMap.simps) (auto simp: fmpred_iff covered_Obj_iff)
qed

lemma covered_trans: "covered a b \<Longrightarrow> covered b c \<Longrightarrow> covered a c"
proof (induction a b arbitrary: c rule: covered.induct)
  case (arr ds cs)
  from arr.prems show ?case
    by (rule covered_ArrE) (use arr.hyps in \<open>auto intro: covered.arr\<close>)
next
  case (obj d c')
  from obj.prems show ?case
  proof (rule covered_ObjE)
    fix e assume c: "c = JObj e"
      and "\<And>k v. fmlookup c' k = Some v \<Longrightarrow> \<exists>w. fmlookup e k = Some w \<and> covered v w"
    with obj.IH show ?thesis unfolding c by (intro covered.obj) (metis)
  next
    assume "c = JObj c'"
    with obj.IH show ?thesis by (metis covered.obj)
  qed
qed

lemma includesMap_refl: "includesMap c c"
  by (simp add: includesMap_covered covered.same)

lemma includesMap_trans: "includesMap b a \<Longrightarrow> includesMap c b \<Longrightarrow> includesMap c a"
  by (auto simp: includesMap_covered intro: covered_trans)

lemma includesMap_overlay: "includesMap (current ++\<^sub>f desired) desired"
  by (auto simp: includesMap_covered covered_Obj_iff intro: covered.same fmdom'I)

section \<open>Properties\<close>

text \<open>
  C32 (equivalence). The recursive comparison of two decoded configurations decides the relation
  \<open>covered\<close>: every desired setting is present, objects are compared key by key at every depth,
  arrays as sets, anything else by equality. A configuration includes itself, and the current
  configuration with the desired settings laid over it always includes the desired ones.
\<close>

theorem includes_decides_covered:
  "includesMap current desired = covered (JObj desired) (JObj current)
   \<and> includesMap current current \<and> includesMap (current ++\<^sub>f desired) desired"
  by (intro conjI includesMap_covered includesMap_refl includesMap_overlay)

end
