(* ===== verification/Client_Interface.thy ===== *)
theory Client_Interface
  imports Ingestion_Types Json_Includes
begin

text \<open>
  The operator's boundary with the outside, \<^verbatim>\<open>controllers/druid/interface.go\<close>: the Kubernetes
  client (a parameter of the model: \<open>'w client\<close> over an unknown server state \<open>'w\<close>), the reader
  and writer wrappers that report every failure as an event, and the event emitters.
  Every request to the server and every event is an \<open>effect\<close>, so a run of the model yields the
  exact sequence of requests the code makes, whatever the server answers.
\<close>

section \<open>Objects and effects\<close>

datatype kobj =
    KConfigMap configmap
  | KService service
  | KStatefulSet statefulset
  | KDeployment deployment
  | KPod pod
  | KPVC pvc
  | KPDB pdb
  | KHPA hpa
  | KIngress ingress
  | KStorageClass storageclass
  | KSecret secret
  | KDruid druid
  | KDruidIngestion druid_ingestion

fun kobjMeta :: "kobj \<Rightarrow> object_meta" where
  "kobjMeta (KConfigMap x) = objMeta x"
| "kobjMeta (KService x) = objMeta x"
| "kobjMeta (KStatefulSet x) = objMeta x"
| "kobjMeta (KDeployment x) = objMeta x"
| "kobjMeta (KPod x) = objMeta x"
| "kobjMeta (KPVC x) = objMeta x"
| "kobjMeta (KPDB x) = objMeta x"
| "kobjMeta (KHPA x) = objMeta x"
| "kobjMeta (KIngress x) = objMeta x"
| "kobjMeta (KStorageClass x) = objMeta x"
| "kobjMeta (KSecret x) = objMeta x"
| "kobjMeta (KDruid x) = objMeta x"
| "kobjMeta (KDruidIngestion x) = objMeta x"

text \<open>\<^verbatim>\<open>reflect.TypeOf(obj).String()\<close>.\<close>

fun detectType :: "kobj \<Rightarrow> string" where
  "detectType (KConfigMap _) = ''*v1.ConfigMap''"
| "detectType (KService _) = ''*v1.Service''"
| "detectType (KStatefulSet _) = ''*v1.StatefulSet''"
| "detectType (KDeployment _) = ''*v1.Deployment''"
| "detectType (KPod _) = ''*v1.Pod''"
| "detectType (KPVC _) = ''*v1.PersistentVolumeClaim''"
| "detectType (KPDB _) = ''*v1.PodDisruptionBudget''"
| "detectType (KHPA _) = ''*v2.HorizontalPodAutoscaler''"
| "detectType (KIngress _) = ''*v1.Ingress''"
| "detectType (KStorageClass _) = ''*v1.StorageClass''"
| "detectType (KSecret _) = ''*v1.Secret''"
| "detectType (KDruid _) = ''*v1alpha1.Druid''"
| "detectType (KDruidIngestion _) = ''*v1alpha1.DruidIngestion''"

datatype kind = ConfigMapKind | ServiceKind | StatefulSetKind | DeploymentKind | PodKind | PVCKind
  | PDBKind | HPAKind | IngressKind | StorageClassKind | SecretKind | DruidKind | DruidIngestionKind

text \<open>
  Delete options: the zero value of \<^verbatim>\<open>DeleteOptions\<close> or \<^verbatim>\<open>DeleteAllOfOptions\<close>, or
  \<^verbatim>\<open>PropagationPolicy(DeletePropagationOrphan)\<close>.
\<close>

datatype delete_option = EmptyOptions | PropagationOrphan

datatype patch =
    MergeFrom kobj
  | JSONPatchFinalizers "string list"
  | MergePatchStatus druid_cluster_status

record http_request =
  rqMethod :: string
  rqURL :: string
  rqBody :: string
  rqBasicAuth :: "(string \<times> string) option"

record http_response =
  rsBody :: string
  rsStatusCode :: int

datatype effect =
    GetCall kind string string
  | ListCall kind string strmap
  | CreateCall kobj
  | UpdateCall kobj
  | DeleteCall kobj delete_option
  | PatchCall kobj patch
  | StatusPatchCall kobj patch
  | HttpCall http_request
  | EventEff string string string

fun is_event :: "effect \<Rightarrow> bool" where
  "is_event (EventEff _ _ _) = True"
| "is_event _ = False"

text \<open>Requests that can change the cluster.\<close>

fun is_write :: "effect \<Rightarrow> bool" where
  "is_write (CreateCall _) = True"
| "is_write (UpdateCall _) = True"
| "is_write (DeleteCall _ _) = True"
| "is_write (PatchCall _ _) = True"
| "is_write (StatusPatchCall _ _) = True"
| "is_write _ = False"

fun is_delete :: "effect \<Rightarrow> bool" where
  "is_delete (DeleteCall _ _) = True"
| "is_delete _ = False"

definition requests :: "effect list \<Rightarrow> effect list" where
  "requests es = filter (\<lambda>e. \<not> is_event e) es"

definition writes :: "effect list \<Rightarrow> effect list" where
  "writes es = filter is_write es"

lemma requests_append [simp]: "requests (xs @ ys) = requests xs @ requests ys"
  by (simp add: requests_def)

lemma writes_append [simp]: "writes (xs @ ys) = writes xs @ writes ys"
  by (simp add: writes_def)

lemma requests_simps [simp]:
  "requests [] = []" "requests (e # es) = (if is_event e then requests es else e # requests es)"
  by (simp_all add: requests_def)

lemma writes_simps [simp]:
  "writes [] = []" "writes (e # es) = (if is_write e then e # writes es else writes es)"
  by (simp_all add: writes_def)

lemma in_requests: "e \<in> set (requests es) \<longleftrightarrow> e \<in> set es \<and> \<not> is_event e"
  by (auto simp: requests_def)

lemma is_write_not_event: "is_write e \<Longrightarrow> \<not> is_event e"
  by (cases e) auto

lemma writes_requests [simp]: "writes (requests es) = writes es"
  using is_write_not_event by (auto simp: writes_def requests_def intro!: filter_cong)

section \<open>The client\<close>

text \<open>
  What \<^verbatim>\<open>client.Client\<close> offers for one type of object: the request's effect on the server state
  and its answer. \<^verbatim>\<open>Get\<close>, \<^verbatim>\<open>Create\<close>, \<^verbatim>\<open>Update\<close> and \<^verbatim>\<open>Patch\<close> fill the object they are given, so
  they answer with the object.
\<close>

record ('w, 'o) resource_api =
  apiKind :: kind
  apiWrap :: "'o \<Rightarrow> kobj"
  apiGet :: "string \<Rightarrow> string \<Rightarrow> 'w \<Rightarrow> (goerr + 'o) \<times> 'w"
  apiList :: "string \<Rightarrow> strmap \<Rightarrow> 'w \<Rightarrow> (goerr + 'o list) \<times> 'w"
  apiCreate :: "'o \<Rightarrow> 'w \<Rightarrow> (goerr + 'o) \<times> 'w"
  apiUpdate :: "'o \<Rightarrow> 'w \<Rightarrow> (goerr + 'o) \<times> 'w"
  apiDelete :: "delete_option \<Rightarrow> 'o \<Rightarrow> 'w \<Rightarrow> (goerr + unit) \<times> 'w"
  apiPatch :: "patch \<Rightarrow> 'o \<Rightarrow> 'w \<Rightarrow> (goerr + 'o) \<times> 'w"
  apiStatusPatch :: "patch \<Rightarrow> 'o \<Rightarrow> 'w \<Rightarrow> (goerr + 'o) \<times> 'w"

text \<open>
  The library functions the operator calls on API objects and texts, as parameters:
  \<open>libMarshal\<close> (\<^verbatim>\<open>json.Marshal\<close> of an API object), \<open>libDigest\<close> (SHA-1 of the bytes in base 64),
  \<open>libSprintf\<close> (\<^verbatim>\<open>fmt.Sprintf\<close> of a user-given template and one string), \<open>libQuantityString\<close>
  (\<^verbatim>\<open>resource.Quantity.String\<close>), \<open>libUnmarshalJson\<close>
  and \<open>libMarshalJson\<close> (\<^verbatim>\<open>encoding/json\<close> on an \<^verbatim>\<open>interface{}\<close>), and \<^verbatim>\<open>json.Unmarshal\<close> into the
  structs with the field \<^verbatim>\<open>properties\<close> and with the fields \<^verbatim>\<open>task\<close> and \<^verbatim>\<open>id\<close>,
  \<open>libParseURL\<close> (the error of \<^verbatim>\<open>url.Parse\<close>), \<open>libURLString\<close> (the text of a parsed URL whose path is
  replaced), \<open>libQuote\<close> (the verb \<^verbatim>\<open>%q\<close>) and \<open>libParseDuration\<close> (\<^verbatim>\<open>time.ParseDuration\<close>).
\<close>

record golib =
  libMarshal :: "kobj \<Rightarrow> goerr + string"
  libDigest :: "string \<Rightarrow> string"
  libSprintf :: "string \<Rightarrow> string \<Rightarrow> string"
  libQuantityString :: "quantity \<Rightarrow> string"
  libUnmarshalJson :: "string \<Rightarrow> goerr + json"
  libMarshalJson :: "json \<Rightarrow> goerr + string"
  libUnmarshalProperties :: "string \<Rightarrow> goerr + string"
  libUnmarshalTask :: "string \<Rightarrow> goerr + string \<times> string"
  libParseURL :: "string \<Rightarrow> goerr option"
  libURLString :: "string \<Rightarrow> string \<Rightarrow> string"
  libQuote :: "string \<Rightarrow> string"
  libParseDuration :: "string \<Rightarrow> goerr + int"

text \<open>The client for every type the operator uses, the HTTP transport, the clock, the library.\<close>

record 'w client =
  clConfigMaps :: "('w, configmap) resource_api"
  clServices :: "('w, service) resource_api"
  clStatefulSets :: "('w, statefulset) resource_api"
  clDeployments :: "('w, deployment) resource_api"
  clPods :: "('w, pod) resource_api"
  clPVCs :: "('w, pvc) resource_api"
  clPDBs :: "('w, pdb) resource_api"
  clHPAs :: "('w, hpa) resource_api"
  clIngresses :: "('w, ingress) resource_api"
  clStorageClasses :: "('w, storageclass) resource_api"
  clSecrets :: "('w, secret) resource_api"
  clDruids :: "('w, druid) resource_api"
  clDruidIngestions :: "('w, druid_ingestion) resource_api"
  clHttp :: "http_request \<Rightarrow> 'w \<Rightarrow> (goerr + http_response) \<times> 'w"
  clNow :: "'w \<Rightarrow> int \<times> 'w"
  clLib :: golib

type_synonym ('w, 'a) io = "('w, effect, 'a) go"

definition sdkGet :: "('w, 'o) resource_api \<Rightarrow> string \<Rightarrow> string \<Rightarrow> ('w, 'o) io" where
  "sdkGet api name ns = ask (GetCall (apiKind api) name ns) (apiGet api name ns)"

definition sdkList :: "('w, 'o) resource_api \<Rightarrow> string \<Rightarrow> strmap \<Rightarrow> ('w, 'o list) io" where
  "sdkList api ns labels = ask (ListCall (apiKind api) ns labels) (apiList api ns labels)"

definition sdkCreate :: "('w, 'o) resource_api \<Rightarrow> 'o \<Rightarrow> ('w, 'o) io" where
  "sdkCreate api obj = ask (CreateCall (apiWrap api obj)) (apiCreate api obj)"

definition sdkUpdate :: "('w, 'o) resource_api \<Rightarrow> 'o \<Rightarrow> ('w, 'o) io" where
  "sdkUpdate api obj = ask (UpdateCall (apiWrap api obj)) (apiUpdate api obj)"

definition sdkDelete :: "('w, 'o) resource_api \<Rightarrow> delete_option \<Rightarrow> 'o \<Rightarrow> ('w, unit) io" where
  "sdkDelete api opt obj = ask (DeleteCall (apiWrap api obj) opt) (apiDelete api opt obj)"

definition sdkPatch :: "('w, 'o) resource_api \<Rightarrow> patch \<Rightarrow> 'o \<Rightarrow> ('w, 'o) io" where
  "sdkPatch api p obj = ask (PatchCall (apiWrap api obj) p) (apiPatch api p obj)"

definition sdkStatusPatch :: "('w, 'o) resource_api \<Rightarrow> patch \<Rightarrow> 'o \<Rightarrow> ('w, 'o) io" where
  "sdkStatusPatch api p obj = ask (StatusPatchCall (apiWrap api obj) p) (apiStatusPatch api p obj)"

definition timeNow :: "'w client \<Rightarrow> ('w, int) io" where
  "timeNow sdk = (\<lambda>s. case clNow sdk s of (t, s') \<Rightarrow> (Ok t, [], s'))"

lemmas sdk_defs = sdkGet_def sdkList_def sdkCreate_def sdkUpdate_def sdkDelete_def sdkPatch_def
  sdkStatusPatch_def

lemma timeNow_run [go_run]:
  "res (timeNow sdk) s = Ok (fst (clNow sdk s))" "effs (timeNow sdk) s = []"
  "post (timeNow sdk) s = snd (clNow sdk s)"
  by (simp_all add: timeNow_def go_defs split: prod.split)

lemma only_timeNow [only_intro]: "only Q (timeNow sdk)"
  by (simp add: only_def go_run)

section \<open>Event emitters\<close>

definition Event :: "string \<Rightarrow> string \<Rightarrow> string \<Rightarrow> ('w, unit) io" where
  "Event eventtype reason message = tell (EventEff eventtype reason message)"

abbreviation EventTypeNormal :: string where "EventTypeNormal \<equiv> ''Normal''"
abbreviation EventTypeWarning :: string where "EventTypeWarning \<equiv> ''Warning''"

text \<open>The event reasons of the \<^verbatim>\<open>druidEventReason\<close> constants.\<close>

abbreviation rollingDeployWait :: string where "rollingDeployWait \<equiv> ''DruidNodeRollingDeployWait''"
abbreviation druidOjectGetFail :: string where "druidOjectGetFail \<equiv> ''DruidOperatorGetFail''"
abbreviation druidNodeUpdateFail :: string where "druidNodeUpdateFail \<equiv> ''DruidOperatorUpdateFail''"
abbreviation druidNodeUpdateSuccess :: string where
  "druidNodeUpdateSuccess \<equiv> ''DruidOperatorUpdateSuccess''"
abbreviation druidNodeDeleteFail :: string where "druidNodeDeleteFail \<equiv> ''DruidOperatorDeleteFail''"
abbreviation druidNodeDeleteSuccess :: string where
  "druidNodeDeleteSuccess \<equiv> ''DruidOperatorDeleteSuccess''"
abbreviation druidNodeCreateSuccess :: string where
  "druidNodeCreateSuccess \<equiv> ''DruidOperatorCreateSuccess''"
abbreviation druidNodeCreateFail :: string where "druidNodeCreateFail \<equiv> ''DruidOperatorCreateFail''"
abbreviation druidNodePatchFail :: string where "druidNodePatchFail \<equiv> ''DruidOperatorPatchFail''"
abbreviation druidNodePatchSucess :: string where
  "druidNodePatchSucess \<equiv> ''DruidOperatorPatchSuccess''"
abbreviation druidObjectListFail :: string where "druidObjectListFail \<equiv> ''DruidOperatorListFail''"

text \<open>\<open>err = None\<close> is a nil error. With no error and no message nothing is emitted.\<close>

definition EmitEventGeneric :: "string \<Rightarrow> string \<Rightarrow> goerr option \<Rightarrow> ('w, unit) io" where
  "EmitEventGeneric eventReason msg err =
     (case err of
        Some e \<Rightarrow> Event EventTypeWarning eventReason (errString e)
      | None \<Rightarrow> if msg \<noteq> [] then Event EventTypeNormal eventReason msg else ret ())"

text \<open>The emitter reads the object it is given; a failed \<^verbatim>\<open>Get\<close> leaves it empty, with no name.\<close>

definition EmitEventOnGetError :: "goerr \<Rightarrow> ('w, unit) io" where
  "EmitEventOnGetError err =
     Event EventTypeWarning druidOjectGetFail
       (''Failed to get [Object:] due to ['' @ errString err @ '']'')"

text \<open>The list object of a failed \<^verbatim>\<open>List\<close> has no type metadata: the kind is the empty text.\<close>

definition EmitEventOnList :: "string \<Rightarrow> goerr option \<Rightarrow> ('w, unit) io" where
  "EmitEventOnList objNamespace err =
     (case err of
        Some e \<Rightarrow> Event EventTypeWarning druidObjectListFail
          (''Error listing object [] in namespace ['' @ objNamespace @ ''] due to ['' @ errString e @ '']'')
      | None \<Rightarrow> ret ())"

definition EmitEventOnUpdate :: "kobj \<Rightarrow> goerr option \<Rightarrow> ('w, unit) io" where
  "EmitEventOnUpdate updateObj err =
     (case err of
        Some e \<Rightarrow> Event EventTypeWarning druidNodeUpdateFail
          (''Failed to update ['' @ metaName (kobjMeta updateObj) @ '':'' @ detectType updateObj
           @ ''] due to ['' @ errString e @ ''].'')
      | None \<Rightarrow> Event EventTypeNormal druidNodeUpdateSuccess
          (''Updated ['' @ metaName (kobjMeta updateObj) @ '':'' @ detectType updateObj @ ''].''))"

definition EmitEventOnDelete :: "kobj \<Rightarrow> goerr option \<Rightarrow> ('w, unit) io" where
  "EmitEventOnDelete deleteObj err =
     (case err of
        Some e \<Rightarrow> Event EventTypeWarning druidNodeDeleteFail
          (''Error deleting object ['' @ detectType deleteObj @ '':'' @ metaName (kobjMeta deleteObj)
           @ ''] in namespace ['' @ metaNamespace (kobjMeta deleteObj) @ ''] due to ['' @ errString e @ '']'')
      | None \<Rightarrow> Event EventTypeNormal druidNodeDeleteSuccess
          (''Successfully deleted object ['' @ metaName (kobjMeta deleteObj) @ '':'' @ detectType deleteObj
           @ ''] in namespace ['' @ metaNamespace (kobjMeta deleteObj) @ '']''))"

definition EmitEventOnCreate :: "kobj \<Rightarrow> goerr option \<Rightarrow> ('w, unit) io" where
  "EmitEventOnCreate createObj err =
     (case err of
        Some e \<Rightarrow> Event EventTypeWarning druidNodeCreateFail
          (''Error creating object ['' @ metaName (kobjMeta createObj) @ ''] in namespace ['' @ detectType createObj
           @ '':'' @ metaNamespace (kobjMeta createObj) @ ''] due to ['' @ errString e @ '']'')
      | None \<Rightarrow> Event EventTypeNormal druidNodeCreateSuccess
          (''Successfully created object ['' @ metaName (kobjMeta createObj) @ '':'' @ detectType createObj
           @ ''] in namespace ['' @ metaNamespace (kobjMeta createObj) @ '']''))"

definition EmitEventOnPatch :: "kobj \<Rightarrow> goerr option \<Rightarrow> ('w, unit) io" where
  "EmitEventOnPatch patchObj err =
     (case err of
        Some e \<Rightarrow> Event EventTypeWarning druidNodePatchFail
          (''Error patching object ['' @ metaName (kobjMeta patchObj) @ '':'' @ detectType patchObj
           @ ''] in namespace ['' @ metaNamespace (kobjMeta patchObj) @ ''] due to ['' @ errString e @ '']'')
      | None \<Rightarrow> Event EventTypeNormal druidNodePatchSucess
          (''Successfully patched object ['' @ metaName (kobjMeta patchObj) @ '':'' @ detectType patchObj
           @ ''] in namespace ['' @ metaNamespace (kobjMeta patchObj) @ '']''))"

section \<open>Readers and writers\<close>

datatype druid_node_status = NoStatus | resourceCreated | resourceUpdated

definition reader_Get :: "('w, 'o) resource_api \<Rightarrow> string \<Rightarrow> 'd k8s_object_scheme \<Rightarrow> ('w, 'o) io" where
  "reader_Get api nodeSpecUniqueStr drd =
     handleE (sdkGet api nodeSpecUniqueStr (GetNamespace drd))
       (\<lambda>err. bindE (EmitEventOnGetError err) (\<lambda>_. throw err))
       ret"

definition reader_List ::
  "('w, 'o) resource_api \<Rightarrow> strmap \<Rightarrow> 'd k8s_object_scheme \<Rightarrow> ('w, 'o list) io" where
  "reader_List api selectorLabels drd =
     handleE (sdkList api (GetNamespace drd) selectorLabels)
       (\<lambda>err. bindE (EmitEventOnList (GetNamespace drd) (Some err)) (\<lambda>_. throw err))
       ret"

text \<open>The object the server answers with fills \<open>obj\<close>; \<open>writer_Patch\<close> returns it.\<close>

definition writer_Patch :: "('w, 'o) resource_api \<Rightarrow> bool \<Rightarrow> patch \<Rightarrow> 'o \<Rightarrow> ('w, 'o) io" where
  "writer_Patch api status p obj =
     (if \<not> status then
        handleE (sdkPatch api p obj)
          (\<lambda>err. bindE (EmitEventOnPatch (apiWrap api obj) (Some err)) (\<lambda>_. throw err)) ret
      else
        handleE (sdkStatusPatch api p obj)
          (\<lambda>err. bindE (EmitEventOnPatch (apiWrap api obj) (Some err)) (\<lambda>_. throw err)) ret)"

definition writer_Update :: "('w, 'o) resource_api \<Rightarrow> 'o \<Rightarrow> ('w, druid_node_status) io" where
  "writer_Update api obj =
     handleE (sdkUpdate api obj)
       (\<lambda>err. bindE (EmitEventOnUpdate (apiWrap api obj) (Some err)) (\<lambda>_. throw err))
       (\<lambda>obj'. bindE (EmitEventOnUpdate (apiWrap api obj') None) (\<lambda>_. ret resourceUpdated))"

definition writer_Create :: "('w, 'o) resource_api \<Rightarrow> 'o \<Rightarrow> ('w, druid_node_status) io" where
  "writer_Create api obj =
     handleE (sdkCreate api obj)
       (\<lambda>err. bindE (EmitEventOnCreate (apiWrap api obj) (Some err)) (\<lambda>_. throw err))
       (\<lambda>obj'. bindE (EmitEventOnCreate (apiWrap api obj') None) (\<lambda>_. ret resourceCreated))"

definition writer_Delete :: "('w, 'o) resource_api \<Rightarrow> delete_option \<Rightarrow> 'o \<Rightarrow> ('w, unit) io" where
  "writer_Delete api opt obj =
     handleE (sdkDelete api opt obj)
       (\<lambda>err. bindE (EmitEventOnDelete (apiWrap api obj) (Some err)) (\<lambda>_. throw err))
       (\<lambda>_. bindE (EmitEventOnDelete (apiWrap api obj) None) ret)"

section \<open>What the emitters and wrappers do\<close>

lemmas emit_defs = EmitEventGeneric_def EmitEventOnGetError_def EmitEventOnList_def
  EmitEventOnUpdate_def EmitEventOnDelete_def EmitEventOnCreate_def EmitEventOnPatch_def Event_def

text \<open>An emitter never fails, leaves the server alone and issues events only.\<close>

definition emits :: "('w, unit) io \<Rightarrow> bool" where
  "emits m \<longleftrightarrow> (\<forall>s. res m s = Ok () \<and> post m s = s \<and> requests (effs m s) = [])"

lemma emits_run:
  assumes "emits m"
  shows "res m s = Ok ()" "post m s = s" "requests (effs m s) = []" "writes (effs m s) = []"
  using assms writes_requests [of "effs m s"] by (simp_all add: emits_def)

lemma emits_tell_event: "emits (tell (EventEff a b c))"
  by (simp add: emits_def go_run)

lemma emits_ret: "emits (ret ())"
  by (simp add: emits_def go_run)

lemma emits_emitters [simp, intro]:
  "emits (Event a b c)" "emits (EmitEventGeneric r m e)" "emits (EmitEventOnGetError err)"
  "emits (EmitEventOnList n e)" "emits (EmitEventOnUpdate k e)" "emits (EmitEventOnDelete k e)"
  "emits (EmitEventOnCreate k e)" "emits (EmitEventOnPatch k e)"
  by (simp_all add: emit_defs emits_tell_event emits_ret split: option.split)

lemmas emitter_run [go_run] = emits_emitters [THEN emits_run(1)] emits_emitters [THEN emits_run(2)]
  emits_emitters [THEN emits_run(3)] emits_emitters [THEN emits_run(4)]

lemma only_emits: "emits m \<Longrightarrow> (\<And>a b c. Q (EventEff a b c)) \<Longrightarrow> only Q m"
proof (unfold only_def, intro allI)
  fix s
  assume "emits m" and Q: "\<And>a b c. Q (EventEff a b c)"
  then have "requests (effs m s) = []" by (simp add: emits_run)
  then have "list_all is_event (effs m s)" by (simp add: requests_def list_all_iff filter_empty_conv)
  moreover have "is_event e \<Longrightarrow> Q e" for e using Q by (cases e) auto
  ultimately show "list_all Q (effs m s)" by (auto simp: list_all_iff)
qed

text \<open>
  \<open>served answer xs w\<close> is the server's state after the requests for \<open>xs\<close>, one after the other, and
  \<open>accepted answer xs w\<close> says that each of them was answered without error, in the state the ones
  before it left.
\<close>

definition served :: "('x \<Rightarrow> 'w \<Rightarrow> 'r \<times> 'w) \<Rightarrow> 'x list \<Rightarrow> 'w \<Rightarrow> 'w" where
  "served answer xs w = fold (\<lambda>x w'. snd (answer x w')) xs w"

definition accepted :: "('x \<Rightarrow> 'w \<Rightarrow> (goerr + 'a) \<times> 'w) \<Rightarrow> 'x list \<Rightarrow> 'w \<Rightarrow> bool" where
  "accepted answer xs w \<longleftrightarrow> (\<forall>i < length xs. \<not> isl (fst (answer (xs ! i) (served answer (take i xs) w))))"

lemma served_simps [simp]:
  "served answer [] w = w" "served answer (x # xs) w = served answer xs (snd (answer x w))"
  "served answer (xs @ ys) w = served answer ys (served answer xs w)"
  by (simp_all add: served_def)

lemma accepted_simps [simp]:
  "accepted answer [] w" "accepted answer (x # xs) w \<longleftrightarrow> \<not> isl (fst (answer x w)) \<and> accepted answer xs (snd (answer x w))"
  by (simp_all add: accepted_def All_less_Suc2)

text \<open>
  The contract the client code relies on, for every reader and writer: one request to the
  server per call, no panic, and the outcome is the server's answer.
\<close>

locale api_operation =
  fixes run :: "'x \<Rightarrow> ('w, 'r) io"
    and request :: "'x \<Rightarrow> effect"
    and answer :: "'x \<Rightarrow> 'w \<Rightarrow> (goerr + 'a) \<times> 'w"
    and result :: "'a \<Rightarrow> 'r"
  assumes one_request: "requests (effs (run x) s) = [request x]"
    and answered: "res (run x) s = (case fst (answer x s) of Inl e \<Rightarrow> Err e | Inr a \<Rightarrow> Ok (result a))"
    and left_behind: "post (run x) s = snd (answer x s)"
begin

lemma not_panic: "res (run x) s \<noteq> Panic p"
  by (simp add: answered split: sum.split)

lemma ok_iff: "(\<exists>r. res (run x) s = Ok r) \<longleftrightarrow> (\<exists>a. fst (answer x s) = Inr a)"
  by (auto simp: answered split: sum.splits)

lemma only_run: "(\<And>a b c. Q (EventEff a b c)) \<Longrightarrow> Q (request x) \<Longrightarrow> only Q (run x)"
proof (unfold only_def, intro allI)
  fix s
  assume Q: "\<And>a b c. Q (EventEff a b c)" and r: "Q (request x)"
  have "e \<in> set (effs (run x) s) \<Longrightarrow> is_event e \<or> e = request x" for e
    using arg_cong [OF one_request [of x s], of set] by (auto simp: requests_def)
  moreover have "is_event e \<Longrightarrow> Q e" for e using Q by (cases e) auto
  ultimately show "list_all Q (effs (run x) s)" using r by (auto simp: list_all_iff)
qed

lemma run_writes: "writes (effs (run x) s) = (if is_write (request x) then [request x] else [])"
  using writes_requests [of "effs (run x) s"] by (simp add: one_request split: if_splits)

text \<open>
  A loop over such calls that stops at the first error issues the requests of a prefix of its
  items, in order, and of all of them when it succeeds.
\<close>

lemma loop_requests:
  "\<exists>n \<le> length xs. requests (effs (forE (\<lambda>x. bindE (run x) (\<lambda>_. ret ())) xs) s) = map request (take n xs)
     \<and> (res (forE (\<lambda>x. bindE (run x) (\<lambda>_. ret ())) xs) s = Ok () \<longrightarrow> n = length xs)"
proof (induction xs arbitrary: s)
  case Nil
  show ?case by (simp add: go_run)
next
  case (Cons x xs)
  show ?case
  proof (cases "res (run x) s")
    case (Ok r)
    obtain n where "n \<le> length xs"
      "requests (effs (forE (\<lambda>x. bindE (run x) (\<lambda>_. ret ())) xs) (post (run x) s)) = map request (take n xs)"
      "res (forE (\<lambda>x. bindE (run x) (\<lambda>_. ret ())) xs) (post (run x) s) = Ok () \<longrightarrow> n = length xs"
      using Cons.IH [of "post (run x) s"] by blast
    with Ok show ?thesis
      by (intro exI [of _ "Suc n"]) (simp add: go_run one_request)
  next
    case (Err e)
    then show ?thesis by (intro exI [of _ 1]) (simp add: go_run one_request)
  next
    case (Panic p)
    then show ?thesis by (simp add: not_panic)
  qed
qed

lemma loop_answers:
  "(res (forE (\<lambda>x. bindE (run x) (\<lambda>_. ret ())) xs) s = Ok () \<longleftrightarrow> accepted answer xs s)
   \<and> (accepted answer xs s \<longrightarrow> post (forE (\<lambda>x. bindE (run x) (\<lambda>_. ret ())) xs) s = served answer xs s)"
proof (induction xs arbitrary: s)
  case (Cons x xs)
  then show ?case by (auto simp: go_run answered left_behind split: sum.split)
qed (simp add: go_run)

lemma loop_not_panic: "res (forE (\<lambda>x. bindE (run x) (\<lambda>_. ret ())) xs) s \<noteq> Panic p"
proof (induction xs arbitrary: s)
  case (Cons x xs)
  then show ?case by (simp add: go_run not_panic split: outcome.split)
qed (simp add: go_run)

end

lemma case_outcome_ret [simp]:
  "(case x of Ok a \<Rightarrow> effs (ret (f a)) (s a) | Err e \<Rightarrow> [] | Panic p \<Rightarrow> []) = []"
  by (simp add: go_run split: outcome.split)

lemma bindE_unit [simp]: "bindE m (\<lambda>_. ret ()) = m"
  by (rule go_eqI) (simp_all add: go_run split: outcome.split)

interpretation sdk_get: api_operation "\<lambda>(name, ns). sdkGet api name ns"
  "\<lambda>(name, ns). GetCall (apiKind api) name ns" "\<lambda>(name, ns). apiGet api name ns" "\<lambda>x. x" for api
  by unfold_locales (auto simp: sdk_defs go_run)

interpretation sdk_list: api_operation "\<lambda>(ns, labels). sdkList api ns labels"
  "\<lambda>(ns, labels). ListCall (apiKind api) ns labels" "\<lambda>(ns, labels). apiList api ns labels" "\<lambda>x. x" for api
  by unfold_locales (auto simp: sdk_defs go_run)

interpretation rd_get: api_operation "\<lambda>name. reader_Get api name drd"
  "\<lambda>name. GetCall (apiKind api) name (GetNamespace drd)"
  "\<lambda>name. apiGet api name (GetNamespace drd)" "\<lambda>x. x" for api drd
  by unfold_locales (auto simp: reader_Get_def sdk_defs go_run split: sum.split)

interpretation rd_list: api_operation "\<lambda>labels. reader_List api labels drd"
  "\<lambda>labels. ListCall (apiKind api) (GetNamespace drd) labels"
  "\<lambda>labels. apiList api (GetNamespace drd) labels" "\<lambda>x. x" for api drd
  by unfold_locales (auto simp: reader_List_def sdk_defs go_run split: sum.split)

interpretation wr_create: api_operation "writer_Create api"
  "\<lambda>obj. CreateCall (apiWrap api obj)" "apiCreate api" "\<lambda>_. resourceCreated" for api
  by unfold_locales (auto simp: writer_Create_def sdk_defs go_run split: sum.split)

interpretation wr_update: api_operation "writer_Update api"
  "\<lambda>obj. UpdateCall (apiWrap api obj)" "apiUpdate api" "\<lambda>_. resourceUpdated" for api
  by unfold_locales (auto simp: writer_Update_def sdk_defs go_run split: sum.split)

interpretation wr_delete: api_operation "writer_Delete api opt"
  "\<lambda>obj. DeleteCall (apiWrap api obj) opt" "apiDelete api opt" "\<lambda>x. x" for api opt
  by unfold_locales (auto simp: writer_Delete_def sdk_defs go_run split: sum.split)

interpretation wr_patch: api_operation "writer_Patch api False p"
  "\<lambda>obj. PatchCall (apiWrap api obj) p" "apiPatch api p" "\<lambda>x. x" for api p
  by unfold_locales (auto simp: writer_Patch_def sdk_defs go_run split: sum.split)

interpretation wr_status_patch: api_operation "writer_Patch api True p"
  "\<lambda>obj. StatusPatchCall (apiWrap api obj) p" "apiStatusPatch api p" "\<lambda>x. x" for api p
  by unfold_locales (auto simp: writer_Patch_def sdk_defs go_run split: sum.split)

lemmas api_requests = rd_get.one_request rd_list.one_request wr_create.one_request
  wr_update.one_request wr_delete.one_request wr_patch.one_request wr_status_patch.one_request

lemmas api_results = rd_get.answered rd_list.answered wr_create.answered wr_update.answered
  wr_delete.answered wr_patch.answered wr_status_patch.answered

lemmas api_writes = rd_get.run_writes rd_list.run_writes wr_create.run_writes
  wr_update.run_writes wr_delete.run_writes wr_patch.run_writes wr_status_patch.run_writes

lemmas api_posts = rd_get.left_behind rd_list.left_behind wr_create.left_behind
  wr_update.left_behind wr_delete.left_behind wr_patch.left_behind wr_status_patch.left_behind

end
