(* ===== verification/Spec_Validation.thy ===== *)
theory Spec_Validation
  imports Druid_Types Util_Funcs
begin

text \<open>
  Additional containers (\<^verbatim>\<open>controllers/druid/additional_containers.go\<close>), the checks of a node's
  volume claim templates (\<^verbatim>\<open>controllers/druid/volume_expansion.go\<close>) and \<^verbatim>\<open>verifyDruidSpec\<close>
  (\<^verbatim>\<open>controllers/druid/handler.go\<close>), which a custom resource must pass before anything is
  deployed. Proved: a spec is accepted exactly when it satisfies the declarative predicate
  \<open>valid_spec\<close>, whatever the iteration order of the node map; and where an additional container
  ends up in the pod.
\<close>

section \<open>Additional containers\<close>

definition getAllAdditionalContainers :: "druid \<Rightarrow> druid_node_spec \<Rightarrow> additional_container list" where
  "getAllAdditionalContainers m nodeSpec =
     crAdditionalContainer (drSpec m) @ ndAdditionalContainer nodeSpec"

definition convertAdditionalContainer :: "additional_container \<Rightarrow> container" where
  "convertAdditionalContainer additional =
     \<lparr>ctName = acContainerName additional, ctImage = acImage additional,
      ctCommand = acCommand additional, ctArgs = acArgs additional,
      ctImagePullPolicy = acImagePullPolicy additional, ctPorts = [],
      ctResources = acResources additional, ctEnv = acEnv additional,
      ctEnvFrom = acEnvFrom additional, ctVolumeMounts = acVolumeMounts additional,
      ctLivenessProbe = None, ctReadinessProbe = None, ctStartupProbe = None,
      ctLifecycle = None, ctSecurityContext = acContainerSecurityContext additional\<rparr>"

fun addAdditional_loop :: "additional_container list \<Rightarrow> pod_spec \<Rightarrow> pod_spec" where
  "addAdditional_loop [] podSpec = podSpec"
| "addAdditional_loop (additional # rest) podSpec =
     (let container = convertAdditionalContainer additional in
      addAdditional_loop rest
        (if acRunAsInit additional
         then podSpec\<lparr>psInitContainers := psInitContainers podSpec @ [container]\<rparr>
         else podSpec\<lparr>psContainers := psContainers podSpec @ [container]\<rparr>))"

definition addAdditionalContainers :: "druid \<Rightarrow> druid_node_spec \<Rightarrow> pod_spec \<Rightarrow> pod_spec" where
  "addAdditionalContainers m nodeSpec podSpec =
     addAdditional_loop (getAllAdditionalContainers m nodeSpec) podSpec"

definition validateNodeAdditionalContainersSpec :: "druid \<Rightarrow> druid_node_spec \<Rightarrow> goerr option" where
  "validateNodeAdditionalContainersSpec drd nodeSpec =
     (let containerNames = map acContainerName (getAllAdditionalContainers drd nodeSpec);
          (duplicate, containerName) = hasDuplicateString containerNames
      in if duplicate
         then Some (GoErr (''node group '' @ ndNodeType nodeSpec @ '' has duplicate container name: '' @ containerName))
         else None)"

text \<open>A validation loop returns the first error.\<close>

fun firstError :: "('x \<Rightarrow> goerr option) \<Rightarrow> 'x list \<Rightarrow> goerr option" where
  "firstError f [] = None"
| "firstError f (x # xs) = (case f x of Some e \<Rightarrow> Some e | None \<Rightarrow> firstError f xs)"

definition validateAdditionalContainersSpec :: "druid \<Rightarrow> goerr option" where
  "validateAdditionalContainersSpec drd =
     firstError (\<lambda>(_, nodeSpec). validateNodeAdditionalContainersSpec drd nodeSpec) (crNodes (drSpec drd))"

section \<open>Volume claim templates\<close>

definition vctHasStorageClass :: "pvc \<Rightarrow> bool" where
  "vctHasStorageClass vct \<longleftrightarrow> pvcStorageClassName vct \<noteq> None \<and> pvcStorageClassName vct \<noteq> Some []"

definition validateNodeVolumeClaimTemplateSpec :: "druid_node_spec \<Rightarrow> goerr option" where
  "validateNodeVolumeClaimTemplateSpec nodeSpec =
     firstError (\<lambda>vct. if \<not> vctHasStorageClass vct
       then Some (GoErr (''node group '' @ ndNodeType nodeSpec
         @ '' has volume claim template without storage class which is not allowed: '' @ GetName vct))
       else None) (ndVolumeClaimTemplates nodeSpec)"

definition validateVolumeClaimTemplateSpec :: "druid \<Rightarrow> goerr option" where
  "validateVolumeClaimTemplateSpec drd =
     firstError (\<lambda>(_, nodeSpec). if ndKind nodeSpec = ''StatefulSet''
       then validateNodeVolumeClaimTemplateSpec nodeSpec else None) (crNodes (drSpec drd))"

section \<open>verifyDruidSpec\<close>

definition isLowerAlnum :: "char \<Rightarrow> bool" where
  "isLowerAlnum c \<longleftrightarrow> (CHR ''a'' \<le> c \<and> c \<le> CHR ''z'') \<or> (CHR ''0'' \<le> c \<and> c \<le> CHR ''9'')"

text \<open>\<^verbatim>\<open>[a-z0-9]([-a-z0-9]*[a-z0-9])?\<close>\<close>

definition labelRegex :: regex where
  "labelRegex = RSeq (RCls isLowerAlnum)
     (ROpt (RSeq (RStar (RCls (\<lambda>c. c = CHR ''-'' \<or> isLowerAlnum c))) (RCls isLowerAlnum)))"

text \<open>\<^verbatim>\<open>[a-z0-9]([-a-z0-9]*[a-z0-9])?(\.[a-z0-9]([-a-z0-9]*[a-z0-9])?)*\<close>\<close>

definition keyValidationRegex :: regex where
  "keyValidationRegex = RSeq labelRegex (RStar (RSeq (RCls (\<lambda>c. c = CHR ''.'')) labelRegex))"

definition keyRegexText :: string where
  "keyRegexText = ''[a-z0-9]([-a-z0-9]*[a-z0-9])?('' @ [char_of (92::nat)] @ ''.[a-z0-9]([-a-z0-9]*[a-z0-9])?)*''"

fun verify_loop :: "druid \<Rightarrow> string \<Rightarrow> (string \<times> druid_node_spec) list \<Rightarrow> string" where
  "verify_loop drd errorMsg [] = errorMsg"
| "verify_loop drd errorMsg ((key, node) # nodes) =
     (let errorMsg = (if crImage (drSpec drd) = [] \<and> ndImage node = []
            then errorMsg @ ''Image missing from Druid Cluster Spec'' @ [CHR 0x0A] else errorMsg);
          errorMsg = (if \<not> MatchString keyValidationRegex key
            then errorMsg @ ''Node['' @ key @ ''] Key must match k8s resource name regex '' @ [CHR 0x27]
              @ keyRegexText @ [CHR 0x27] else errorMsg)
      in verify_loop drd errorMsg nodes)"

text \<open>
  The result is the returned error. Its text is the accumulated message (\<^verbatim>\<open>fmt.Errorf\<close> of it
  without arguments).
\<close>

definition verifyDruidSpec :: "druid \<Rightarrow> goerr option" where
  "verifyDruidSpec drd =
     (case validateAdditionalContainersSpec drd of Some e \<Rightarrow> Some e
      | None \<Rightarrow> (case validateVolumeClaimTemplateSpec drd of Some e \<Rightarrow> Some e
        | None \<Rightarrow> (let errorMsg = verify_loop drd [] (crNodes (drSpec drd)) in
            if errorMsg = [] then None else Some (GoErr errorMsg))))"

section \<open>Lemmas\<close>

lemma firstError_None: "firstError f xs = None \<longleftrightarrow> (\<forall>x \<in> set xs. f x = None)"
  by (induction xs) (auto split: option.split)

lemma validateNodeAdditionalContainersSpec_None:
  "validateNodeAdditionalContainersSpec drd n = None \<longleftrightarrow>
     distinct (map acContainerName (getAllAdditionalContainers drd n))"
  using hasDuplicateString_iff [of "map acContainerName (getAllAdditionalContainers drd n)"]
  by (simp add: validateNodeAdditionalContainersSpec_def case_prod_beta' Let_def)

lemma verify_loop_empty:
  "verify_loop drd msg nodes = [] \<longleftrightarrow> msg = [] \<and>
     (\<forall>(key, node) \<in> set nodes. \<not> (crImage (drSpec drd) = [] \<and> ndImage node = [])
        \<and> MatchString keyValidationRegex key)"
proof (induction nodes arbitrary: msg)
  case (Cons n nodes)
  obtain key node where n: "n = (key, node)" by (cases n)
  have "verify_loop drd msg (n # nodes) = [] \<longleftrightarrow> msg = [] \<and>
      \<not> (crImage (drSpec drd) = [] \<and> ndImage node = []) \<and> MatchString keyValidationRegex key \<and>
      verify_loop drd [] nodes = []"
    unfolding n verify_loop.simps Let_def Cons.IH by (simp split: if_split)
  then show ?case by (simp add: Cons.IH n)
qed simp

text \<open>What \<^verbatim>\<open>verifyDruidSpec\<close> accepts, without loops and messages.\<close>

definition valid_spec :: "druid \<Rightarrow> bool" where
  "valid_spec drd \<longleftrightarrow> (\<forall>(key, node) \<in> set (crNodes (drSpec drd)).
      distinct (map acContainerName (getAllAdditionalContainers drd node))
    \<and> (ndKind node = ''StatefulSet'' \<longrightarrow> (\<forall>vct \<in> set (ndVolumeClaimTemplates node). vctHasStorageClass vct))
    \<and> (crImage (drSpec drd) \<noteq> [] \<or> ndImage node \<noteq> [])
    \<and> (\<exists>c \<in> set key. isLowerAlnum c))"

text \<open>The expression is not anchored: one lower-case letter or digit anywhere is a match.\<close>

lemma in_labelRegex_hd: "in_lang labelRegex s \<Longrightarrow> \<exists>c \<in> set s. isLowerAlnum c"
  unfolding labelRegex_def in_lang_simps by auto

lemma in_labelRegex_single: "isLowerAlnum c \<Longrightarrow> in_lang labelRegex [c]"
  using lang_seq [OF lang_cls [of isLowerAlnum c] lang_alt2 [OF lang_eps]]
  by (simp add: labelRegex_def ROpt_def)

lemma MatchString_key_iff: "MatchString keyValidationRegex key \<longleftrightarrow> (\<exists>c \<in> set key. isLowerAlnum c)"
proof
  assume "MatchString keyValidationRegex key"
  then obtain p u v where "key = p @ u @ v" and u: "in_lang keyValidationRegex u"
    by (auto simp: MatchString_iff)
  moreover from u have "\<exists>c \<in> set u. isLowerAlnum c"
    unfolding keyValidationRegex_def in_lang_simps by (auto dest!: in_labelRegex_hd)
  ultimately show "\<exists>c \<in> set key. isLowerAlnum c" by auto
next
  assume "\<exists>c \<in> set key. isLowerAlnum c"
  then obtain c p v where "isLowerAlnum c" and key: "key = p @ [c] @ v"
    by (metis append_Cons append_Nil split_list)
  then have "in_lang keyValidationRegex ([c] @ [])"
    unfolding keyValidationRegex_def by (intro lang_seq in_labelRegex_single lang_star0)
  with key show "MatchString keyValidationRegex key" unfolding MatchString_iff by (metis append_Nil2)
qed

lemma validateAdditionalContainersSpec_None:
  "validateAdditionalContainersSpec drd = None \<longleftrightarrow> (\<forall>(key, node) \<in> set (crNodes (drSpec drd)).
     distinct (map acContainerName (getAllAdditionalContainers drd node)))"
  by (auto simp: validateAdditionalContainersSpec_def firstError_None
      validateNodeAdditionalContainersSpec_None)

lemma validateVolumeClaimTemplateSpec_None:
  "validateVolumeClaimTemplateSpec drd = None \<longleftrightarrow> (\<forall>(key, node) \<in> set (crNodes (drSpec drd)).
     ndKind node = ''StatefulSet'' \<longrightarrow> (\<forall>vct \<in> set (ndVolumeClaimTemplates node). vctHasStorageClass vct))"
  unfolding validateVolumeClaimTemplateSpec_def firstError_None
  by (intro ball_cong refl) (auto simp: validateNodeVolumeClaimTemplateSpec_def firstError_None split: if_splits)

lemma verifyDruidSpec_None: "verifyDruidSpec drd = None \<longleftrightarrow> valid_spec drd"
proof -
  have "verifyDruidSpec drd = None \<longleftrightarrow> validateAdditionalContainersSpec drd = None
      \<and> validateVolumeClaimTemplateSpec drd = None \<and> verify_loop drd [] (crNodes (drSpec drd)) = []"
    by (simp add: verifyDruidSpec_def Let_def split: option.split)
  also have "\<dots> \<longleftrightarrow> valid_spec drd"
    unfolding validateAdditionalContainersSpec_None validateVolumeClaimTemplateSpec_None
      verify_loop_empty MatchString_key_iff valid_spec_def by fastforce
  finally show ?thesis .
qed

text \<open>Where the additional containers end up.\<close>

lemma addAdditional_loop_eq:
  "addAdditional_loop acs ps = ps
     \<lparr>psInitContainers := psInitContainers ps @ map convertAdditionalContainer (filter acRunAsInit acs),
      psContainers := psContainers ps @ map convertAdditionalContainer (filter (\<lambda>a. \<not> acRunAsInit a) acs)\<rparr>"
  by (induction acs arbitrary: ps) (simp_all add: Let_def)

lemmas addAdditionalContainers_eq = addAdditionalContainers_def [unfolded addAdditional_loop_eq]

section \<open>Properties\<close>

text \<open>
  C28 (functional). A custom resource passes verification exactly when in every node group the
  additional containers have distinct names, a StatefulSet's claim templates name a storage
  class, an image is set, and the key contains a lower-case letter or a digit. The predicate does
  not depend on the order in which the node map is visited.
\<close>

theorem spec_accepted_iff_valid:
  "(verifyDruidSpec drd = None) =
     (\<forall>(key, node) \<in> set (crNodes (drSpec drd)).
        distinct (map acContainerName (getAllAdditionalContainers drd node))
      \<and> (ndKind node = ''StatefulSet'' \<longrightarrow>
          (\<forall>vct \<in> set (ndVolumeClaimTemplates node). pvcStorageClassName vct \<noteq> None \<and> pvcStorageClassName vct \<noteq> Some []))
      \<and> (crImage (drSpec drd) \<noteq> [] \<or> ndImage node \<noteq> [])
      \<and> (\<exists>c \<in> set key. isLowerAlnum c))"
  by (auto simp: verifyDruidSpec_None valid_spec_def vctHasStorageClass_def split: option.splits)

definition validDruid :: druid where
  "validDruid = zeroDruid\<lparr>drSpec := zeroSpec\<lparr>crImage := ''druid:1'', crNodes := [(''b'', zeroNode)]\<rparr>\<rparr>"

theorem spec_accepted_witness: "verifyDruidSpec validDruid = None"
  using spec_accepted_iff_valid [of validDruid]
  by (simp add: validDruid_def zeroDruid_def zeroSpec_def zeroNode_def getAllAdditionalContainers_def isLowerAlnum_def)

text \<open>
  The check of a node key against the name pattern of Kubernetes is not
  anchored: a key passes as soon as one of its characters is a lower-case letter or a digit,
  so keys that do not match the pattern, and cannot be part of an object name, are accepted.
\<close>

theorem key_check_unanchored:
  "MatchString keyValidationRegex key = (\<exists>c \<in> set key. isLowerAlnum c)
   \<and> MatchString keyValidationRegex ''Bad_Key'' \<and> \<not> in_lang keyValidationRegex ''Bad_Key''"
proof -
  have "\<not> in_lang keyValidationRegex (CHR ''B'' # s)" for s
    unfolding keyValidationRegex_def labelRegex_def in_lang_simps by (auto simp: isLowerAlnum_def)
  moreover have "MatchString keyValidationRegex ''Bad_Key''"
    unfolding MatchString_key_iff by (simp add: isLowerAlnum_def)
  ultimately show ?thesis using MatchString_key_iff by blast
qed

end
