(* ===== verification/Memory_Client.thy ===== *)
theory Memory_Client
  imports Client_Interface
begin

text \<open>
  A concrete API server: the objects in memory, a clock, and a queue of HTTP answers. The
  client and the library are parameters of every definition of the development; this instance
  is what the witnesses of the properties run on. It shows that the named hypotheses on the
  client can hold. Nothing else depends on it.
\<close>

record world =
  wObjs :: "kobj list"
  wClock :: int
  wHttp :: "http_response list"

fun kindOf :: "kobj \<Rightarrow> kind" where
  "kindOf (KConfigMap _) = ConfigMapKind"
| "kindOf (KService _) = ServiceKind"
| "kindOf (KStatefulSet _) = StatefulSetKind"
| "kindOf (KDeployment _) = DeploymentKind"
| "kindOf (KPod _) = PodKind"
| "kindOf (KPVC _) = PVCKind"
| "kindOf (KPDB _) = PDBKind"
| "kindOf (KHPA _) = HPAKind"
| "kindOf (KIngress _) = IngressKind"
| "kindOf (KStorageClass _) = StorageClassKind"
| "kindOf (KSecret _) = SecretKind"
| "kindOf (KDruid _) = DruidKind"
| "kindOf (KDruidIngestion _) = DruidIngestionKind"

definition sameKey :: "kind \<Rightarrow> string \<Rightarrow> string \<Rightarrow> kobj \<Rightarrow> bool" where
  "sameKey kd name ns k \<longleftrightarrow> kindOf k = kd \<and> metaName (kobjMeta k) = name \<and> metaNamespace (kobjMeta k) = ns"

definition hasLabels :: "strmap \<Rightarrow> kobj \<Rightarrow> bool" where
  "hasLabels l k = fmsubset l (case metaLabels (kobjMeta k) of None \<Rightarrow> fmempty | Some m \<Rightarrow> m)"

definition memGet :: "kind \<Rightarrow> (kobj \<Rightarrow> 'o) \<Rightarrow> string \<Rightarrow> string \<Rightarrow> world \<Rightarrow> (goerr + 'o) \<times> world" where
  "memGet kd unwrap name ns w =
     (case find (sameKey kd name ns) (wObjs w) of
        None \<Rightarrow> Inl (NotFoundErr ''not found'')
      | Some k \<Rightarrow> Inr (unwrap k), w)"

definition memList :: "kind \<Rightarrow> (kobj \<Rightarrow> 'o) \<Rightarrow> string \<Rightarrow> strmap \<Rightarrow> world \<Rightarrow> (goerr + 'o list) \<times> world" where
  "memList kd unwrap ns l w =
     (Inr (map unwrap (filter (\<lambda>k. kindOf k = kd \<and> metaNamespace (kobjMeta k) = ns \<and> hasLabels l k) (wObjs w))), w)"

definition memCreate :: "('o \<Rightarrow> kobj) \<Rightarrow> 'o \<Rightarrow> world \<Rightarrow> (goerr + 'o) \<times> world" where
  "memCreate wrap x w =
     (let k = wrap x in
      if list_ex (sameKey (kindOf k) (metaName (kobjMeta k)) (metaNamespace (kobjMeta k))) (wObjs w)
      then (Inl (GoErr ''already exists''), w)
      else (Inr x, w\<lparr>wObjs := wObjs w @ [k]\<rparr>))"

definition memReplace :: "('o \<Rightarrow> kobj) \<Rightarrow> 'o \<Rightarrow> world \<Rightarrow> (goerr + 'o) \<times> world" where
  "memReplace wrap x w =
     (let k = wrap x; same = sameKey (kindOf k) (metaName (kobjMeta k)) (metaNamespace (kobjMeta k)) in
      if list_ex same (wObjs w)
      then (Inr x, w\<lparr>wObjs := map (\<lambda>old. if same old then k else old) (wObjs w)\<rparr>)
      else (Inl (NotFoundErr ''not found''), w))"

definition memDelete :: "('o \<Rightarrow> kobj) \<Rightarrow> 'o \<Rightarrow> world \<Rightarrow> (goerr + unit) \<times> world" where
  "memDelete wrap x w =
     (let k = wrap x; same = sameKey (kindOf k) (metaName (kobjMeta k)) (metaNamespace (kobjMeta k)) in
      if list_ex same (wObjs w)
      then (Inr (), w\<lparr>wObjs := filter (\<lambda>old. \<not> same old) (wObjs w)\<rparr>)
      else (Inl (NotFoundErr ''not found''), w))"

definition memApi :: "kind \<Rightarrow> ('o \<Rightarrow> kobj) \<Rightarrow> (kobj \<Rightarrow> 'o) \<Rightarrow> (world, 'o) resource_api" where
  "memApi kd wrap unwrap = \<lparr>apiKind = kd, apiWrap = wrap, apiGet = memGet kd unwrap,
     apiList = memList kd unwrap, apiCreate = memCreate wrap, apiUpdate = memReplace wrap,
     apiDelete = (\<lambda>_. memDelete wrap), apiPatch = (\<lambda>_. memReplace wrap),
     apiStatusPatch = (\<lambda>_. memReplace wrap)\<rparr>"

text \<open>A small JSON table and a digest that is the text itself.\<close>

definition memJson :: "string \<Rightarrow> goerr + json" where
  "memJson s =
     (if s = ''{}'' then Inr (JObj fmempty)
      else if s = ''{a:1}'' then Inr (JObj (fmupd ''a'' (JNum 1) fmempty))
      else if s = ''{a:1,b:2}'' then Inr (JObj (fmupd ''a'' (JNum 1) (fmupd ''b'' (JNum 2) fmempty)))
      else Inl (GoErr ''invalid character''))"

definition memLib :: golib where
  "memLib = \<lparr>libMarshal = (\<lambda>k. Inr (metaName (kobjMeta k))), libDigest = (\<lambda>s. s),
     libSprintf = (\<lambda>t s. t @ s), libQuantityString = (\<lambda>q. ''q''),
     libUnmarshalJson = memJson, libMarshalJson = (\<lambda>_. Inr ''{a:1}''),
     libUnmarshalProperties = (\<lambda>s. Inr s), libUnmarshalTask = (\<lambda>s. Inr (s, s)),
     libParseURL = (\<lambda>s. None), libURLString = (\<lambda>base path. base @ ''/'' @ path),
     libQuote = (\<lambda>s. s), libParseDuration = (\<lambda>s. Inl (GoErr ''invalid duration''))\<rparr>"

fun unConfigMap where "unConfigMap (KConfigMap x) = x"
fun unService where "unService (KService x) = x"
fun unStatefulSet where "unStatefulSet (KStatefulSet x) = x"
fun unDeployment where "unDeployment (KDeployment x) = x"
fun unPod where "unPod (KPod x) = x"
fun unPVC where "unPVC (KPVC x) = x"
fun unPDB where "unPDB (KPDB x) = x"
fun unHPA where "unHPA (KHPA x) = x"
fun unIngress where "unIngress (KIngress x) = x"
fun unStorageClass where "unStorageClass (KStorageClass x) = x"
fun unSecret where "unSecret (KSecret x) = x"
fun unDruid where "unDruid (KDruid x) = x"
fun unDruidIngestion where "unDruidIngestion (KDruidIngestion x) = x"

definition memHttp :: "http_request \<Rightarrow> world \<Rightarrow> (goerr + http_response) \<times> world" where
  "memHttp rq w = (case wHttp w of [] \<Rightarrow> (Inl (GoErr ''connection refused''), w)
     | r # rs \<Rightarrow> (Inr r, w\<lparr>wHttp := rs\<rparr>))"

definition memClient :: "world client" where
  "memClient = \<lparr>clConfigMaps = memApi ConfigMapKind KConfigMap unConfigMap,
     clServices = memApi ServiceKind KService unService,
     clStatefulSets = memApi StatefulSetKind KStatefulSet unStatefulSet,
     clDeployments = memApi DeploymentKind KDeployment unDeployment,
     clPods = memApi PodKind KPod unPod,
     clPVCs = memApi PVCKind KPVC unPVC,
     clPDBs = memApi PDBKind KPDB unPDB,
     clHPAs = memApi HPAKind KHPA unHPA,
     clIngresses = memApi IngressKind KIngress unIngress,
     clStorageClasses = memApi StorageClassKind KStorageClass unStorageClass,
     clSecrets = memApi SecretKind KSecret unSecret,
     clDruids = memApi DruidKind KDruid unDruid,
     clDruidIngestions = memApi DruidIngestionKind KDruidIngestion unDruidIngestion,
     clHttp = memHttp, clNow = (\<lambda>w. (wClock w, w)), clLib = memLib\<rparr>"

definition emptyWorld :: world where "emptyWorld = \<lparr>wObjs = [], wClock = 0, wHttp = []\<rparr>"

lemmas mem_defs = memClient_def memApi_def memGet_def memList_def memCreate_def memReplace_def
  memDelete_def memHttp_def memLib_def sameKey_def hasLabels_def emptyWorld_def

section \<open>Sample objects\<close>

definition metaOf :: "string \<Rightarrow> strmap option \<Rightarrow> object_meta" where
  "metaOf name labels = zeroMeta\<lparr>metaName := name, metaNamespace := ''ns'', metaLabels := labels\<rparr>"

definition crLabels :: strmap where
  "crLabels = fmupd ''druid_cr'' ''c'' (fmupd ''app'' ''druid'' fmempty)"

definition samplePvc :: "string \<Rightarrow> pvc" where
  "samplePvc name = \<lparr>tmAPIVersion = ''v1'', tmKind = ''PersistentVolumeClaim'', objMeta = metaOf name (Some crLabels),
     pvcStorageClassName = Some ''ssd'', pvcRequests = Some (fmupd ''storage'' 10 fmempty), pvcRest = []\<rparr>"

definition samplePodSpec :: pod_spec where
  "samplePodSpec = \<lparr>psNodeSelector = None, psTopologySpreadConstraints = [], psTolerations = [],
     psAffinity = ''{}'', psImagePullSecrets = None, psInitContainers = [], psContainers = [],
     psTerminationGracePeriodSeconds = None, psVolumes = [], psSecurityContext = None,
     psServiceAccountName = [], psPriorityClassName = [], psDNSPolicy = [], psDNSConfig = None\<rparr>"

definition sampleTemplate :: pod_template where
  "sampleTemplate = \<lparr>ptLabels = crLabels, ptAnnotations = None, ptSpec = samplePodSpec\<rparr>"

definition sampleSts :: "string \<Rightarrow> statefulset" where
  "sampleSts name = \<lparr>tmAPIVersion = ''apps/v1'', tmKind = ''StatefulSet'', objMeta = metaOf name (Some crLabels),
     stsSpec = \<lparr>stsServiceName = [], stsMatchLabels = crLabels, stsReplicas = 1, stsPodManagementPolicy = ''Parallel'',
       stsUpdateStrategy = ''{}'', stsTemplate = sampleTemplate, stsVolumeClaimTemplates = [samplePvc ''data'']\<rparr>,
     stsStatus = \<lparr>stReplicas = 1, stReadyReplicas = 1, stCurrentReplicas = 1,
       stCurrentRevision = ''r1'', stUpdateRevision = ''r1''\<rparr>\<rparr>"

definition sampleDeployment :: "string \<Rightarrow> condition list \<Rightarrow> deployment" where
  "sampleDeployment name conds = \<lparr>tmAPIVersion = ''apps/v1'', tmKind = ''Deployment'',
     objMeta = metaOf name (Some crLabels),
     depSpec = \<lparr>dpMatchLabels = crLabels, dpReplicas = 1, dpTemplate = sampleTemplate,
       dpStrategyType = ''RollingUpdate'', dpRollingUpdate = \<lparr>ruMaxUnavailable = None, ruMaxSurge = None\<rparr>\<rparr>,
     depStatus = \<lparr>dsConditions = conds, dsReadyReplicas = 1, dsReplicas = 1\<rparr>\<rparr>"

definition samplePod :: "string \<Rightarrow> string \<Rightarrow> string list \<Rightarrow> pod" where
  "samplePod name phase claims = \<lparr>tmAPIVersion = ''v1'', tmKind = ''Pod'', objMeta = metaOf name (Some crLabels),
     podVolumes = Some (map (\<lambda>c. \<lparr>volName = c, volConfigMapName = None, volPVCClaimName = Some c, volRest = []\<rparr>) claims),
     podPhase = phase, podConditions = [], podContainerStatuses = []\<rparr>"

definition sampleDruid :: druid where
  "sampleDruid = zeroDruid\<lparr>tmAPIVersion := ''druid.apache.org/v1alpha1'', tmKind := ''Druid'',
     objMeta := (metaOf ''c'' None)\<lparr>metaUID := ''u1'', metaGeneration := 2\<rparr>,
     drSpec := zeroSpec\<lparr>crImage := ''druid:1''\<rparr>\<rparr>"

definition historicalNode :: druid_node_spec where
  "historicalNode = zeroNode\<lparr>ndNodeType := historical, ndKind := ''StatefulSet'', ndDruidPort := 8083\<rparr>"

definition rollingDruid :: druid where
  "rollingDruid = sampleDruid\<lparr>drSpec := (drSpec sampleDruid)\<lparr>crRollingDeploy := True,
     crNodes := [(''h'', historicalNode)]\<rparr>\<rparr>"

lemmas sample_defs = metaOf_def crLabels_def samplePvc_def samplePodSpec_def sampleTemplate_def
  sampleSts_def sampleDeployment_def samplePod_def sampleDruid_def zeroDruid_def zeroSpec_def zeroMeta_def

section \<open>A stateless server\<close>

text \<open>
  A server without a state that accepts every write, lists nothing, and answers every read with
  \<^emph>\<open>not found\<close>, except for one StatefulSet and one custom resource.
\<close>

definition stubApi :: "kind \<Rightarrow> ('o \<Rightarrow> kobj) \<Rightarrow> 'o option \<Rightarrow> (unit, 'o) resource_api" where
  "stubApi kd wrap stored = \<lparr>apiKind = kd, apiWrap = wrap,
     apiGet = (\<lambda>_ _ w. (case stored of None \<Rightarrow> Inl (NotFoundErr ''not found'') | Some x \<Rightarrow> Inr x, w)),
     apiList = (\<lambda>_ _ w. (Inr [], w)), apiCreate = (\<lambda>x w. (Inr x, w)), apiUpdate = (\<lambda>x w. (Inr x, w)),
     apiDelete = (\<lambda>_ _ w. (Inr (), w)), apiPatch = (\<lambda>_ x w. (Inr x, w)), apiStatusPatch = (\<lambda>_ x w. (Inr x, w))\<rparr>"

definition stubClient :: "statefulset \<Rightarrow> unit client" where
  "stubClient sts = \<lparr>clConfigMaps = stubApi ConfigMapKind KConfigMap None,
     clServices = stubApi ServiceKind KService None,
     clStatefulSets = stubApi StatefulSetKind KStatefulSet (Some sts),
     clDeployments = stubApi DeploymentKind KDeployment None,
     clPods = stubApi PodKind KPod None, clPVCs = stubApi PVCKind KPVC None, clPDBs = stubApi PDBKind KPDB None,
     clHPAs = stubApi HPAKind KHPA None, clIngresses = stubApi IngressKind KIngress None,
     clStorageClasses = stubApi StorageClassKind KStorageClass None, clSecrets = stubApi SecretKind KSecret None,
     clDruids = stubApi DruidKind KDruid (Some rollingDruid), clDruidIngestions = stubApi DruidIngestionKind KDruidIngestion None,
     clHttp = (\<lambda>_ w. (Inl (GoErr ''refused''), w)), clNow = (\<lambda>w. (0, w)), clLib = memLib\<rparr>"

end
