(* ===== verification/Resource_Sync.thy ===== *)
theory Resource_Sync
  imports Memory_Client Util_Funcs "HOL-Library.Sublist"
begin

text \<open>
  The synchronisation core of \<^verbatim>\<open>controllers/druid/handler.go\<close>: the hash that tells whether an
  object changed, the owner reference, \<open>sdkCreateOrUpdateAsNeeded\<close> and \<open>deleteUnusedResources\<close>.
  Both are generic in the kind of object: the record extension \<open>'a\<close> is the kind's own fields.
  Proved: which requests each branch issues, that a second run over an unchanged object writes
  nothing, and that the cleanup deletes exactly the listed objects no node group asked for.
\<close>

section \<open>Operations\<close>

definition druidOpResourceHash :: string where "druidOpResourceHash = ''druidOpResourceHash''"

definition getObjectHash :: "golib \<Rightarrow> kobj \<Rightarrow> goerr + string" where
  "getObjectHash lib obj =
     (case libMarshal lib obj of Inl err \<Rightarrow> Inl err | Inr bytes \<Rightarrow> Inr (libDigest lib bytes))"

text \<open>
  A nil annotation map is replaced by a fresh one, otherwise the map is written in place.
  The caller ignores the error: the object then keeps its annotations.
\<close>

definition addHashToObject ::
  "golib \<Rightarrow> ('a k8s_object_scheme \<Rightarrow> kobj) \<Rightarrow> 'a k8s_object_scheme \<Rightarrow> 'a k8s_object_scheme" where
  "addHashToObject lib wrap obj =
     (case getObjectHash lib (wrap obj) of
        Inl err \<Rightarrow> obj
      | Inr sha \<Rightarrow> SetAnnotations (fmupd druidOpResourceHash sha (GetAnnotations obj)) obj)"

definition asOwner :: "druid \<Rightarrow> owner_reference" where
  "asOwner m = \<lparr>ownAPIVersion = tmAPIVersion m, ownKind = tmKind m, ownName = GetName m,
     ownUID = metaUID (objMeta m), ownController = Some True\<rparr>"

definition addOwnerRefToObject ::
  "owner_reference \<Rightarrow> 'a k8s_object_scheme \<Rightarrow> 'a k8s_object_scheme" where
  "addOwnerRefToObject ownerRef obj =
     SetOwnerReferences (metaOwnerReferences (objMeta obj) @ [ownerRef]) obj"

definition alwaysTrueIsEqualsFn :: "'o \<Rightarrow> 'o \<Rightarrow> bool" where
  "alwaysTrueIsEqualsFn prev new = True"

definition noopUpdaterFn :: "'o \<Rightarrow> 'o \<Rightarrow> 'o" where
  "noopUpdaterFn prev new = new"

text \<open>
  \<open>objFn\<close> builds the wanted object. The updater returns the object it leaves behind. Besides
  the status the model returns the set of names and the object as it was before the request,
  because its annotation map may be shared with the custom resource.
\<close>

definition sdkCreateOrUpdateAsNeeded ::
  "golib \<Rightarrow> ('w, 'a k8s_object_scheme) resource_api \<Rightarrow> ('w, 'a k8s_object_scheme) io
   \<Rightarrow> ('a k8s_object_scheme \<Rightarrow> 'a k8s_object_scheme \<Rightarrow> bool)
   \<Rightarrow> ('a k8s_object_scheme \<Rightarrow> 'a k8s_object_scheme \<Rightarrow> 'a k8s_object_scheme)
   \<Rightarrow> druid \<Rightarrow> string set \<Rightarrow> ('w, druid_node_status \<times> string set \<times> 'a k8s_object_scheme) io" where
  "sdkCreateOrUpdateAsNeeded lib api objFn isEqualFn updaterFn drd names =
     bindE objFn (\<lambda>obj.
       let names' = insert (GetName obj) names;
           obj = addOwnerRefToObject (asOwner drd) obj;
           obj = addHashToObject lib (apiWrap api) obj
       in handleE (sdkGet api (GetName obj) (GetNamespace obj))
            (\<lambda>err. if isNotFound err then
                 bindE (writer_Create api obj) (\<lambda>create. ret (create, names', obj))
               else
                 bindE (EmitEventGeneric druidOjectGetFail [] (Some err)) (\<lambda>_.
                   throw (GoErr (''Failed to get ['' @ tmKind obj @ '':'' @ GetName obj
                     @ ''] due to ['' @ errString err @ ''].''))))
            (\<lambda>prevObj.
               if mapGet (GetAnnotations obj) druidOpResourceHash
                    \<noteq> mapGet (GetAnnotations prevObj) druidOpResourceHash \<or> \<not> isEqualFn prevObj obj
               then
                 let sent = updaterFn prevObj (SetResourceVersion (GetResourceVersion prevObj) obj)
                 in bindE (writer_Update api sent) (\<lambda>update. ret (update, names', obj))
               else ret (NoStatus, names', obj)))"

definition deleteUnused_step ::
  "('w, 'a k8s_object_scheme) resource_api \<Rightarrow> string set \<Rightarrow> string list
   \<Rightarrow> 'a k8s_object_scheme \<Rightarrow> ('w, string list) io" where
  "deleteUnused_step api names survivorNames s =
     (if GetName s \<notin> names then
        handleE (writer_Delete api EmptyOptions s)
          (\<lambda>err. ret (survivorNames @ [GetName s]))
          (\<lambda>_. ret survivorNames)
      else ret (survivorNames @ [GetName s]))"

text \<open>A list that fails is logged, and nothing survives in the status.\<close>

definition deleteUnusedResources ::
  "('w, 'a k8s_object_scheme) resource_api \<Rightarrow> druid \<Rightarrow> string set \<Rightarrow> strmap \<Rightarrow> ('w, string list) io" where
  "deleteUnusedResources api drd names selectorLabels =
     handleE (sdkList api (GetNamespace drd) selectorLabels)
       (\<lambda>err. ret [])
       (\<lambda>items. foldE (deleteUnused_step api names) [] items)"

section \<open>The object that is sent\<close>

definition prepared ::
  "golib \<Rightarrow> ('w, 'a k8s_object_scheme) resource_api \<Rightarrow> druid \<Rightarrow> 'a k8s_object_scheme \<Rightarrow> 'a k8s_object_scheme" where
  "prepared lib api drd obj = addHashToObject lib (apiWrap api) (addOwnerRefToObject (asOwner drd) obj)"

lemma prepared_meta [simp]:
  "GetName (prepared lib api drd obj) = GetName obj"
  "GetNamespace (prepared lib api drd obj) = GetNamespace obj"
  "metaOwnerReferences (objMeta (prepared lib api drd obj)) = metaOwnerReferences (objMeta obj) @ [asOwner drd]"
  "metaLabels (objMeta (prepared lib api drd obj)) = metaLabels (objMeta obj)"
  "tmKind (prepared lib api drd obj) = tmKind obj"
  by (simp_all add: prepared_def addHashToObject_def addOwnerRefToObject_def metaSet_defs split: sum.split)

text \<open>Preparing an object touches only its owner references and its hash annotation.\<close>

lemma prepared_annotations:
  "k \<noteq> druidOpResourceHash \<Longrightarrow>
   fmlookup (GetAnnotations (prepared lib api drd obj)) k = fmlookup (GetAnnotations obj) k"
  by (simp add: prepared_def addHashToObject_def addOwnerRefToObject_def GetAnnotations_def metaSet_defs
      split: sum.split)

definition hashOf :: "'a k8s_object_scheme \<Rightarrow> string" where
  "hashOf obj = mapGet (GetAnnotations obj) druidOpResourceHash"

lemma sync_unfold:
  "sdkCreateOrUpdateAsNeeded lib api objFn isEqualFn updaterFn drd names =
     bindE objFn (\<lambda>obj. let new = prepared lib api drd obj; names' = insert (GetName obj) names in
       handleE (sdkGet api (GetName obj) (GetNamespace obj))
         (\<lambda>err. if isNotFound err then
              bindE (writer_Create api new) (\<lambda>create. ret (create, names', new))
            else bindE (EmitEventGeneric druidOjectGetFail [] (Some err)) (\<lambda>_.
              throw (GoErr (''Failed to get ['' @ tmKind obj @ '':'' @ GetName obj
                @ ''] due to ['' @ errString err @ ''].''))))
         (\<lambda>prev. if hashOf new \<noteq> hashOf prev \<or> \<not> isEqualFn prev new then
              bindE (writer_Update api (updaterFn prev (SetResourceVersion (GetResourceVersion prev) new)))
                (\<lambda>update. ret (update, names', new))
            else ret (NoStatus, names', new)))"
  unfolding sdkCreateOrUpdateAsNeeded_def Let_def prepared_def [symmetric] hashOf_def [symmetric] prepared_meta
  by simp

section \<open>Rules for the effects\<close>

lemma sync_requests:
  "requests (effs (sdkCreateOrUpdateAsNeeded lib api (ret obj) isEqualFn updaterFn drd names) s) =
     GetCall (apiKind api) (GetName obj) (GetNamespace obj) #
     (case fst (apiGet api (GetName obj) (GetNamespace obj) s) of
        Inl err \<Rightarrow> if isNotFound err then [CreateCall (apiWrap api (prepared lib api drd obj))] else []
      | Inr prev \<Rightarrow>
          if hashOf (prepared lib api drd obj) = hashOf prev \<and> isEqualFn prev (prepared lib api drd obj) then []
          else [UpdateCall (apiWrap api (updaterFn prev
                 (SetResourceVersion (GetResourceVersion prev) (prepared lib api drd obj))))])"
  by (auto simp: sync_unfold Let_def go_run sdk_defs api_requests split: sum.split outcome.split)

lemma only_sync [only_intro]:
  assumes "only Q objFn" and ev: "\<And>a b c. Q (EventEff a b c)"
    and g: "\<And>n ns. Q (GetCall (apiKind api) n ns)"
    and c: "\<And>obj. Q (CreateCall (apiWrap api (prepared lib api drd obj)))"
    and u: "\<And>prev v obj. Q (UpdateCall (apiWrap api (updaterFn prev (SetResourceVersion v (prepared lib api drd obj)))))"
  shows "only Q (sdkCreateOrUpdateAsNeeded lib api objFn isEqualFn updaterFn drd names)"
  unfolding sync_unfold Let_def sdk_defs
  using assms by (intro only_intro wr_create.only_run wr_update.only_run only_emits emits_emitters) auto

lemma sync_not_panic:
  assumes "\<And>p. res objFn s \<noteq> Panic p"
  shows "res (sdkCreateOrUpdateAsNeeded lib api objFn isEqualFn updaterFn drd names) s \<noteq> Panic p"
  using assms wr_create.not_panic [of api] wr_update.not_panic [of api]
  by (auto simp: sync_unfold Let_def go_run sdk_defs split: outcome.split sum.split)

text \<open>A success records the object's name.\<close>

lemma sync_names:
  "res (sdkCreateOrUpdateAsNeeded lib api (ret obj) isEqualFn updaterFn drd names) s = Ok (st, names', obj') \<Longrightarrow>
   names' = insert (GetName obj) names \<and> obj' = prepared lib api drd obj"
  by (auto simp: sync_unfold Let_def go_run sdk_defs split: outcome.splits sum.splits if_splits)

section \<open>Cleanup\<close>

lemma step_keep:
  "GetName x \<in> names \<Longrightarrow> deleteUnused_step api names acc x = ret (acc @ [GetName x])"
  by (simp add: deleteUnused_step_def)

lemma step_drop:
  "GetName x \<notin> names \<Longrightarrow> deleteUnused_step api names acc x =
     handleE (writer_Delete api EmptyOptions x) (\<lambda>err. ret (acc @ [GetName x])) (\<lambda>_. ret acc)"
  by (simp add: deleteUnused_step_def)

lemma delete_loop_requests:
  "requests (effs (foldE (deleteUnused_step api names) acc items) s) =
     map (\<lambda>x. DeleteCall (apiWrap api x) EmptyOptions) (filter (\<lambda>x. GetName x \<notin> names) items)"
proof (induction items arbitrary: acc s)
  case Nil
  show ?case by (simp add: go_run)
next
  case (Cons x items)
  then show ?case
    using wr_delete.not_panic [of api EmptyOptions x s]
    by (auto simp: deleteUnused_step_def go_run api_requests split: outcome.split)
qed

text \<open>
  The items that are still there after the loop over the first ones: the wanted ones, and the
  unwanted ones whose deletion the server refused in the state the deletions before it left.
\<close>

definition survives ::
  "('w, 'a k8s_object_scheme) resource_api \<Rightarrow> string set \<Rightarrow> 'a k8s_object_scheme list \<Rightarrow> 'w \<Rightarrow> nat \<Rightarrow> bool" where
  "survives api names items w i \<longleftrightarrow> GetName (items ! i) \<in> names
     \<or> isl (fst (apiDelete api EmptyOptions (items ! i)
         (served (apiDelete api EmptyOptions) (filter (\<lambda>x. GetName x \<notin> names) (take i items)) w)))"

lemma survives_append: "i < length items \<Longrightarrow> survives api names (items @ rest) w i = survives api names items w i"
  by (simp add: survives_def nth_append)

lemma delete_loop_result:
  "res (foldE (deleteUnused_step api names) acc items) s
     = Ok (acc @ map (\<lambda>i. GetName (items ! i)) (filter (survives api names items s) [0..<length items]))
   \<and> post (foldE (deleteUnused_step api names) acc items) s
     = served (apiDelete api EmptyOptions) (filter (\<lambda>x. GetName x \<notin> names) items) s"
proof (induction items rule: rev_induct)
  case Nil
  show ?case by (simp add: go_run)
next
  case (snoc x items)
  let ?w = "served (apiDelete api EmptyOptions) (filter (\<lambda>x. GetName x \<notin> names) items) s"
  have old: "map (\<lambda>i. GetName ((items @ [x]) ! i)) (filter (survives api names (items @ [x]) s) [0..<length items])
      = map (\<lambda>i. GetName (items ! i)) (filter (survives api names items s) [0..<length items])"
    by (rule map_cong) (auto simp: survives_append nth_append intro!: filter_cong)
  have new: "survives api names (items @ [x]) s (length items)
      \<longleftrightarrow> GetName x \<in> names \<or> isl (fst (apiDelete api EmptyOptions x ?w))"
    by (simp add: survives_def)
  show ?case
    using snoc old new
    by (simp add: foldE_append go_run deleteUnused_step_def api_results api_posts split: sum.split)
qed

lemma only_deleteUnusedResources [only_intro]:
  assumes "\<And>a b c. Q (EventEff a b c)" "\<And>ns l. Q (ListCall (apiKind api) ns l)"
    and "\<And>x. GetName x \<notin> names \<Longrightarrow> Q (DeleteCall (apiWrap api x) EmptyOptions)"
  shows "only Q (deleteUnusedResources api drd names ls)"
  unfolding deleteUnusedResources_def deleteUnused_step_def sdk_defs
  using assms by (intro only_intro wr_delete.only_run) auto

lemma deleteUnusedResources_ok: "\<exists>xs. res (deleteUnusedResources api drd names ls) s = Ok xs"
  using delete_loop_result [of api names "[]"]
  by (auto simp: deleteUnusedResources_def go_run sdk_defs split: sum.split)

section \<open>Reading back what was written\<close>

text \<open>
  What the operator relies on for convergence: an object that was created or updated is found
  under its name with the annotations it was sent with, and reading changes nothing.
\<close>

definition reads_back :: "('w, 'a k8s_object_scheme) resource_api \<Rightarrow> bool" where
  "reads_back api \<longleftrightarrow>
     (\<forall>x s x' s'. apiCreate api x s = (Inr x', s') \<longrightarrow>
        (\<exists>p. fst (apiGet api (GetName x) (GetNamespace x) s') = Inr p \<and> GetAnnotations p = GetAnnotations x))
   \<and> (\<forall>x s x' s'. apiUpdate api x s = (Inr x', s') \<longrightarrow>
        (\<exists>p. fst (apiGet api (GetName x) (GetNamespace x) s') = Inr p \<and> GetAnnotations p = GetAnnotations x))
   \<and> (\<forall>n ns s. snd (apiGet api n ns s) = s)"

lemma find_append_new: "list_all (\<lambda>x. \<not> P x) xs \<Longrightarrow> P y \<Longrightarrow> find P (xs @ [y]) = Some y"
  by (induction xs) auto

lemma find_map_replace: "list_ex P xs \<Longrightarrow> P y \<Longrightarrow> find P (map (\<lambda>x. if P x then y else x) xs) = Some y"
  by (induction xs) auto

lemma memory_reads_back: "reads_back (clConfigMaps memClient)"
proof -
  let ?api = "memApi ConfigMapKind KConfigMap unConfigMap"
  have "fst (apiGet ?api (GetName x) (GetNamespace x) s') = Inr x" if "apiCreate ?api x s = (Inr x', s')" for x s x' s'
    using that find_append_new [of "sameKey ConfigMapKind (GetName x) (GetNamespace x)" "wObjs s" "KConfigMap x"]
    by (auto simp: memApi_def memGet_def memCreate_def Let_def sameKey_def list_ex_iff list_all_iff split: if_splits)
  moreover have "fst (apiGet ?api (GetName x) (GetNamespace x) s') = Inr x" if "apiUpdate ?api x s = (Inr x', s')" for x s x' s'
    using that find_map_replace [of "sameKey ConfigMapKind (GetName x) (GetNamespace x)" "wObjs s" "KConfigMap x"]
    by (auto simp: memApi_def memGet_def memReplace_def Let_def sameKey_def split: if_splits)
  moreover have "snd (apiGet ?api n ns s) = s" for n ns s by (simp add: memApi_def memGet_def)
  ultimately show ?thesis unfolding reads_back_def by (simp add: memClient_def)
qed

lemma annotations_SetResourceVersion [simp]: "GetAnnotations (SetResourceVersion v x) = GetAnnotations x"
  by (simp add: GetAnnotations_def SetResourceVersion_def)

lemma meta_SetResourceVersion [simp]:
  "GetName (SetResourceVersion v x) = GetName x" "GetNamespace (SetResourceVersion v x) = GetNamespace x"
  by (simp_all add: SetResourceVersion_def)

text \<open>After a successful run the server holds an object with the wanted hash.\<close>

lemma sync_leaves_hash:
  assumes "reads_back api"
    and ok: "res (sdkCreateOrUpdateAsNeeded lib api (ret obj) alwaysTrueIsEqualsFn noopUpdaterFn drd names) s = Ok r"
    and s': "s' = post (sdkCreateOrUpdateAsNeeded lib api (ret obj) alwaysTrueIsEqualsFn noopUpdaterFn drd names) s"
  shows "\<exists>p. fst (apiGet api (GetName obj) (GetNamespace obj) s') = Inr p \<and> hashOf p = hashOf (prepared lib api drd obj)"
proof -
  let ?new = "prepared lib api drd obj"
  let ?get = "apiGet api (GetName obj) (GetNamespace obj) s"
  have same: "snd ?get = s" using assms(1) by (simp add: reads_back_def)
  show ?thesis
  proof (cases "fst ?get")
    case (Inl err)
    then have nf: "isNotFound err" using ok same
      by (auto simp: sync_unfold Let_def go_run sdk_defs split: if_splits)
    obtain x' where "apiCreate api ?new s = (Inr x', s')"
      using ok s' Inl same nf
      by (cases "apiCreate api ?new s")
         (auto simp: sync_unfold Let_def go_run sdk_defs api_results api_posts split: sum.splits)
    then show ?thesis using assms(1) unfolding reads_back_def hashOf_def by (metis prepared_meta(1,2))
  next
    case (Inr prev)
    show ?thesis
    proof (cases "hashOf ?new = hashOf prev")
      case True
      then have "s' = s" using s' Inr same
        by (simp add: sync_unfold Let_def go_run sdk_defs alwaysTrueIsEqualsFn_def)
      then show ?thesis using Inr True by auto
    next
      case False
      let ?sent = "SetResourceVersion (GetResourceVersion prev) ?new"
      obtain x' where "apiUpdate api ?sent s = (Inr x', s')"
        using ok s' Inr same False
        by (cases "apiUpdate api ?sent s")
           (auto simp: sync_unfold Let_def go_run sdk_defs api_results api_posts noopUpdaterFn_def split: sum.splits)
      then obtain p where "fst (apiGet api (GetName ?sent) (GetNamespace ?sent) s') = Inr p"
        "GetAnnotations p = GetAnnotations ?sent"
        using assms(1) unfolding reads_back_def by blast
      then show ?thesis by (simp add: hashOf_def)
    qed
  qed
qed

section \<open>Properties\<close>

text \<open>
  C14 (functional). The exact behaviour of \<open>sdkCreateOrUpdateAsNeeded\<close> on every branch, for every
  kind of object and every client: one read; an object that is missing is created, one whose hash
  or comparison differs is updated, an unchanged one is left alone, and a failed read writes
  nothing. What is sent is the built object with an owner reference and its hash. The status
  tells the three successful cases apart and the object's name is recorded.
\<close>

theorem create_or_update_exact:
  "requests (effs (sdkCreateOrUpdateAsNeeded lib api (ret obj) isEqualFn updaterFn drd names) s) =
     GetCall (apiKind api) (GetName obj) (GetNamespace obj) #
     (case fst (apiGet api (GetName obj) (GetNamespace obj) s) of
        Inl err \<Rightarrow> if isNotFound err then [CreateCall (apiWrap api (prepared lib api drd obj))] else []
      | Inr prev \<Rightarrow>
          if hashOf (prepared lib api drd obj) = hashOf prev \<and> isEqualFn prev (prepared lib api drd obj) then []
          else [UpdateCall (apiWrap api (updaterFn prev
                 (SetResourceVersion (GetResourceVersion prev) (prepared lib api drd obj))))])
   \<and> (\<exists>e st. res (sdkCreateOrUpdateAsNeeded lib api (ret obj) isEqualFn updaterFn drd names) s =
       (case fst (apiGet api (GetName obj) (GetNamespace obj) s) of
          Inl err \<Rightarrow>
            (if isNotFound err then
               (case fst (apiCreate api (prepared lib api drd obj) (snd (apiGet api (GetName obj) (GetNamespace obj) s))) of
                  Inl e' \<Rightarrow> Err e'
                | Inr _ \<Rightarrow> Ok (resourceCreated, insert (GetName obj) names, prepared lib api drd obj))
             else Err (GoErr e))
        | Inr prev \<Rightarrow>
            (if hashOf (prepared lib api drd obj) = hashOf prev \<and> isEqualFn prev (prepared lib api drd obj)
             then Ok (NoStatus, insert (GetName obj) names, prepared lib api drd obj)
             else (case fst (apiUpdate api (updaterFn prev (SetResourceVersion (GetResourceVersion prev) (prepared lib api drd obj)))
                     (snd (apiGet api (GetName obj) (GetNamespace obj) s))) of
                     Inl e' \<Rightarrow> Err e'
                   | Inr _ \<Rightarrow> Ok (resourceUpdated, insert (GetName obj) names, prepared lib api drd obj)))))"
  using sync_requests [of lib api obj isEqualFn updaterFn drd names s]
  by (auto simp: sync_unfold Let_def go_run sdk_defs api_results split: sum.split)

text \<open>
  Convergence: with a server that reads back what was written, once a run of
  \<open>sdkCreateOrUpdateAsNeeded\<close> over an object succeeded, the next run over the same object writes
  nothing and reports that nothing was created or updated.
\<close>

theorem sync_settles:
  assumes "reads_back api"
    and "res (sdkCreateOrUpdateAsNeeded lib api (ret obj) alwaysTrueIsEqualsFn noopUpdaterFn drd names) s = Ok r"
    and "s' = post (sdkCreateOrUpdateAsNeeded lib api (ret obj) alwaysTrueIsEqualsFn noopUpdaterFn drd names) s"
  shows "writes (effs (sdkCreateOrUpdateAsNeeded lib api (ret obj) alwaysTrueIsEqualsFn noopUpdaterFn drd names) s') = []
    \<and> (\<exists>names' x. res (sdkCreateOrUpdateAsNeeded lib api (ret obj) alwaysTrueIsEqualsFn noopUpdaterFn drd names) s'
         = Ok (NoStatus, names', x))"
proof -
  obtain p where "fst (apiGet api (GetName obj) (GetNamespace obj) s') = Inr p" "hashOf p = hashOf (prepared lib api drd obj)"
    using sync_leaves_hash [OF assms] by blast
  then show ?thesis by (simp add: sync_unfold Let_def go_run sdk_defs alwaysTrueIsEqualsFn_def)
qed

text \<open>
  C10 (safety). The cleanup of one kind of object: exactly the listed objects whose name no node
  group asked for are deleted, each of them is tried even if an earlier deletion failed, the call
  never fails, and the surviving names it reports, in the order of the list, are exactly those of
  the wanted objects and of the unwanted ones whose deletion the server answered with an error in
  the state that the deletions before it left.
\<close>

theorem cleanup_deletes_exactly_unused:
  assumes "apiList api (GetNamespace drd) ls s = (Inr items, s1)"
  shows "requests (effs (deleteUnusedResources api drd names ls) s) =
      ListCall (apiKind api) (GetNamespace drd) ls #
      map (\<lambda>x. DeleteCall (apiWrap api x) EmptyOptions) (filter (\<lambda>x. GetName x \<notin> names) items)
    \<and> res (deleteUnusedResources api drd names ls) s
        = Ok (map (\<lambda>i. GetName (items ! i)) (filter (survives api names items s1) [0..<length items]))"
  using assms delete_loop_requests [of api names "[]" items s1] delete_loop_result [of api names "[]" items s1]
  by (simp add: deleteUnusedResources_def go_run sdk_defs)

section \<open>Witnesses\<close>

definition sampleConfigMap :: "string \<Rightarrow> configmap" where
  "sampleConfigMap name = \<lparr>tmAPIVersion = ''v1'', tmKind = ''ConfigMap'', objMeta = metaOf name (Some crLabels),
     cmData = fmempty\<rparr>"

lemma empty_get: "apiGet (clConfigMaps memClient) n ns emptyWorld = (Inl (NotFoundErr ''not found''), emptyWorld)"
  by (simp add: mem_defs)

lemma empty_create: "fst (apiCreate (clConfigMaps memClient) x emptyWorld) = Inr x"
  by (simp add: mem_defs Let_def)

theorem sync_settles_witness:
  "writes (effs (sdkCreateOrUpdateAsNeeded memLib (clConfigMaps memClient) (ret (sampleConfigMap ''x'')) alwaysTrueIsEqualsFn
      noopUpdaterFn sampleDruid {})
      (post (sdkCreateOrUpdateAsNeeded memLib (clConfigMaps memClient) (ret (sampleConfigMap ''x'')) alwaysTrueIsEqualsFn
         noopUpdaterFn sampleDruid {}) emptyWorld)) = []"
proof -
  have "res (sdkCreateOrUpdateAsNeeded memLib (clConfigMaps memClient) (ret (sampleConfigMap ''x'')) alwaysTrueIsEqualsFn
      noopUpdaterFn sampleDruid {}) emptyWorld
    = Ok (resourceCreated, {''x''}, prepared memLib (clConfigMaps memClient) sampleDruid (sampleConfigMap ''x''))"
    using empty_get empty_create by (simp add: sync_unfold go_run sdk_defs api_results Let_def sampleConfigMap_def metaOf_def)
  from sync_settles [OF memory_reads_back this refl] show ?thesis by simp
qed

theorem cleanup_witness:
  "requests (effs (deleteUnusedResources (clConfigMaps memClient) sampleDruid {''x''} crLabels)
      (emptyWorld\<lparr>wObjs := [KConfigMap (sampleConfigMap ''x''), KConfigMap (sampleConfigMap ''y'')]\<rparr>)) =
    [ListCall ConfigMapKind ''ns'' crLabels, DeleteCall (KConfigMap (sampleConfigMap ''y'')) EmptyOptions]
   \<and> res (deleteUnusedResources (clConfigMaps memClient) sampleDruid {''x''} crLabels)
      (emptyWorld\<lparr>wObjs := [KConfigMap (sampleConfigMap ''x''), KConfigMap (sampleConfigMap ''y'')]\<rparr>) = Ok [''x'']"
  using cleanup_deletes_exactly_unused [of "clConfigMaps memClient" sampleDruid crLabels
      "emptyWorld\<lparr>wObjs := [KConfigMap (sampleConfigMap ''x''), KConfigMap (sampleConfigMap ''y'')]\<rparr>"
      "[sampleConfigMap ''x'', sampleConfigMap ''y'']" _ "{''x''}"]
  by (simp add: mem_defs sampleConfigMap_def metaOf_def sampleDruid_def fmsubset_alt_def fmpred_iff survives_def)

end
