(* ===== verification/Workload_Builder.thy ===== *)
theory Workload_Builder
  imports Configuration Spec_Validation Resource_Sync
begin

text \<open>
  The builders of \<^verbatim>\<open>controllers/druid/handler.go\<close>: labels, annotations, probes, volumes,
  environment, the pod template, and every Kubernetes object the operator creates from a node
  group.

  Several builders write through pointers and maps of the custom resource: the annotation map of
  a workload is the cluster's own map, a cluster-level probe gets its port filled in, the label
  and selector maps of a cluster-level service are extended in place. Those builders return the
  custom resource they leave behind besides the object, so what one node group writes is what
  the next one reads. Maps of a node group are written too, but no other group reads them.
\<close>

section \<open>Names, labels and annotations\<close>

definition makeNodeSpecificUniqueString :: "druid \<Rightarrow> string \<Rightarrow> string" where
  "makeNodeSpecificUniqueString m key = ''druid-'' @ GetName m @ ''-'' @ key"

definition makeLabelsForDruid :: "druid \<Rightarrow> strmap" where
  "makeLabelsForDruid druid = fmupd ''druid_cr'' (GetName druid) (fmupd ''app'' ''druid'' fmempty)"

definition makeLabelsForNodeSpec :: "druid_node_spec \<Rightarrow> druid \<Rightarrow> string \<Rightarrow> string \<Rightarrow> strmap" where
  "makeLabelsForNodeSpec nodeSpec m clusterName nodeSpecUniqueStr =
     (let labels = fmempty ++\<^sub>f crPodLabels (drSpec m);
          labels = labels ++\<^sub>f ndPodLabels nodeSpec;
          labels = fmupd ''app'' ''druid'' labels;
          labels = fmupd ''druid_cr'' clusterName labels;
          labels = fmupd ''nodeSpecUniqueStr'' nodeSpecUniqueStr labels
      in fmupd ''component'' (ndNodeType nodeSpec) labels)"

abbreviation updSpec :: "(druid_spec \<Rightarrow> druid_spec) \<Rightarrow> druid \<Rightarrow> druid" where
  "updSpec f m \<equiv> m\<lparr>drSpec := f (drSpec m)\<rparr>"

text \<open>The second component is the custom resource with its annotation map as written.\<close>

definition makeAnnotationsForWorkload :: "druid_node_spec \<Rightarrow> druid \<Rightarrow> strmap \<times> druid" where
  "makeAnnotationsForWorkload nodeSpec m =
     (case crWorkloadAnnotations (drSpec m) of
        None \<Rightarrow> (fmempty ++\<^sub>f ndWorkloadAnnotations nodeSpec, m)
      | Some shared \<Rightarrow>
          (let annotations = shared ++\<^sub>f ndWorkloadAnnotations nodeSpec
           in (annotations, updSpec (\<lambda>sp. sp\<lparr>crWorkloadAnnotations := Some annotations\<rparr>) m)))"

text \<open>
  \<open>addHashToObject\<close> writes the hash into the annotation map of the workload, which is the
  cluster's own map when there is one.
\<close>

definition shareAnnotations :: "'a k8s_object_scheme \<Rightarrow> druid \<Rightarrow> druid" where
  "shareAnnotations obj m =
     (case crWorkloadAnnotations (drSpec m) of
        None \<Rightarrow> m
      | Some _ \<Rightarrow> updSpec (\<lambda>sp. sp\<lparr>crWorkloadAnnotations := Some (GetAnnotations obj)\<rparr>) m)"

section \<open>Services\<close>

definition getServiceName :: "golib \<Rightarrow> string \<Rightarrow> string \<Rightarrow> string" where
  "getServiceName lib nameTemplate nodeSpecUniqueStr =
     (if nameTemplate = [] then nodeSpecUniqueStr else libSprintf lib nameTemplate nodeSpecUniqueStr)"

definition makeService ::
  "golib \<Rightarrow> service \<Rightarrow> druid_node_spec \<Rightarrow> druid \<Rightarrow> strmap \<Rightarrow> string \<Rightarrow> service" where
  "makeService lib svc nodeSpec m ls nodeSpecUniqueStr =
     (let meta = objMeta svc;
          labels = (case metaLabels meta of None \<Rightarrow> ls | Some l \<Rightarrow> l ++\<^sub>f ls);
          selector = (case svcSelector svc of None \<Rightarrow> ls | Some l \<Rightarrow> l ++\<^sub>f ls);
          ports = (case svcPorts svc of
              None \<Rightarrow> [\<lparr>spName = ''service-port'', spPort = ndDruidPort nodeSpec,
                       spTargetPort = fromInt (ndDruidPort nodeSpec), spRest = []\<rparr>]
            | Some ps \<Rightarrow> ps)
      in svc\<lparr>tmAPIVersion := ''v1'', tmKind := ''Service'',
             objMeta := meta\<lparr>metaName := getServiceName lib (metaName meta) nodeSpecUniqueStr,
                             metaNamespace := GetNamespace m, metaLabels := Some labels\<rparr>,
             svcSelector := Some selector, svcPorts := Some ports\<rparr>)"

text \<open>
  What the run leaves in the slice the service was copied from: the label, selector and
  annotation maps that were there are the built object's own maps.
\<close>

definition leaveService :: "service \<Rightarrow> service \<Rightarrow> service" where
  "leaveService built orig =
     (let meta = objMeta orig in
      orig\<lparr>objMeta := meta\<lparr>
             metaLabels := map_option (\<lambda>_. GetLabels built) (metaLabels meta),
             metaAnnotations := map_option (\<lambda>_. GetAnnotations built) (metaAnnotations meta)\<rparr>,
           svcSelector := (case svcSelector orig of None \<Rightarrow> None | Some _ \<Rightarrow> svcSelector built)\<rparr>)"

section \<open>Volumes, tolerations, environment\<close>

definition getPersistentVolumeClaim :: "druid_node_spec \<Rightarrow> druid \<Rightarrow> pvc list" where
  "getPersistentVolumeClaim nodeSpec m =
     crVolumeClaimTemplates (drSpec m) @ ndVolumeClaimTemplates nodeSpec"

definition defaultCommonConfigMountPath :: string where
  "defaultCommonConfigMountPath = ''/druid/conf/druid/_common''"

definition getVolumeMounts :: "druid_node_spec \<Rightarrow> druid \<Rightarrow> volume_mount list" where
  "getVolumeMounts nodeSpec m =
     [\<lparr>vmName = ''common-config-volume'',
       vmMountPath = firstNonEmptyStr (crCommonConfigMountPath (drSpec m)) defaultCommonConfigMountPath,
       vmReadOnly = True, vmRest = []\<rparr>,
      \<lparr>vmName = ''nodetype-config-volume'',
       vmMountPath = firstNonEmptyStr (ndNodeConfigMountPath nodeSpec) (getNodeConfigMountPath nodeSpec),
       vmReadOnly = True, vmRest = []\<rparr>]
     @ crVolumeMounts (drSpec m) @ ndVolumeMounts nodeSpec"

definition getTolerations :: "druid_node_spec \<Rightarrow> druid \<Rightarrow> opaque list" where
  "getTolerations nodeSpec m = crTolerations (drSpec m) @ ndTolerations nodeSpec"

definition getTopologySpreadConstraints :: "druid_node_spec \<Rightarrow> opaque list" where
  "getTopologySpreadConstraints nodeSpec = ndTopologySpreadConstraints nodeSpec"

definition configMapVolume :: "string \<Rightarrow> string \<Rightarrow> volume" where
  "configMapVolume name cm =
     \<lparr>volName = name, volConfigMapName = Some cm, volPVCClaimName = None, volRest = []\<rparr>"

definition getVolume :: "druid_node_spec \<Rightarrow> druid \<Rightarrow> string \<Rightarrow> volume list" where
  "getVolume nodeSpec m nodeSpecUniqueStr =
     [configMapVolume ''common-config-volume'' (GetName m @ ''-druid-common-config''),
      configMapVolume ''nodetype-config-volume'' (nodeSpecUniqueStr @ ''-config'')]
     @ crVolumes (drSpec m) @ ndVolumes nodeSpec"

definition getEnv :: "druid_node_spec \<Rightarrow> druid \<Rightarrow> string \<Rightarrow> env_var list" where
  "getEnv nodeSpec m configMapSHA =
     (let envHolder = (case firstNonNilValue (ndEnv nodeSpec) (crEnv (drSpec m)) of None \<Rightarrow> [] | Some e \<Rightarrow> e)
      in envHolder @ [\<lparr>envName = ''configMapSHA'', envValue = configMapSHA, envFromRef = []\<rparr>])"

text \<open>The serialised form of an empty struct: \<^verbatim>\<open>&v1.Affinity{}\<close>, \<^verbatim>\<open>&StatefulSetUpdateStrategy{}\<close>.\<close>

definition emptyStruct :: opaque where "emptyStruct = ''{}''"

definition getAffinity :: "druid_node_spec \<Rightarrow> druid \<Rightarrow> opaque" where
  "getAffinity nodeSpec m =
     (let affinity = firstNonNilValue (crAffinity (drSpec m)) (Some emptyStruct)
      in case firstNonNilValue (ndAffinity nodeSpec) affinity of None \<Rightarrow> emptyStruct | Some a \<Rightarrow> a)"

definition getEnvFrom :: "druid_node_spec \<Rightarrow> druid \<Rightarrow> opaque list option" where
  "getEnvFrom nodeSpec m = firstNonNilValue (ndEnvFrom nodeSpec) (crEnvFrom (drSpec m))"

section \<open>Probes\<close>

text \<open>The probe as the pointer shows it after the call.\<close>

definition updateDefaultPortInProbe :: "probe option \<Rightarrow> int \<Rightarrow> probe option" where
  "updateDefaultPortInProbe prb defaultPort =
     (case prb of
        None \<Rightarrow> None
      | Some p \<Rightarrow> (case prHTTPGet p of
          None \<Rightarrow> Some p
        | Some h \<Rightarrow>
            if iosIntVal (hgPort h) = 0 \<and> iosStrVal (hgPort h) = [] then
              Some (p\<lparr>prHTTPGet := Some (h\<lparr>hgPort := (hgPort h)\<lparr>iosIntVal := defaultPort\<rparr>\<rparr>)\<rparr>)
            else Some p))"

definition setDefaultProbe :: "int \<Rightarrow> string \<Rightarrow> string \<Rightarrow> probe" where
  "setDefaultProbe defaultPort nodeType probeType =
     (let get = (\<lambda>path. Some \<lparr>hgPath = path, hgPort = fromInt defaultPort, hgRest = []\<rparr>);
          probe = \<lparr>prHTTPGet = get ''/status/health'', prOtherHandler = [], prInitialDelaySeconds = 5,
            prTimeoutSeconds = 5, prPeriodSeconds = 10, prSuccessThreshold = 1,
            prFailureThreshold = 10, prRest = []\<rparr>;
          probe = (if nodeType = historical \<and> probeType \<noteq> ''liveness''
            then probe\<lparr>prHTTPGet := get ''/druid/historical/v1/readiness'', prFailureThreshold := 20\<rparr> else probe);
          probe = (if nodeType = broker \<and> probeType \<noteq> ''liveness''
            then probe\<lparr>prHTTPGet := get ''/druid/broker/v1/readiness'', prFailureThreshold := 20\<rparr> else probe)
      in if nodeType = historical \<and> probeType = ''startup''
         then probe\<lparr>prInitialDelaySeconds := 180, prPeriodSeconds := 30, prTimeoutSeconds := 10\<rparr>
         else probe)"

definition setLivenessProbe :: "druid_node_spec \<Rightarrow> druid \<Rightarrow> probe option \<times> druid" where
  "setLivenessProbe nodeSpec m =
     (let livenessProbe = updateDefaultPortInProbe
            (firstNonNilValue (ndLivenessProbe nodeSpec) (crLivenessProbe (drSpec m))) (ndDruidPort nodeSpec);
          m' = (if ndLivenessProbe nodeSpec = None
                then updSpec (\<lambda>sp. sp\<lparr>crLivenessProbe := livenessProbe\<rparr>) m else m)
      in (if livenessProbe = None \<and> crDefaultProbes (drSpec m)
          then Some (setDefaultProbe (ndDruidPort nodeSpec) (ndNodeType nodeSpec) ''liveness'')
          else livenessProbe, m'))"

definition setReadinessProbe :: "druid_node_spec \<Rightarrow> druid \<Rightarrow> probe option \<times> druid" where
  "setReadinessProbe nodeSpec m =
     (let readinessProbe = updateDefaultPortInProbe
            (firstNonNilValue (ndReadinessProbe nodeSpec) (crReadinessProbe (drSpec m))) (ndDruidPort nodeSpec);
          m' = (if ndReadinessProbe nodeSpec = None
                then updSpec (\<lambda>sp. sp\<lparr>crReadinessProbe := readinessProbe\<rparr>) m else m)
      in (if readinessProbe = None \<and> crDefaultProbes (drSpec m)
          then Some (setDefaultProbe (ndDruidPort nodeSpec) (ndNodeType nodeSpec) ''readiness'')
          else readinessProbe, m'))"

definition setStartUpProbe :: "druid_node_spec \<Rightarrow> druid \<Rightarrow> probe option \<times> druid" where
  "setStartUpProbe nodeSpec m =
     (let startUpProbe = updateDefaultPortInProbe
            (firstNonNilValue (ndStartUpProbe nodeSpec) (crStartUpProbe (drSpec m))) (ndDruidPort nodeSpec);
          m' = (if ndStartUpProbe nodeSpec = None
                then updSpec (\<lambda>sp. sp\<lparr>crStartUpProbe := startUpProbe\<rparr>) m else m)
      in (if startUpProbe = None \<and> crDefaultProbes (drSpec m)
          then Some (setDefaultProbe (ndDruidPort nodeSpec) (ndNodeType nodeSpec) ''startup'')
          else startUpProbe, m'))"

section \<open>Pods and workloads\<close>

definition makePodSpec :: "druid_node_spec \<Rightarrow> druid \<Rightarrow> string \<Rightarrow> string \<Rightarrow> pod_spec \<times> druid" where
  "makePodSpec nodeSpec m nodeSpecUniqueStr configMapSHA =
     (let sp = drSpec m;
          (liveness, m1) = setLivenessProbe nodeSpec m;
          (readiness, m2) = setReadinessProbe nodeSpec m1;
          (startup, m3) = setStartUpProbe nodeSpec m2;
          mainContainer = \<lparr>
            ctName = nodeSpecUniqueStr,
            ctImage = firstNonEmptyStr (ndImage nodeSpec) (crImage sp),
            ctCommand = [firstNonEmptyStr (crStartScript sp) ''bin/run-druid.sh'', ndNodeType nodeSpec],
            ctArgs = [],
            ctImagePullPolicy = firstNonEmptyStr (ndImagePullPolicy nodeSpec) (crImagePullPolicy sp),
            ctPorts = ndPorts nodeSpec,
            ctResources = ndResources nodeSpec,
            ctEnv = getEnv nodeSpec m configMapSHA,
            ctEnvFrom = getEnvFrom nodeSpec m,
            ctVolumeMounts = getVolumeMounts nodeSpec m,
            ctLivenessProbe = liveness,
            ctReadinessProbe = readiness,
            ctStartupProbe = startup,
            ctLifecycle = ndLifecycle nodeSpec,
            ctSecurityContext = firstNonNilValue (ndContainerSecurityContext nodeSpec) (crContainerSecurityContext sp)\<rparr>;
          spec = \<lparr>
            psNodeSelector = firstNonNilValue (ndNodeSelector nodeSpec) (crNodeSelector sp),
            psTopologySpreadConstraints = getTopologySpreadConstraints nodeSpec,
            psTolerations = getTolerations nodeSpec m,
            psAffinity = getAffinity nodeSpec m,
            psImagePullSecrets = firstNonNilValue (ndImagePullSecrets nodeSpec) (crImagePullSecrets sp),
            psInitContainers = [],
            psContainers = [mainContainer],
            psTerminationGracePeriodSeconds = ndTerminationGracePeriodSeconds nodeSpec,
            psVolumes = getVolume nodeSpec m nodeSpecUniqueStr,
            psSecurityContext = firstNonNilValue (ndPodSecurityContext nodeSpec) (crPodSecurityContext sp),
            psServiceAccountName = firstNonEmptyStr (ndServiceAccountName nodeSpec) (crServiceAccount sp),
            psPriorityClassName = firstNonEmptyStr (ndPriorityClassName nodeSpec) (crPriorityClassName sp),
            psDNSPolicy = firstNonEmptyStr (ndDNSPolicy nodeSpec) (crDNSPolicy sp),
            psDNSConfig = firstNonNilValue (ndDNSConfig nodeSpec) (crDNSConfig sp)\<rparr>
      in (addAdditionalContainers m3 nodeSpec spec, m3))"

definition makePodTemplate ::
  "druid_node_spec \<Rightarrow> druid \<Rightarrow> strmap \<Rightarrow> string \<Rightarrow> string \<Rightarrow> pod_template \<times> druid" where
  "makePodTemplate nodeSpec m ls nodeSpecUniqueStr configMapSHA =
     (let (spec, m') = makePodSpec nodeSpec m nodeSpecUniqueStr configMapSHA
      in (\<lparr>ptLabels = ls,
           ptAnnotations = firstNonNilValue (ndPodAnnotations nodeSpec) (crPodAnnotations (drSpec m)),
           ptSpec = spec\<rparr>, m'))"

definition makeStatefulSetSpec ::
  "druid_node_spec \<Rightarrow> druid \<Rightarrow> strmap \<Rightarrow> string \<Rightarrow> string \<Rightarrow> string \<Rightarrow> statefulset_spec \<times> druid" where
  "makeStatefulSetSpec nodeSpec m ls nodeSpecificUniqueString configMapSHA serviceName =
     (let updateStrategy = firstNonNilValue (crUpdateStrategy (drSpec m)) (Some emptyStruct);
          updateStrategy = firstNonNilValue (ndUpdateStrategy nodeSpec) updateStrategy;
          (template, m') = makePodTemplate nodeSpec m ls nodeSpecificUniqueString configMapSHA
      in (\<lparr>stsServiceName = serviceName,
           stsMatchLabels = ls,
           stsReplicas = ndReplicas nodeSpec,
           stsPodManagementPolicy = firstNonEmptyStr
             (firstNonEmptyStr (ndPodManagementPolicy nodeSpec) (crPodManagementPolicy (drSpec m))) ''Parallel'',
           stsUpdateStrategy = (case updateStrategy of None \<Rightarrow> emptyStruct | Some u \<Rightarrow> u),
           stsTemplate = template,
           stsVolumeClaimTemplates = getPersistentVolumeClaim nodeSpec m\<rparr>, m'))"

definition zeroStsStatus :: statefulset_status where
  "zeroStsStatus = \<lparr>stReplicas = 0, stReadyReplicas = 0, stCurrentReplicas = 0,
     stCurrentRevision = [], stUpdateRevision = []\<rparr>"

definition makeStatefulSet ::
  "druid_node_spec \<Rightarrow> druid \<Rightarrow> strmap \<Rightarrow> string \<Rightarrow> string \<Rightarrow> string \<Rightarrow> statefulset \<times> druid" where
  "makeStatefulSet nodeSpec m ls nodeSpecUniqueStr configMapSHA serviceName =
     (let (annotations, m1) = makeAnnotationsForWorkload nodeSpec m;
          (spec, m2) = makeStatefulSetSpec nodeSpec m1 ls nodeSpecUniqueStr configMapSHA serviceName
      in (\<lparr>tmAPIVersion = ''apps/v1'', tmKind = ''StatefulSet'',
           objMeta = zeroMeta\<lparr>metaName := nodeSpecUniqueStr, metaAnnotations := Some annotations,
             metaNamespace := GetNamespace m, metaLabels := Some ls\<rparr>,
           stsSpec = spec, stsStatus = zeroStsStatus\<rparr>, m2))"

definition statefulSetIsEquals :: "statefulset \<Rightarrow> statefulset \<Rightarrow> bool" where
  "statefulSetIsEquals obj1 obj2 = True"

text \<open>
  Both fields are dereferenced when either is set: with one of them nil the code panics.
\<close>

definition getRollingUpdateStrategy :: "druid_node_spec \<Rightarrow> rolling_update outcome" where
  "getRollingUpdateStrategy nodeSpec =
     (if ndMaxSurge nodeSpec \<noteq> None \<or> ndMaxUnavailable nodeSpec \<noteq> None then
        (case ndMaxUnavailable nodeSpec of
           None \<Rightarrow> Panic ''nil pointer dereference''
         | Some unavailable \<Rightarrow>
             (case ndMaxSurge nodeSpec of
                None \<Rightarrow> Panic ''nil pointer dereference''
              | Some surge \<Rightarrow> Ok \<lparr>ruMaxUnavailable = Some (fromInt unavailable), ruMaxSurge = Some (fromInt surge)\<rparr>))
      else Ok \<lparr>ruMaxUnavailable = None, ruMaxSurge = None\<rparr>)"

definition makeDeploymentSpec ::
  "druid_node_spec \<Rightarrow> druid \<Rightarrow> strmap \<Rightarrow> string \<Rightarrow> string \<Rightarrow> string \<Rightarrow> (deployment_spec \<times> druid) outcome" where
  "makeDeploymentSpec nodeSpec m ls nodeSpecificUniqueString configMapSHA serviceName =
     (let (template, m') = makePodTemplate nodeSpec m ls nodeSpecificUniqueString configMapSHA
      in case getRollingUpdateStrategy nodeSpec of
           Ok ru \<Rightarrow> Ok (\<lparr>dpMatchLabels = ls, dpReplicas = ndReplicas nodeSpec, dpTemplate = template,
             dpStrategyType = ''RollingUpdate'', dpRollingUpdate = ru\<rparr>, m')
         | Err e \<Rightarrow> Err e
         | Panic p \<Rightarrow> Panic p)"

definition makeDeployment ::
  "druid_node_spec \<Rightarrow> druid \<Rightarrow> strmap \<Rightarrow> string \<Rightarrow> string \<Rightarrow> string \<Rightarrow> (deployment \<times> druid) outcome" where
  "makeDeployment nodeSpec m ls nodeSpecUniqueStr configMapSHA serviceName =
     (let (annotations, m1) = makeAnnotationsForWorkload nodeSpec m
      in case makeDeploymentSpec nodeSpec m1 ls nodeSpecUniqueStr configMapSHA serviceName of
           Ok (spec, m2) \<Rightarrow>
             Ok (\<lparr>tmAPIVersion = ''apps/v1'', tmKind = ''Deployment'',
                  objMeta = zeroMeta\<lparr>metaName := nodeSpecUniqueStr, metaAnnotations := Some annotations,
                    metaNamespace := GetNamespace m, metaLabels := Some ls\<rparr>,
                  depSpec = spec,
                  depStatus = \<lparr>dsConditions = [], dsReadyReplicas = 0, dsReplicas = 0\<rparr>\<rparr>, m2)
         | Err e \<Rightarrow> Err e
         | Panic p \<Rightarrow> Panic p)"

definition deploymentIsEquals :: "deployment \<Rightarrow> deployment \<Rightarrow> bool" where
  "deploymentIsEquals obj1 obj2 = True"

section \<open>Other objects of a node group\<close>

definition builtMeta :: "string \<Rightarrow> druid \<Rightarrow> strmap \<Rightarrow> strmap option \<Rightarrow> object_meta" where
  "builtMeta name m ls annotations = zeroMeta\<lparr>metaName := name, metaNamespace := GetNamespace m,
     metaLabels := Some ls, metaAnnotations := annotations\<rparr>"

text \<open>The spec pointer is dereferenced; the caller has tested it for nil.\<close>

definition makePodDisruptionBudget ::
  "druid_node_spec \<Rightarrow> druid \<Rightarrow> strmap \<Rightarrow> string \<Rightarrow> pdb outcome" where
  "makePodDisruptionBudget nodeSpec m ls nodeSpecUniqueStr =
     (case ndPodDisruptionBudgetSpec nodeSpec of
        None \<Rightarrow> Panic ''nil pointer dereference''
      | Some spec \<Rightarrow> Ok \<lparr>tmAPIVersion = ''policy/v1'', tmKind = ''PodDisruptionBudget'',
          objMeta = builtMeta nodeSpecUniqueStr m ls None,
          pdbSpec = spec\<lparr>pdbMatchLabels := Some ls\<rparr>\<rparr>)"

definition makeHorizontalPodAutoscaler ::
  "druid_node_spec \<Rightarrow> druid \<Rightarrow> strmap \<Rightarrow> string \<Rightarrow> hpa outcome" where
  "makeHorizontalPodAutoscaler nodeSpec m ls nodeSpecUniqueStr =
     (case ndHPAutoScaler nodeSpec of
        None \<Rightarrow> Panic ''nil pointer dereference''
      | Some spec \<Rightarrow> Ok \<lparr>tmAPIVersion = ''autoscaling/v2'', tmKind = ''HorizontalPodAutoscaler'',
          objMeta = builtMeta nodeSpecUniqueStr m ls None, hpaSpec = spec\<rparr>)"

definition makeIngress ::
  "druid_node_spec \<Rightarrow> druid \<Rightarrow> strmap \<Rightarrow> string \<Rightarrow> ingress outcome" where
  "makeIngress nodeSpec m ls nodeSpecUniqueStr =
     (case ndIngress nodeSpec of
        None \<Rightarrow> Panic ''nil pointer dereference''
      | Some spec \<Rightarrow> Ok \<lparr>tmAPIVersion = ''networking.k8s.io/v1'', tmKind = ''Ingress'',
          objMeta = builtMeta nodeSpecUniqueStr m ls (ndIngressAnnotations nodeSpec), ingSpec = spec\<rparr>)"

text \<open>\<^verbatim>\<open>pvc.Spec = p.Spec\<close>.\<close>

definition copyPvcSpec :: "pvc \<Rightarrow> pvc \<Rightarrow> pvc" where
  "copyPvcSpec p pvc = pvc\<lparr>pvcStorageClassName := pvcStorageClassName p,
     pvcRequests := pvcRequests p, pvcRest := pvcRest p\<rparr>"

definition namedLike :: "pvc \<Rightarrow> pvc \<Rightarrow> pvc" where
  "namedLike pvc p = copyPvcSpec p (pvc\<lparr>objMeta := (objMeta pvc)\<lparr>metaName := GetName p\<rparr>\<rparr>)"

definition makePersistentVolumeClaim ::
  "pvc \<Rightarrow> druid_node_spec \<Rightarrow> druid \<Rightarrow> strmap \<Rightarrow> string \<Rightarrow> pvc" where
  "makePersistentVolumeClaim pvc nodeSpec m ls nodeSpecUniqueStr =
     (let meta = objMeta pvc;
          labels = (case metaLabels meta of None \<Rightarrow> ls | Some l \<Rightarrow> l ++\<^sub>f ls);
          pvc = pvc\<lparr>tmAPIVersion := ''v1'', tmKind := ''PersistentVolumeClaim'',
                    objMeta := meta\<lparr>metaNamespace := GetNamespace m, metaLabels := Some labels\<rparr>\<rparr>
      in if metaName meta = [] then pvc\<lparr>objMeta := (objMeta pvc)\<lparr>metaName := nodeSpecUniqueStr\<rparr>\<rparr>
         else foldl namedLike pvc (case ndPersistentVolumeClaim nodeSpec of None \<Rightarrow> [] | Some l \<Rightarrow> l))"

definition getPodNames :: "pod list \<Rightarrow> string list" where
  "getPodNames pods = map GetName pods"

section \<open>What a builder may change in the custom resource\<close>

text \<open>
  \<open>cr_frame\<close> forgets the parts of the spec that builders write through: what is left is the same
  before and after every builder.
\<close>

definition cr_frame :: "druid \<Rightarrow> druid" where
  "cr_frame m = updSpec (\<lambda>sp. sp\<lparr>crWorkloadAnnotations := None, crLivenessProbe := None,
     crReadinessProbe := None, crStartUpProbe := None, crServices := None\<rparr>) m"

named_theorems framed

lemma frame_annotations [framed]: "cr_frame (snd (makeAnnotationsForWorkload n m)) = cr_frame m"
  by (simp add: makeAnnotationsForWorkload_def cr_frame_def Let_def split: option.split)

lemma frame_share [framed]: "cr_frame (shareAnnotations obj m) = cr_frame m"
  by (simp add: shareAnnotations_def cr_frame_def split: option.split)

lemma frame_probes [framed]:
  "cr_frame (snd (setLivenessProbe n m)) = cr_frame m"
  "cr_frame (snd (setReadinessProbe n m)) = cr_frame m"
  "cr_frame (snd (setStartUpProbe n m)) = cr_frame m"
  by (simp_all add: setLivenessProbe_def setReadinessProbe_def setStartUpProbe_def cr_frame_def Let_def)

lemma frame_services [framed]: "cr_frame (updSpec (\<lambda>sp. sp\<lparr>crServices := x\<rparr>) m) = cr_frame m"
  by (simp add: cr_frame_def)

lemma frame_podSpec [framed]: "cr_frame (snd (makePodSpec n m u c)) = cr_frame m"
  by (simp add: makePodSpec_def Let_def case_prod_beta framed)

lemma frame_podTemplate [framed]: "cr_frame (snd (makePodTemplate n m ls u c)) = cr_frame m"
  by (simp add: makePodTemplate_def Let_def case_prod_beta framed)

lemma frame_statefulSet [framed]: "cr_frame (snd (makeStatefulSet n m ls u c sv)) = cr_frame m"
  by (simp add: makeStatefulSet_def makeStatefulSetSpec_def Let_def case_prod_beta framed)

lemma frame_deployment [framed]:
  "makeDeployment n m ls u c sv = Ok (d, m') \<Longrightarrow> cr_frame m' = cr_frame m"
  by (auto simp: makeDeployment_def makeDeploymentSpec_def Let_def case_prod_beta framed
      split: outcome.splits)

lemma frame_select:
  "objMeta (cr_frame m) = objMeta m" "tmKind (cr_frame m) = tmKind m"
  "tmAPIVersion (cr_frame m) = tmAPIVersion m" "drStatus (cr_frame m) = drStatus m"
  "crRollingDeploy (drSpec (cr_frame m)) = crRollingDeploy (drSpec m)"
  "crScalePvcSts (drSpec (cr_frame m)) = crScalePvcSts (drSpec m)"
  "crDeleteOrphanPvc (drSpec (cr_frame m)) = crDeleteOrphanPvc (drSpec m)"
  "crForceDeleteStsPodOnError (drSpec (cr_frame m)) = crForceDeleteStsPodOnError (drSpec m)"
  "crPodLabels (drSpec (cr_frame m)) = crPodLabels (drSpec m)"
  "crNodes (drSpec (cr_frame m)) = crNodes (drSpec m)"
  by (simp_all add: cr_frame_def)

lemma frame_meta:
  assumes "cr_frame m' = cr_frame m"
  shows "objMeta m' = objMeta m" "tmKind m' = tmKind m" "tmAPIVersion m' = tmAPIVersion m"
    "drStatus m' = drStatus m" "crRollingDeploy (drSpec m') = crRollingDeploy (drSpec m)"
    "crScalePvcSts (drSpec m') = crScalePvcSts (drSpec m)"
    "crDeleteOrphanPvc (drSpec m') = crDeleteOrphanPvc (drSpec m)"
    "crForceDeleteStsPodOnError (drSpec m') = crForceDeleteStsPodOnError (drSpec m)"
    "crPodLabels (drSpec m') = crPodLabels (drSpec m)"
    "crNodes (drSpec m') = crNodes (drSpec m)"
  by (metis assms frame_select)+

lemma frame_owner: "cr_frame m' = cr_frame m \<Longrightarrow> asOwner m' = asOwner m"
  using frame_meta [of m' m] by (simp add: asOwner_def)

lemma frame_labels: "cr_frame m' = cr_frame m \<Longrightarrow> makeLabelsForNodeSpec n m' = makeLabelsForNodeSpec n m"
  "cr_frame m' = cr_frame m \<Longrightarrow> makeLabelsForDruid m' = makeLabelsForDruid m"
  using frame_meta [of m' m] by (simp_all add: makeLabelsForNodeSpec_def makeLabelsForDruid_def fun_eq_iff)

section \<open>Metadata of the built objects\<close>

lemma zeroMeta_simps [simp]:
  "metaOwnerReferences zeroMeta = []" "metaFinalizers zeroMeta = []" "metaResourceVersion zeroMeta = []"
  by (simp_all add: zeroMeta_def)

lemma built_statefulSet [simp]:
  "objMeta (fst (makeStatefulSet n m ls u c sv)) = zeroMeta\<lparr>metaName := u,
     metaAnnotations := Some (fst (makeAnnotationsForWorkload n m)),
     metaNamespace := GetNamespace m, metaLabels := Some ls\<rparr>"
  by (simp add: makeStatefulSet_def Let_def case_prod_beta)

lemma built_deployment:
  "makeDeployment n m ls u c sv = Ok (d, m') \<Longrightarrow> objMeta d = zeroMeta\<lparr>metaName := u,
     metaAnnotations := Some (fst (makeAnnotationsForWorkload n m)),
     metaNamespace := GetNamespace m, metaLabels := Some ls\<rparr>"
  by (auto simp: makeDeployment_def Let_def case_prod_beta split: outcome.splits)

lemma built_service [simp]:
  "GetName (makeService lib svc n m ls u) = getServiceName lib (GetName svc) u"
  "GetNamespace (makeService lib svc n m ls u) = GetNamespace m"
  by (simp_all add: makeService_def Let_def)

lemma built_pvc [simp]: "GetNamespace (makePersistentVolumeClaim pvc n m ls u) = GetNamespace m"
proof -
  have "GetNamespace (foldl namedLike q l) = GetNamespace q" for q l
    by (induction l arbitrary: q) (simp_all add: namedLike_def copyPvcSpec_def)
  then show ?thesis by (simp add: makePersistentVolumeClaim_def Let_def)
qed

section \<open>Lookup in labels\<close>

lemma labels_lookup:
  "fmlookup (makeLabelsForNodeSpec n m c u) k =
     (if k = ''component'' then Some (ndNodeType n)
      else if k = ''nodeSpecUniqueStr'' then Some u
      else if k = ''druid_cr'' then Some c
      else if k = ''app'' then Some ''druid''
      else case fmlookup (ndPodLabels n) k of Some v \<Rightarrow> Some v
         | None \<Rightarrow> fmlookup (crPodLabels (drSpec m)) k)"
  by (auto simp: makeLabelsForNodeSpec_def Let_def fmdom'_notD split: option.split
      dest: fmdom_notI)

lemma druid_labels_subset: "fmsubset (makeLabelsForDruid m) (makeLabelsForNodeSpec n m (GetName m) u)"
  by (auto simp: fmsubset_alt_def fmpred_iff labels_lookup makeLabelsForDruid_def split: if_splits)

text \<open>Copying name and spec of one claim after another leaves those of the last.\<close>

lemma foldl_namedLike: "l \<noteq> [] \<Longrightarrow> foldl namedLike q l = namedLike q (last l)"
proof (induction l arbitrary: q)
  case (Cons p l)
  have "namedLike (namedLike q p) p' = namedLike q p'" for p'
    by (simp add: namedLike_def copyPvcSpec_def)
  with Cons show ?case by (cases "l = []") auto
qed simp

section \<open>Probe helpers\<close>

text \<open>The probe a node group ends up with: its own, else the cluster's, else the default one.\<close>

definition chosenProbe :: "probe option \<Rightarrow> probe option \<Rightarrow> bool \<Rightarrow> druid_node_spec \<Rightarrow> string \<Rightarrow> probe option" where
  "chosenProbe own cluster defaults n ty =
     (case own of Some p \<Rightarrow> updateDefaultPortInProbe (Some p) (ndDruidPort n)
      | None \<Rightarrow> (case cluster of Some p \<Rightarrow> updateDefaultPortInProbe (Some p) (ndDruidPort n)
          | None \<Rightarrow> if defaults then Some (setDefaultProbe (ndDruidPort n) (ndNodeType n) ty) else None))"

lemma updateDefaultPortInProbe_None [simp]: "updateDefaultPortInProbe p d = None \<longleftrightarrow> p = None"
  by (auto simp: updateDefaultPortInProbe_def split: option.splits)

lemma chosen_liveness:
  "fst (setLivenessProbe n m) = chosenProbe (ndLivenessProbe n) (crLivenessProbe (drSpec m)) (crDefaultProbes (drSpec m)) n ''liveness''"
  by (auto simp: setLivenessProbe_def chosenProbe_def Let_def split: option.splits)

lemma chosen_readiness:
  "fst (setReadinessProbe n m) = chosenProbe (ndReadinessProbe n) (crReadinessProbe (drSpec m)) (crDefaultProbes (drSpec m)) n ''readiness''"
  by (auto simp: setReadinessProbe_def chosenProbe_def Let_def split: option.splits)

lemma chosen_startup:
  "fst (setStartUpProbe n m) = chosenProbe (ndStartUpProbe n) (crStartUpProbe (drSpec m)) (crDefaultProbes (drSpec m)) n ''startup''"
  by (auto simp: setStartUpProbe_def chosenProbe_def Let_def split: option.splits)

lemma probes_independent:
  "crReadinessProbe (drSpec (snd (setLivenessProbe n m))) = crReadinessProbe (drSpec m)"
  "crStartUpProbe (drSpec (snd (setLivenessProbe n m))) = crStartUpProbe (drSpec m)"
  "crStartUpProbe (drSpec (snd (setReadinessProbe n m))) = crStartUpProbe (drSpec m)"
  "crDefaultProbes (drSpec (snd (setLivenessProbe n m))) = crDefaultProbes (drSpec m)"
  "crDefaultProbes (drSpec (snd (setReadinessProbe n m))) = crDefaultProbes (drSpec m)"
  by (simp_all add: setLivenessProbe_def setReadinessProbe_def Let_def)

lemma addAdditionalContainers_main:
  "psContainers (addAdditionalContainers m n sp) = psContainers sp @
     map convertAdditionalContainer (filter (\<lambda>a. \<not> acRunAsInit a) (getAllAdditionalContainers m n))"
  "psInitContainers (addAdditionalContainers m n sp) = psInitContainers sp @
     map convertAdditionalContainer (filter acRunAsInit (getAllAdditionalContainers m n))"
  "psVolumes (addAdditionalContainers m n sp) = psVolumes sp"
  by (simp_all add: addAdditionalContainers_eq)

lemma additional_frame:
  "getAllAdditionalContainers (snd (setStartUpProbe n (snd (setReadinessProbe n (snd (setLivenessProbe n m)))))) n
   = getAllAdditionalContainers m n"
  by (simp add: getAllAdditionalContainers_def setLivenessProbe_def setReadinessProbe_def setStartUpProbe_def Let_def)

section \<open>Properties\<close>

text \<open>
  Labels of a node group: the four labels the operator selects by cannot be
  overridden by the user, any other label comes from the node group if it sets it and from the
  cluster otherwise; and every object with these labels is found by a selection on the
  cluster's labels.
\<close>

theorem node_labels_precedence:
  "fmlookup (makeLabelsForNodeSpec n m (GetName m) u) k =
     (if k = ''component'' then Some (ndNodeType n)
      else if k = ''nodeSpecUniqueStr'' then Some u
      else if k = ''druid_cr'' then Some (GetName m)
      else if k = ''app'' then Some ''druid''
      else case fmlookup (ndPodLabels n) k of Some v \<Rightarrow> Some v
         | None \<Rightarrow> fmlookup (crPodLabels (drSpec m)) k)
   \<and> fmsubset (makeLabelsForDruid m) (makeLabelsForNodeSpec n m (GetName m) u)"
  by (intro conjI labels_lookup druid_labels_subset)

text \<open>
  A pod finds its configuration: the two configuration volumes of a node
  group's pod are the common ConfigMap the operator builds and the ConfigMap of that node group,
  and the main container, the pod's first, mounts exactly these volumes first. Additional
  containers follow in their order, the init ones among the init containers.
\<close>

theorem pod_mounts_its_configmaps:
  fixes n :: druid_node_spec and m :: druid and u sha :: string
  defines "spec \<equiv> fst (makePodSpec n m u sha)"
  assumes "res (makeCommonConfigMap sdk m ls) s = Ok cm"
  shows "map volConfigMapName (take 2 (psVolumes spec)) = [Some (GetName cm), Some (GetName (makeConfigMapForNodeSpec n m lm u))]
    \<and> map vmName (take 2 (ctVolumeMounts (hd (psContainers spec)))) = map volName (take 2 (psVolumes spec))
    \<and> ctName (hd (psContainers spec)) = u
    \<and> tl (psContainers spec) = map convertAdditionalContainer (filter (\<lambda>a. \<not> acRunAsInit a) (getAllAdditionalContainers m n))
    \<and> psInitContainers spec = map convertAdditionalContainer (filter acRunAsInit (getAllAdditionalContainers m n))"
proof -
  have cm: "GetName cm = GetName m @ ''-druid-common-config''"
    using assms(2) by (auto simp: makeCommonConfigMap_def go_run Let_def makeConfigMap_def split: outcome.splits)
  have nd: "GetName (makeConfigMapForNodeSpec n m lm u) = u @ ''-config''"
    by (simp add: makeConfigMapForNodeSpec_def makeConfigMap_def Let_def)
  show ?thesis
    unfolding spec_def cm nd makePodSpec_def Let_def case_prod_beta fst_conv
    by (simp add: addAdditionalContainers_main additional_frame getVolume_def getVolumeMounts_def configMapVolume_def numeral_2_eq_2)
qed

text \<open>The pod of a broker in a cluster without any dependency configured.\<close>

definition brokerNode :: druid_node_spec where
  "brokerNode = zeroNode\<lparr>ndNodeType := broker, ndDruidPort := 8082\<rparr>"

lemma sample_properties: "\<exists>p. commonProperties lib sampleDruid = Inr p"
  by (simp add: commonProperties_def sample_defs)

theorem pod_mounts_witness:
  "\<exists>cm. res (makeCommonConfigMap memClient sampleDruid crLabels) emptyWorld = Ok cm
    \<and> map volConfigMapName (take 2 (psVolumes (fst (makePodSpec brokerNode sampleDruid ''b'' ''sha'')))) =
        [Some (GetName cm), Some (GetName (makeConfigMapForNodeSpec brokerNode sampleDruid crLabels ''b''))]"
proof -
  obtain cm where cm: "res (makeCommonConfigMap memClient sampleDruid crLabels) emptyWorld = Ok cm"
    using makeCommonConfigMap_ok_iff [of memClient sampleDruid crLabels emptyWorld, THEN iffD2] sample_properties by blast
  show ?thesis by (rule exI [of _ cm]) (rule conjI [OF cm conjunct1 [OF pod_mounts_its_configmaps [OF cm]]])
qed

lemma distinct_partition:
  assumes "distinct (map f xs)"
  shows "distinct (map f (filter P xs) @ map f (filter (\<lambda>x. \<not> P x) xs))"
  using assms by (auto simp: distinct_map_filter distinct_map inj_on_def)

text \<open>
  C29 (type). The pods of an accepted resource are well-formed: every node group's pod has a main
  container, named after the node group, with an image, and the names of all its containers, the
  init ones included, are distinct exactly when no additional container bears the name of the
  main one, which the verification does not look at.
\<close>

theorem accepted_pod_well_formed:
  fixes n :: druid_node_spec and m :: druid and u sha :: string and ports :: "container_port list"
  defines "spec \<equiv> fst (makePodSpec (n\<lparr>ndPorts := ports\<rparr>) m u sha)"
  assumes "verifyDruidSpec m = None" and "(key, n) \<in> set (crNodes (drSpec m))"
  shows "psContainers spec \<noteq> [] \<and> ctName (hd (psContainers spec)) = u \<and> ctImage (hd (psContainers spec)) \<noteq> []
    \<and> (distinct (map ctName (psInitContainers spec @ psContainers spec)) \<longleftrightarrow>
         u \<notin> acContainerName ` set (getAllAdditionalContainers m n))"
proof -
  let ?acs = "getAllAdditionalContainers m n"
  let ?n = "n\<lparr>ndPorts := ports\<rparr>"
  have acs: "getAllAdditionalContainers (snd (setStartUpProbe ?n (snd (setReadinessProbe ?n (snd (setLivenessProbe ?n m)))))) ?n = ?acs"
    unfolding additional_frame by (simp add: getAllAdditionalContainers_def)
  from assms(2,3) have valid: "distinct (map acContainerName ?acs)" "crImage (drSpec m) \<noteq> [] \<or> ndImage n \<noteq> []"
    by (auto simp: verifyDruidSpec_None valid_spec_def)
  have name: "ctName \<circ> convertAdditionalContainer = acContainerName"
    by (auto simp: convertAdditionalContainer_def)
  have shape: "map ctName (psInitContainers spec) = map acContainerName (filter acRunAsInit ?acs)"
    "map ctName (psContainers spec) = u # map acContainerName (filter (\<lambda>a. \<not> acRunAsInit a) ?acs)"
    "ctImage (hd (psContainers spec)) = firstNonEmptyStr (ndImage n) (crImage (drSpec m))"
    "psContainers spec \<noteq> []" "ctName (hd (psContainers spec)) = u"
    unfolding spec_def makePodSpec_def Let_def case_prod_beta fst_conv addAdditionalContainers_eq acs
    by (simp_all add: name)
  have "set ?acs = set (filter acRunAsInit ?acs) \<union> set (filter (\<lambda>a. \<not> acRunAsInit a) ?acs)" by auto
  then have "distinct (map ctName (psInitContainers spec @ psContainers spec)) \<longleftrightarrow> u \<notin> acContainerName ` set ?acs"
    using distinct_partition [OF valid(1), of acRunAsInit] by (auto simp: shape)
  with shape valid(2) show ?thesis by (auto simp: firstNonEmptyStr_empty_iff)
qed

theorem accepted_pod_witness:
  "ctImage (hd (psContainers (fst (makePodSpec (historicalNode\<lparr>ndPorts := []\<rparr>) rollingDruid ''h'' ''sha'')))) \<noteq> []"
proof -
  have "verifyDruidSpec rollingDruid = None"
    by (simp add: verifyDruidSpec_None valid_spec_def rollingDruid_def historicalNode_def sampleDruid_def zeroSpec_def
        zeroNode_def getAllAdditionalContainers_def isLowerAlnum_def zeroDruid_def)
  moreover have "(''h'', historicalNode) \<in> set (crNodes (drSpec rollingDruid))" by (simp add: rollingDruid_def)
  ultimately show ?thesis using accepted_pod_well_formed [of rollingDruid "''h''" historicalNode "[]" "''h''" "''sha''"] by blast
qed

text \<open>
  Choice of the probes of the main container: the node group's own probe, else
  the cluster's, else (if default probes are on) the default for its node type; in each case a
  missing HTTP port is filled with the node group's Druid port.
\<close>

theorem probe_precedence:
  fixes n :: druid_node_spec and m :: druid and u sha :: string
  defines "spec \<equiv> fst (makePodSpec n m u sha)" and "sp \<equiv> drSpec m"
  shows "ctLivenessProbe (hd (psContainers spec)) = chosenProbe (ndLivenessProbe n) (crLivenessProbe sp) (crDefaultProbes sp) n ''liveness''
    \<and> ctReadinessProbe (hd (psContainers spec)) = chosenProbe (ndReadinessProbe n) (crReadinessProbe sp) (crDefaultProbes sp) n ''readiness''
    \<and> ctStartupProbe (hd (psContainers spec)) = chosenProbe (ndStartUpProbe n) (crStartUpProbe sp) (crDefaultProbes sp) n ''startup''"
  unfolding spec_def sp_def makePodSpec_def Let_def case_prod_beta fst_conv
  by (simp add: addAdditionalContainers_main chosen_liveness chosen_readiness chosen_startup probes_independent)

text \<open>
  A cluster-level HTTP probe without a port is completed in place: once a
  node group with Druid port \<open>p\<close> was built, every later node group without a probe of its own
  gets a probe on port \<open>p\<close>, not on its own Druid port.
\<close>

theorem cluster_probe_keeps_first_port:
  assumes "crLivenessProbe (drSpec m) = Some pr" and "prHTTPGet pr = Some h"
    and "iosIntVal (hgPort h) = 0" and "iosStrVal (hgPort h) = []"
    and "ndLivenessProbe n1 = None" and "ndLivenessProbe n2 = None" and "ndDruidPort n1 \<noteq> 0"
  shows "\<exists>pr' h'. fst (setLivenessProbe n2 (snd (setLivenessProbe n1 m))) = Some pr'
    \<and> prHTTPGet pr' = Some h' \<and> iosIntVal (hgPort h') = ndDruidPort n1"
  using assms by (auto simp: setLivenessProbe_def updateDefaultPortInProbe_def Let_def)

definition portlessProbe :: probe where
  "portlessProbe = \<lparr>prHTTPGet = Some \<lparr>hgPath = ''/status'', hgPort = fromInt 0, hgRest = []\<rparr>, prOtherHandler = [],
     prInitialDelaySeconds = 0, prTimeoutSeconds = 0, prPeriodSeconds = 0, prSuccessThreshold = 0,
     prFailureThreshold = 0, prRest = []\<rparr>"

definition probedDruid :: druid where
  "probedDruid = updSpec (\<lambda>sp. sp\<lparr>crLivenessProbe := Some portlessProbe\<rparr>) sampleDruid"

definition routerNode :: druid_node_spec where
  "routerNode = zeroNode\<lparr>ndNodeType := router, ndDruidPort := 8888\<rparr>"

theorem cluster_probe_witness:
  "\<exists>pr' h'. fst (setLivenessProbe routerNode (snd (setLivenessProbe brokerNode probedDruid))) = Some pr'
    \<and> prHTTPGet pr' = Some h' \<and> iosIntVal (hgPort h') = ndDruidPort brokerNode \<and> ndDruidPort brokerNode \<noteq> ndDruidPort routerNode"
proof -
  have "crLivenessProbe (drSpec probedDruid) = Some portlessProbe" by (simp add: probedDruid_def)
  from cluster_probe_keeps_first_port [OF this, of _ brokerNode routerNode] show ?thesis
    by (simp add: portlessProbe_def fromInt_def brokerNode_def routerNode_def zeroNode_def)
qed

text \<open>
  With cluster-level workload annotations, the annotations of one node
  group, the operator's hash among them, are found on the workload of the next node group as
  well: the cluster's annotation map is extended in place.
\<close>

theorem workload_annotations_leak:
  assumes "crWorkloadAnnotations (drSpec m) = Some shared"
    and "(sts1, m1) = makeStatefulSet n1 m ls1 u1 sha1 sv1"
    and "obj1 = addHashToObject lib wrap (addOwnerRefToObject ow sts1)"
    and "(sts2, m2) = makeStatefulSet n2 (shareAnnotations obj1 m1) ls2 u2 sha2 sv2"
    and "fmlookup (ndWorkloadAnnotations n2) k = None" and "fmlookup (GetAnnotations obj1) k = Some v"
  shows "fmlookup (GetAnnotations sts2) k = Some v"
proof -
  have "m1 = snd (makeStatefulSet n1 m ls1 u1 sha1 sv1)" by (metis assms(2) snd_conv)
  moreover have "crWorkloadAnnotations (drSpec (snd (makeStatefulSet n1 m ls1 u1 sha1 sv1))) \<noteq> None"
    using assms(1)
    by (simp add: makeStatefulSet_def makeStatefulSetSpec_def makePodTemplate_def makePodSpec_def Let_def
        case_prod_beta setLivenessProbe_def setReadinessProbe_def setStartUpProbe_def makeAnnotationsForWorkload_def)
  ultimately have "crWorkloadAnnotations (drSpec (shareAnnotations obj1 m1)) = Some (GetAnnotations obj1)"
    by (auto simp: shareAnnotations_def)
  moreover have "sts2 = fst (makeStatefulSet n2 (shareAnnotations obj1 m1) ls2 u2 sha2 sv2)" by (metis assms(4) fst_conv)
  ultimately show ?thesis
    using assms(5,6) by (auto simp: GetAnnotations_def makeAnnotationsForWorkload_def Let_def fmdom'_notI fmlookup_dom_iff)
qed

text \<open>
  C35 (safety). The workload of a node group depends on which groups come before it: with
  workload annotations at the level of the cluster, an annotation that only one group declares is
  missing from another group's StatefulSet if that is built first, and is found on it if it is
  built after the declaring group. Within a node type the order is that of an iteration over the
  node map, so it may differ between two reconciliations of one and the same resource.
\<close>

theorem workload_depends_on_order:
  assumes "crWorkloadAnnotations (drSpec m) = Some shared" and "fmlookup shared k = None"
    and "fmlookup (ndWorkloadAnnotations n1) k = Some v" and "fmlookup (ndWorkloadAnnotations n2) k = None"
    and "k \<noteq> druidOpResourceHash" and "(sts1, m1) = makeStatefulSet n1 m ls1 u1 sha1 sv1"
    and "obj1 = addHashToObject lib wrap (addOwnerRefToObject ow sts1)"
  shows "fmlookup (GetAnnotations (fst (makeStatefulSet n2 m ls2 u2 sha2 sv2))) k = None
    \<and> fmlookup (GetAnnotations (fst (makeStatefulSet n2 (shareAnnotations obj1 m1) ls2 u2 sha2 sv2))) k = Some v"
proof
  show "fmlookup (GetAnnotations (fst (makeStatefulSet n2 m ls2 u2 sha2 sv2))) k = None"
    using assms(1,2,4) by (simp add: GetAnnotations_def makeAnnotationsForWorkload_def Let_def)
  have "sts1 = fst (makeStatefulSet n1 m ls1 u1 sha1 sv1)" by (metis assms(6) fst_conv)
  then have "fmlookup (GetAnnotations sts1) k = Some v"
    using assms(1,3) by (simp add: GetAnnotations_def makeAnnotationsForWorkload_def Let_def fmdomI)
  then have "fmlookup (GetAnnotations obj1) k = Some v"
    using assms(5) by (auto simp: assms(7) addHashToObject_def addOwnerRefToObject_def SetOwnerReferences_def SetAnnotations_def
        GetAnnotations_def split: sum.split)
  from workload_annotations_leak [OF assms(1,6,7) prod.collapse assms(4) this]
  show "fmlookup (GetAnnotations (fst (makeStatefulSet n2 (shareAnnotations obj1 m1) ls2 u2 sha2 sv2))) k = Some v" .
qed

definition annotatedDruid :: druid where
  "annotatedDruid = updSpec (\<lambda>sp. sp\<lparr>crWorkloadAnnotations := Some fmempty\<rparr>) sampleDruid"

definition annotatedNode :: druid_node_spec where
  "annotatedNode = brokerNode\<lparr>ndWorkloadAnnotations := fmupd ''team'' ''blue'' fmempty\<rparr>"

text \<open>The annotation of the broker group is found on the router's StatefulSet.\<close>

theorem workload_annotations_witness:
  "\<exists>sts1 m1 sts2 m2. (sts1, m1) = makeStatefulSet annotatedNode annotatedDruid crLabels ''b'' ''s'' ''b''
    \<and> (sts2, m2) = makeStatefulSet routerNode (shareAnnotations (addHashToObject memLib KStatefulSet
          (addOwnerRefToObject (asOwner m1) sts1)) m1) crLabels ''r'' ''s'' ''r''
    \<and> fmlookup (GetAnnotations sts2) ''team'' = Some ''blue''"
proof -
  define p where "p = makeStatefulSet annotatedNode annotatedDruid crLabels ''b'' ''s'' ''b''"
  define obj where "obj = addHashToObject memLib KStatefulSet (addOwnerRefToObject (asOwner (snd p)) (fst p))"
  define q where "q = makeStatefulSet routerNode (shareAnnotations obj (snd p)) crLabels ''r'' ''s'' ''r''"
  have m: "crWorkloadAnnotations (drSpec annotatedDruid) = Some fmempty" by (simp add: annotatedDruid_def)
  have "fmlookup (GetAnnotations (fst p)) ''team'' = Some ''blue''"
    by (simp add: p_def GetAnnotations_def makeAnnotationsForWorkload_def m Let_def annotatedNode_def)
  then have v: "fmlookup (GetAnnotations obj) ''team'' = Some ''blue''"
    by (simp add: obj_def addHashToObject_def addOwnerRefToObject_def SetOwnerReferences_def SetAnnotations_def GetAnnotations_def memLib_def getObjectHash_def druidOpResourceHash_def)
  have n: "fmlookup (ndWorkloadAnnotations routerNode) ''team'' = None" by (simp add: routerNode_def zeroNode_def)
  have "fmlookup (GetAnnotations (fst q)) ''team'' = Some ''blue''"
    by (rule workload_annotations_leak [where m = annotatedDruid and ?sts1.0 = "fst p" and ?m1.0 = "snd p"
          and ?obj1.0 = obj and ?m2.0 = "snd q", OF m _ _ _ n v]) (simp_all add: p_def q_def obj_def)
  then show ?thesis
    by (intro exI [of _ "fst p"] exI [of _ "snd p"] exI [of _ "fst q"] exI [of _ "snd q"]) (simp add: p_def q_def obj_def)
qed

theorem workload_depends_on_order_witness:
  "\<exists>sts1 m1. (sts1, m1) = makeStatefulSet annotatedNode annotatedDruid crLabels ''b'' ''s'' ''b''
    \<and> fmlookup (GetAnnotations (fst (makeStatefulSet brokerNode annotatedDruid crLabels ''c'' ''s'' ''c''))) ''team'' = None
    \<and> fmlookup (GetAnnotations (fst (makeStatefulSet brokerNode (shareAnnotations (addHashToObject memLib KStatefulSet
          (addOwnerRefToObject (asOwner m1) sts1)) m1) crLabels ''c'' ''s'' ''c''))) ''team'' = Some ''blue''"
proof -
  obtain sts1 m1 where b: "(sts1, m1) = makeStatefulSet annotatedNode annotatedDruid crLabels ''b'' ''s'' ''b''"
    by (metis prod.collapse)
  have "crWorkloadAnnotations (drSpec annotatedDruid) = Some fmempty" by (simp add: annotatedDruid_def)
  moreover have "fmlookup (ndWorkloadAnnotations annotatedNode) ''team'' = Some ''blue''" "fmlookup (ndWorkloadAnnotations brokerNode) ''team'' = None"
    by (simp_all add: annotatedNode_def brokerNode_def zeroNode_def)
  ultimately show ?thesis
    using b workload_depends_on_order [of annotatedDruid fmempty "''team''" annotatedNode "''blue''" brokerNode, OF _ _ _ _ _ b refl]
    by (intro exI [of _ sts1] exI [of _ m1]) (simp add: druidOpResourceHash_def)
qed

text \<open>
  C38 (error). Building a Deployment panics exactly when one of \<^verbatim>\<open>maxSurge\<close> and
  \<^verbatim>\<open>maxUnavailable\<close> is set and the other is not; it never returns an error.
\<close>

theorem deployment_panics_iff:
  "((\<exists>p. makeDeployment n m ls u sha sv = Panic p) = ((ndMaxSurge n = None) \<noteq> (ndMaxUnavailable n = None)))
   \<and> makeDeployment n m ls u sha sv \<noteq> Err e"
  by (auto simp: makeDeployment_def makeDeploymentSpec_def getRollingUpdateStrategy_def Let_def case_prod_beta
      split: outcome.splits option.splits)

text \<open>
  All named claims of a node group are built with the name and spec of
  the last claim of the list, so a group with several named claims asks for one of them only.
\<close>

theorem named_claims_collapse:
  assumes "ndPersistentVolumeClaim n = Some l" and "l \<noteq> []" and "GetName pvc \<noteq> []"
  shows "GetName (makePersistentVolumeClaim pvc n m ls u) = GetName (last l)
    \<and> pvcRequests (makePersistentVolumeClaim pvc n m ls u) = pvcRequests (last l)
    \<and> pvcStorageClassName (makePersistentVolumeClaim pvc n m ls u) = pvcStorageClassName (last l)"
  using assms
  by (simp add: makePersistentVolumeClaim_def Let_def foldl_namedLike namedLike_def copyPvcSpec_def)


theorem named_claims_witness:
  "\<exists>n l. ndPersistentVolumeClaim n = Some l \<and> length l = 2
    \<and> map (\<lambda>pvc. GetName (makePersistentVolumeClaim pvc n sampleDruid crLabels ''u'')) l = [''logs'', ''logs'']"
proof -
  define l where "l = [samplePvc ''data'', samplePvc ''logs'']"
  define n where "n = zeroNode\<lparr>ndPersistentVolumeClaim := Some l\<rparr>"
  have n: "ndPersistentVolumeClaim n = Some l" "l \<noteq> []" by (simp_all add: n_def l_def)
  have "GetName (samplePvc ''data'') \<noteq> []" "GetName (samplePvc ''logs'') \<noteq> []" by (simp_all add: sample_defs)
  from this [THEN named_claims_collapse [OF n, of _ sampleDruid crLabels "''u''", THEN conjunct1]]
  have "map (\<lambda>pvc. GetName (makePersistentVolumeClaim pvc n sampleDruid crLabels ''u'')) l = [''logs'', ''logs'']"
    by (simp add: l_def sample_defs)
  then show ?thesis using n by (intro exI [of _ n] exI [of _ l]) (simp add: l_def)
qed

end
