(* ===== verification/Finalizers.thy ===== *)
theory Finalizers
  imports Workload_Builder Memory_Client
begin

text \<open>
  \<^verbatim>\<open>controllers/druid/finalizers.go\<close> and \<^verbatim>\<open>deleteSTSAndPVC\<close>, \<^verbatim>\<open>checkIfCRExists\<close> of
  \<^verbatim>\<open>controllers/druid/handler.go\<close>: the finalizer that removes the volume claims of a cluster that
  is deleted. Proved: which finalizers the resource gets and that the update is idempotent; that
  StatefulSets are deleted before claims, and that the finalizer is given up only after every
  deletion succeeded.
\<close>

section \<open>Operations\<close>

definition deletePVCFinalizerName :: string where
  "deletePVCFinalizerName = ''deletepvc.finalizers.druid.apache.org''"

definition defaultFinalizers :: "string list" where "defaultFinalizers = []"

fun addMissing :: "string list \<Rightarrow> string list \<Rightarrow> string list" where
  "addMissing desired [] = desired"
| "addMissing desired (finalizer # rest) =
     addMissing (if \<not> ContainsString desired finalizer then desired @ [finalizer] else desired) rest"

definition desiredFinalizers :: "druid \<Rightarrow> string list" where
  "desiredFinalizers m =
     (let desired = RemoveString (metaFinalizers (objMeta m)) deletePVCFinalizerName;
          addition = (if \<not> crDisablePVCDeletionFinalizer (drSpec m)
            then defaultFinalizers @ [deletePVCFinalizerName] else defaultFinalizers)
      in addMissing desired addition)"

text \<open>The patch fills \<open>m\<close> with the server's answer; the model returns it.\<close>

definition updateFinalizers :: "'w client \<Rightarrow> druid \<Rightarrow> ('w, druid) io" where
  "updateFinalizers sdk m =
     (let desired = desiredFinalizers m in
      if metaFinalizers (objMeta m) \<noteq> desired then
        sdkPatch (clDruids sdk) (JSONPatchFinalizers desired) (SetFinalizers desired m)
      else ret m)"

definition deleteSTSAndPVC :: "'w client \<Rightarrow> statefulset list \<Rightarrow> pvc list \<Rightarrow> ('w, unit) io" where
  "deleteSTSAndPVC sdk stsList pvcList =
     bindE (forE (\<lambda>sts. writer_Delete (clStatefulSets sdk) EmptyOptions sts) stsList) (\<lambda>_.
       forE (\<lambda>pvc. writer_Delete (clPVCs sdk) EmptyOptions pvc) pvcList)"

definition checkIfCRExists :: "'w client \<Rightarrow> druid \<Rightarrow> ('w, bool) io" where
  "checkIfCRExists sdk m =
     handleE (reader_Get (clDruids sdk) (GetName m) m) (\<lambda>err. ret False) (\<lambda>_. ret True)"

abbreviation druidFinalizerTriggered :: string where
  "druidFinalizerTriggered \<equiv> ''DruidOperatorFinalizerTriggered''"
abbreviation druidFinalizerFailed :: string where "druidFinalizerFailed \<equiv> ''DruidFinalizerFailed''"
abbreviation druidFinalizerSuccess :: string where "druidFinalizerSuccess \<equiv> ''DruidFinalizerSuccess''"

definition finalizerMsg :: "string \<Rightarrow> string \<Rightarrow> druid \<Rightarrow> string" where
  "finalizerMsg pre outcome m = pre @ '' ['' @ deletePVCFinalizerName @ '']'' @ outcome @ '' for CR ['' @ GetName m
     @ ''] in namespace ['' @ GetNamespace m @ '']''"

text \<open>Returns the resource with its finalizers as they are in memory after the call.\<close>

definition executePVCFinalizer :: "'w client \<Rightarrow> druid \<Rightarrow> ('w, druid) io" where
  "executePVCFinalizer sdk druid =
     (if ContainsString (metaFinalizers (objMeta druid)) deletePVCFinalizerName then
        let pvcLabels = fmupd ''druid_cr'' (GetName druid) fmempty in
        bindE (reader_List (clPVCs sdk) pvcLabels druid) (\<lambda>pvcList.
        bindE (reader_List (clStatefulSets sdk) (makeLabelsForDruid druid) druid) (\<lambda>stsList.
        bindE (EmitEventGeneric druidFinalizerTriggered (finalizerMsg ''Trigerring finalizer'' [] druid) None) (\<lambda>_.
        handleE (deleteSTSAndPVC sdk stsList pvcList)
          (\<lambda>err. bindE (EmitEventGeneric druidFinalizerFailed (finalizerMsg ''Finalizer'' '' failed'' druid) (Some err))
             (\<lambda>_. throw err))
          (\<lambda>_.
            bindE (EmitEventGeneric druidFinalizerSuccess (finalizerMsg ''Finalizer'' '' success'' druid) None) (\<lambda>_.
            let druid' = SetFinalizers (RemoveString (metaFinalizers (objMeta druid)) deletePVCFinalizerName) druid in
            bindE (writer_Update (clDruids sdk) druid') (\<lambda>_. ret druid'))))))
      else ret druid)"

definition executeFinalizers :: "'w client \<Rightarrow> druid \<Rightarrow> ('w, druid) io" where
  "executeFinalizers sdk m =
     (if crDisablePVCDeletionFinalizer (drSpec m) = False then executePVCFinalizer sdk m else ret m)"

section \<open>Lemmas\<close>

lemma desiredFinalizers_eq:
  "desiredFinalizers m = filter (\<lambda>f. f \<noteq> deletePVCFinalizerName) (metaFinalizers (objMeta m))
     @ (if crDisablePVCDeletionFinalizer (drSpec m) then [] else [deletePVCFinalizerName])"
  by (simp add: desiredFinalizers_def defaultFinalizers_def Let_def)

lemma desiredFinalizers_idem:
  "desiredFinalizers (SetFinalizers (desiredFinalizers m) m) = desiredFinalizers m"
  by (simp add: desiredFinalizers_eq SetFinalizers_def)

definition deletions :: "'w client \<Rightarrow> statefulset list \<Rightarrow> pvc list \<Rightarrow> effect list" where
  "deletions sdk stsList pvcList =
     map (\<lambda>x. DeleteCall (apiWrap (clStatefulSets sdk) x) EmptyOptions) stsList
     @ map (\<lambda>x. DeleteCall (apiWrap (clPVCs sdk) x) EmptyOptions) pvcList"

lemma deletions_write: "e \<in> set (deletions sdk stss pvcs) \<Longrightarrow> is_write e"
  by (auto simp: deletions_def)

lemma deleteSTSAndPVC_requests:
  "\<exists>n \<le> length (deletions sdk stss pvcs).
     requests (effs (deleteSTSAndPVC sdk stss pvcs) s) = take n (deletions sdk stss pvcs)
     \<and> (res (deleteSTSAndPVC sdk stss pvcs) s = Ok () \<longrightarrow> n = length (deletions sdk stss pvcs))"
proof -
  let ?L1 = "forE (\<lambda>x. writer_Delete (clStatefulSets sdk) EmptyOptions x) stss"
  let ?L2 = "forE (\<lambda>x. writer_Delete (clPVCs sdk) EmptyOptions x) pvcs"
  obtain n1 where n1: "n1 \<le> length stss"
    "requests (effs ?L1 s) = map (\<lambda>x. DeleteCall (apiWrap (clStatefulSets sdk) x) EmptyOptions) (take n1 stss)"
    "res ?L1 s = Ok () \<longrightarrow> n1 = length stss"
    using wr_delete.loop_requests [of stss "clStatefulSets sdk" EmptyOptions s] by auto
  obtain n2 where n2: "n2 \<le> length pvcs"
    "requests (effs ?L2 (post ?L1 s)) = map (\<lambda>x. DeleteCall (apiWrap (clPVCs sdk) x) EmptyOptions) (take n2 pvcs)"
    "res ?L2 (post ?L1 s) = Ok () \<longrightarrow> n2 = length pvcs"
    using wr_delete.loop_requests [of pvcs "clPVCs sdk" EmptyOptions "post ?L1 s"] by auto
  show ?thesis
  proof (cases "res ?L1 s")
    case (Ok u)
    then show ?thesis using n1 n2
      by (intro exI [of _ "n1 + n2"]) (simp add: deleteSTSAndPVC_def go_run deletions_def take_map)
  next
    case (Err e)
    then show ?thesis using n1
      by (intro exI [of _ n1]) (simp add: deleteSTSAndPVC_def go_run deletions_def take_map)
  next
    case (Panic p)
    then show ?thesis using n1
      by (intro exI [of _ n1]) (simp add: deleteSTSAndPVC_def go_run deletions_def take_map)
  qed
qed

lemma deleteSTSAndPVC_not_panic: "res (deleteSTSAndPVC sdk stss pvcs) s \<noteq> Panic p"
  using wr_delete.loop_not_panic [of "clStatefulSets sdk" EmptyOptions stss s]
    wr_delete.loop_not_panic [of "clPVCs sdk" EmptyOptions pvcs]
  by (simp add: deleteSTSAndPVC_def go_run split: outcome.split)

text \<open>The loop succeeds if and only if the server accepted every deletion, StatefulSets first.\<close>

definition deletions_accepted :: "'w client \<Rightarrow> statefulset list \<Rightarrow> pvc list \<Rightarrow> 'w \<Rightarrow> bool" where
  "deletions_accepted sdk stsList pvcList w \<longleftrightarrow>
     accepted (apiDelete (clStatefulSets sdk) EmptyOptions) stsList w
     \<and> accepted (apiDelete (clPVCs sdk) EmptyOptions) pvcList
         (served (apiDelete (clStatefulSets sdk) EmptyOptions) stsList w)"

lemma deleteSTSAndPVC_accepted:
  "res (deleteSTSAndPVC sdk stss pvcs) s = Ok () \<longleftrightarrow> deletions_accepted sdk stss pvcs s"
  using wr_delete.loop_answers [of "clStatefulSets sdk" EmptyOptions stss s]
    wr_delete.loop_answers [of "clPVCs sdk" EmptyOptions pvcs]
  by (auto simp: deleteSTSAndPVC_def deletions_accepted_def go_run split: outcome.splits)

lemma executePVCFinalizer_requests:
  assumes "deletePVCFinalizerName \<in> set (metaFinalizers (objMeta m))"
    and "apiList (clPVCs sdk) (GetNamespace m) (fmupd ''druid_cr'' (GetName m) fmempty) s = (Inr pvcs, s1)"
    and "apiList (clStatefulSets sdk) (GetNamespace m) (makeLabelsForDruid m) s1 = (Inr stss, s2)"
  shows "requests (effs (executePVCFinalizer sdk m) s) =
      [ListCall (apiKind (clPVCs sdk)) (GetNamespace m) (fmupd ''druid_cr'' (GetName m) fmempty),
       ListCall (apiKind (clStatefulSets sdk)) (GetNamespace m) (makeLabelsForDruid m)]
      @ requests (effs (deleteSTSAndPVC sdk stss pvcs) s2)
      @ (if res (deleteSTSAndPVC sdk stss pvcs) s2 = Ok () then
           [UpdateCall (apiWrap (clDruids sdk) (SetFinalizers
             (filter (\<lambda>f. f \<noteq> deletePVCFinalizerName) (metaFinalizers (objMeta m))) m))]
         else [])"
  using assms deleteSTSAndPVC_not_panic [of sdk stss pvcs s2]
  by (auto simp: executePVCFinalizer_def go_run Let_def api_requests api_results api_posts split: outcome.split)

lemma only_deleteSTSAndPVC [only_intro]:
  assumes "\<And>a b c. Q (EventEff a b c)" "\<And>x. Q (DeleteCall (apiWrap (clStatefulSets sdk) x) EmptyOptions)"
    "\<And>x. Q (DeleteCall (apiWrap (clPVCs sdk) x) EmptyOptions)"
  shows "only Q (deleteSTSAndPVC sdk stss pvcs)"
  unfolding deleteSTSAndPVC_def using assms by (intro only_intro wr_delete.only_run) auto

lemma only_executeFinalizers:
  assumes ev: "\<And>a b c. Q (EventEff a b c)" and "\<And>x. Q (DeleteCall (apiWrap (clStatefulSets sdk) x) EmptyOptions)"
    "\<And>x. Q (DeleteCall (apiWrap (clPVCs sdk) x) EmptyOptions)" "\<And>k ns l. Q (ListCall k ns l)"
    "\<And>fs. Q (UpdateCall (apiWrap (clDruids sdk) (SetFinalizers fs m)))"
  shows "only Q (executeFinalizers sdk m)"
  unfolding executeFinalizers_def executePVCFinalizer_def Let_def
  using assms by (intro only_intro rd_list.only_run wr_update.only_run only_emits emits_emitters) auto

section \<open>Properties\<close>

text \<open>
  The finalizers of a live resource: all foreign finalizers stay, in order; the
  operator's own is last if claim deletion is enabled and absent otherwise. A resource that
  already has this list is left alone, otherwise one patch carries exactly it, and for the
  resource with that list there is nothing left to do.
\<close>

theorem updateFinalizers_converges:
  "desiredFinalizers m = filter (\<lambda>f. f \<noteq> deletePVCFinalizerName) (metaFinalizers (objMeta m))
       @ (if crDisablePVCDeletionFinalizer (drSpec m) then [] else [deletePVCFinalizerName])
   \<and> requests (effs (updateFinalizers sdk m) s) =
       (if metaFinalizers (objMeta m) = desiredFinalizers m then []
        else [PatchCall (apiWrap (clDruids sdk) (SetFinalizers (desiredFinalizers m) m))
               (JSONPatchFinalizers (desiredFinalizers m))])
   \<and> updateFinalizers sdk (SetFinalizers (desiredFinalizers m) m) = ret (SetFinalizers (desiredFinalizers m) m)"
  using desiredFinalizers_idem [of m]
  by (auto simp: updateFinalizers_def desiredFinalizers_eq Let_def go_run sdk_defs SetFinalizers_def)

text \<open>
  C13 (safety, ordering). Deleting a cluster whose resource carries the finalizer and has claim
  deletion enabled, when the server answers the two lists: the deletions requested are a prefix
  of \<^emph>\<open>all StatefulSets, then all claims\<close> that were listed. If the server accepted every one of
  them, each in the state that the ones before it left, all were requested and the resource is
  then updated without the finalizer; if it refused one, the resource is not updated and keeps
  the finalizer, and the run does not return without error. A run that returns without error was
  also answered without error to that update.
\<close>

theorem finalizer_released_after_all_deletions:
  assumes "deletePVCFinalizerName \<in> set (metaFinalizers (objMeta m))"
    and "crDisablePVCDeletionFinalizer (drSpec m) = False"
    and "apiList (clPVCs sdk) (GetNamespace m) (fmupd ''druid_cr'' (GetName m) fmempty) s = (Inr pvcs, s1)"
    and "apiList (clStatefulSets sdk) (GetNamespace m) (makeLabelsForDruid m) s1 = (Inr stss, s2)"
    and "released = SetFinalizers (filter (\<lambda>f. f \<noteq> deletePVCFinalizerName) (metaFinalizers (objMeta m))) m"
  shows "(\<exists>n. writes (effs (executeFinalizers sdk m) s) = take n (deletions sdk stss pvcs)
          @ (if deletions_accepted sdk stss pvcs s2 then [UpdateCall (apiWrap (clDruids sdk) released)] else [])
        \<and> (deletions_accepted sdk stss pvcs s2 \<longrightarrow> n = length (deletions sdk stss pvcs)))
    \<and> (\<forall>m'. res (executeFinalizers sdk m) s = Ok m' \<longleftrightarrow>
        deletions_accepted sdk stss pvcs s2 \<and> m' = released
        \<and> \<not> isl (fst (apiUpdate (clDruids sdk) released (post (deleteSTSAndPVC sdk stss pvcs) s2))))"
proof -
  let ?ok = "res (deleteSTSAndPVC sdk stss pvcs) s2 = Ok ()"
  obtain n where n: "requests (effs (deleteSTSAndPVC sdk stss pvcs) s2) = take n (deletions sdk stss pvcs)"
    "res (deleteSTSAndPVC sdk stss pvcs) s2 = Ok () \<longrightarrow> n = length (deletions sdk stss pvcs)"
    using deleteSTSAndPVC_requests [of sdk stss pvcs s2] by auto
  have w: "writes (take n (deletions sdk stss pvcs)) = take n (deletions sdk stss pvcs)"
    unfolding writes_def by (rule filter_True) (auto dest!: in_set_takeD deletions_write)
  have "writes (effs (executeFinalizers sdk m) s) = writes (requests (effs (executePVCFinalizer sdk m) s))"
    using assms(2) by (simp add: executeFinalizers_def)
  then have "writes (effs (executeFinalizers sdk m) s) = take n (deletions sdk stss pvcs)
      @ (if ?ok then [UpdateCall (apiWrap (clDruids sdk) released)] else [])"
    unfolding executePVCFinalizer_requests [OF assms(1,3,4)] n by (simp add: w assms(5))
  moreover have "res (executeFinalizers sdk m) s = Ok m' \<longleftrightarrow> ?ok \<and> m' = released
      \<and> \<not> isl (fst (apiUpdate (clDruids sdk) released (post (deleteSTSAndPVC sdk stss pvcs) s2)))" for m'
    using assms deleteSTSAndPVC_not_panic [of sdk stss pvcs s2]
    by (auto simp: executeFinalizers_def executePVCFinalizer_def go_run Let_def api_results api_posts
        split: outcome.split sum.split)
  ultimately show ?thesis
    using n(2) unfolding deleteSTSAndPVC_accepted by blast
qed

text \<open>The finalizer of a cluster with one StatefulSet and one claim.\<close>

definition finalizedDruid :: druid where
  "finalizedDruid = SetFinalizers [''other'', deletePVCFinalizerName] sampleDruid"

definition finalizedWorld :: world where
  "finalizedWorld = emptyWorld\<lparr>wObjs := [KStatefulSet (sampleSts ''s''), KPVC (samplePvc ''p'')]\<rparr>"

lemma finalized_lists:
  "apiList (clPVCs memClient) (GetNamespace finalizedDruid) (fmupd ''druid_cr'' (GetName finalizedDruid) fmempty) finalizedWorld
     = (Inr [samplePvc ''p''], finalizedWorld)"
  "apiList (clStatefulSets memClient) (GetNamespace finalizedDruid) (makeLabelsForDruid finalizedDruid) finalizedWorld
     = (Inr [sampleSts ''s''], finalizedWorld)"
  by (simp_all add: finalizedDruid_def finalizedWorld_def SetFinalizers_def mem_defs sample_defs makeLabelsForDruid_def
      fmsubset_alt_def fmpred_iff)

theorem finalizer_released_witness:
  "writes (effs (executeFinalizers memClient finalizedDruid) finalizedWorld)
     = deletions memClient [sampleSts ''s''] [samplePvc ''p'']
       @ [UpdateCall (KDruid (SetFinalizers [''other''] finalizedDruid))]"
proof -
  have "deletions_accepted memClient [sampleSts ''s''] [samplePvc ''p''] finalizedWorld"
    by (simp add: deletions_accepted_def finalizedWorld_def mem_defs sample_defs Let_def)
  moreover have "deletePVCFinalizerName \<in> set (metaFinalizers (objMeta finalizedDruid))"
    "crDisablePVCDeletionFinalizer (drSpec finalizedDruid) = False"
    by (simp_all add: finalizedDruid_def SetFinalizers_def sample_defs)
  ultimately show ?thesis
    using finalizer_released_after_all_deletions [OF _ _ finalized_lists refl]
    by (auto simp: finalizedDruid_def SetFinalizers_def deletePVCFinalizerName_def mem_defs)
qed

end
