(* ===== verification/Orphan_Pvc.thy ===== *)
theory Orphan_Pvc
  imports Workload_Builder Memory_Client
begin

text \<open>
  \<^verbatim>\<open>deleteOrphanPVC\<close>, \<^verbatim>\<open>checkPVCLabelsAndDelete\<close> and \<^verbatim>\<open>setPVCLabels\<close> of
  \<^verbatim>\<open>controllers/druid/handler.go\<close>: claims that no pod mounts are first marked with a time stamp
  and deleted by a later reconciliation, at least 60 seconds after. Proved: a claim is deleted
  only when every pod runs, no pod mounts it and its mark is old enough; nothing is written while
  a pod is not ready; what one round writes is read back by the next.
\<close>

section \<open>Operations\<close>

definition toBeDeletedLabel :: string where "toBeDeletedLabel = ''toBeDeleted''"
definition deletionTSLabel :: string where "deletionTSLabel = ''deletionTS''"

definition setPVCLabels :: "'w client \<Rightarrow> pvc \<Rightarrow> strmap \<Rightarrow> bool \<Rightarrow> ('w, unit) io" where
  "setPVCLabels sdk pvc labels isSetLabel =
     bindE (writer_Update (clPVCs sdk) (SetLabels labels pvc)) (\<lambda>_. ret ())"

definition checkPVCLabelsAndDelete :: "'w client \<Rightarrow> pvc \<Rightarrow> ('w, unit) io" where
  "checkPVCLabelsAndDelete sdk pvc =
     (let deletionTS = mapGet (GetLabels pvc) deletionTSLabel in
      case parseInt64 deletionTS of
        None \<Rightarrow> throw (GoErr (''strconv.ParseInt: parsing '' @ libQuote (clLib sdk) deletionTS @ '': ''
            @ parseInt64Reason deletionTS))
      | Some parsedDeletionTS \<Rightarrow>
          bindE (timeNow sdk) (\<lambda>now.
            if timeDifference parsedDeletionTS now \<ge> 60 then
              bindE (writer_Delete (clPVCs sdk) EmptyOptions pvc) (\<lambda>_. ret ())
            else ret ()))"

text \<open>A pod that is not running, or one of whose conditions is not true, stops the run.\<close>

definition podNotReady :: "pod \<Rightarrow> bool" where
  "podNotReady p = (podPhase p \<noteq> PodRunning \<or> list_ex (\<lambda>c. condStatus c \<noteq> ConditionTrue) (podConditions p))"

fun mountVolumes :: "string \<Rightarrow> volume list \<Rightarrow> string list \<Rightarrow> string list" where
  "mountVolumes phase [] mounted = mounted"
| "mountVolumes phase (vol # vols) mounted =
     mountVolumes phase vols
       (case volPVCClaimName vol of
          None \<Rightarrow> mounted
        | Some claim \<Rightarrow>
            if phase \<noteq> PodPending \<and> \<not> ContainsString mounted claim then mounted @ [claim] else mounted)"

fun mountPods :: "pod list \<Rightarrow> string list \<Rightarrow> string list" where
  "mountPods [] mounted = mounted"
| "mountPods (p # pods) mounted =
     mountPods pods (case podVolumes p of None \<Rightarrow> mounted | Some vols \<Rightarrow> mountVolumes (podPhase p) vols mounted)"

text \<open>Writing to a nil label map panics.\<close>

definition orphan_step :: "'w client \<Rightarrow> string list \<Rightarrow> pvc \<Rightarrow> ('w, unit) io" where
  "orphan_step sdk mountedPVC pvc =
     (if \<not> ContainsString mountedPVC (GetName pvc) then
        if fmlookup (GetLabels pvc) toBeDeletedLabel \<noteq> None then checkPVCLabelsAndDelete sdk pvc
        else
          (case metaLabels (objMeta pvc) of
             None \<Rightarrow> panic ''assignment to entry in nil map''
           | Some getPvcLabels \<Rightarrow>
               bindE (timeNow sdk) (\<lambda>now.
                 setPVCLabels sdk pvc
                   (fmupd deletionTSLabel (formatInt now) (fmupd toBeDeletedLabel ''yes'' getPvcLabels)) True))
      else
        if fmlookup (GetLabels pvc) toBeDeletedLabel \<noteq> None then
          setPVCLabels sdk pvc (fmdrop deletionTSLabel (fmdrop toBeDeletedLabel (GetLabels pvc))) False
        else ret ())"

text \<open>\<^verbatim>\<open>mountedPVC\<close> starts as a slice of as many empty strings as there are pods.\<close>

definition deleteOrphanPVC :: "'w client \<Rightarrow> druid \<Rightarrow> ('w, unit) io" where
  "deleteOrphanPVC sdk drd =
     bindE (reader_List (clPods sdk) (makeLabelsForDruid drd) drd) (\<lambda>podList.
     bindE (reader_List (clPVCs sdk) (fmupd ''druid_cr'' (GetName drd) fmempty) drd) (\<lambda>pvcList.
       if list_ex podNotReady podList then ret ()
       else forE (orphan_step sdk (mountPods podList (replicate (length podList) []))) pvcList))"

section \<open>Lemmas\<close>

lemma set_mountVolumes:
  "set (mountVolumes phase vols acc) =
     set acc \<union> (if phase \<noteq> PodPending then {c. \<exists>v \<in> set vols. volPVCClaimName v = Some c} else {})"
  by (induction vols arbitrary: acc) (auto split: option.split)

text \<open>The claims a pod mounts.\<close>

definition claimsOf :: "pod \<Rightarrow> string set" where
  "claimsOf p = {c. \<exists>vols. podVolumes p = Some vols \<and> (\<exists>v \<in> set vols. volPVCClaimName v = Some c)}"

lemma set_mountPods:
  "set (mountPods pods acc) = set acc \<union> (\<Union>p \<in> {p \<in> set pods. podPhase p \<noteq> PodPending}. claimsOf p)"
proof (induction pods arbitrary: acc)
  case (Cons p pods)
  let ?acc = "case podVolumes p of None \<Rightarrow> acc | Some vols \<Rightarrow> mountVolumes (podPhase p) vols acc"
  have "set ?acc = set acc \<union> (if podPhase p \<noteq> PodPending then claimsOf p else {})"
    by (cases "podVolumes p") (auto simp: set_mountVolumes claimsOf_def)
  moreover have "{q \<in> set (p # pods). podPhase q \<noteq> PodPending} =
      (if podPhase p \<noteq> PodPending then {p} else {}) \<union> {q \<in> set pods. podPhase q \<noteq> PodPending}"
    by auto
  ultimately show ?case
    using Cons.IH [of ?acc] by (simp add: Un_assoc)
qed simp

lemma mounted_ready:
  assumes "\<not> list_ex podNotReady pods"
  shows "set (mountPods pods (replicate n [])) = (if n = 0 then {} else {[]}) \<union> (\<Union>p \<in> set pods. claimsOf p)"
proof -
  have "{p \<in> set pods. podPhase p \<noteq> PodPending} = set pods"
    using assms by (auto simp: list_ex_iff podNotReady_def)
  then show ?thesis by (auto simp: set_mountPods)
qed

lemma setPVCLabels_requests [simp]:
  "requests (effs (setPVCLabels sdk pvc l b) s) = [UpdateCall (apiWrap (clPVCs sdk) (SetLabels l pvc))]"
  by (simp add: setPVCLabels_def go_run api_requests split: outcome.split)

definition expired :: "'w client \<Rightarrow> pvc \<Rightarrow> 'w \<Rightarrow> bool" where
  "expired sdk pvc w = (case parseInt64 (mapGet (GetLabels pvc) deletionTSLabel) of
     None \<Rightarrow> False | Some ts \<Rightarrow> timeDifference ts (fst (clNow sdk w)) \<ge> 60)"

lemma check_requests [simp]:
  "requests (effs (checkPVCLabelsAndDelete sdk pvc) s) =
     (if expired sdk pvc s then [DeleteCall (apiWrap (clPVCs sdk) pvc) EmptyOptions] else [])"
  by (simp add: checkPVCLabelsAndDelete_def expired_def Let_def go_run api_requests split: option.split)

lemma orphan_step_requests:
  "requests (effs (orphan_step sdk mounted pvc) s) =
     (if GetName pvc \<notin> set mounted then
        if fmlookup (GetLabels pvc) toBeDeletedLabel \<noteq> None then
          (if expired sdk pvc s then [DeleteCall (apiWrap (clPVCs sdk) pvc) EmptyOptions] else [])
        else case metaLabels (objMeta pvc) of None \<Rightarrow> []
          | Some l \<Rightarrow> [UpdateCall (apiWrap (clPVCs sdk) (SetLabels (fmupd deletionTSLabel (formatInt (fst (clNow sdk s)))
              (fmupd toBeDeletedLabel ''yes'' l)) pvc))]
      else if fmlookup (GetLabels pvc) toBeDeletedLabel \<noteq> None then
        [UpdateCall (apiWrap (clPVCs sdk) (SetLabels (fmdrop deletionTSLabel (fmdrop toBeDeletedLabel (GetLabels pvc))) pvc))]
      else [])"
  by (simp add: orphan_step_def go_run split: option.split)

lemma deleteOrphanPVC_requests:
  assumes "apiList (clPods sdk) (GetNamespace drd) (makeLabelsForDruid drd) s = (Inr pods, s1)"
    and "apiList (clPVCs sdk) (GetNamespace drd) (fmupd ''druid_cr'' (GetName drd) fmempty) s1 = (Inr pvcs, s2)"
  shows "requests (effs (deleteOrphanPVC sdk drd) s) =
    [ListCall (apiKind (clPods sdk)) (GetNamespace drd) (makeLabelsForDruid drd),
     ListCall (apiKind (clPVCs sdk)) (GetNamespace drd) (fmupd ''druid_cr'' (GetName drd) fmempty)]
    @ (if list_ex podNotReady pods then []
       else requests (effs (forE (orphan_step sdk (mountPods pods (replicate (length pods) []))) pvcs) s2))"
  using assms by (simp add: deleteOrphanPVC_def go_run api_requests api_results api_posts)

lemma only_deleteOrphanPVC:
  assumes ev: "\<And>a b c. Q (EventEff a b c)" and "\<And>k ns l. Q (ListCall k ns l)"
    and "\<And>x. Q (DeleteCall (apiWrap (clPVCs sdk) x) EmptyOptions)" "\<And>x. Q (UpdateCall (apiWrap (clPVCs sdk) x))"
  shows "only Q (deleteOrphanPVC sdk drd)"
  unfolding deleteOrphanPVC_def orphan_step_def checkPVCLabelsAndDelete_def setPVCLabels_def Let_def
  using assms by (intro only_intro rd_list.only_run wr_update.only_run wr_delete.only_run) auto

lemma timeDifference_ge:
  assumes "\<bar>a\<bar> \<le> 2 ^ 61" "\<bar>b\<bar> \<le> 2 ^ 61"
  shows "timeDifference a b \<ge> 60 \<longleftrightarrow> b - a \<ge> 60"
  using timeDifference_clamp [OF assms] by (auto simp: maxDurSec_def)

section \<open>Properties\<close>

text \<open>
  A claim deleted as an orphan is one the server listed for the cluster; all the
  pods it listed were running with only true conditions, none of them mounts the claim, and the
  claim carried the deletion mark with a time stamp at least 60 seconds before the clock
  reading.
\<close>

theorem orphan_deletion_safe:
  assumes "apiList (clPods sdk) (GetNamespace drd) (makeLabelsForDruid drd) s = (Inr pods, s1)"
    and "apiList (clPVCs sdk) (GetNamespace drd) (fmupd ''druid_cr'' (GetName drd) fmempty) s1 = (Inr pvcs, s2)"
    and "DeleteCall k opt \<in> set (effs (deleteOrphanPVC sdk drd) s)"
  shows "\<exists>pvc \<in> set pvcs. k = apiWrap (clPVCs sdk) pvc
    \<and> (\<forall>p \<in> set pods. \<not> podNotReady p \<and> GetName pvc \<notin> claimsOf p)
    \<and> fmlookup (GetLabels pvc) toBeDeletedLabel \<noteq> None
    \<and> (\<exists>ts w. parseInt64 (mapGet (GetLabels pvc) deletionTSLabel) = Some ts
        \<and> timeDifference ts (fst (clNow sdk w)) \<ge> 60)"
proof -
  let ?mounted = "mountPods pods (replicate (length pods) [])"
  have req: "DeleteCall k opt \<in> set (requests (effs (deleteOrphanPVC sdk drd) s))"
    using assms(3) by (simp add: in_requests)
  note req = req [unfolded deleteOrphanPVC_requests [OF assms(1,2)]]
  have ready: "\<not> list_ex podNotReady pods"
    and loop: "DeleteCall k opt \<in> set (effs (forE (orphan_step sdk ?mounted) pvcs) s2)"
    using req by (simp_all add: in_requests split: if_splits)
  obtain pvc w where pvc: "pvc \<in> set pvcs" and e: "DeleteCall k opt \<in> set (effs (orphan_step sdk ?mounted pvc) w)"
    using effs_forE_in [OF loop] by blast
  then have "DeleteCall k opt \<in> set (requests (effs (orphan_step sdk ?mounted pvc) w))"
    by (simp add: in_requests)
  then have "GetName pvc \<notin> set ?mounted" "fmlookup (GetLabels pvc) toBeDeletedLabel \<noteq> None"
    "expired sdk pvc w" "k = apiWrap (clPVCs sdk) pvc"
    unfolding orphan_step_requests by (simp_all split: if_splits option.splits)
  then show ?thesis
    using pvc ready mounted_ready [OF ready, of "length pods"]
    by (intro bexI [of _ pvc]) (auto simp: expired_def list_ex_iff split: option.splits)
qed

text \<open>
  While any listed pod is not running or has a condition that is not true, the
  orphan cleanup writes nothing and succeeds.
\<close>

theorem orphan_cleanup_waits_for_pods:
  assumes "apiList (clPods sdk) (GetNamespace drd) (makeLabelsForDruid drd) s = (Inr pods, s1)"
    and "apiList (clPVCs sdk) (GetNamespace drd) (fmupd ''druid_cr'' (GetName drd) fmempty) s1 = (Inr pvcs, s2)"
    and "p \<in> set pods" and "podPhase p \<noteq> PodRunning \<or> (\<exists>c \<in> set (podConditions p). condStatus c \<noteq> ConditionTrue)"
  shows "writes (effs (deleteOrphanPVC sdk drd) s) = [] \<and> res (deleteOrphanPVC sdk drd) s = Ok ()"
proof -
  have nr: "list_ex podNotReady pods" using assms(3,4) by (auto simp: list_ex_iff podNotReady_def)
  then have "writes (requests (effs (deleteOrphanPVC sdk drd) s)) = []"
    unfolding deleteOrphanPVC_requests [OF assms(1,2)] by simp
  moreover have "res (deleteOrphanPVC sdk drd) s = Ok ()"
    using assms(1,2) nr by (simp add: deleteOrphanPVC_def go_run api_results api_posts)
  ultimately show ?thesis by simp
qed

text \<open>
  C31 (round trip). What a round writes the next rounds read back: an unmarked orphan is marked
  with the time; a later round deletes the claim with that mark exactly when 60 seconds have
  passed since; and if the claim is mounted again, the mark is removed and the labels are the
  original ones.
\<close>

theorem orphan_mark_round_trip:
  assumes "metaLabels (objMeta pvc) = Some l" "fmlookup l toBeDeletedLabel = None" "fmlookup l deletionTSLabel = None"
    and "fst (clNow sdk s) = t" "\<bar>t\<bar> \<le> 2 ^ 61" "fst (clNow sdk s') = t'" "\<bar>t'\<bar> \<le> 2 ^ 61"
    and "marked = SetLabels (fmupd deletionTSLabel (formatInt t) (fmupd toBeDeletedLabel ''yes'' l)) pvc"
    and "GetName pvc \<notin> set mounted" and "GetName pvc \<in> set mounted'"
  shows "requests (effs (orphan_step sdk mounted pvc) s) = [UpdateCall (apiWrap (clPVCs sdk) marked)]
    \<and> requests (effs (orphan_step sdk mounted marked) s') =
        (if t' - t \<ge> 60 then [DeleteCall (apiWrap (clPVCs sdk) marked) EmptyOptions] else [])
    \<and> requests (effs (orphan_step sdk mounted' marked) s') = [UpdateCall (apiWrap (clPVCs sdk) (SetLabels l marked))]"
proof -
  have name: "GetName marked = GetName pvc" by (simp add: assms(8) SetLabels_def)
  have ts: "parseInt64 (mapGet (GetLabels marked) deletionTSLabel) = Some t"
    using assms(5) by (simp add: assms(8) mapGet_def parseInt64_formatInt int64_min_def int64_max_def)
  have labels: "GetLabels pvc = l" using assms(1) by (simp add: GetLabels_def)
  have mark: "fmlookup (GetLabels marked) toBeDeletedLabel \<noteq> None"
    by (simp add: assms(8) toBeDeletedLabel_def deletionTSLabel_def)
  have restore: "fmdrop deletionTSLabel (fmdrop toBeDeletedLabel (GetLabels marked)) = l"
    using assms(2,3) by (intro fmap_ext) (auto simp: assms(8))
  have "requests (effs (orphan_step sdk mounted pvc) s) = [UpdateCall (apiWrap (clPVCs sdk) marked)]"
    using assms(1,2,4,9) by (simp add: orphan_step_requests labels assms(8))
  moreover have "requests (effs (orphan_step sdk mounted marked) s') =
      (if t' - t \<ge> 60 then [DeleteCall (apiWrap (clPVCs sdk) marked) EmptyOptions] else [])"
    using assms(6,9) timeDifference_ge [OF assms(5,7)] mark ts by (simp add: orphan_step_requests name expired_def)
  moreover have "requests (effs (orphan_step sdk mounted' marked) s') = [UpdateCall (apiWrap (clPVCs sdk) (SetLabels l marked))]"
    using assms(10) mark restore by (simp add: orphan_step_requests name)
  ultimately show ?thesis by simp
qed

section \<open>Witnesses\<close>

text \<open>A cluster with one pod that mounts nothing, and a claim marked at time 0; the clock is at 100.\<close>

definition markedPvc :: pvc where
  "markedPvc = SetLabels (fmupd deletionTSLabel (formatInt 0) (fmupd toBeDeletedLabel ''yes'' crLabels)) (samplePvc ''p'')"

definition orphanWorld :: "string \<Rightarrow> world" where
  "orphanWorld phase = \<lparr>wObjs = [KPod (samplePod ''p0'' phase []), KPVC markedPvc], wClock = 100, wHttp = []\<rparr>"

lemma orphan_lists:
  "apiList (clPods memClient) (GetNamespace sampleDruid) (makeLabelsForDruid sampleDruid) (orphanWorld ph)
     = (Inr [samplePod ''p0'' ph []], orphanWorld ph)"
  "apiList (clPVCs memClient) (GetNamespace sampleDruid) (fmupd ''druid_cr'' (GetName sampleDruid) fmempty) (orphanWorld ph)
     = (Inr [markedPvc], orphanWorld ph)"
  by (simp_all add: orphanWorld_def markedPvc_def SetLabels_def mem_defs sample_defs makeLabelsForDruid_def
      fmsubset_alt_def fmpred_iff toBeDeletedLabel_def deletionTSLabel_def)

lemma marked_expired: "expired memClient markedPvc (orphanWorld ph)"
proof -
  have "parseInt64 (formatInt 0) = Some 0" by (rule parseInt64_formatInt) (simp_all add: int64_min_def int64_max_def)
  then show ?thesis
    using timeDifference_ge [of 0 100]
    by (simp add: expired_def markedPvc_def mapGet_def mem_defs orphanWorld_def)
qed

theorem orphan_deletion_safe_witness:
  "\<exists>pvc \<in> set [markedPvc]. KPVC markedPvc = apiWrap (clPVCs memClient) pvc
    \<and> (\<forall>p \<in> set [samplePod ''p0'' PodRunning []]. \<not> podNotReady p \<and> GetName pvc \<notin> claimsOf p)
    \<and> fmlookup (GetLabels pvc) toBeDeletedLabel \<noteq> None
    \<and> (\<exists>ts w. parseInt64 (mapGet (GetLabels pvc) deletionTSLabel) = Some ts
        \<and> timeDifference ts (fst (clNow memClient w)) \<ge> 60)"
proof (rule orphan_deletion_safe [OF orphan_lists])
  have "requests (effs (deleteOrphanPVC memClient sampleDruid) (orphanWorld PodRunning)) =
    [ListCall PodKind ''ns'' (makeLabelsForDruid sampleDruid), ListCall PVCKind ''ns'' (fmupd ''druid_cr'' ''c'' fmempty),
     DeleteCall (KPVC markedPvc) EmptyOptions]"
    unfolding deleteOrphanPVC_requests [OF orphan_lists]
    by (simp add: go_run orphan_step_requests marked_expired split: outcome.split)
       (simp add: markedPvc_def SetLabels_def GetLabels_def mem_defs sample_defs podNotReady_def toBeDeletedLabel_def deletionTSLabel_def)
  then show "DeleteCall (KPVC markedPvc) EmptyOptions \<in> set (effs (deleteOrphanPVC memClient sampleDruid) (orphanWorld PodRunning))"
    using in_requests [of "DeleteCall (KPVC markedPvc) EmptyOptions"
        "effs (deleteOrphanPVC memClient sampleDruid) (orphanWorld PodRunning)"] by simp
qed

theorem orphan_cleanup_waits_witness:
  "writes (effs (deleteOrphanPVC memClient sampleDruid) (orphanWorld ''Pending'')) = []
    \<and> res (deleteOrphanPVC memClient sampleDruid) (orphanWorld ''Pending'') = Ok ()"
  by (rule orphan_cleanup_waits_for_pods [OF orphan_lists, of "samplePod ''p0'' ''Pending'' []"])
     (simp_all add: sample_defs)

theorem orphan_mark_round_trip_witness:
  "requests (effs (orphan_step memClient [] (samplePvc ''p'')) (emptyWorld\<lparr>wClock := 0\<rparr>)) = [UpdateCall (KPVC markedPvc)]
    \<and> requests (effs (orphan_step memClient [] markedPvc) (emptyWorld\<lparr>wClock := 60\<rparr>)) = [DeleteCall (KPVC markedPvc) EmptyOptions]
    \<and> requests (effs (orphan_step memClient [''p''] markedPvc) (emptyWorld\<lparr>wClock := 60\<rparr>))
        = [UpdateCall (KPVC (SetLabels crLabels markedPvc))]"
  using orphan_mark_round_trip [of "samplePvc ''p''" crLabels memClient "emptyWorld\<lparr>wClock := 0\<rparr>" 0
      "emptyWorld\<lparr>wClock := 60\<rparr>" 60 markedPvc "[]" "[''p'']"]
  by (simp add: markedPvc_def mem_defs samplePvc_def metaOf_def crLabels_def toBeDeletedLabel_def deletionTSLabel_def)

end
