(* ===== verification/Volume_Expansion.thy ===== *)
theory Volume_Expansion
  imports Workload_Builder Memory_Client
begin

text \<open>
  \<^verbatim>\<open>controllers/druid/volume_expansion.go\<close> and \<^verbatim>\<open>getVolumeClaimTemplateSizes\<close> of
  \<^verbatim>\<open>controllers/druid/handler.go\<close>: growing the volumes of a StatefulSet. A grown claim template
  makes the operator delete the StatefulSet without its pods and patch the claims. Proved: a
  smaller template is refused before anything is written; the StatefulSet is orphaned before
  any claim is patched; a node group with one claim template whose sizes all agree is left
  alone. Departures from the intention are stated as theorems.
\<close>

section \<open>Operations\<close>

text \<open>
  \<^verbatim>\<open>boolFalse\<close> returns the address of a new variable, and \<^verbatim>\<open>!=\<close> on pointers compares addresses:
  a pointer that was there before is different from it, nil or not, whatever it points to.
\<close>

definition differsFromBoolFalse :: "bool option \<Rightarrow> bool" where
  "differsFromBoolFalse p = True"

definition expansion_step ::
  "'w client \<Rightarrow> druid \<Rightarrow> unit \<Rightarrow> pvc \<Rightarrow> ('w, (unit, bool) flow) io" where
  "expansion_step sdk m u nodeVCT =
     (case pvcStorageClassName nodeVCT of
        None \<Rightarrow> throw (GoErr ''StorageClassName does not exists'')
      | Some cls \<Rightarrow>
          bindE (reader_Get (clStorageClasses sdk) cls m) (\<lambda>sc.
            if differsFromBoolFalse (scAllowVolumeExpansion sc) then ret (Return True) else ret (Next ())))"

definition isVolumeExpansionEnabled :: "'w client \<Rightarrow> druid \<Rightarrow> druid_node_spec \<Rightarrow> ('w, bool) io" where
  "isVolumeExpansionEnabled sdk m nodeSpec =
     bindE (loopE (expansion_step sdk m) () (ndVolumeClaimTemplates nodeSpec)) (\<lambda>r.
       case r of Return b \<Rightarrow> ret b | Next _ \<Rightarrow> ret False)"

text \<open>\<^verbatim>\<open>Spec.Resources.Requests[v1.ResourceStorage]\<close>; a missing entry is the zero quantity.\<close>

definition storageRequest :: "pvc \<Rightarrow> quantity" where
  "storageRequest p = (case pvcRequests p of None \<Rightarrow> 0
     | Some rs \<Rightarrow> (case fmlookup rs ''storage'' of None \<Rightarrow> 0 | Some q \<Rightarrow> q))"

definition getVolumeClaimTemplateSizes ::
  "statefulset \<Rightarrow> druid_node_spec \<Rightarrow> pvc list \<Rightarrow> quantity list \<times> quantity list \<times> quantity list" where
  "getVolumeClaimTemplateSizes sts nodeSpec pvcs =
     (map storageRequest (ndVolumeClaimTemplates nodeSpec),
      map storageRequest (stsVolumeClaimTemplates (stsSpec sts)),
      map storageRequest pvcs)"

text \<open>Writing the request into a claim; a nil request map panics.\<close>

definition resize_step ::
  "'w client \<Rightarrow> quantity \<Rightarrow> quantity list \<Rightarrow> pvc list \<Rightarrow> nat \<Rightarrow> ('w, pvc list) io" where
  "resize_step sdk des pvcSize pvcList p =
     (if quantityCmp des (pvcSize ! p) \<noteq> 0 then
        (case pvcRequests (pvcList ! p) of
           None \<Rightarrow> panic ''assignment to entry in nil map''
         | Some rs \<Rightarrow>
             bindE (writer_Patch (clPVCs sdk) False (MergeFrom (apiWrap (clPVCs sdk) (pvcList ! p)))
                     ((pvcList ! p)\<lparr>pvcRequests := Some (fmupd ''storage'' des rs)\<rparr>)) (\<lambda>answer.
               ret (pvcList[p := answer])))
      else ret pvcList)"

definition scale_step ::
  "'w client \<Rightarrow> statefulset \<Rightarrow> quantity list \<Rightarrow> quantity list \<Rightarrow> pvc list \<Rightarrow> nat \<times> quantity
   \<Rightarrow> ('w, pvc list) io" where
  "scale_step sdk sts currSize pvcSize pvcList = (\<lambda>(i, des).
     if i \<ge> length currSize then panic ''index out of range''
     else
       let desiredVsCurrent = quantityCmp des (currSize ! i) in
       if desiredVsCurrent < 0 then
         bindE (EmitEventGeneric ''DruidOperatorPvcReSizeFail'' [] None) (\<lambda>_.
           throw (GoErr (''Request for Shrinking of sts pvc size [sts:'' @ GetName sts @ ''] in [namespace:''
             @ GetNamespace sts @ ''] is not Supported'')))
       else
         bindE
           (if desiredVsCurrent \<noteq> 0 then
              bindE (EmitEventGeneric ''DruidOperatorPvcReSizeDetected''
                (''Detected Change in VolumeClaimTemplate Sizes for Statefuleset ['' @ GetName sts @ ''] in Namespace [''
                 @ GetNamespace sts @ ''], desVolumeClaimTemplateSize: ['' @ libQuantityString (clLib sdk) des
                 @ ''], currVolumeClaimTemplateSize: ['' @ libQuantityString (clLib sdk) (currSize ! i) @ '']'' @ newline
                 @ '', deleteing STS ['' @ GetName sts @ ''] with casacde=false]'') None) (\<lambda>_.
              bindE (writer_Delete (clStatefulSets sdk) PropagationOrphan sts) (\<lambda>_.
                EmitEventGeneric ''DruidOperatorStsOrphaned''
                  (''[StatefuleSet:'' @ GetName sts @ ''] successfully deleted with casacde=false'') None))
            else ret ())
           (\<lambda>_. foldE (resize_step sdk des pvcSize) pvcList [0..<length pvcSize]))"

text \<open>Errors of the reads are swallowed: the operator goes on to create the StatefulSet.\<close>

definition scalePVCForSts :: "'w client \<Rightarrow> druid_node_spec \<Rightarrow> string \<Rightarrow> druid \<Rightarrow> ('w, unit) io" where
  "scalePVCForSts sdk nodeSpec nodeSpecUniqueStr drd =
     handleE (reader_List (clStatefulSets sdk) (makeLabelsForDruid drd) drd) (\<lambda>err. ret ()) (\<lambda>stsList.
       if list_ex (\<lambda>sts. stReplicas (stsStatus sts) \<noteq> stReadyReplicas (stsStatus sts)) stsList then ret ()
       else
         handleE (reader_Get (clStatefulSets sdk) nodeSpecUniqueStr drd) (\<lambda>err. ret ()) (\<lambda>sts.
         handleE (reader_List (clPVCs sdk) (fmupd ''nodeSpecUniqueStr'' nodeSpecUniqueStr fmempty) drd)
           (\<lambda>err. ret ()) (\<lambda>pvcList.
           let (desSize, currSize, pvcSize) = getVolumeClaimTemplateSizes sts nodeSpec pvcList in
           if length pvcSize < length desSize then ret ()
           else bindE (foldE (scale_step sdk sts currSize pvcSize) pvcList (enumerate 0 desSize)) (\<lambda>_. ret ()))))"

definition expandStatefulSetVolumes :: "'w client \<Rightarrow> druid \<Rightarrow> druid_node_spec \<Rightarrow> string \<Rightarrow> ('w, unit) io" where
  "expandStatefulSetVolumes sdk m nodeSpec nodeSpecUniqueStr =
     bindE (isVolumeExpansionEnabled sdk m nodeSpec) (\<lambda>isEnabled.
       if isEnabled then scalePVCForSts sdk nodeSpec nodeSpecUniqueStr m else ret ())"

section \<open>Lemmas\<close>

lemma quantityCmp_simps [simp]:
  "quantityCmp a b = 0 \<longleftrightarrow> a = b" "quantityCmp a b < 0 \<longleftrightarrow> a < b"
  by (simp_all add: quantityCmp_def)

text \<open>The patch of one claim.\<close>

definition resizePatch :: "'w client \<Rightarrow> quantity \<Rightarrow> pvc \<Rightarrow> effect" where
  "resizePatch sdk des p = PatchCall (apiWrap (clPVCs sdk)
      (p\<lparr>pvcRequests := map_option (fmupd ''storage'' des) (pvcRequests p)\<rparr>)) (MergeFrom (apiWrap (clPVCs sdk) p))"

lemma resize_step_requests:
  "requests (effs (resize_step sdk des sizes l p) s) =
     (if des = sizes ! p \<or> pvcRequests (l ! p) = None then [] else [resizePatch sdk des (l ! p)])"
  by (simp add: resize_step_def resizePatch_def go_run api_requests split: option.split)

lemma resize_loop_same:
  "(\<And>p. p \<in> set ps \<Longrightarrow> sizes ! p = des) \<Longrightarrow> foldE (resize_step sdk des sizes) l ps = ret l"
  by (induction ps) (simp_all add: resize_step_def)

definition is_pvc_patch :: "'w client \<Rightarrow> effect \<Rightarrow> bool" where
  "is_pvc_patch sdk e \<longleftrightarrow> (\<exists>p x. e = PatchCall (apiWrap (clPVCs sdk) p) x)"

lemma only_resize: "only (\<lambda>e. is_event e \<or> is_pvc_patch sdk e) (foldE (resize_step sdk des sizes) l ps)"
  unfolding resize_step_def
  by (intro only_intro wr_patch.only_run) (auto simp: is_pvc_patch_def)

lemma scale_step_requests:
  assumes "i < length currSize" "currSize ! i \<le> des"
  shows "requests (effs (scale_step sdk sts currSize pvcSize pvcList (i, des)) s) =
    (if des = currSize ! i then requests (effs (foldE (resize_step sdk des pvcSize) pvcList [0..<length pvcSize]) s)
     else DeleteCall (apiWrap (clStatefulSets sdk) sts) PropagationOrphan #
       (if \<exists>r. fst (apiDelete (clStatefulSets sdk) PropagationOrphan sts s) = Inr r
        then requests (effs (foldE (resize_step sdk des pvcSize) pvcList [0..<length pvcSize])
               (snd (apiDelete (clStatefulSets sdk) PropagationOrphan sts s)))
        else []))"
  using assms
  by (auto simp: scale_step_def go_run Let_def api_requests api_results api_posts split: sum.split)

lemma scale_step_shrink:
  assumes "i < length currSize" "des < currSize ! i"
  shows "\<exists>e. scale_step sdk sts currSize pvcSize pvcList (i, des) = throw e"
  using assms by (auto simp: scale_step_def Let_def EmitEventGeneric_def)

lemma scale_step_same:
  assumes "i < length currSize" "currSize ! i = des" "\<And>q. q \<in> set pvcSize \<Longrightarrow> q = des"
  shows "scale_step sdk sts currSize pvcSize pvcList (i, des) = ret pvcList"
  using assms resize_loop_same [of "[0..<length pvcSize]" pvcSize des sdk pvcList]
  by (simp add: scale_step_def Let_def)

lemma expansion_step_ok:
  assumes "pvcStorageClassName vct = Some cls" "fst (apiGet (clStorageClasses sdk) cls (GetNamespace m) s) = Inr sc"
  shows "res (expansion_step sdk m u vct) s = Ok (Return True)"
  using assms by (simp add: expansion_step_def go_run api_results differsFromBoolFalse_def)

text \<open>The state of the server after the three reads of \<open>scalePVCForSts\<close>, with their answers.\<close>

definition scaleReads :: "'w client \<Rightarrow> string \<Rightarrow> druid \<Rightarrow> 'w \<Rightarrow> statefulset \<Rightarrow> pvc list \<Rightarrow> 'w \<Rightarrow> bool" where
  "scaleReads sdk u drd s sts pvcs s' \<longleftrightarrow> (\<exists>stss s1 s2.
     apiList (clStatefulSets sdk) (GetNamespace drd) (makeLabelsForDruid drd) s = (Inr stss, s1)
     \<and> \<not> list_ex (\<lambda>sts. stReplicas (stsStatus sts) \<noteq> stReadyReplicas (stsStatus sts)) stss
     \<and> apiGet (clStatefulSets sdk) u (GetNamespace drd) s1 = (Inr sts, s2)
     \<and> apiList (clPVCs sdk) (GetNamespace drd) (fmupd ''nodeSpecUniqueStr'' u fmempty) s2 = (Inr pvcs, s'))"

lemma scale_after_reads:
  assumes "scaleReads sdk u drd s sts pvcs s'" "length (ndVolumeClaimTemplates n) \<le> length pvcs"
  shows "writes (effs (scalePVCForSts sdk n u drd) s) =
      writes (effs (foldE (scale_step sdk sts (map storageRequest (stsVolumeClaimTemplates (stsSpec sts))) (map storageRequest pvcs))
        pvcs (enumerate 0 (map storageRequest (ndVolumeClaimTemplates n)))) s')"
    "res (scalePVCForSts sdk n u drd) s =
      (case res (foldE (scale_step sdk sts (map storageRequest (stsVolumeClaimTemplates (stsSpec sts))) (map storageRequest pvcs))
        pvcs (enumerate 0 (map storageRequest (ndVolumeClaimTemplates n)))) s'
       of Ok _ \<Rightarrow> Ok () | Err e \<Rightarrow> Err e | Panic p \<Rightarrow> Panic p)"
  using assms
  by (auto simp: scalePVCForSts_def scaleReads_def go_run api_writes api_results api_posts
      getVolumeClaimTemplateSizes_def Let_def split: outcome.split)

lemma scale_prefix:
  "(\<forall>(i, d) \<in> set xs. i < length currSize \<and> currSize ! i = d \<and> (\<forall>q \<in> set pvcSize. q = d)) \<Longrightarrow>
   foldE (scale_step sdk sts currSize pvcSize) l xs = ret l"
proof (induction xs)
  case (Cons x xs)
  obtain i d where x: "x = (i, d)" by (cases x)
  have "scale_step sdk sts currSize pvcSize l x = ret l"
    unfolding x using Cons.prems by (intro scale_step_same) (auto simp: x)
  moreover have "foldE (scale_step sdk sts currSize pvcSize) l xs = ret l"
    using Cons.prems by (intro Cons.IH) simp
  ultimately show ?case by simp
qed simp

lemma enumerate_at:
  "i < length xs \<Longrightarrow> \<exists>ys. enumerate 0 xs = enumerate 0 (take i xs) @ (i, xs ! i) # ys"
  using id_take_nth_drop [of i xs] by (metis enumerate_append_eq enumerate_simps(2) length_take min.absorb2 nat_less_le plus_nat.add_0)

lemma only_resize_writes:
  "e \<in> set (writes (effs (foldE (resize_step sdk des sizes) l ps) s)) \<Longrightarrow> is_pvc_patch sdk e"
  using onlyD [OF only_resize, of e sdk des sizes l ps s] is_write_not_event [of e] by (auto simp: writes_def)

section \<open>Properties\<close>

text \<open>
  Shrinking is refused: when the StatefulSets are up and the claims are read, and
  template \<open>i\<close> is smaller than the StatefulSet's while the templates before it and all the claims
  agree with theirs, the call fails and writes nothing.
\<close>

theorem shrinking_refused:
  assumes "scaleReads sdk u drd s sts pvcs s'" and "length (ndVolumeClaimTemplates n) \<le> length pvcs"
    and "des = map storageRequest (ndVolumeClaimTemplates n)"
    and "cur = map storageRequest (stsVolumeClaimTemplates (stsSpec sts))"
    and "i < length des" and "i < length cur" and "des ! i < cur ! i"
    and "\<forall>j < i. des ! j = cur ! j \<and> (\<forall>p \<in> set pvcs. storageRequest p = des ! j)"
  shows "writes (effs (scalePVCForSts sdk n u drd) s) = [] \<and> (\<exists>e. res (scalePVCForSts sdk n u drd) s = Err e)"
proof -
  let ?loop = "foldE (scale_step sdk sts cur (map storageRequest pvcs)) pvcs"
  obtain ys where ys: "enumerate 0 des = enumerate 0 (take i des) @ (i, des ! i) # ys"
    using enumerate_at [OF assms(5)] by blast
  have "?loop (enumerate 0 (take i des)) = ret pvcs"
    using assms(6,8) by (intro scale_prefix) (force simp: in_set_enumerate_eq)
  moreover obtain e where "scale_step sdk sts cur (map storageRequest pvcs) pvcs (i, des ! i) = throw e"
    using scale_step_shrink [OF assms(6,7)] by blast
  ultimately have "?loop (enumerate 0 des) = throw e" by (simp add: ys foldE_append)
  then show ?thesis
    using scale_after_reads [OF assms(1,2)] by (simp add: assms(3) [symmetric] assms(4) [symmetric] go_run)
qed

text \<open>
  Growing the one claim template of a node group: the StatefulSet is
  deleted first, leaving its pods; every further write is the patch of a claim; and if that
  deletion fails no claim is touched and the call fails.
\<close>

theorem growth_orphans_statefulset_first:
  assumes "scaleReads sdk u drd s sts pvcs s'" and "pvcs \<noteq> []"
    and "ndVolumeClaimTemplates n = [vct]" and "stsVolumeClaimTemplates (stsSpec sts) = [old]"
    and "storageRequest old < storageRequest vct"
  shows "\<exists>ps. writes (effs (scalePVCForSts sdk n u drd) s) = DeleteCall (apiWrap (clStatefulSets sdk) sts) PropagationOrphan # ps
    \<and> list_all (is_pvc_patch sdk) ps
    \<and> (\<forall>e. fst (apiDelete (clStatefulSets sdk) PropagationOrphan sts s') = Inl e \<longrightarrow>
        ps = [] \<and> res (scalePVCForSts sdk n u drd) s = Err e)"
proof -
  let ?des = "storageRequest vct" and ?cur = "[storageRequest old]" and ?sz = "map storageRequest pvcs"
  let ?step = "scale_step sdk sts ?cur ?sz pvcs (0, ?des)"
  let ?del = "apiDelete (clStatefulSets sdk) PropagationOrphan sts s'"
  let ?ps = "if \<exists>r. fst ?del = Inr r then writes (effs (foldE (resize_step sdk ?des ?sz) pvcs [0..<length ?sz]) (snd ?del)) else []"
  have len: "length (ndVolumeClaimTemplates n) \<le> length pvcs"
    using assms(2,3) by (cases pvcs) auto
  have "requests (effs ?step s') = DeleteCall (apiWrap (clStatefulSets sdk) sts) PropagationOrphan #
      (if \<exists>r. fst ?del = Inr r then requests (effs (foldE (resize_step sdk ?des ?sz) pvcs [0..<length ?sz]) (snd ?del)) else [])"
    using scale_step_requests [of 0 ?cur ?des sdk sts ?sz pvcs s'] assms(5) by simp
  then have "writes (effs ?step s') = DeleteCall (apiWrap (clStatefulSets sdk) sts) PropagationOrphan # ?ps"
    using writes_requests [of "effs ?step s'"] by (simp split: if_splits)
  then have w: "writes (effs (scalePVCForSts sdk n u drd) s) = DeleteCall (apiWrap (clStatefulSets sdk) sts) PropagationOrphan # ?ps"
    using scale_after_reads(1) [OF assms(1) len] assms(3,4) by simp
  have f: "fst ?del = Inl e \<Longrightarrow> res (scalePVCForSts sdk n u drd) s = Err e" for e
    using scale_after_reads(2) [OF assms(1) len] assms(3,4,5)
    by (simp add: scale_step_def go_run api_results api_posts Let_def)
  show ?thesis
    using w f by (intro exI [of _ ?ps]) (auto simp: list_all_iff dest: only_resize_writes)
qed

text \<open>
  A node group whose templates, StatefulSet templates and claims all ask for one
  size is settled: the call succeeds and writes nothing.
\<close>

theorem expansion_settled:
  assumes "scaleReads sdk u drd s sts pvcs s'" and "length (ndVolumeClaimTemplates n) \<le> length pvcs"
    and "\<forall>v \<in> set (ndVolumeClaimTemplates n). storageRequest v = q" and "\<forall>p \<in> set pvcs. storageRequest p = q"
    and "map storageRequest (stsVolumeClaimTemplates (stsSpec sts)) = map storageRequest (ndVolumeClaimTemplates n)"
  shows "writes (effs (scalePVCForSts sdk n u drd) s) = [] \<and> res (scalePVCForSts sdk n u drd) s = Ok ()"
proof -
  let ?des = "map storageRequest (ndVolumeClaimTemplates n)"
  have "foldE (scale_step sdk sts ?des (map storageRequest pvcs)) pvcs (enumerate 0 ?des) = ret pvcs"
    using assms(3,4) by (intro scale_prefix) (auto simp: in_set_enumerate_eq)
  then show ?thesis
    using scale_after_reads [OF assms(1,2)] assms(5) by (simp add: go_run)
qed

text \<open>
  Claims are not matched with their templates. In a node group with two
  claim templates of different sizes, where the StatefulSet and both claims already have the
  sizes asked for, the first write of the call asks for the second claim to be given the size of
  the first template.
\<close>

theorem second_claim_gets_first_size:
  assumes "scaleReads sdk u drd s sts [p1, p2] s'"
    and "ndVolumeClaimTemplates n = [v1, v2]" and "stsVolumeClaimTemplates (stsSpec sts) = [t1, t2]"
    and "storageRequest v1 = a" "storageRequest t1 = a" "storageRequest p1 = a"
    and "storageRequest v2 = b" "storageRequest t2 = b" "storageRequest p2 = b"
    and "a \<noteq> b" and "pvcRequests p2 \<noteq> None"
  shows "\<exists>rest. writes (effs (scalePVCForSts sdk n u drd) s) = resizePatch sdk a p2 # rest"
proof -
  have "requests (effs (resize_step sdk a [a, b] [p1, p2] (Suc 0)) w) = [resizePatch sdk a p2]" for w
    using assms(10,11) by (simp add: resize_step_requests)
  then have "writes (effs (resize_step sdk a [a, b] [p1, p2] (Suc 0)) w) = [resizePatch sdk a p2]" for w
    using writes_requests [of "effs (resize_step sdk a [a, b] [p1, p2] (Suc 0)) w"] by (simp add: resizePatch_def)
  moreover have "resize_step sdk a [a, b] [p1, p2] 0 = ret [p1, p2]" by (simp add: resize_step_def)
  ultimately show ?thesis
    using assms scale_after_reads(1) [OF assms(1), of n]
    by (simp add: scale_step_def go_run Let_def numeral_2_eq_2 upt_rec)
qed

text \<open>
  C36 (safety). A template at the level of the cluster upsets the comparison: the StatefulSet is
  built from it and then from the node group's, while the sizes of the node group's templates are
  compared with the StatefulSet's from the first. With exactly one template at each level, the
  shared one smaller than the node group's own, a StatefulSet that has exactly the declared
  templates is deleted by the first write of every call of \<open>scalePVCForSts\<close> whose reads are
  answered, that finds all StatefulSets of the cluster ready and the group with a claim.
\<close>

theorem cluster_template_orphans_statefulset:
  assumes "scaleReads sdk u drd s sts pvcs s'" and "pvcs \<noteq> []"
    and "stsVolumeClaimTemplates (stsSpec sts) = getPersistentVolumeClaim n drd"
    and "crVolumeClaimTemplates (drSpec drd) = [shared]" and "ndVolumeClaimTemplates n = [own]"
    and "storageRequest shared < storageRequest own"
  shows "\<exists>ps. writes (effs (scalePVCForSts sdk n u drd) s) = DeleteCall (apiWrap (clStatefulSets sdk) sts) PropagationOrphan # ps"
proof -
  let ?cur = "[storageRequest shared, storageRequest own]" and ?des = "storageRequest own" and ?sz = "map storageRequest pvcs"
  let ?step = "scale_step sdk sts ?cur ?sz pvcs (0, ?des)"
  have cur: "map storageRequest (stsVolumeClaimTemplates (stsSpec sts)) = ?cur" using assms(3-5) by (simp add: getPersistentVolumeClaim_def)
  have len: "length (ndVolumeClaimTemplates n) \<le> length pvcs" using assms(2,5) by (cases pvcs) auto
  obtain es where "requests (effs ?step s') = DeleteCall (apiWrap (clStatefulSets sdk) sts) PropagationOrphan # es"
    using scale_step_requests [of 0 ?cur ?des sdk sts ?sz pvcs s'] assms(6) by simp
  then have "writes (effs ?step s') = DeleteCall (apiWrap (clStatefulSets sdk) sts) PropagationOrphan # writes es"
    using writes_requests [of "effs ?step s'"] by simp
  then show ?thesis using scale_after_reads(1) [OF assms(1) len] cur assms(5) by simp
qed

text \<open>
  Whether a storage class allows expansion has no influence: the answer
  is \<^emph>\<open>enabled\<close> as soon as the class of the first claim template can be read, also when its
  \<^verbatim>\<open>allowVolumeExpansion\<close> is false or absent.
\<close>

theorem expansion_ignores_storage_class:
  assumes "ndVolumeClaimTemplates n = vct # vs" and "pvcStorageClassName vct = Some cls"
    and "fst (apiGet (clStorageClasses sdk) cls (GetNamespace m) s) = Inr sc"
  shows "res (isVolumeExpansionEnabled sdk m n) s = Ok True"
  using assms expansion_step_ok [OF assms(2,3), of "()"]
  by (simp add: isVolumeExpansionEnabled_def go_run)

section \<open>Witnesses\<close>

text \<open>A cluster with one StatefulSet \<open>h\<close> that is up, with two claims of given sizes.\<close>

definition sized :: "quantity \<Rightarrow> pvc" where
  "sized q = (samplePvc ''data'')\<lparr>pvcRequests := Some (fmupd ''storage'' q fmempty)\<rparr>"

definition claim :: "string \<Rightarrow> quantity \<Rightarrow> pvc" where
  "claim name q = (sized q)\<lparr>objMeta := metaOf name (Some (fmupd ''nodeSpecUniqueStr'' ''h'' fmempty))\<rparr>"

definition scaledSts :: "quantity list \<Rightarrow> statefulset" where
  "scaledSts qs = (sampleSts ''h'')\<lparr>stsSpec := (stsSpec (sampleSts ''h''))\<lparr>stsVolumeClaimTemplates := map sized qs\<rparr>\<rparr>"

definition scaledNode :: "quantity list \<Rightarrow> druid_node_spec" where
  "scaledNode qs = zeroNode\<lparr>ndVolumeClaimTemplates := map sized qs\<rparr>"

definition scaledWorld :: "quantity list \<Rightarrow> quantity \<Rightarrow> quantity \<Rightarrow> world" where
  "scaledWorld qs a b = emptyWorld\<lparr>wObjs := [KStatefulSet (scaledSts qs), KPVC (claim ''a'' a), KPVC (claim ''b'' b)]\<rparr>"

lemma reads_of_scaled:
  "objMeta drd = objMeta sampleDruid \<Longrightarrow>
   scaleReads memClient ''h'' drd (scaledWorld qs a b) (scaledSts qs) [claim ''a'' a, claim ''b'' b] (scaledWorld qs a b)"
  unfolding scaleReads_def
  by (intro exI [of _ "[scaledSts qs]"] exI [of _ "scaledWorld qs a b"])
     (simp add: scaledWorld_def scaledSts_def claim_def sized_def mem_defs sample_defs makeLabelsForDruid_def
       fmsubset_alt_def fmpred_iff)

lemmas scaled_reads = reads_of_scaled [of sampleDruid, OF refl]

lemma scaled_sizes [simp]:
  "storageRequest (sized q) = q" "storageRequest (claim x q) = q" "pvcRequests (claim x q) \<noteq> None"
  "stsVolumeClaimTemplates (stsSpec (scaledSts qs)) = map sized qs"
  "ndVolumeClaimTemplates (scaledNode qs) = map sized qs"
  by (simp_all add: storageRequest_def sized_def claim_def scaledSts_def scaledNode_def)

theorem shrinking_refused_witness:
  "writes (effs (scalePVCForSts memClient (scaledNode [5]) ''h'' sampleDruid) (scaledWorld [10] 10 10)) = []
    \<and> (\<exists>e. res (scalePVCForSts memClient (scaledNode [5]) ''h'' sampleDruid) (scaledWorld [10] 10 10) = Err e)"
  by (rule shrinking_refused [OF scaled_reads, where des = "[5]" and cur = "[10]" and i = 0]) simp_all

theorem growth_orphans_statefulset_witness:
  "\<exists>ps. writes (effs (scalePVCForSts memClient (scaledNode [20]) ''h'' sampleDruid) (scaledWorld [10] 10 10))
      = DeleteCall (apiWrap (clStatefulSets memClient) (scaledSts [10])) PropagationOrphan # ps
    \<and> list_all (is_pvc_patch memClient) ps
    \<and> (\<forall>e. fst (apiDelete (clStatefulSets memClient) PropagationOrphan (scaledSts [10]) (scaledWorld [10] 10 10)) = Inl e \<longrightarrow>
        ps = [] \<and> res (scalePVCForSts memClient (scaledNode [20]) ''h'' sampleDruid) (scaledWorld [10] 10 10) = Err e)"
  by (rule growth_orphans_statefulset_first [OF scaled_reads, where vct = "sized 20" and old = "sized 10"]) simp_all

theorem expansion_settled_witness:
  "writes (effs (scalePVCForSts memClient (scaledNode [10]) ''h'' sampleDruid) (scaledWorld [10] 10 10)) = []
    \<and> res (scalePVCForSts memClient (scaledNode [10]) ''h'' sampleDruid) (scaledWorld [10] 10 10) = Ok ()"
  by (rule expansion_settled [OF scaled_reads, where q = 10]) simp_all

theorem second_claim_gets_first_size_witness:
  "\<exists>rest. writes (effs (scalePVCForSts memClient (scaledNode [10, 20]) ''h'' sampleDruid) (scaledWorld [10, 20] 10 20))
     = resizePatch memClient 10 (claim ''b'' 20) # rest"
  by (rule second_claim_gets_first_size [OF scaled_reads, where ?v1.0 = "sized 10" and ?v2.0 = "sized 20" and ?t1.0 = "sized 10" and ?t2.0 = "sized 20" and b = 20]) simp_all

theorem cluster_template_orphans_statefulset_witness:
  "\<exists>ps. writes (effs (scalePVCForSts memClient (scaledNode [20]) ''h''
        (sampleDruid\<lparr>drSpec := (drSpec sampleDruid)\<lparr>crVolumeClaimTemplates := [sized 10]\<rparr>\<rparr>)) (scaledWorld [10, 20] 10 20))
      = DeleteCall (apiWrap (clStatefulSets memClient) (scaledSts [10, 20])) PropagationOrphan # ps"
  by (rule cluster_template_orphans_statefulset [OF reads_of_scaled, where shared = "sized 10" and own = "sized 20"])
     (simp_all add: getPersistentVolumeClaim_def)

theorem expansion_ignores_storage_class_witness:
  "res (isVolumeExpansionEnabled memClient sampleDruid (scaledNode [10]))
     (emptyWorld\<lparr>wObjs := [KStorageClass \<lparr>tmAPIVersion = [], tmKind = [], objMeta = metaOf ''ssd'' None,
        scAllowVolumeExpansion = Some False\<rparr>]\<rparr>) = Ok True"
  by (rule expansion_ignores_storage_class [of _ "sized 10" "[]" "''ssd''" _ _ _
        "\<lparr>tmAPIVersion = [], tmKind = [], objMeta = metaOf ''ssd'' None, scAllowVolumeExpansion = Some False\<rparr>"])
     (simp_all add: sized_def mem_defs sample_defs)

end
