(* ===== verification/Rollout.thy ===== *)
theory Rollout
  imports Workload_Builder Memory_Client
begin

text \<open>
  \<^verbatim>\<open>isObjFullyDeployed\<close>, \<^verbatim>\<open>execCheckCrashStatus\<close> and \<^verbatim>\<open>checkCrashStatus\<close> of
  \<^verbatim>\<open>controllers/druid/handler.go\<close>: the gate of a rolling deployment and the deletion of crashed
  pods. Proved: when a workload counts as deployed; which pods are deleted; that the crash
  check neither fails nor does anything unless it is enabled for an ordered StatefulSet.
\<close>

section \<open>Operations\<close>

abbreviation DeploymentReplicaFailure :: string where "DeploymentReplicaFailure \<equiv> ''ReplicaFailure''"
abbreviation DeploymentProgressing :: string where "DeploymentProgressing \<equiv> ''Progressing''"

definition statefulSetDeployed :: "statefulset_status \<Rightarrow> bool" where
  "statefulSetDeployed st =
     (if stCurrentRevision st \<noteq> stUpdateRevision st then False
      else if stCurrentReplicas st \<noteq> stReadyReplicas st then False
      else stCurrentRevision st = stUpdateRevision st)"

text \<open>The loop over the conditions returns in its first round.\<close>

fun deploymentConditions :: "deployment_status \<Rightarrow> condition list \<Rightarrow> goerr + bool" where
  "deploymentConditions st [] = Inr False"
| "deploymentConditions st (condition # rest) =
     (if condType condition = DeploymentReplicaFailure then Inl (GoErr (condReason condition))
      else if condType condition = DeploymentProgressing \<and> condStatus condition \<noteq> ConditionTrue
              \<or> dsReadyReplicas st \<noteq> dsReplicas st then Inr False
      else Inr (dsReadyReplicas st = dsReplicas st))"

text \<open>\<^verbatim>\<open>detectType(obj)\<close> selects the branch; \<open>api\<close> is the type of \<^verbatim>\<open>emptyObjFn\<close>.\<close>

definition isObjFullyDeployed :: "('w, 'o) resource_api \<Rightarrow> string \<Rightarrow> druid \<Rightarrow> ('w, bool) io" where
  "isObjFullyDeployed api nodeSpecUniqueStr drd =
     bindE (reader_Get api nodeSpecUniqueStr drd) (\<lambda>obj.
       case apiWrap api obj of
         KStatefulSet sts \<Rightarrow> ret (statefulSetDeployed (stsStatus sts))
       | KDeployment dep \<Rightarrow> liftE (deploymentConditions (depStatus dep) (dsConditions (depStatus dep)))
       | _ \<Rightarrow> ret False)"

definition crash_containers :: "'w client \<Rightarrow> pod \<Rightarrow> ('w, unit) io" where
  "crash_containers sdk p =
     forE (\<lambda>containerStatus.
         if csRestartCount containerStatus > 1 then writer_Delete (clPods sdk) EmptyOptions p else ret ())
       (podContainerStatuses p)"

definition crash_step :: "'w client \<Rightarrow> pod \<Rightarrow> ('w, unit) io" where
  "crash_step sdk p =
     (if podPhase p = PodFailed \<or> podPhase p = PodUnknown then
        writer_Delete (clPods sdk) EmptyOptions p
      else
        forE (\<lambda>condition.
            if condType condition = ContainersReady then
              if condStatus condition = ConditionFalse then crash_containers sdk p else ret ()
            else ret ())
          (podConditions p))"

definition checkCrashStatus :: "'w client \<Rightarrow> druid_node_spec \<Rightarrow> druid \<Rightarrow> string \<Rightarrow> ('w, unit) io" where
  "checkCrashStatus sdk nodeSpec drd nodeSpecUniqueStr =
     bindE (reader_List (clPods sdk) (makeLabelsForNodeSpec nodeSpec drd (GetName drd) nodeSpecUniqueStr) drd)
       (\<lambda>podList. forE (crash_step sdk) podList)"

text \<open>The error of \<open>checkCrashStatus\<close> is dropped.\<close>

definition execCheckCrashStatus :: "'w client \<Rightarrow> druid_node_spec \<Rightarrow> druid \<Rightarrow> string \<Rightarrow> ('w, unit) io" where
  "execCheckCrashStatus sdk nodeSpec m nodeSpecUniqueStr =
     (if crForceDeleteStsPodOnError (drSpec m) = False then ret ()
      else if ndPodManagementPolicy nodeSpec = ''OrderedReady'' then
        handleE (checkCrashStatus sdk nodeSpec m nodeSpecUniqueStr) (\<lambda>err. ret ()) ret
      else ret ())"

section \<open>Lemmas\<close>

definition crashed :: "pod \<Rightarrow> bool" where
  "crashed p \<longleftrightarrow> podPhase p = PodFailed \<or> podPhase p = PodUnknown
     \<or> (\<exists>c \<in> set (podConditions p). condType c = ContainersReady \<and> condStatus c = ConditionFalse)
        \<and> (\<exists>st \<in> set (podContainerStatuses p). csRestartCount st > 1)"

lemma only_crash_step:
  "only (\<lambda>e. is_event e \<or> e = DeleteCall (apiWrap (clPods sdk) p) EmptyOptions \<and> crashed p) (crash_step sdk p)"
  unfolding crash_step_def crash_containers_def
  by (intro only_intro wr_delete.only_run) (auto simp: crashed_def)

lemma forE_not_panic:
  "(\<And>x s p. x \<in> set xs \<Longrightarrow> res (f x) s \<noteq> Panic p) \<Longrightarrow> res (forE f xs) s \<noteq> Panic p"
proof (induction xs arbitrary: s)
  case (Cons x xs)
  then show ?case by (simp add: go_run split: outcome.split)
qed (simp add: go_run)

lemma crash_step_not_panic: "res (crash_step sdk p) s \<noteq> Panic q"
proof -
  have "res (crash_containers sdk p) s \<noteq> Panic q" for s q
    unfolding crash_containers_def by (rule forE_not_panic) (simp add: go_run wr_delete.not_panic)
  then show ?thesis
    unfolding crash_step_def by (auto simp: go_run wr_delete.not_panic intro!: forE_not_panic split: if_splits)
qed

lemma checkCrashStatus_not_panic: "res (checkCrashStatus sdk n m u) s \<noteq> Panic q"
proof -
  have "res (forE (crash_step sdk) pods) w \<noteq> Panic q" for pods w q
    by (rule forE_not_panic) (rule crash_step_not_panic)
  then show ?thesis
    by (simp add: checkCrashStatus_def go_run api_results split: outcome.split sum.split)
qed

lemma execCheckCrashStatus_ok: "res (execCheckCrashStatus sdk n m u) s = Ok ()"
  using checkCrashStatus_not_panic [of sdk n m u s]
  by (auto simp: execCheckCrashStatus_def go_run split: outcome.split)

lemma only_execCheckCrashStatus [only_intro]:
  assumes "\<And>a b c. Q (EventEff a b c)" "\<And>k ns l. Q (ListCall k ns l)"
    "\<And>x. Q (DeleteCall (apiWrap (clPods sdk) x) EmptyOptions)"
  shows "only Q (execCheckCrashStatus sdk n m u)"
  unfolding execCheckCrashStatus_def checkCrashStatus_def crash_step_def crash_containers_def
  using assms by (intro only_intro rd_list.only_run wr_delete.only_run) auto

lemma isObjFullyDeployed_requests:
  "requests (effs (isObjFullyDeployed api u drd) s) = [GetCall (apiKind api) u (GetNamespace drd)]"
  by (auto simp: isObjFullyDeployed_def go_run api_requests split: outcome.split kobj.split)

lemma only_isObjFullyDeployed [only_intro]:
  assumes "\<And>a b c. Q (EventEff a b c)" "\<And>k n ns. Q (GetCall k n ns)"
  shows "only Q (isObjFullyDeployed api u drd)"
proof -
  have "only Q (case k of KStatefulSet sts \<Rightarrow> ret (statefulSetDeployed (stsStatus sts))
       | KDeployment dep \<Rightarrow> liftE (deploymentConditions (depStatus dep) (dsConditions (depStatus dep)))
       | _ \<Rightarrow> ret False)" for k
    by (cases k) (auto intro: only_intro)
  then show ?thesis
    unfolding isObjFullyDeployed_def using assms by (intro only_bindE rd_get.only_run) auto
qed

section \<open>Properties\<close>

text \<open>
  A StatefulSet counts as fully deployed exactly when its current revision is
  the update revision and all current replicas are ready; a failed read is an error, never
  \<^emph>\<open>deployed\<close>.
\<close>

theorem statefulset_deployed_iff:
  "(res (isObjFullyDeployed (api\<lparr>apiWrap := KStatefulSet\<rparr>) u drd) s = Ok True) =
     (\<exists>sts. fst (apiGet api u (GetNamespace drd) s) = Inr sts
        \<and> stCurrentRevision (stsStatus sts) = stUpdateRevision (stsStatus sts)
        \<and> stCurrentReplicas (stsStatus sts) = stReadyReplicas (stsStatus sts))
   \<and> (\<exists>e. res (isObjFullyDeployed (api\<lparr>apiWrap := KStatefulSet\<rparr>) u drd) s = Err e)
     = (\<exists>e. fst (apiGet api u (GetNamespace drd) s) = Inl e)"
  by (auto simp: isObjFullyDeployed_def go_run api_results statefulSetDeployed_def split: sum.splits)

text \<open>
  For a Deployment only the first reported condition counts: without
  conditions it is never deployed, and a replica failure or a stalled rollout reported after
  another condition is not seen.
\<close>

theorem deployment_first_condition_only:
  "deploymentConditions st [] = Inr False
   \<and> deploymentConditions st (c # cs) = deploymentConditions st [c]
   \<and> (condType c \<noteq> DeploymentReplicaFailure \<longrightarrow> condType c \<noteq> DeploymentProgressing \<longrightarrow>
       dsReadyReplicas st = dsReplicas st \<longrightarrow> deploymentConditions st (c # failed # cs) = Inr True)"
  by simp

text \<open>
  A step that returns without error has deleted its pod if that crashed; one that fails is for a
  crashed pod whose deletion the server answered with an error.
\<close>

lemma forE_ok_effs: "res (forE f xs) s = Ok () \<Longrightarrow> x \<in> set xs \<Longrightarrow> (\<And>w. res (f x) w = Ok () \<Longrightarrow> e \<in> set (effs (f x) w)) \<Longrightarrow>
  e \<in> set (effs (forE f xs) s)"
  by (induction xs arbitrary: s) (auto simp: go_run split: outcome.splits)

lemma forE_fails: "res (forE f xs) s \<noteq> Ok () \<Longrightarrow> \<exists>x \<in> set xs. \<exists>w. res (f x) w \<noteq> Ok ()"
  by (induction xs arbitrary: s) (auto simp: go_run split: outcome.splits)

abbreviation refusesDelete :: "'w client \<Rightarrow> pod \<Rightarrow> bool" where
  "refusesDelete sdk p \<equiv> \<exists>w. isl (fst (apiDelete (clPods sdk) EmptyOptions p w))"

lemma crash_delete:
  "DeleteCall (apiWrap (clPods sdk) p) EmptyOptions \<in> set (effs (writer_Delete (clPods sdk) EmptyOptions p) w)"
  "res (writer_Delete (clPods sdk) EmptyOptions p) w \<noteq> Ok () \<Longrightarrow> refusesDelete sdk p"
proof -
  have "DeleteCall (apiWrap (clPods sdk) p) EmptyOptions \<in> set (requests (effs (writer_Delete (clPods sdk) EmptyOptions p) w))"
    by (simp add: api_requests)
  then show "DeleteCall (apiWrap (clPods sdk) p) EmptyOptions \<in> set (effs (writer_Delete (clPods sdk) EmptyOptions p) w)"
    by (simp add: in_requests)
qed (auto simp: api_results split: sum.splits intro: exI [of _ w])

lemma crash_step_deletes:
  assumes "crashed p" "res (crash_step sdk p) w = Ok ()"
  shows "DeleteCall (apiWrap (clPods sdk) p) EmptyOptions \<in> set (effs (crash_step sdk p) w)"
proof (cases "podPhase p = PodFailed \<or> podPhase p = PodUnknown")
  case True
  then show ?thesis by (simp add: crash_step_def crash_delete)
next
  case False
  then obtain c st where c: "c \<in> set (podConditions p)" "condType c = ContainersReady" "condStatus c = ConditionFalse"
    and st: "st \<in> set (podContainerStatuses p)" "csRestartCount st > 1" using assms(1) by (auto simp: crashed_def)
  have "DeleteCall (apiWrap (clPods sdk) p) EmptyOptions \<in> set (effs (crash_containers sdk p) t)"
    if "res (crash_containers sdk p) t = Ok ()" for t
    using that st unfolding crash_containers_def by (elim forE_ok_effs) (auto simp: crash_delete)
  then show ?thesis
    using assms(2) False c unfolding crash_step_def by (simp, elim forE_ok_effs) auto
qed

lemma crash_step_fails:
  assumes "res (crash_step sdk p) w \<noteq> Ok ()"
  shows "crashed p \<and> refusesDelete sdk p"
proof (cases "podPhase p = PodFailed \<or> podPhase p = PodUnknown")
  case True
  then show ?thesis using assms crash_delete(2) [of sdk p w] by (auto simp: crash_step_def crashed_def)
next
  case False
  then obtain c t where c: "c \<in> set (podConditions p)" "condType c = ContainersReady" "condStatus c = ConditionFalse"
    "res (crash_containers sdk p) t \<noteq> Ok ()"
    using assms forE_fails by (fastforce simp: crash_step_def go_run split: if_splits)
  then obtain st v where "st \<in> set (podContainerStatuses p)" "csRestartCount st > 1"
      "res (writer_Delete (clPods sdk) EmptyOptions p) v \<noteq> Ok ()"
    unfolding crash_containers_def using forE_fails by (fastforce simp: go_run split: if_splits)
  then show ?thesis using c crash_delete(2) [of sdk p v] by (auto simp: crashed_def)
qed


section \<open>Witnesses\<close>

theorem deployment_first_condition_witness:
  "deploymentConditions \<lparr>dsConditions = [], dsReadyReplicas = 1, dsReplicas = 1\<rparr>
     [\<lparr>condType = ''Available'', condStatus = ''True'', condReason = []\<rparr>,
      \<lparr>condType = ''ReplicaFailure'', condStatus = ''True'', condReason = ''FailedCreate''\<rparr>] = Inr True"
  using deployment_first_condition_only [of "\<lparr>dsConditions = [], dsReadyReplicas = 1, dsReplicas = 1\<rparr>"
      "\<lparr>condType = ''Available'', condStatus = ''True'', condReason = []\<rparr>" "[]"
      "\<lparr>condType = ''ReplicaFailure'', condStatus = ''True'', condReason = ''FailedCreate''\<rparr>"] by simp

text \<open>A failed pod of an ordered node group.\<close>

definition orderedNode :: druid_node_spec where
  "orderedNode = zeroNode\<lparr>ndNodeType := historical, ndPodManagementPolicy := ''OrderedReady''\<rparr>"

definition forcedDruid :: druid where
  "forcedDruid = sampleDruid\<lparr>drSpec := (drSpec sampleDruid)\<lparr>crForceDeleteStsPodOnError := True\<rparr>\<rparr>"

definition failedPod :: pod where
  "failedPod = SetLabels (makeLabelsForNodeSpec orderedNode forcedDruid ''c'' ''h'') (samplePod ''p0'' PodFailed [])"

definition failedWorld :: world where "failedWorld = emptyWorld\<lparr>wObjs := [KPod failedPod]\<rparr>"

lemma failed_list:
  "apiList (clPods memClient) (GetNamespace forcedDruid)
     (makeLabelsForNodeSpec orderedNode forcedDruid (GetName forcedDruid) ''h'') failedWorld = (Inr [failedPod], failedWorld)"
  by (simp add: failedWorld_def failedPod_def forcedDruid_def SetLabels_def mem_defs sample_defs fmsubset_alt_def fmpred_iff)


end
