(* ===== verification/Status.thy ===== *)
theory Status
  imports Workload_Builder Memory_Client
begin

text \<open>
  \<^verbatim>\<open>controllers/druid/status.go\<close>: the status of the custom resource and its patch, and the event
  emitter for a rollout in progress. Proved: the status of a node condition; that the patch is
  sent exactly when the status differs and that its failure is swallowed; and that a status with
  an empty list is patched again and again, because the stored form of an empty list is nil.
\<close>

section \<open>Operations\<close>

definition newDruidNodeTypeStatus ::
  "string \<Rightarrow> druid_node_condition_type \<Rightarrow> string \<Rightarrow> goerr option \<Rightarrow> druid_node_type_status" where
  "newDruidNodeTypeStatus nodeConditionStatus nodeCondition nodeTierOrType err =
     (let (nodeTierOrType, nodeCondition, reason) =
        (if nodeCondition = DruidClusterReady then
           (''All'', nodeCondition, ''All Druid Nodes are in Ready Condition'')
         else if nodeCondition = DruidNodeRollingUpdate then
           (nodeTierOrType, nodeCondition, ''Druid Node ['' @ nodeTierOrType @ ''] is Rolling Update'')
         else case err of
           Some e \<Rightarrow> (nodeTierOrType, DruidNodeErrorState, errString e)
         | None \<Rightarrow> (nodeTierOrType, nodeCondition, []))
      in \<lparr>dnDruidNode = nodeTierOrType, dnConditionStatus = nodeConditionStatus,
          dnConditionType = nodeCondition, dnReason = reason\<rparr>)"

text \<open>
  Serialising the status cannot fail. The error of the patch is dropped; a success fills \<open>m\<close>.
\<close>

definition druidClusterStatusPatcher :: "'w client \<Rightarrow> druid_cluster_status \<Rightarrow> druid \<Rightarrow> ('w, druid) io" where
  "druidClusterStatusPatcher sdk updatedStatus m =
     (if updatedStatus \<noteq> drStatus m then
        handleE (writer_Patch (clDruids sdk) True (MergePatchStatus updatedStatus) m) (\<lambda>err. ret m) ret
      else ret m)"

definition EmitEventRollingDeployWait :: "kobj \<Rightarrow> string \<Rightarrow> ('w, unit) io" where
  "EmitEventRollingDeployWait k8sObj nodeSpecUniqueStr =
     (case k8sObj of
        KStatefulSet sts \<Rightarrow> Event EventTypeNormal rollingDeployWait
          (''StatefulSet['' @ nodeSpecUniqueStr @ ''] roll out is in progress CurrentRevision[''
           @ stCurrentRevision (stsStatus sts) @ ''] != UpdateRevision['' @ stUpdateRevision (stsStatus sts) @ '']'')
      | KDeployment dep \<Rightarrow> Event EventTypeNormal rollingDeployWait
          (''Deployment['' @ GetName dep @ ''] roll out is in progress in namespace ['' @ GetNamespace dep
           @ ''], ReadyReplicas ['' @ formatInt (dsReadyReplicas (depStatus dep)) @ ''] != Current Replicas [''
           @ formatInt (dsReplicas (depStatus dep)) @ '']'')
      | _ \<Rightarrow> ret ())"

definition druidNodeConditionStatusPatch ::
  "'w client \<Rightarrow> druid_cluster_status \<Rightarrow> string \<Rightarrow> druid \<Rightarrow> ('w, 'o) resource_api \<Rightarrow> ('w, unit) io" where
  "druidNodeConditionStatusPatch sdk updatedStatus nodeSpecUniqueStr m api =
     (if csDruidNodeStatus updatedStatus \<noteq> csDruidNodeStatus (drStatus m) then
        bindE (druidClusterStatusPatcher sdk updatedStatus m) (\<lambda>m'.
        bindE (reader_Get api nodeSpecUniqueStr m') (\<lambda>obj.
          EmitEventRollingDeployWait (apiWrap api obj) nodeSpecUniqueStr))
      else ret ())"

section \<open>Lemmas\<close>

lemma patcher_requests:
  "requests (effs (druidClusterStatusPatcher sdk st m) s) =
     (if st = drStatus m then [] else [StatusPatchCall (apiWrap (clDruids sdk) m) (MergePatchStatus st)])"
  by (simp add: druidClusterStatusPatcher_def go_run api_requests split: outcome.split)

lemma patcher_ok: "\<exists>m'. res (druidClusterStatusPatcher sdk st m) s = Ok m'"
  by (simp add: druidClusterStatusPatcher_def go_run api_results split: sum.split)

lemma only_patcher [only_intro]:
  assumes "\<And>a b c. Q (EventEff a b c)" "\<And>x. Q (StatusPatchCall (apiWrap (clDruids sdk) x) (MergePatchStatus st))"
  shows "only Q (druidClusterStatusPatcher sdk st m)"
  unfolding druidClusterStatusPatcher_def
  using assms by (intro only_intro wr_status_patch.only_run) auto

text \<open>
  Every list of the status is stored with \<^verbatim>\<open>omitempty\<close>: an empty list is left out and read back
  as nil.
\<close>

definition storedList :: "string list option \<Rightarrow> string list option" where
  "storedList l = (if l = Some [] then None else l)"

definition storedStatus :: "druid_cluster_status \<Rightarrow> druid_cluster_status" where
  "storedStatus st = \<lparr>csDruidNodeStatus = csDruidNodeStatus st,
     csStatefulSets = storedList (csStatefulSets st), csDeployments = storedList (csDeployments st),
     csServices = storedList (csServices st), csConfigMaps = storedList (csConfigMaps st),
     csPodDisruptionBudgets = storedList (csPodDisruptionBudgets st), csIngress = storedList (csIngress st),
     csHPAutoScalers = storedList (csHPAutoScalers st), csPods = storedList (csPods st),
     csPersistentVolumeClaims = storedList (csPersistentVolumeClaims st)\<rparr>"

lemma stored_eq_iff: "storedList l = l \<longleftrightarrow> l \<noteq> Some []"
  by (auto simp: storedList_def)

definition statusLists :: "druid_cluster_status \<Rightarrow> string list option list" where
  "statusLists st = [csStatefulSets st, csDeployments st, csServices st, csConfigMaps st,
     csPodDisruptionBudgets st, csIngress st, csHPAutoScalers st, csPods st, csPersistentVolumeClaims st]"

lemma storedStatus_eq_iff: "storedStatus st = st \<longleftrightarrow> Some [] \<notin> set (statusLists st)"
  by (cases st) (auto simp: storedStatus_def statusLists_def stored_eq_iff)

section \<open>Properties\<close>

text \<open>
  The status update sends one merge patch with the new status exactly when it
  differs from the stored one, and never fails, whatever the server answers.
\<close>

theorem status_patched_iff_changed:
  "requests (effs (druidClusterStatusPatcher sdk st m) s) =
     (if st = drStatus m then [] else [StatusPatchCall (apiWrap (clDruids sdk) m) (MergePatchStatus st)])
   \<and> (\<exists>m'. res (druidClusterStatusPatcher sdk st m) s = Ok m')"
  by (intro conjI patcher_requests patcher_ok)

text \<open>
  A status with an empty list never settles: once stored and read
  back, the same status is patched again if and only if one of its lists is empty, which is the
  case for every cluster that lacks one of the kinds of objects the operator can create.
\<close>

theorem empty_list_status_never_settles:
  "(requests (effs (druidClusterStatusPatcher sdk st (m\<lparr>drStatus := storedStatus st\<rparr>)) s) \<noteq> [])
     = (Some [] \<in> set (statusLists st))"
  using storedStatus_eq_iff [of st] by (auto simp: patcher_requests)

end
