(* ===== verification/Cluster_Deploy.thy ===== *)
theory Cluster_Deploy
  imports Ordering Finalizers Orphan_Pvc Volume_Expansion Rollout Status
    "HOL-Library.List_Lexorder" "HOL-Library.Char_ord"
begin

text \<open>
  \<^verbatim>\<open>deployDruidCluster\<close> of \<^verbatim>\<open>controllers/druid/handler.go\<close>, the whole deployment of one custom
  resource: the common ConfigMap, the finalizers, the node groups in their order with all the
  objects of each, the orphan cleanup, the deletion of objects no node group asks for, and the
  status. The function is split along its blocks; a block that may return early from the
  function yields \<open>Return\<close>. The custom resource is threaded through, because builders write to it.
\<close>

section \<open>Names of the wanted objects\<close>

record wanted =
  wnStatefulSets :: "string set"
  wnDeployments :: "string set"
  wnServices :: "string set"
  wnConfigMaps :: "string set"
  wnPodDisruptionBudgets :: "string set"
  wnHPAs :: "string set"
  wnIngresses :: "string set"
  wnPVCs :: "string set"

definition noneWanted :: wanted where
  "noneWanted = \<lparr>wnStatefulSets = {}, wnDeployments = {}, wnServices = {}, wnConfigMaps = {},
     wnPodDisruptionBudgets = {}, wnHPAs = {}, wnIngresses = {}, wnPVCs = {}\<rparr>"

section \<open>One node group\<close>

definition keepClusterIP :: "service \<Rightarrow> service \<Rightarrow> service" where
  "keepClusterIP prev new = new\<lparr>svcClusterIP := svcClusterIP prev\<rparr>"

text \<open>
  One round of the loop over the services. The state is the custom resource, the names and the
  name of the first service. A service of the cluster level keeps what was written to its maps.
\<close>

definition service_step ::
  "'w client \<Rightarrow> druid_node_spec \<Rightarrow> strmap \<Rightarrow> string \<Rightarrow> druid \<times> wanted \<times> string \<Rightarrow> nat \<times> service
   \<Rightarrow> ('w, druid \<times> wanted \<times> string) io" where
  "service_step sdk nodeSpec lm nodeSpecUniqueStr = (\<lambda>(m, names, firstServiceName) (i, svc).
     bindE (sdkCreateOrUpdateAsNeeded (clLib sdk) (clServices sdk)
              (ret (makeService (clLib sdk) svc nodeSpec m lm nodeSpecUniqueStr))
              alwaysTrueIsEqualsFn keepClusterIP m (wnServices names)) (\<lambda>(_, serviceNames, built).
       let m' = (if ndServices nodeSpec = None
                 then updSpec (\<lambda>sp. sp\<lparr>crServices :=
                        map_option (\<lambda>l. l[i := leaveService built (l ! i)]) (crServices sp)\<rparr>) m
                 else m)
       in ret (m', names\<lparr>wnServices := serviceNames\<rparr>,
               if firstServiceName = [] then GetName built else firstServiceName)))"

definition node_services ::
  "'w client \<Rightarrow> druid_node_spec \<Rightarrow> strmap \<Rightarrow> string \<Rightarrow> druid \<Rightarrow> wanted \<Rightarrow> ('w, druid \<times> wanted \<times> string) io" where
  "node_services sdk nodeSpec lm nodeSpecUniqueStr m names =
     (let services = (case firstNonNilValue (ndServices nodeSpec) (crServices (drSpec m)) of None \<Rightarrow> [] | Some l \<Rightarrow> l)
      in foldE (service_step sdk nodeSpec lm nodeSpecUniqueStr) (m, names, []) (enumerate 0 services))"

type_synonym node_state = "druid \<times> wanted"

text \<open>The gate of a rolling deployment, after the first generation of the resource.\<close>

definition rollout_gate ::
  "('w, 'o) resource_api \<Rightarrow> string \<Rightarrow> druid \<Rightarrow> wanted \<Rightarrow> ('w, (node_state, druid) flow) io" where
  "rollout_gate api nodeSpecUniqueStr m names =
     (if metaGeneration (objMeta m) > 1 then
        bindE (isObjFullyDeployed api nodeSpecUniqueStr m) (\<lambda>done.
          if \<not> done then ret (Return m) else ret (Next (m, names)))
      else ret (Next (m, names)))"

definition node_deployment ::
  "'w client \<Rightarrow> druid_node_spec \<Rightarrow> strmap \<Rightarrow> string \<Rightarrow> string \<Rightarrow> string \<Rightarrow> druid \<Rightarrow> wanted
   \<Rightarrow> ('w, (node_state, druid) flow) io" where
  "node_deployment sdk nodeSpec lm nodeSpecUniqueStr configMapSHA firstServiceName m names =
     bindE (liftO (makeDeployment nodeSpec m lm nodeSpecUniqueStr configMapSHA firstServiceName)) (\<lambda>(obj, m).
     bindE (sdkCreateOrUpdateAsNeeded (clLib sdk) (clDeployments sdk) (ret obj)
              deploymentIsEquals noopUpdaterFn m (wnDeployments names)) (\<lambda>(status, deploymentNames, sent).
       let m = shareAnnotations sent m; names = names\<lparr>wnDeployments := deploymentNames\<rparr> in
       if crRollingDeploy (drSpec m) then
         if status = resourceUpdated then ret (Return m)
         else rollout_gate (clDeployments sdk) nodeSpecUniqueStr m names
       else ret (Next (m, names))))"

definition node_statefulset ::
  "'w client \<Rightarrow> druid_node_spec \<Rightarrow> strmap \<Rightarrow> string \<Rightarrow> string \<Rightarrow> string \<Rightarrow> druid \<Rightarrow> wanted
   \<Rightarrow> ('w, (node_state, druid) flow) io" where
  "node_statefulset sdk nodeSpec lm nodeSpecUniqueStr configMapSHA firstServiceName m names =
     bindE (if metaGeneration (objMeta m) > 1 \<and> crScalePvcSts (drSpec m)
            then expandStatefulSetVolumes sdk m nodeSpec nodeSpecUniqueStr else ret ()) (\<lambda>_.
     let (obj, m) = makeStatefulSet nodeSpec m lm nodeSpecUniqueStr configMapSHA firstServiceName in
     bindE (sdkCreateOrUpdateAsNeeded (clLib sdk) (clStatefulSets sdk) (ret obj)
              statefulSetIsEquals noopUpdaterFn m (wnStatefulSets names)) (\<lambda>(status, statefulSetNames, sent).
       let m = shareAnnotations sent m; names = names\<lparr>wnStatefulSets := statefulSetNames\<rparr> in
       bindE (if crRollingDeploy (drSpec m) then
                if status = resourceUpdated then ret (Return m)
                else
                  bindE (execCheckCrashStatus sdk nodeSpec m nodeSpecUniqueStr) (\<lambda>_.
                    rollout_gate (clStatefulSets sdk) nodeSpecUniqueStr m names)
              else ret (Next (m, names))) (\<lambda>r.
         case r of
           Return m \<Rightarrow> ret (Return m)
         | Next st \<Rightarrow> bindE (execCheckCrashStatus sdk nodeSpec m nodeSpecUniqueStr) (\<lambda>_. ret (Next st)))))"

text \<open>Ingress, disruption budget, autoscaler and claims of the node group.\<close>

definition node_extras ::
  "'w client \<Rightarrow> druid_node_spec \<Rightarrow> strmap \<Rightarrow> strmap \<Rightarrow> string \<Rightarrow> druid \<Rightarrow> wanted \<Rightarrow> ('w, wanted) io" where
  "node_extras sdk nodeSpec ls lm nodeSpecUniqueStr m names =
     bindE (if ndIngress nodeSpec \<noteq> None then
              bindE (sdkCreateOrUpdateAsNeeded (clLib sdk) (clIngresses sdk)
                  (liftO (makeIngress nodeSpec m ls nodeSpecUniqueStr))
                  alwaysTrueIsEqualsFn noopUpdaterFn m (wnIngresses names)) (\<lambda>(_, ns, _).
                ret (names\<lparr>wnIngresses := ns\<rparr>))
            else ret names) (\<lambda>names.
     bindE (if ndPodDisruptionBudgetSpec nodeSpec \<noteq> None then
              bindE (sdkCreateOrUpdateAsNeeded (clLib sdk) (clPDBs sdk)
                  (liftO (makePodDisruptionBudget nodeSpec m lm nodeSpecUniqueStr))
                  alwaysTrueIsEqualsFn noopUpdaterFn m (wnPodDisruptionBudgets names)) (\<lambda>(_, ns, _).
                ret (names\<lparr>wnPodDisruptionBudgets := ns\<rparr>))
            else ret names) (\<lambda>names.
     bindE (if ndHPAutoScaler nodeSpec \<noteq> None then
              bindE (sdkCreateOrUpdateAsNeeded (clLib sdk) (clHPAs sdk)
                  (liftO (makeHorizontalPodAutoscaler nodeSpec m ls nodeSpecUniqueStr))
                  alwaysTrueIsEqualsFn noopUpdaterFn m (wnHPAs names)) (\<lambda>(_, ns, _).
                ret (names\<lparr>wnHPAs := ns\<rparr>))
            else ret names) (\<lambda>names.
       case ndPersistentVolumeClaim nodeSpec of
         None \<Rightarrow> ret names
       | Some pvcs \<Rightarrow>
           foldE (\<lambda>names pvc.
               bindE (sdkCreateOrUpdateAsNeeded (clLib sdk) (clPVCs sdk)
                   (ret (makePersistentVolumeClaim pvc nodeSpec m lm nodeSpecUniqueStr))
                   alwaysTrueIsEqualsFn noopUpdaterFn m (wnPVCs names)) (\<lambda>(_, ns, _).
                 ret (names\<lparr>wnPVCs := ns\<rparr>)))
             names pvcs)))"

text \<open>The body of the loop over the node groups.\<close>

definition deployNode ::
  "'w client \<Rightarrow> strmap \<Rightarrow> string \<Rightarrow> node_state \<Rightarrow> service_group \<Rightarrow> ('w, (node_state, druid) flow) io" where
  "deployNode sdk ls commonConfigSHA = (\<lambda>(m, names) elem.
     let nodeSpec = sgSpec elem;
         nodeSpecUniqueStr = makeNodeSpecificUniqueString m (sgKey elem);
         lm = makeLabelsForNodeSpec nodeSpec m (GetName m) nodeSpecUniqueStr;
         nodeConfig = makeConfigMapForNodeSpec nodeSpec m lm nodeSpecUniqueStr
     in
     bindE (liftE (getObjectHash (clLib sdk) (apiWrap (clConfigMaps sdk) nodeConfig))) (\<lambda>nodeConfigSHA.
     bindE (sdkCreateOrUpdateAsNeeded (clLib sdk) (clConfigMaps sdk) (ret nodeConfig)
              alwaysTrueIsEqualsFn noopUpdaterFn m (wnConfigMaps names)) (\<lambda>(_, configMapNames, _).
     bindE (node_services sdk nodeSpec lm nodeSpecUniqueStr m (names\<lparr>wnConfigMaps := configMapNames\<rparr>))
       (\<lambda>(m, names, firstServiceName).
     let nodeSpec = nodeSpec\<lparr>ndPorts := ndPorts nodeSpec @
           [\<lparr>cpName = ''druid-port'', cpContainerPort = ndDruidPort nodeSpec, cpRest = []\<rparr>]\<rparr>;
         configMapSHA = commonConfigSHA @ ''-'' @ nodeConfigSHA
     in
     bindE (if ndKind nodeSpec = ''Deployment''
            then node_deployment sdk nodeSpec lm nodeSpecUniqueStr configMapSHA firstServiceName m names
            else node_statefulset sdk nodeSpec lm nodeSpecUniqueStr configMapSHA firstServiceName m names) (\<lambda>r.
       case r of
         Return m \<Rightarrow> ret (Return m)
       | Next (m, names) \<Rightarrow>
           bindE (node_extras sdk nodeSpec ls lm nodeSpecUniqueStr m names) (\<lambda>names. ret (Next (m, names))))))))"

definition deployNodes ::
  "'w client \<Rightarrow> strmap \<Rightarrow> string \<Rightarrow> node_state \<Rightarrow> service_group list \<Rightarrow> ('w, (node_state, druid) flow) io" where
  "deployNodes sdk ls commonConfigSHA st elems = loopE (deployNode sdk ls commonConfigSHA) st elems"

section \<open>Cleanup and status\<close>

definition sorted_names :: "string list \<Rightarrow> string list option" where
  "sorted_names l = Some (sort l)"

text \<open>The last pod condition that reports an unready pod decides the node status.\<close>

definition podConditionStatus :: "pod \<Rightarrow> druid_node_type_status \<Rightarrow> condition \<Rightarrow> druid_node_type_status" where
  "podConditionStatus po st c =
     (if condType c = PodReady \<and> condStatus c = ConditionFalse
      then newDruidNodeTypeStatus ConditionTrue DruidNodeErrorState (GetName po) (Some (GoErr (condReason c)))
      else st)"

definition nodeStatusOfPods :: "pod list \<Rightarrow> druid_node_type_status" where
  "nodeStatusOfPods podList =
     foldl (\<lambda>st po. foldl (podConditionStatus po) st (podConditions po))
       (newDruidNodeTypeStatus ConditionTrue DruidClusterReady [] None) podList"

text \<open>A nil list of pods gives a nil list of names; otherwise the names are sorted.\<close>

definition podNamesStatus :: "pod list \<Rightarrow> string list option" where
  "podNamesStatus podList = (if getPodNames podList = [] then None else sorted_names (getPodNames podList))"

definition cleanup_and_status :: "'w client \<Rightarrow> strmap \<Rightarrow> druid \<Rightarrow> wanted \<Rightarrow> ('w, druid) io" where
  "cleanup_and_status sdk ls m names =
     bindE (deleteUnusedResources (clStatefulSets sdk) m (wnStatefulSets names) ls) (\<lambda>statefulSets.
     bindE (deleteUnusedResources (clDeployments sdk) m (wnDeployments names) ls) (\<lambda>deployments.
     bindE (deleteUnusedResources (clHPAs sdk) m (wnHPAs names) ls) (\<lambda>hpas.
     bindE (deleteUnusedResources (clIngresses sdk) m (wnIngresses names) ls) (\<lambda>ingresses.
     bindE (deleteUnusedResources (clPDBs sdk) m (wnPodDisruptionBudgets names) ls) (\<lambda>pdbs.
     bindE (deleteUnusedResources (clServices sdk) m (wnServices names) ls) (\<lambda>services.
     bindE (deleteUnusedResources (clConfigMaps sdk) m (wnConfigMaps names) ls) (\<lambda>configMaps.
     bindE (handleE (reader_List (clPods sdk) (makeLabelsForDruid m) m) (\<lambda>err. ret []) ret) (\<lambda>podList.
       druidClusterStatusPatcher sdk
         \<lparr>csDruidNodeStatus = nodeStatusOfPods podList,
          csStatefulSets = sorted_names statefulSets, csDeployments = sorted_names deployments,
          csServices = sorted_names services, csConfigMaps = sorted_names configMaps,
          csPodDisruptionBudgets = sorted_names pdbs, csIngress = sorted_names ingresses,
          csHPAutoScalers = sorted_names hpas, csPods = podNamesStatus podList,
          csPersistentVolumeClaims = None\<rparr> m))))))))"

section \<open>The whole deployment\<close>

definition deployLive :: "'w client \<Rightarrow> service_group list \<Rightarrow> strmap \<Rightarrow> string \<Rightarrow> string set \<Rightarrow> druid \<Rightarrow> ('w, druid) io" where
  "deployLive sdk allNodeSpecs ls commonConfigSHA configMapNames m =
     bindE (updateFinalizers sdk m) (\<lambda>m.
     bindE (deployNodes sdk ls commonConfigSHA (m, noneWanted\<lparr>wnConfigMaps := configMapNames\<rparr>) allNodeSpecs) (\<lambda>r.
       case r of
         Return m \<Rightarrow> ret m
       | Next (m, names) \<Rightarrow>
           bindE (if metaGeneration (objMeta m) > 1 \<and> crDeleteOrphanPvc (drSpec m)
                  then deleteOrphanPVC sdk m else ret ()) (\<lambda>_.
             cleanup_and_status sdk ls m names)))"

definition deployDruidCluster :: "'w client \<Rightarrow> druid \<Rightarrow> ('w, druid) io" where
  "deployDruidCluster sdk m =
     (case verifyDruidSpec m of
        Some err \<Rightarrow>
          bindE (EmitEventGeneric ''DruidOperatorInvalidSpec'' []
            (Some (GoErr (''invalid DruidSpec['' @ tmKind m @ '':'' @ GetName m @ ''] due to ['' @ errString err @ '']''))))
            (\<lambda>_. ret m)
      | None \<Rightarrow>
          let allNodeSpecs = getNodeSpecsByOrder m; ls = makeLabelsForDruid m in
          bindE (makeCommonConfigMap sdk m ls) (\<lambda>commonConfig.
          bindE (liftE (getObjectHash (clLib sdk) (apiWrap (clConfigMaps sdk) commonConfig))) (\<lambda>commonConfigSHA.
          bindE (sdkCreateOrUpdateAsNeeded (clLib sdk) (clConfigMaps sdk) (makeCommonConfigMap sdk m ls)
                   alwaysTrueIsEqualsFn noopUpdaterFn m {}) (\<lambda>(_, configMapNames, _).
            if metaDeletionTimestamp (objMeta m) \<noteq> None then executeFinalizers sdk m
            else deployLive sdk allNodeSpecs ls commonConfigSHA configMapNames m))))"

end
