(* ===== verification/Object_Store.thy ===== *)
theory Object_Store
  imports Workload_Builder
begin

text \<open>
  What the operator relies on of the API server when nothing goes wrong, as the contract of one
  kind of object (\<open>kind_store\<close>), and what the two synchronisation routines do to such a store.
  The abstract state forgets everything of an object but its key, its hash annotation and its
  labels (\<open>digest\<close>); the abstract actions are \<open>Ensure\<close> (an object with this hash exists) and
  \<open>Sweep\<close> (no selected object outside the wanted names exists). Proved inside the locale, once
  for every kind: \<open>sdkCreateOrUpdateAsNeeded\<close> refines \<open>Ensure\<close>, \<open>deleteUnusedResources\<close> refines
  \<open>Sweep\<close>, and neither changes anything when its action is already settled. The contract is
  discharged for the server in memory.
\<close>

section \<open>Abstract state and actions\<close>

type_synonym digest = "string \<times> strmap"
type_synonym dstore = "kind \<Rightarrow> (string \<times> string) \<Rightarrow> digest option"

definition metaDigest :: "object_meta \<Rightarrow> digest" where
  "metaDigest meta =
     (mapGet (case metaAnnotations meta of None \<Rightarrow> fmempty | Some a \<Rightarrow> a) druidOpResourceHash,
      case metaLabels meta of None \<Rightarrow> fmempty | Some l \<Rightarrow> l)"

abbreviation digestOf :: "'a k8s_object_scheme \<Rightarrow> digest" where
  "digestOf x \<equiv> metaDigest (objMeta x)"

abbreviation objKey :: "'a k8s_object_scheme \<Rightarrow> string \<times> string" where
  "objKey x \<equiv> (GetName x, GetNamespace x)"

lemma fst_metaDigest: "fst (digestOf x) = hashOf x"
  by (simp add: metaDigest_def hashOf_def GetAnnotations_def)

lemma digest_SetResourceVersion [simp]: "digestOf (SetResourceVersion v x) = digestOf x"
  by (simp add: metaDigest_def SetResourceVersion_def)

definition putObj :: "kind \<Rightarrow> string \<times> string \<Rightarrow> digest \<Rightarrow> dstore \<Rightarrow> dstore" where
  "putObj kd key d \<sigma> = \<sigma>(kd := (\<sigma> kd)(key \<mapsto> d))"

definition dropObj :: "kind \<Rightarrow> string \<times> string \<Rightarrow> dstore \<Rightarrow> dstore" where
  "dropObj kd key \<sigma> = \<sigma>(kd := (\<sigma> kd)(key := None))"

datatype act =
    Ensure kind "string \<times> string" digest
  | Sweep kind string strmap "string set"

text \<open>An object of the store that a sweep removes.\<close>

definition unwanted :: "string \<Rightarrow> strmap \<Rightarrow> string set \<Rightarrow> string \<times> string \<Rightarrow> digest \<Rightarrow> bool" where
  "unwanted ns ls names key d \<longleftrightarrow> snd key = ns \<and> fmsubset ls (snd d) \<and> fst key \<notin> names"

fun settledAct :: "act \<Rightarrow> dstore \<Rightarrow> bool" where
  "settledAct (Ensure kd key d) \<sigma> = (case \<sigma> kd key of None \<Rightarrow> False | Some d' \<Rightarrow> fst d' = fst d)"
| "settledAct (Sweep kd ns ls names) \<sigma> = (\<forall>key d. \<sigma> kd key = Some d \<longrightarrow> \<not> unwanted ns ls names key d)"

fun applyAct :: "act \<Rightarrow> dstore \<Rightarrow> dstore" where
  "applyAct (Ensure kd key d) \<sigma> = (if settledAct (Ensure kd key d) \<sigma> then \<sigma> else putObj kd key d \<sigma>)"
| "applyAct (Sweep kd ns ls names) \<sigma> = \<sigma>(kd := (\<lambda>key. case \<sigma> kd key of None \<Rightarrow> None
     | Some d \<Rightarrow> if unwanted ns ls names key d then None else Some d))"

definition applyActs :: "act list \<Rightarrow> dstore \<Rightarrow> dstore" where
  "applyActs acts \<sigma> = fold applyAct acts \<sigma>"

definition settled :: "act list \<Rightarrow> dstore \<Rightarrow> bool" where
  "settled acts \<sigma> = list_all (\<lambda>a. settledAct a \<sigma>) acts"

lemma settledAct_apply: "settledAct a \<sigma> \<Longrightarrow> applyAct a \<sigma> = \<sigma>"
  by (cases a) (auto simp: fun_eq_iff split: option.split)

lemma applyActs_simps [simp]:
  "applyActs [] \<sigma> = \<sigma>" "applyActs (a # as) \<sigma> = applyActs as (applyAct a \<sigma>)"
  "applyActs (as @ bs) \<sigma> = applyActs bs (applyActs as \<sigma>)"
  by (simp_all add: applyActs_def)

lemma settled_simps [simp]:
  "settled [] \<sigma>" "settled (a # as) \<sigma> \<longleftrightarrow> settledAct a \<sigma> \<and> settled as \<sigma>"
  "settled (as @ bs) \<sigma> \<longleftrightarrow> settled as \<sigma> \<and> settled bs \<sigma>"
  by (simp_all add: settled_def)

lemma settled_apply: "settled acts \<sigma> \<Longrightarrow> applyActs acts \<sigma> = \<sigma>"
  by (induction acts) (simp_all add: settledAct_apply)

section \<open>Running code against the abstract state\<close>

text \<open>
  Effects that change the objects of the cluster: creations, updates and deletions, other than
  deletions of pods. Patches of the custom resource do not count.
\<close>

fun changes :: "effect \<Rightarrow> bool" where
  "changes (CreateCall _) = True"
| "changes (UpdateCall _) = True"
| "changes (DeleteCall k _) = (case k of KPod _ \<Rightarrow> False | _ \<Rightarrow> True)"
| "changes _ = False"

text \<open>
  \<open>does good view m P acts\<close>: from a good state \<open>m\<close> succeeds with a value in \<open>P\<close>, leaves a good
  state whose abstraction is the result of the actions, and changes nothing if they are settled.
  \<open>keeps\<close> is the special case of code that changes nothing, whatever it returns.
\<close>

definition does :: "('w \<Rightarrow> bool) \<Rightarrow> ('w \<Rightarrow> dstore) \<Rightarrow> ('w, 'a) io \<Rightarrow> ('a \<Rightarrow> bool) \<Rightarrow> act list \<Rightarrow> bool" where
  "does good view m P acts \<longleftrightarrow> (\<forall>s. good s \<longrightarrow>
     (\<exists>x. res m s = Ok x \<and> P x) \<and> good (post m s) \<and> view (post m s) = applyActs acts (view s)
     \<and> (settled acts (view s) \<longrightarrow> \<not> list_ex changes (effs m s)))"

definition keeps :: "('w \<Rightarrow> bool) \<Rightarrow> ('w \<Rightarrow> dstore) \<Rightarrow> ('w, 'a) io \<Rightarrow> bool" where
  "keeps good view m \<longleftrightarrow> (\<forall>s. good s \<longrightarrow>
     good (post m s) \<and> view (post m s) = view s \<and> \<not> list_ex changes (effs m s))"

named_theorems keeps_intro

lemma doesD:
  assumes "does good view m P acts" "good s"
  obtains x where "res m s = Ok x" "P x" "good (post m s)" "view (post m s) = applyActs acts (view s)"
    "settled acts (view s) \<longrightarrow> \<not> list_ex changes (effs m s)"
  using assms unfolding does_def by blast

lemma does_ret: "P x \<Longrightarrow> does good view (ret x) P []"
  by (simp add: does_def go_run)

lemma does_keeps:
  assumes "keeps good view m" "\<And>s. good s \<Longrightarrow> \<exists>x. res m s = Ok x \<and> P x"
  shows "does good view m P []"
  using assms by (simp add: does_def keeps_def)

section \<open>Code that changes nothing\<close>

lemma keeps_ret [keeps_intro]: "keeps good view (ret x)"
  by (simp add: keeps_def go_run)

lemma keeps_throw [keeps_intro]: "keeps good view (throw e)"
  by (simp add: keeps_def go_run)

lemma keeps_bind [keeps_intro]:
  "keeps good view m \<Longrightarrow> (\<And>x. keeps good view (f x)) \<Longrightarrow> keeps good view (bindE m f)"
  by (simp add: keeps_def go_run split: outcome.split)

lemma keeps_handle [keeps_intro]:
  "keeps good view m \<Longrightarrow> (\<And>e. keeps good view (h e)) \<Longrightarrow> (\<And>x. keeps good view (f x)) \<Longrightarrow>
   keeps good view (handleE m h f)"
  by (simp add: keeps_def go_run split: outcome.split)

lemma keeps_if [keeps_intro]:
  "keeps good view m \<Longrightarrow> keeps good view n \<Longrightarrow> keeps good view (if b then m else n)"
  by simp

lemma keeps_foldE [keeps_intro]: "(\<And>a x. keeps good view (f a x)) \<Longrightarrow> keeps good view (foldE f a xs)"
  by (induction xs arbitrary: a) (auto intro!: keeps_intro)

lemma keeps_forE [keeps_intro]: "(\<And>x. keeps good view (f x)) \<Longrightarrow> keeps good view (forE f xs)"
  by (simp add: forE_def keeps_foldE)

lemma requests_change: "requests es = requests es' \<Longrightarrow> list_ex changes es = list_ex changes es'"
proof -
  have "list_ex changes es = list_ex changes (requests es)" for es
  proof -
    have "changes e \<Longrightarrow> \<not> is_event e" for e by (cases e) auto
    then show ?thesis by (auto simp: list_ex_iff in_requests)
  qed
  then show "requests es = requests es' \<Longrightarrow> list_ex changes es = list_ex changes es'" by metis
qed

section \<open>The contract of one kind of object\<close>

text \<open>
  A server that answers from its current state and does not fail: an object is read if and only
  if it exists, an absent one can be created, a present one can be replaced by one with the
  resource version that was read, a present one can be deleted, and a list selects by namespace
  and labels. A stored object has the annotations and labels it was sent with. Requests for one
  kind leave the other kinds alone. \<open>good\<close> is the server's own invariant.
\<close>

locale kind_store =
  fixes api :: "('w, 'a k8s_object_scheme) resource_api"
    and good :: "'w \<Rightarrow> bool"
    and view :: "'w \<Rightarrow> dstore"
  assumes get_absent: "good s \<Longrightarrow> view s (apiKind api) (n, ns) = None \<Longrightarrow>
      \<exists>e. apiGet api n ns s = (Inl (NotFoundErr e), s)"
    and get_present: "good s \<Longrightarrow> view s (apiKind api) (n, ns) = Some d \<Longrightarrow>
      \<exists>p. apiGet api n ns s = (Inr p, s) \<and> digestOf p = d"
    and create_absent: "good s \<Longrightarrow> view s (apiKind api) (objKey x) = None \<Longrightarrow>
      \<exists>x' s'. apiCreate api x s = (Inr x', s') \<and> good s'
        \<and> view s' = putObj (apiKind api) (objKey x) (digestOf x) (view s)"
    and update_current: "good s \<Longrightarrow> apiGet api (GetName x) (GetNamespace x) s = (Inr p, s) \<Longrightarrow>
      GetResourceVersion x = GetResourceVersion p \<Longrightarrow>
      \<exists>x' s'. apiUpdate api x s = (Inr x', s') \<and> good s'
        \<and> view s' = putObj (apiKind api) (objKey x) (digestOf x) (view s)"
    and delete_present: "good s \<Longrightarrow> view s (apiKind api) (objKey x) \<noteq> None \<Longrightarrow>
      \<exists>s'. apiDelete api EmptyOptions x s = (Inr (), s') \<and> good s'
        \<and> view s' = dropObj (apiKind api) (objKey x) (view s)"
    and list_selected: "good s \<Longrightarrow> \<exists>items. apiList api ns ls s = (Inr items, s) \<and> distinct (map objKey items)
        \<and> (\<forall>x \<in> set items. view s (apiKind api) (objKey x) = Some (digestOf x))
        \<and> objKey ` set items = {key. \<exists>d. view s (apiKind api) key = Some d \<and> snd key = ns \<and> fmsubset ls (snd d)}"
begin

lemma keeps_get: "keeps good view (sdkGet api n ns)"
  unfolding keeps_def
proof (intro allI impI)
  fix s assume "good s"
  then show "good (post (sdkGet api n ns) s) \<and> view (post (sdkGet api n ns) s) = view s
      \<and> \<not> list_ex changes (effs (sdkGet api n ns) s)"
    using get_absent [of s n ns] get_present [of s n ns]
    by (cases "view s (apiKind api) (n, ns)") (auto simp: sdk_defs go_run)
qed

text \<open>Synchronising an object refines \<open>Ensure\<close>.\<close>

lemma sync_refines:
  assumes eq: "\<And>x y. isEqualFn x y" and up: "\<And>p x. objMeta (updaterFn p x) = objMeta x"
  shows "does good view (sdkCreateOrUpdateAsNeeded lib api (ret obj) isEqualFn updaterFn drd names)
    (\<lambda>(st, names', sent). names' = insert (GetName obj) names \<and> sent = prepared lib api drd obj)
    [Ensure (apiKind api) (objKey obj) (digestOf (prepared lib api drd obj))]"
  unfolding does_def
proof (intro allI impI)
  fix s assume g: "good s"
  let ?new = "prepared lib api drd obj"
  let ?m = "sdkCreateOrUpdateAsNeeded lib api (ret obj) isEqualFn updaterFn drd names"
  let ?Q = "\<lambda>(st, names', sent). names' = insert (GetName obj) names \<and> sent = ?new"
  let ?a = "Ensure (apiKind api) (objKey obj) (digestOf ?new)"
  have req: "list_ex changes (effs ?m s) = list_ex changes (requests (effs ?m s))"
    by (rule requests_change) (simp add: requests_def)
  show "(\<exists>x. res ?m s = Ok x \<and> ?Q x) \<and> good (post ?m s) \<and> view (post ?m s) = applyActs [?a] (view s)
      \<and> (settled [?a] (view s) \<longrightarrow> \<not> list_ex changes (effs ?m s))"
  proof (cases "view s (apiKind api) (objKey obj)")
    case None
    then obtain e where "apiGet api (GetName obj) (GetNamespace obj) s = (Inl (NotFoundErr e), s)"
      using get_absent g by blast
    moreover obtain x' s' where "apiCreate api ?new s = (Inr x', s')" "good s'"
      "view s' = putObj (apiKind api) (objKey obj) (digestOf ?new) (view s)"
      using create_absent [of s ?new] g None by auto
    ultimately show ?thesis using None
      by (simp add: sync_unfold Let_def go_run sdk_defs api_results api_posts)
  next
    case (Some d)
    then obtain p where p: "apiGet api (GetName obj) (GetNamespace obj) s = (Inr p, s)" "digestOf p = d"
      using get_present g by blast
    show ?thesis
    proof (cases "hashOf ?new = hashOf p")
      case True
      then show ?thesis using p Some g eq fst_metaDigest [of ?new] fst_metaDigest [of p] unfolding req
        by (simp add: sync_unfold Let_def go_run sdk_defs)
    next
      case False
      let ?sent = "updaterFn p (SetResourceVersion (GetResourceVersion p) ?new)"
      obtain x' s' where "apiUpdate api ?sent s = (Inr x', s')" "good s'"
        "view s' = putObj (apiKind api) (objKey obj) (digestOf ?new) (view s)"
        using update_current [of s ?sent p] g p up by (auto simp: SetResourceVersion_def metaDigest_def)
      then show ?thesis using p Some False fst_metaDigest [of ?new] fst_metaDigest [of p]
        by (simp add: sync_unfold Let_def go_run sdk_defs api_results api_posts)
    qed
  qed
qed

text \<open>Nothing happens if an object with the wanted hash is there.\<close>

lemma sync_settled:
  assumes g: "good s" and eq: "\<And>x y. isEqualFn x y"
    and set: "settledAct (Ensure (apiKind api) (objKey obj) (digestOf (prepared lib api drd obj))) (view s)"
  shows "res (sdkCreateOrUpdateAsNeeded lib api (ret obj) isEqualFn updaterFn drd names) s
      = Ok (NoStatus, insert (GetName obj) names, prepared lib api drd obj)"
    and "post (sdkCreateOrUpdateAsNeeded lib api (ret obj) isEqualFn updaterFn drd names) s = s"
proof -
  from set obtain d where d: "view s (apiKind api) (objKey obj) = Some d" "fst d = fst (digestOf (prepared lib api drd obj))"
    by (auto split: option.splits)
  with get_present [OF g] obtain p where "apiGet api (GetName obj) (GetNamespace obj) s = (Inr p, s)" "digestOf p = d" by blast
  with d eq fst_metaDigest [of p] fst_metaDigest [of "prepared lib api drd obj"]
  show "res (sdkCreateOrUpdateAsNeeded lib api (ret obj) isEqualFn updaterFn drd names) s
      = Ok (NoStatus, insert (GetName obj) names, prepared lib api drd obj)"
    "post (sdkCreateOrUpdateAsNeeded lib api (ret obj) isEqualFn updaterFn drd names) s = s"
    by (simp_all add: sync_unfold Let_def go_run sdk_defs)
qed

text \<open>The deletion loop removes the listed objects outside the wanted names and keeps the rest.\<close>

lemma delete_loop:
  assumes "good s" "distinct (map objKey items)" "\<And>x. x \<in> set items \<Longrightarrow> view s (apiKind api) (objKey x) \<noteq> None"
  shows "res (foldE (deleteUnused_step api names) acc items) s
        = Ok (acc @ map GetName (filter (\<lambda>x. GetName x \<in> names) items))
    \<and> good (post (foldE (deleteUnused_step api names) acc items) s)
    \<and> view (post (foldE (deleteUnused_step api names) acc items) s) = (view s)(apiKind api := (\<lambda>key.
        if key \<in> objKey ` {x \<in> set items. GetName x \<notin> names} then None else view s (apiKind api) key))"
  using assms
proof (induction items arbitrary: acc s)
  case Nil
  then show ?case by (simp add: go_run)
next
  case (Cons x items)
  show ?case
  proof (cases "GetName x \<in> names")
    case True
    then have "{y \<in> set (x # items). GetName y \<notin> names} = {y \<in> set items. GetName y \<notin> names}" by auto
    moreover note Cons.IH [of s "acc @ [GetName x]"]
    ultimately show ?thesis using Cons.prems True by (simp add: step_keep go_run)
  next
    case False
    obtain s' where s': "apiDelete api EmptyOptions x s = (Inr (), s')" "good s'"
      "view s' = dropObj (apiKind api) (objKey x) (view s)"
      using delete_present [of s x] Cons.prems by auto
    have gone: "{y \<in> set (x # items). GetName y \<notin> names} = insert x {y \<in> set items. GetName y \<notin> names}"
      using False by auto
    have "view s' (apiKind api) (objKey y) \<noteq> None" if "y \<in> set items" for y
    proof -
      have "objKey x \<notin> objKey ` set items" using Cons.prems(2) by simp
      then have "objKey y \<noteq> objKey x" using that by (auto simp: image_iff)
      with Cons.prems(3) [of y] that show ?thesis by (simp add: s'(3) dropObj_def)
    qed
    with Cons.IH [of s' acc] Cons.prems(2) s'(2)
    have "res (foldE (deleteUnused_step api names) acc items) s'
        = Ok (acc @ map GetName (filter (\<lambda>x. GetName x \<in> names) items))"
      "good (post (foldE (deleteUnused_step api names) acc items) s')"
      "view (post (foldE (deleteUnused_step api names) acc items) s') = (view s')(apiKind api := (\<lambda>key.
        if key \<in> objKey ` {x \<in> set items. GetName x \<notin> names} then None else view s' (apiKind api) key))"
      by (simp_all add: fun_upd_def)
    then show ?thesis unfolding gone
      using False s' by (auto simp: step_drop go_run api_results api_posts dropObj_def fun_eq_iff)
  qed
qed

text \<open>The cleanup refines \<open>Sweep\<close>.\<close>

lemma cleanup_refines:
  "does good view (deleteUnusedResources api drd names ls) (\<lambda>_. True)
     [Sweep (apiKind api) (GetNamespace drd) ls names]"
  unfolding does_def
proof (intro allI impI)
  fix s assume g: "good s"
  let ?m = "deleteUnusedResources api drd names ls"
  let ?a = "Sweep (apiKind api) (GetNamespace drd) ls names"
  obtain items where items: "apiList api (GetNamespace drd) ls s = (Inr items, s)" "distinct (map objKey items)"
    "\<forall>x \<in> set items. view s (apiKind api) (objKey x) = Some (digestOf x)"
    "objKey ` set items = {key. \<exists>d. view s (apiKind api) key = Some d \<and> snd key = GetNamespace drd \<and> fmsubset ls (snd d)}"
    using list_selected [OF g, of "GetNamespace drd" ls] by blast
  note loop = delete_loop [OF g items(2), of names "[]"]
  have gone: "objKey ` {x \<in> set items. GetName x \<notin> names} =
      {key. \<exists>d. view s (apiKind api) key = Some d \<and> unwanted (GetNamespace drd) ls names key d}"
  proof -
    have "objKey ` {x \<in> set items. GetName x \<notin> names} = objKey ` set items \<inter> {key. fst key \<notin> names}"
      by auto
    then show ?thesis unfolding items(4) by (auto simp: unwanted_def)
  qed
  have "view (post ?m s) = applyActs [?a] (view s)" "good (post ?m s)" "\<exists>x. res ?m s = Ok x"
    using loop items by (auto simp: deleteUnusedResources_def go_run sdk_defs gone fun_eq_iff split: option.split)
  moreover have "\<not> list_ex changes (effs ?m s)" if "settledAct ?a (view s)"
  proof -
    have "objKey ` {x \<in> set items. GetName x \<notin> names} = {}" using that unfolding gone by auto
    then have "filter (\<lambda>x. GetName x \<notin> names) items = []" by (auto simp: filter_empty_conv)
    then have "requests (effs ?m s) = requests [ListCall (apiKind api) (GetNamespace drd) ls]"
      using items(1) by (simp add: deleteUnusedResources_def go_run sdk_defs delete_loop_requests)
    from requests_change [OF this] show ?thesis by simp
  qed
  ultimately show "(\<exists>x. res ?m s = Ok x \<and> True) \<and> good (post ?m s) \<and> view (post ?m s) = applyActs [?a] (view s)
      \<and> (settled [?a] (view s) \<longrightarrow> \<not> list_ex changes (effs ?m s))" by simp
qed

end

text \<open>A further property of the state that the requests of this kind keep can be added to \<open>good\<close>.\<close>

lemma kind_store_also:
  assumes "kind_store api good view"
    and "\<And>x s. also s \<Longrightarrow> also (snd (apiCreate api x s))" "\<And>x s. also s \<Longrightarrow> also (snd (apiUpdate api x s))"
    and "\<And>x s. also s \<Longrightarrow> also (snd (apiDelete api EmptyOptions x s))"
  shows "kind_store api (\<lambda>s. good s \<and> also s) view"
proof (rule kind_store.intro, goal_cases)
  case (1 s n ns)
  then show ?case using kind_store.get_absent [OF assms(1)] by blast
next
  case (2 s n ns d)
  then show ?case using kind_store.get_present [OF assms(1)] by blast
next
  case (3 s x)
  then show ?case using kind_store.create_absent [OF assms(1), of s x] assms(2) [of s x] by force
next
  case (4 s x p)
  then show ?case using kind_store.update_current [OF assms(1), of s x p] assms(3) [of s x] by force
next
  case (5 s x)
  then show ?case using kind_store.delete_present [OF assms(1), of s x] assms(4) [of s x] by force
next
  case (6 s ns ls)
  then show ?case using kind_store.list_selected [OF assms(1), of s ns ls] by blast
qed

section \<open>The server in memory keeps the contract\<close>

definition kobjKey :: "kobj \<Rightarrow> kind \<times> string \<times> string" where
  "kobjKey k = (kindOf k, metaName (kobjMeta k), metaNamespace (kobjMeta k))"

text \<open>No two objects share a key, and the custom resource with the given key exists.\<close>

definition memGood :: "string \<times> string \<Rightarrow> world \<Rightarrow> bool" where
  "memGood cr w \<longleftrightarrow> distinct (map kobjKey (wObjs w)) \<and> (DruidKind, cr) \<in> set (map kobjKey (wObjs w))"

text \<open>Pods and custom resources are not objects the operator manages.\<close>

definition managed :: "kind \<Rightarrow> bool" where
  "managed kd \<longleftrightarrow> kd \<noteq> PodKind \<and> kd \<noteq> DruidKind"

definition memView :: "world \<Rightarrow> dstore" where
  "memView w kd key = (if managed kd
     then map_option (\<lambda>k. metaDigest (kobjMeta k)) (find (\<lambda>k. kobjKey k = (kd, key)) (wObjs w)) else None)"

lemma sameKey_kobjKey: "sameKey kd n ns = (\<lambda>k. kobjKey k = (kd, n, ns))"
  by (auto simp: sameKey_def kobjKey_def fun_eq_iff)

lemma find_distinct:
  "distinct (map f xs) \<Longrightarrow> x \<in> set xs \<Longrightarrow> find (\<lambda>y. f y = f x) xs = Some x"
  by (induction xs) auto

lemma find_app: "find P (xs @ ys) = (case find P xs of None \<Rightarrow> find P ys | Some x \<Rightarrow> Some x)"
  by (induction xs) auto

lemma find_replace_other:
  "a \<noteq> f x \<Longrightarrow> find (\<lambda>y. f y = a) (map (\<lambda>y. if f y = f x then x else y) xs) = find (\<lambda>y. f y = a) xs"
  by (induction xs) auto

lemma find_remove:
  "find (\<lambda>y. f y = a) (filter (\<lambda>y. f y \<noteq> b) xs) = (if a = b then None else find (\<lambda>y. f y = a) xs)"
  by (induction xs) auto

lemma memGood_find:
  "memGood cr w \<Longrightarrow> k \<in> set (wObjs w) \<Longrightarrow> find (\<lambda>y. kobjKey y = kobjKey k) (wObjs w) = Some k"
  unfolding memGood_def by (rule find_distinct) simp_all

text \<open>How a kind of object is wrapped; every kind of the client in memory is wrapped this way.\<close>

definition wraps :: "kind \<Rightarrow> ('a k8s_object_scheme \<Rightarrow> kobj) \<Rightarrow> (kobj \<Rightarrow> 'a k8s_object_scheme) \<Rightarrow> bool" where
  "wraps kd wrap unwrap \<longleftrightarrow> (\<forall>x. kindOf (wrap x) = kd \<and> unwrap (wrap x) = x \<and> kobjMeta (wrap x) = objMeta x)
     \<and> (\<forall>k. kindOf k = kd \<longrightarrow> wrap (unwrap k) = k)"

lemma wrapsD:
  assumes "wraps kd wrap unwrap"
  shows "kindOf (wrap x) = kd" "unwrap (wrap x) = x" "kobjMeta (wrap x) = objMeta x"
    "kindOf k = kd \<Longrightarrow> wrap (unwrap k) = k" "kindOf k = kd \<Longrightarrow> objMeta (unwrap k) = kobjMeta k"
    "kobjKey (wrap x) = (kd, objKey x)"
  using assms unfolding wraps_def kobjKey_def by (metis+)

lemma memory_replace:
  fixes wrap :: "'a k8s_object_scheme \<Rightarrow> kobj"
  assumes w: "wraps kd wrap unwrap" and kd: "managed kd" and ok: "memReplace wrap x s = (Inr x', s')"
  shows "memView s' = putObj kd (objKey x) (digestOf x) (memView s)" and "memGood cr s \<Longrightarrow> memGood cr s'"
proof -
  let ?w = "s\<lparr>wObjs := map (\<lambda>k. if kobjKey k = kobjKey (wrap x) then wrap x else k) (wObjs s)\<rparr>"
  have ex: "list_ex (\<lambda>k. kobjKey k = kobjKey (wrap x)) (wObjs s)" and s': "s' = ?w"
    using ok by (auto simp: memReplace_def Let_def sameKey_kobjKey wrapsD [OF w] split: if_splits)
  have keys: "map kobjKey (wObjs ?w) = map kobjKey (wObjs s)" by (simp add: comp_def)
  show "memGood cr s \<Longrightarrow> memGood cr s'" unfolding s' memGood_def keys .
  show "memView s' = putObj kd (objKey x) (digestOf x) (memView s)" unfolding s'
  proof (intro ext)
    fix kd' key
    show "memView ?w kd' key = putObj kd (objKey x) (digestOf x) (memView s) kd' key"
    proof (cases "(kd', key) = kobjKey (wrap x)")
      case True
      then show ?thesis using find_map_replace [OF ex, of "wrap x"]
        by (auto simp: memView_def kd putObj_def wrapsD [OF w])
    next
      case False
      then show ?thesis using find_replace_other [of "(kd', key)" kobjKey "wrap x" "wObjs s"]
        by (auto simp: memView_def kd putObj_def wrapsD [OF w])
    qed
  qed
qed

lemma memory_delete:
  fixes wrap :: "'a k8s_object_scheme \<Rightarrow> kobj"
  assumes w: "wraps kd wrap unwrap" and kd: "managed kd" and ok: "memDelete wrap x s = (Inr (), s')"
  shows "memView s' = dropObj kd (objKey x) (memView s)" and "memGood cr s \<Longrightarrow> memGood cr s'"
proof -
  have s': "s' = s\<lparr>wObjs := filter (\<lambda>k. kobjKey k \<noteq> (kd, objKey x)) (wObjs s)\<rparr>"
    using ok by (auto simp: memDelete_def Let_def sameKey_kobjKey wrapsD [OF w] split: if_splits)
  show "memGood cr s \<Longrightarrow> memGood cr s'"
    using kd by (auto simp: s' managed_def memGood_def distinct_map_filter)
  show "memView s' = dropObj kd (objKey x) (memView s)"
    by (auto simp: s' memView_def kd dropObj_def fun_eq_iff find_remove)
qed

lemma memory_get:
  assumes w: "wraps kd wrap unwrap" and kd: "managed kd" and v: "memView s kd (n, ns) = Some d"
  shows "\<exists>p. memGet kd unwrap n ns s = (Inr p, s) \<and> digestOf p = d"
proof -
  from v obtain k where k: "find (\<lambda>k. kobjKey k = (kd, n, ns)) (wObjs s) = Some k" "metaDigest (kobjMeta k) = d"
    by (auto simp: memView_def kd)
  then have "kindOf k = kd" by (auto simp: find_Some_iff kobjKey_def)
  with k show ?thesis by (simp add: memGet_def sameKey_kobjKey wrapsD [OF w])
qed

lemma memory_create:
  assumes w: "wraps kd wrap unwrap" and kd: "managed kd" and v: "memView s kd (objKey x) = None"
  shows "\<exists>x' s'. memCreate wrap x s = (Inr x', s') \<and> (memGood cr s \<longrightarrow> memGood cr s')
    \<and> memView s' = putObj kd (objKey x) (digestOf x) (memView s)"
proof -
  let ?s = "s\<lparr>wObjs := wObjs s @ [wrap x]\<rparr>"
  from v have no: "find (\<lambda>k. kobjKey k = (kd, objKey x)) (wObjs s) = None" by (simp add: memView_def kd)
  then have new: "\<not> list_ex (\<lambda>k. kobjKey k = (kd, objKey x)) (wObjs s)" by (auto simp: find_None_iff list_ex_iff)
  have "memGood cr s \<longrightarrow> memGood cr ?s"
    using new by (auto simp: memGood_def wrapsD [OF w] list_ex_iff)
  moreover have "memView ?s = putObj kd (objKey x) (digestOf x) (memView s)"
    using no by (auto simp: memView_def kd fun_eq_iff find_app putObj_def wrapsD [OF w] split: option.split)
  ultimately show ?thesis
    using new by (simp add: memCreate_def Let_def sameKey_kobjKey wrapsD [OF w])
qed

lemma memory_list:
  assumes w: "wraps kd wrap unwrap" and kd: "managed kd" and g: "memGood cr s" and l: "memList kd unwrap ns ls s = (Inr items, s')"
  shows "distinct (map objKey items)" "\<forall>x \<in> set items. memView s kd (objKey x) = Some (digestOf x)"
    "objKey ` set items = {key. \<exists>d. memView s kd key = Some d \<and> snd key = ns \<and> fmsubset ls (snd d)}"
proof -
  let ?ks = "filter (\<lambda>k. kindOf k = kd \<and> metaNamespace (kobjMeta k) = ns \<and> hasLabels ls k) (wObjs s)"
  have items: "items = map unwrap ?ks" using l by (auto simp: memList_def)
  have keys: "kobjKey k = (kd, objKey (unwrap k))" if "k \<in> set ?ks" for k
  proof -
    have "kindOf k = kd" using that by simp
    from wrapsD(4) [OF w this] wrapsD(6) [OF w, of "unwrap k"] show ?thesis by (simp only:)
  qed
  have "distinct (map kobjKey ?ks)" using g by (simp add: memGood_def distinct_map_filter)
  moreover have "map kobjKey ?ks = map (Pair kd) (map objKey items)" using keys by (simp add: items)
  ultimately have "distinct (map (Pair kd) (map objKey items))" by (simp only:)
  then show "distinct (map objKey items)" by (rule distinct_map [THEN iffD1, THEN conjunct1])
  have lookup: "memView s kd (objKey (unwrap k)) = Some (digestOf (unwrap k))" if "k \<in> set ?ks" for k
    using that memGood_find [OF g, of k] keys [OF that] by (simp add: memView_def kd wrapsD [OF w])
  then show "\<forall>x \<in> set items. memView s kd (objKey x) = Some (digestOf x)" by (simp add: items)
  have sel: "hasLabels ls k = fmsubset ls (snd (metaDigest (kobjMeta k)))" for k
    by (simp add: hasLabels_def metaDigest_def)
  have "key \<in> objKey ` set items" if "memView s kd key = Some d" "snd key = ns" "fmsubset ls (snd d)" for key d
  proof -
    from that(1) obtain k where k: "find (\<lambda>k. kobjKey k = (kd, key)) (wObjs s) = Some k" "metaDigest (kobjMeta k) = d"
      by (auto simp: memView_def kd)
    then have "k \<in> set (wObjs s)" "kobjKey k = (kd, key)" by (auto simp: find_Some_iff)
    then show ?thesis
      using that(2,3) k(2) keys [of k] by (auto simp: items kobjKey_def sel intro!: image_eqI [of _ _ "unwrap k"])
  qed
  then show "objKey ` set items = {key. \<exists>d. memView s kd key = Some d \<and> snd key = ns \<and> fmsubset ls (snd d)}"
    using lookup by (auto simp: items sel wrapsD [OF w]) (metis prod.collapse)
qed

lemma memory_kind_store:
  fixes wrap :: "'a k8s_object_scheme \<Rightarrow> kobj"
  assumes w: "wraps kd wrap unwrap" and kd: "managed kd"
  shows "kind_store (memApi kd wrap unwrap) (memGood cr) memView"
proof (unfold_locales, goal_cases)
  case 1
  then show ?case by (simp add: memApi_def memView_def kd memGet_def sameKey_kobjKey)
next
  case 2
  then show ?case using memory_get [OF w kd] by (simp add: memApi_def)
next
  case (3 s x)
  then show ?case using memory_create [OF w kd, of s x cr] by (simp add: memApi_def)
next
  case (4 s x p)
  then have "list_ex (\<lambda>k. kobjKey k = kobjKey (wrap x)) (wObjs s)"
    by (auto simp: memApi_def memGet_def sameKey_kobjKey wrapsD [OF w] find_Some_iff list_ex_iff split: option.splits)
  then obtain s' where "memReplace wrap x s = (Inr x, s')"
    by (simp add: memReplace_def Let_def sameKey_kobjKey wrapsD [OF w])
  from this memory_replace [OF w kd this] 4(1) show ?case by (simp add: memApi_def)
next
  case (5 s x)
  then have "list_ex (\<lambda>k. kobjKey k = (kd, objKey x)) (wObjs s)"
    by (auto simp: memApi_def memView_def kd list_ex_iff find_Some_iff)
  then obtain s' where "memDelete wrap x s = (Inr (), s')"
    by (simp add: memDelete_def Let_def sameKey_kobjKey wrapsD [OF w])
  from this memory_delete [OF w kd this] 5(1) show ?case by (simp add: memApi_def)
next
  case (6 s ns ls)
  obtain items where l: "memList kd unwrap ns ls s = (Inr items, s)" by (simp add: memList_def)
  with memory_list [OF w kd 6 l] show ?case by (auto simp: memApi_def)
qed

lemma wraps_kinds:
  "wraps ConfigMapKind KConfigMap unConfigMap" "wraps ServiceKind KService unService"
  "wraps StatefulSetKind KStatefulSet unStatefulSet" "wraps DeploymentKind KDeployment unDeployment"
  "wraps PVCKind KPVC unPVC" "wraps PDBKind KPDB unPDB" "wraps HPAKind KHPA unHPA"
  "wraps IngressKind KIngress unIngress"
  unfolding wraps_def by (auto elim: kindOf.elims)

end
