(* ===== verification/Cluster_Plan.thy ===== *)
theory Cluster_Plan
  imports Cluster_Deploy Object_Store
begin

text \<open>
  The abstract specification of a deployment: from the custom resource alone, without a server,
  the list of actions on the store of objects that a deployment has to perform. An object is
  wanted under its key with the digest it is sent with; after all wanted objects one sweep per
  kind removes what no node group asks for. The custom resource is threaded through the plan
  because builders write to it. Proved: the plan depends only on the spec and the identity of
  the resource, and once performed it is settled, provided no two wanted objects share a key.
\<close>

section \<open>The plan\<close>

definition bindO :: "'a outcome \<Rightarrow> ('a \<Rightarrow> 'b outcome) \<Rightarrow> 'b outcome" where
  "bindO r f = (case r of Ok x \<Rightarrow> f x | Err e \<Rightarrow> Err e | Panic p \<Rightarrow> Panic p)"

lemma bindO_Ok: "bindO r f = Ok y \<longleftrightarrow> (\<exists>x. r = Ok x \<and> f x = Ok y)"
  by (cases r) (simp_all add: bindO_def)

definition eitherO :: "goerr + 'a \<Rightarrow> 'a outcome" where
  "eitherO r = (case r of Inl e \<Rightarrow> Err e | Inr x \<Rightarrow> Ok x)"

lemma eitherO_Ok: "eitherO r = Ok x \<longleftrightarrow> r = Inr x"
  by (cases r) (simp_all add: eitherO_def)

text \<open>The object with the owner reference and the hash, and the action that asks for it.\<close>

definition stamped :: "golib \<Rightarrow> ('a k8s_object_scheme \<Rightarrow> kobj) \<Rightarrow> druid \<Rightarrow> 'a k8s_object_scheme \<Rightarrow> 'a k8s_object_scheme" where
  "stamped lib wrap m obj = addHashToObject lib wrap (addOwnerRefToObject (asOwner m) obj)"

definition want :: "golib \<Rightarrow> kind \<Rightarrow> ('a k8s_object_scheme \<Rightarrow> kobj) \<Rightarrow> druid \<Rightarrow> 'a k8s_object_scheme \<Rightarrow> act" where
  "want lib kd wrap m obj = Ensure kd (objKey obj) (digestOf (stamped lib wrap m obj))"

fun planServices :: "golib \<Rightarrow> druid_node_spec \<Rightarrow> strmap \<Rightarrow> string \<Rightarrow> druid \<Rightarrow> string \<Rightarrow> (nat \<times> service) list
    \<Rightarrow> druid \<times> string \<times> act list" where
  "planServices lib n lm u m first [] = (m, first, [])"
| "planServices lib n lm u m first ((i, svc) # rest) =
     (let obj = makeService lib svc n m lm u;
          built = stamped lib KService m obj;
          m' = (if ndServices n = None
                then updSpec (\<lambda>sp. sp\<lparr>crServices :=
                       map_option (\<lambda>l. l[i := leaveService built (l ! i)]) (crServices sp)\<rparr>) m
                else m);
          (m'', first', acts) = planServices lib n lm u m' (if first = [] then GetName obj else first) rest
      in (m'', first', want lib ServiceKind KService m obj # acts))"

definition planWorkload ::
  "golib \<Rightarrow> druid_node_spec \<Rightarrow> strmap \<Rightarrow> string \<Rightarrow> string \<Rightarrow> string \<Rightarrow> druid \<Rightarrow> (druid \<times> act list) outcome" where
  "planWorkload lib n lm u sha first m =
     (if ndKind n = ''Deployment'' then
        bindO (makeDeployment n m lm u sha first) (\<lambda>(obj, m1).
          Ok (shareAnnotations (stamped lib KDeployment m1 obj) m1, [want lib DeploymentKind KDeployment m1 obj]))
      else
        (case makeStatefulSet n m lm u sha first of (obj, m1) \<Rightarrow>
          Ok (shareAnnotations (stamped lib KStatefulSet m1 obj) m1, [want lib StatefulSetKind KStatefulSet m1 obj])))"

definition planExtras :: "golib \<Rightarrow> druid_node_spec \<Rightarrow> strmap \<Rightarrow> strmap \<Rightarrow> string \<Rightarrow> druid \<Rightarrow> act list outcome" where
  "planExtras lib n ls lm u m =
     bindO (if ndIngress n \<noteq> None
            then bindO (makeIngress n m ls u) (\<lambda>x. Ok [want lib IngressKind KIngress m x]) else Ok []) (\<lambda>ingress.
     bindO (if ndPodDisruptionBudgetSpec n \<noteq> None
            then bindO (makePodDisruptionBudget n m lm u) (\<lambda>x. Ok [want lib PDBKind KPDB m x]) else Ok []) (\<lambda>pdb.
     bindO (if ndHPAutoScaler n \<noteq> None
            then bindO (makeHorizontalPodAutoscaler n m ls u) (\<lambda>x. Ok [want lib HPAKind KHPA m x]) else Ok []) (\<lambda>hpa.
       Ok (ingress @ pdb @ hpa
         @ map (\<lambda>pvc. want lib PVCKind KPVC m (makePersistentVolumeClaim pvc n m lm u))
             (case ndPersistentVolumeClaim n of None \<Rightarrow> [] | Some l \<Rightarrow> l)))))"

text \<open>The parts of the plan of these objects.\<close>

lemma planExtrasE:
  assumes "planExtras lib n ls lm u m = Ok acts"
  obtains ig ps hs where
    "(if ndIngress n \<noteq> None then bindO (makeIngress n m ls u) (\<lambda>x. Ok [want lib IngressKind KIngress m x]) else Ok []) = Ok ig"
    "(if ndPodDisruptionBudgetSpec n \<noteq> None then bindO (makePodDisruptionBudget n m lm u)
        (\<lambda>x. Ok [want lib PDBKind KPDB m x]) else Ok []) = Ok ps"
    "(if ndHPAutoScaler n \<noteq> None then bindO (makeHorizontalPodAutoscaler n m ls u)
        (\<lambda>x. Ok [want lib HPAKind KHPA m x]) else Ok []) = Ok hs"
    "acts = ig @ ps @ hs @ map (\<lambda>pvc. want lib PVCKind KPVC m (makePersistentVolumeClaim pvc n m lm u))
        (case ndPersistentVolumeClaim n of None \<Rightarrow> [] | Some l \<Rightarrow> l)"
  using assms unfolding planExtras_def bindO_Ok by auto

definition planNode :: "golib \<Rightarrow> strmap \<Rightarrow> string \<Rightarrow> druid \<Rightarrow> service_group \<Rightarrow> (druid \<times> act list) outcome" where
  "planNode lib ls commonSHA m elem =
     (let n = sgSpec elem;
          u = makeNodeSpecificUniqueString m (sgKey elem);
          lm = makeLabelsForNodeSpec n m (GetName m) u;
          nodeConfig = makeConfigMapForNodeSpec n m lm u
      in bindO (eitherO (getObjectHash lib (KConfigMap nodeConfig))) (\<lambda>nodeSHA.
         case planServices lib n lm u m []
                (enumerate 0 (case firstNonNilValue (ndServices n) (crServices (drSpec m)) of None \<Rightarrow> [] | Some l \<Rightarrow> l)) of
           (m1, first, services) \<Rightarrow>
             let n1 = n\<lparr>ndPorts := ndPorts n @
               [\<lparr>cpName = ''druid-port'', cpContainerPort = ndDruidPort n, cpRest = []\<rparr>]\<rparr>
             in bindO (planWorkload lib n1 lm u (commonSHA @ ''-'' @ nodeSHA) first m1) (\<lambda>(m2, workload).
                bindO (planExtras lib n1 ls lm u m2) (\<lambda>extras.
                  Ok (m2, want lib ConfigMapKind KConfigMap m nodeConfig # services @ workload @ extras)))))"

abbreviation nodeServices :: "druid_node_spec \<Rightarrow> druid \<Rightarrow> service list" where
  "nodeServices n m \<equiv> (case firstNonNilValue (ndServices n) (crServices (drSpec m)) of None \<Rightarrow> [] | Some l \<Rightarrow> l)"

abbreviation withDruidPort :: "druid_node_spec \<Rightarrow> druid_node_spec" where
  "withDruidPort n \<equiv> n\<lparr>ndPorts := ndPorts n @ [\<lparr>cpName = ''druid-port'', cpContainerPort = ndDruidPort n, cpRest = []\<rparr>]\<rparr>"

text \<open>The parts of the plan of a node group.\<close>

lemma planNodeE:
  assumes "planNode lib ls sha m elem = Ok (m', acts)"
  obtains n u lm cm m1 first services nodeSHA workload extras where
    "n = sgSpec elem" "u = makeNodeSpecificUniqueString m (sgKey elem)" "lm = makeLabelsForNodeSpec n m (GetName m) u"
    "cm = makeConfigMapForNodeSpec n m lm u"
    "planServices lib n lm u m [] (enumerate 0 (nodeServices n m)) = (m1, first, services)"
    "getObjectHash lib (KConfigMap cm) = Inr nodeSHA"
    "planWorkload lib (withDruidPort n) lm u (sha @ ''-'' @ nodeSHA) first m1 = Ok (m', workload)"
    "planExtras lib (withDruidPort n) ls lm u m' = Ok extras"
    "acts = want lib ConfigMapKind KConfigMap m cm # services @ workload @ extras"
proof -
  let ?n = "sgSpec elem"
  let ?u = "makeNodeSpecificUniqueString m (sgKey elem)"
  let ?lm = "makeLabelsForNodeSpec ?n m (GetName m) ?u"
  obtain m1 first services where svc: "planServices lib ?n ?lm ?u m [] (enumerate 0 (nodeServices ?n m)) = (m1, first, services)"
    by (cases "planServices lib ?n ?lm ?u m [] (enumerate 0 (nodeServices ?n m))") auto
  from assms show thesis
    unfolding planNode_def Let_def svc prod.case bindO_Ok eitherO_Ok
    by (auto simp: bindO_Ok intro: that [OF refl refl refl refl svc])
qed

fun planNodes :: "golib \<Rightarrow> strmap \<Rightarrow> string \<Rightarrow> druid \<Rightarrow> service_group list \<Rightarrow> (druid \<times> act list) outcome" where
  "planNodes lib ls commonSHA m [] = Ok (m, [])"
| "planNodes lib ls commonSHA m (elem # rest) =
     bindO (planNode lib ls commonSHA m elem) (\<lambda>(m1, acts).
     bindO (planNodes lib ls commonSHA m1 rest) (\<lambda>(m2, acts'). Ok (m2, acts @ acts')))"

definition ensuredNames :: "kind \<Rightarrow> act list \<Rightarrow> string set" where
  "ensuredNames kd acts = {n. \<exists>ns d. Ensure kd (n, ns) d \<in> set acts}"

lemma ensuredNames_code [code]:
  "ensuredNames kd acts = set (concat (map (\<lambda>a. case a of Ensure kd' key d \<Rightarrow> if kd' = kd then [fst key] else []
     | Sweep _ _ _ _ \<Rightarrow> []) acts))"
  by (fastforce simp: ensuredNames_def split: act.splits if_splits)

definition sweptKinds :: "kind list" where
  "sweptKinds = [StatefulSetKind, DeploymentKind, HPAKind, IngressKind, PDBKind, ServiceKind, ConfigMapKind]"

definition sweeps :: "string \<Rightarrow> strmap \<Rightarrow> act list \<Rightarrow> act list" where
  "sweeps ns ls acts = map (\<lambda>kd. Sweep kd ns ls (ensuredNames kd acts)) sweptKinds"

text \<open>The whole plan, for a common ConfigMap that was built.\<close>

definition clusterPlan :: "golib \<Rightarrow> druid \<Rightarrow> configmap \<Rightarrow> act list outcome" where
  "clusterPlan lib m commonConfig =
     (let ls = makeLabelsForDruid m in
      bindO (eitherO (getObjectHash lib (KConfigMap commonConfig))) (\<lambda>sha.
      bindO (planNodes lib ls sha m (getNodeSpecsByOrder m)) (\<lambda>(_, acts).
        let wanted = want lib ConfigMapKind KConfigMap m commonConfig # acts
        in Ok (wanted @ sweeps (GetNamespace m) ls wanted))))"

section \<open>The plan depends on the spec and the identity only\<close>

definition same_core :: "druid \<Rightarrow> druid \<Rightarrow> bool" where
  "same_core m m' \<longleftrightarrow> drSpec m = drSpec m' \<and> GetName m = GetName m' \<and> GetNamespace m = GetNamespace m'
     \<and> asOwner m = asOwner m' \<and> metaGeneration (objMeta m) = metaGeneration (objMeta m')"

lemma core_want: "same_core m m' \<Longrightarrow> want lib kd wrap m obj = want lib kd wrap m' obj"
  "same_core m m' \<Longrightarrow> stamped lib wrap m obj = stamped lib wrap m' obj"
  by (simp_all add: same_core_def want_def stamped_def)

lemma core_builders:
  assumes "same_core m m'"
  shows "makeNodeSpecificUniqueString m = makeNodeSpecificUniqueString m'"
    "makeLabelsForNodeSpec n m = makeLabelsForNodeSpec n m'"
    "makeLabelsForDruid m = makeLabelsForDruid m'"
    "makeConfigMapForNodeSpec n m = makeConfigMapForNodeSpec n m'"
    "makeService lib svc n m = makeService lib svc n m'"
    "makeIngress n m = makeIngress n m'" "makePodDisruptionBudget n m = makePodDisruptionBudget n m'"
    "makeHorizontalPodAutoscaler n m = makeHorizontalPodAutoscaler n m'"
    "makePersistentVolumeClaim pvc n m = makePersistentVolumeClaim pvc n m'"
    "getNodeSpecsByOrder m = getNodeSpecsByOrder m'"
  using assms
  by (simp_all add: same_core_def fun_eq_iff makeNodeSpecificUniqueString_def makeLabelsForNodeSpec_def makeLabelsForDruid_def
      makeConfigMapForNodeSpec_def makeService_def makeIngress_def makePodDisruptionBudget_def
      makeHorizontalPodAutoscaler_def makePersistentVolumeClaim_def builtMeta_def getNodeSpecsByOrder_def
      split: option.split)

text \<open>A builder that also writes to the resource: the same object, and resources that still agree.\<close>

definition same_built :: "('x \<times> druid) \<Rightarrow> ('x \<times> druid) \<Rightarrow> bool" where
  "same_built r r' \<longleftrightarrow> fst r = fst r' \<and> same_core (snd r) (snd r')"

lemma core_updSpec: "same_core m m' \<Longrightarrow> same_core (updSpec f m) (updSpec f m')"
  by (simp add: same_core_def asOwner_def)

lemma core_share: "same_core m m' \<Longrightarrow> same_core (shareAnnotations obj m) (shareAnnotations obj m')"
  by (auto simp: shareAnnotations_def same_core_def asOwner_def split: option.split)

lemma core_annotations: "same_core m m' \<Longrightarrow> same_built (makeAnnotationsForWorkload n m) (makeAnnotationsForWorkload n m')"
  by (auto simp: makeAnnotationsForWorkload_def same_built_def same_core_def asOwner_def Let_def split: option.split)

lemma core_probes:
  assumes "same_core m m'"
  shows "same_built (setLivenessProbe n m) (setLivenessProbe n m')"
    "same_built (setReadinessProbe n m) (setReadinessProbe n m')"
    "same_built (setStartUpProbe n m) (setStartUpProbe n m')"
  using assms
  by (simp_all add: setLivenessProbe_def setReadinessProbe_def setStartUpProbe_def same_built_def same_core_def
      asOwner_def Let_def)

lemma core_podSpec:
  assumes "same_core m m'"
  shows "same_built (makePodSpec n m u c) (makePodSpec n m' u c)"
proof -
  note l = core_probes(1) [OF assms, of n]
  note r = core_probes(2) [OF l [unfolded same_built_def, THEN conjunct2], of n]
  note s = core_probes(3) [OF r [unfolded same_built_def, THEN conjunct2], of n]
  show ?thesis
    using assms l r s
    by (simp add: makePodSpec_def Let_def case_prod_beta same_built_def getEnv_def getEnvFrom_def getVolumeMounts_def
        getTolerations_def getAffinity_def getVolume_def addAdditionalContainers_def getAllAdditionalContainers_def same_core_def)
qed

lemma core_podTemplate: "same_core m m' \<Longrightarrow> same_built (makePodTemplate n m ls u c) (makePodTemplate n m' ls u c)"
  using core_podSpec [of m m' n u c]
  by (simp add: makePodTemplate_def same_built_def case_prod_beta Let_def) (simp add: same_core_def)

lemma core_statefulSet:
  assumes "same_core m m'"
  shows "same_built (makeStatefulSet n m ls u c sv) (makeStatefulSet n m' ls u c sv)"
proof -
  note a = core_annotations [OF assms, of n, unfolded same_built_def]
  note t = core_podTemplate [OF a [THEN conjunct2], of n ls u c]
  show ?thesis
    using a t assms by (simp add: makeStatefulSet_def makeStatefulSetSpec_def same_built_def case_prod_beta Let_def
      getPersistentVolumeClaim_def same_core_def)
qed

lemma core_deployment:
  assumes "same_core m m'"
  shows "rel_outcome same_built (makeDeployment n m ls u c sv) (makeDeployment n m' ls u c sv)"
proof -
  note a = core_annotations [OF assms, of n, unfolded same_built_def]
  note t = core_podTemplate [OF a [THEN conjunct2], of n ls u c]
  show ?thesis
    using a t assms
    by (cases "getRollingUpdateStrategy n")
       (simp_all add: makeDeployment_def makeDeploymentSpec_def same_built_def case_prod_beta Let_def same_core_def)
qed

lemma rel_bindO:
  "rel_outcome R r r' \<Longrightarrow> (\<And>x y. R x y \<Longrightarrow> rel_outcome S (f x) (g y)) \<Longrightarrow> rel_outcome S (bindO r f) (bindO r' g)"
  by (cases r; cases r') (auto simp: bindO_def)

lemma rel_outcome_refl [simp]: "rel_outcome (=) r r"
  by (cases r) simp_all

lemma core_planServices:
  assumes "same_core m m'"
  shows "snd (planServices lib n lm u m first svcs) = snd (planServices lib n lm u m' first svcs)
    \<and> same_core (fst (planServices lib n lm u m first svcs)) (fst (planServices lib n lm u m' first svcs))"
  using assms
proof (induction svcs arbitrary: m m' first)
  case (Cons x svcs)
  obtain i svc where x: "x = (i, svc)" by (cases x)
  have b: "makeService lib svc n m lm u = makeService lib svc n m' lm u"
    using core_builders(5) [OF Cons.prems] by simp
  let ?f = "\<lambda>sp. sp\<lparr>crServices := map_option (\<lambda>l. l[i := leaveService
    (stamped lib KService m' (makeService lib svc n m' lm u)) (l ! i)]) (crServices sp)\<rparr>"
  show ?case
    using Cons.IH [OF core_updSpec [OF Cons.prems, of ?f]] Cons.IH [OF Cons.prems]
    by (simp add: x b core_want [OF Cons.prems] Let_def case_prod_beta)
qed simp

abbreviation same_plan :: "druid \<times> act list \<Rightarrow> druid \<times> act list \<Rightarrow> bool" where
  "same_plan \<equiv> rel_prod same_core (=)"

lemma core_planWorkload:
  assumes "same_core m m'"
  shows "rel_outcome same_plan (planWorkload lib n lm u sha first m) (planWorkload lib n lm u sha first m')"
proof (cases "ndKind n = ''Deployment''")
  case True
  have "rel_outcome same_plan
      (bindO (makeDeployment n m lm u sha first) (\<lambda>(obj, m1).
        Ok (shareAnnotations (stamped lib KDeployment m1 obj) m1, [want lib DeploymentKind KDeployment m1 obj])))
      (bindO (makeDeployment n m' lm u sha first) (\<lambda>(obj, m1).
        Ok (shareAnnotations (stamped lib KDeployment m1 obj) m1, [want lib DeploymentKind KDeployment m1 obj])))"
    by (rule rel_bindO [OF core_deployment [OF assms]])
       (auto simp: same_built_def core_want intro: core_share)
  with True show ?thesis by (simp add: planWorkload_def)
next
  case False
  then show ?thesis
    using core_statefulSet [OF assms, of n lm u sha first]
    by (auto simp: planWorkload_def same_built_def case_prod_beta core_want intro: core_share)
qed

lemma core_planExtras: "same_core m m' \<Longrightarrow> planExtras lib n ls lm u m = planExtras lib n ls lm u m'"
  unfolding planExtras_def by (simp add: core_builders [of m m'] core_want [of m m'])

lemma core_planNode:
  assumes "same_core m m'"
  shows "rel_outcome same_plan (planNode lib ls sha m elem) (planNode lib ls sha m' elem)"
proof -
  have sp: "drSpec m = drSpec m'" "GetName m = GetName m'" using assms by (simp_all add: same_core_def)
  show ?thesis
    unfolding planNode_def Let_def core_builders [OF assms] core_want [OF assms] sp case_prod_beta
    using core_planServices [OF assms]
    by (intro rel_bindO [where R = "(=)"] rel_bindO [where R = same_plan])
       (auto intro!: core_planWorkload rel_bindO [where R = "(=)"] simp: core_planExtras)
qed

lemma core_planNodes:
  "same_core m m' \<Longrightarrow> rel_outcome same_plan (planNodes lib ls sha m elems) (planNodes lib ls sha m' elems)"
proof (induction elems arbitrary: m m')
  case (Cons elem elems)
  show ?case
    unfolding planNodes.simps
  proof (rule rel_bindO [OF core_planNode [OF Cons.prems]], goal_cases)
    case (1 x y)
    then have "same_core (fst x) (fst y)" "snd x = snd y" by (simp_all add: rel_prod_sel)
    then show ?case
      unfolding case_prod_beta by (intro rel_bindO [where R = same_plan] Cons.IH) (auto simp: rel_prod_sel)
  qed
qed simp

section \<open>What performing a plan leaves behind\<close>

fun isEnsure :: "act \<Rightarrow> bool" where
  "isEnsure (Ensure _ _ _) = True"
| "isEnsure (Sweep _ _ _ _) = False"

text \<open>The keys of the wanted objects, in the order of the plan.\<close>

fun wantedKeys :: "act list \<Rightarrow> (kind \<times> string \<times> string) list" where
  "wantedKeys [] = []"
| "wantedKeys (Ensure kd key d # acts) = (kd, key) # wantedKeys acts"
| "wantedKeys (Sweep _ _ _ _ # acts) = wantedKeys acts"

lemma wantedKeys_append [simp]: "wantedKeys (as @ bs) = wantedKeys as @ wantedKeys bs"
  by (induction as rule: wantedKeys.induct) auto

lemma in_wantedKeys: "(kd, key) \<in> set (wantedKeys acts) \<longleftrightarrow> (\<exists>d. Ensure kd key d \<in> set acts)"
  by (induction acts rule: wantedKeys.induct) auto

lemma wantedKeys_sweeps [simp]: "wantedKeys (sweeps ns ls acts) = []"
  by (simp add: sweeps_def sweptKinds_def)

lemma apply_Ensure_other:
  "isEnsure a \<Longrightarrow> (kd, key) \<notin> set (wantedKeys [a]) \<Longrightarrow> applyAct a \<sigma> kd key = \<sigma> kd key"
  by (cases a) (auto simp: putObj_def)

lemma settled_by_Ensure: "settledAct (Ensure kd key d) (applyAct (Ensure kd key d) \<sigma>)"
  by (simp add: putObj_def)

lemma applyActs_Ensure_other:
  "list_all isEnsure acts \<Longrightarrow> (kd, key) \<notin> set (wantedKeys acts) \<Longrightarrow> applyActs acts \<sigma> kd key = \<sigma> kd key"
proof (induction acts arbitrary: \<sigma>)
  case (Cons a acts)
  have "wantedKeys (a # acts) = wantedKeys [a] @ wantedKeys acts" by (cases a) simp_all
  with Cons show ?case by (simp add: apply_Ensure_other)
qed simp

lemma settled_by_Ensures:
  "list_all isEnsure acts \<Longrightarrow> distinct (wantedKeys acts) \<Longrightarrow> settled acts (applyActs acts \<sigma>)"
proof (induction acts arbitrary: \<sigma>)
  case (Cons a acts)
  then obtain kd key d where a: "a = Ensure kd key d" by (cases a) auto
  with Cons.prems have "applyActs acts (applyAct a \<sigma>) kd key = applyAct a \<sigma> kd key"
    by (intro applyActs_Ensure_other) auto
  with settled_by_Ensure [of kd key d \<sigma>] Cons a show ?case by simp
qed simp

text \<open>Sweeps only remove, and never a wanted object; so what one of them settles stays settled.\<close>

lemma apply_Sweep_Some:
  "applyAct (Sweep kd ns ls names) \<sigma> kd' key = Some d \<longleftrightarrow>
     \<sigma> kd' key = Some d \<and> \<not> (kd' = kd \<and> unwanted ns ls names key d)"
  by (auto split: option.split)

lemma settled_after_Sweep:
  "settledAct (Sweep kd ns ls names) (applyAct (Sweep kd ns ls names) \<sigma>)"
  "settledAct (Sweep kd ns ls names) \<sigma> \<Longrightarrow> settledAct (Sweep kd ns ls names) (applyAct (Sweep kd' ns' ls' names') \<sigma>)"
  by (simp_all only: settledAct.simps apply_Sweep_Some) auto

lemma Ensure_survives_Sweep:
  assumes "settledAct (Ensure kd key d) \<sigma>" and "kd = kd' \<Longrightarrow> fst key \<in> names'"
  shows "settledAct (Ensure kd key d) (applyAct (Sweep kd' ns ls names') \<sigma>)"
proof -
  from assms(1) obtain d' where "\<sigma> kd key = Some d'" "fst d' = fst d" by (auto split: option.splits)
  moreover then have "applyAct (Sweep kd' ns ls names') \<sigma> kd key = Some d'"
    unfolding apply_Sweep_Some using assms(2) by (auto simp: unwanted_def)
  ultimately show ?thesis by simp
qed

lemma settled_by_Sweeps:
  assumes "settled acts \<sigma>" "list_all isEnsure acts"
  shows "settled (acts @ map (\<lambda>kd. Sweep kd ns ls (ensuredNames kd acts)) kds)
    (applyActs (map (\<lambda>kd. Sweep kd ns ls (ensuredNames kd acts)) kds) \<sigma>)"
proof (induction kds rule: rev_induct)
  case (snoc kd kds)
  let ?\<tau> = "applyActs (map (\<lambda>kd. Sweep kd ns ls (ensuredNames kd acts)) kds) \<sigma>"
  let ?s = "Sweep kd ns ls (ensuredNames kd acts)"
  have "settledAct a (applyAct ?s ?\<tau>)" if "a \<in> set acts" for a
  proof -
    have "isEnsure a" using assms(2) that by (simp add: list_all_iff)
    then obtain kd' key d where a: "a = Ensure kd' key d" by (cases a) auto
    have "settledAct a ?\<tau>" using snoc that by (simp add: settled_def list_all_iff)
    moreover have "fst key \<in> ensuredNames kd acts" if "kd' = kd"
      using \<open>a \<in> set acts\<close> a that unfolding ensuredNames_def by (cases key) (auto simp del: split_paired_Ex)
    ultimately show ?thesis unfolding a by (rule Ensure_survives_Sweep)
  qed
  moreover have "settledAct (Sweep k ns ls (ensuredNames k acts)) (applyAct ?s ?\<tau>)" if "k \<in> set kds" for k
    using snoc that by (intro settled_after_Sweep(2)) (simp add: settled_def list_all_iff del: settledAct.simps)
  ultimately show ?case
    using settled_after_Sweep(1) [of kd ns ls "ensuredNames kd acts" ?\<tau>]
    by (auto simp: settled_def list_all_iff simp del: settledAct.simps applyAct.simps)
qed (use assms(1) in simp)

lemma planServices_Ensures: "list_all isEnsure (snd (snd (planServices lib n lm u m first svcs)))"
  by (induction lib n lm u m first svcs rule: planServices.induct) (simp_all add: Let_def want_def case_prod_beta)

lemma planWorkload_Ensures: "planWorkload lib n lm u sha first m = Ok (m', acts) \<Longrightarrow> list_all isEnsure acts"
  by (auto simp: planWorkload_def want_def bindO_Ok split: if_splits prod.splits)

lemma planExtras_Ensures: "planExtras lib n ls lm u m = Ok acts \<Longrightarrow> list_all isEnsure acts"
  by (erule planExtrasE) (auto simp: bindO_Ok want_def list_all_iff split: if_splits)

lemma planNode_Ensures:
  "planNode lib ls sha m elem = Ok (m', acts) \<Longrightarrow> list_all isEnsure acts"
  unfolding planNode_def Let_def case_prod_beta bindO_Ok
  by (elim exE conjE) (auto simp: want_def planServices_Ensures dest!: planWorkload_Ensures planExtras_Ensures)

lemma planNodes_Ensures: "planNodes lib ls sha m elems = Ok (m', acts) \<Longrightarrow> list_all isEnsure acts"
proof (induction elems arbitrary: m acts)
  case (Cons elem elems)
  then show ?case by (auto simp: bindO_Ok dest: planNode_Ensures)
qed simp

lemma clusterPlanE:
  assumes "clusterPlan lib m cc = Ok acts"
  obtains sha m' nodes where "getObjectHash lib (KConfigMap cc) = Inr sha"
    "planNodes lib (makeLabelsForDruid m) sha m (getNodeSpecsByOrder m) = Ok (m', nodes)"
    "acts = (want lib ConfigMapKind KConfigMap m cc # nodes)
       @ sweeps (GetNamespace m) (makeLabelsForDruid m) (want lib ConfigMapKind KConfigMap m cc # nodes)"
  using assms unfolding clusterPlan_def Let_def bindO_Ok eitherO_Ok by auto

text \<open>The shape of a plan: wanted objects, then one sweep per kind.\<close>

lemma clusterPlan_shape:
  assumes "clusterPlan lib m cc = Ok acts"
  obtains wanted where "acts = wanted @ sweeps (GetNamespace m) (makeLabelsForDruid m) wanted" "list_all isEnsure wanted"
    "want lib ConfigMapKind KConfigMap m cc \<in> set wanted"
proof -
  from assms obtain sha m' nodes where "planNodes lib (makeLabelsForDruid m) sha m (getNodeSpecsByOrder m) = Ok (m', nodes)"
    "acts = (want lib ConfigMapKind KConfigMap m cc # nodes)
       @ sweeps (GetNamespace m) (makeLabelsForDruid m) (want lib ConfigMapKind KConfigMap m cc # nodes)"
    by (rule clusterPlanE)
  then show thesis by (intro that [of "want lib ConfigMapKind KConfigMap m cc # nodes"])
    (auto simp: want_def dest: planNodes_Ensures)
qed

lemma plan_settles:
  assumes "clusterPlan lib m cc = Ok acts" "distinct (wantedKeys acts)"
  shows "settled acts (applyActs acts \<sigma>)"
proof -
  from assms(1) obtain wanted where w: "acts = wanted @ sweeps (GetNamespace m) (makeLabelsForDruid m) wanted"
    "list_all isEnsure wanted"
    by (rule clusterPlan_shape)
  with assms(2) have "settled wanted (applyActs wanted \<sigma>)" by (intro settled_by_Ensures) simp_all
  from settled_by_Sweeps [OF this w(2), of "GetNamespace m" "makeLabelsForDruid m" sweptKinds] show ?thesis
    by (simp add: w(1) sweeps_def)
qed

text \<open>An object that is neither wanted nor selected by the labels of the cluster is left alone.\<close>

lemma sweeps_untouched:
  assumes "\<And>d. \<sigma> kd key = Some d \<Longrightarrow> \<not> (snd key = ns \<and> fmsubset ls (snd d))"
  shows "applyActs (map (\<lambda>k. Sweep k ns ls (N k)) kds) \<sigma> kd key = \<sigma> kd key"
  using assms
proof (induction kds arbitrary: \<sigma>)
  case (Cons k kds)
  have "applyAct (Sweep k ns ls (N k)) \<sigma> kd key = \<sigma> kd key"
    using Cons.prems by (auto simp: unwanted_def split: option.split)
  moreover then have "applyActs (map (\<lambda>k. Sweep k ns ls (N k)) kds) (applyAct (Sweep k ns ls (N k)) \<sigma>) kd key
      = applyAct (Sweep k ns ls (N k)) \<sigma> kd key"
    using Cons.prems by (intro Cons.IH) (simp del: applyAct.simps)
  ultimately show ?case by (simp del: applyAct.simps)
qed simp

lemma plan_untouched:
  assumes "clusterPlan lib m cc = Ok acts" "(kd, key) \<notin> set (wantedKeys acts)"
    and "\<And>d. \<sigma> kd key = Some d \<Longrightarrow> \<not> (snd key = GetNamespace m \<and> fmsubset (makeLabelsForDruid m) (snd d))"
  shows "applyActs acts \<sigma> kd key = \<sigma> kd key"
proof -
  from assms(1) obtain wanted where w: "acts = wanted @ sweeps (GetNamespace m) (makeLabelsForDruid m) wanted"
    "list_all isEnsure wanted"
    by (rule clusterPlan_shape)
  with assms(2) have "applyActs wanted \<sigma> kd key = \<sigma> kd key" by (intro applyActs_Ensure_other) simp_all
  moreover then have "applyActs (sweeps (GetNamespace m) (makeLabelsForDruid m) wanted) (applyActs wanted \<sigma>) kd key
      = applyActs wanted \<sigma> kd key"
    unfolding sweeps_def using assms(3) by (intro sweeps_untouched) simp
  ultimately show ?thesis by (simp add: w(1))
qed

text \<open>What a settled plan says of the store.\<close>

lemma settled_wanted: "settled acts \<sigma> \<Longrightarrow> Ensure kd key d \<in> set acts \<Longrightarrow> \<exists>d'. \<sigma> kd key = Some d' \<and> fst d' = fst d"
  by (fastforce simp: settled_def list_all_iff split: option.splits)

lemma settled_swept:
  assumes "clusterPlan lib m cc = Ok acts" "settled acts \<sigma>" "kd \<in> set sweptKinds" "\<sigma> kd (n, GetNamespace m) = Some d"
    "fmsubset (makeLabelsForDruid m) (snd d)"
  shows "n \<in> ensuredNames kd acts"
proof -
  from assms(1) obtain wanted where w: "acts = wanted @ sweeps (GetNamespace m) (makeLabelsForDruid m) wanted"
    by (rule clusterPlan_shape)
  have "settledAct (Sweep kd (GetNamespace m) (makeLabelsForDruid m) (ensuredNames kd wanted)) \<sigma>"
    using assms(2,3) by (auto simp: w settled_def list_all_iff sweeps_def simp del: settledAct.simps)
  then have "\<not> unwanted (GetNamespace m) (makeLabelsForDruid m) (ensuredNames kd wanted) (n, GetNamespace m) d"
    using assms(4) unfolding settledAct.simps by blast
  then have "n \<in> ensuredNames kd wanted" using assms(5) by (simp add: unwanted_def)
  then show ?thesis by (auto simp: w ensuredNames_def)
qed

end
