(* ===== verification/Deploy_Safety.thy ===== *)
theory Deploy_Safety
  imports Cluster_Deploy
begin

text \<open>
  Trace properties of \<open>deployDruidCluster\<close>: what a run may do after it updated a workload of a
  rolling cluster, when it may go on to the next node group, and what every object it creates
  carries. \<open>ends_run\<close> is the property \<^emph>\<open>after an effect in \<open>P\<close> no further request is made\<close>, with a
  rule per combinator; \<open>typed_client\<close> fixes which client serves which kind of object.
\<close>

section \<open>The client serves every kind under its own type\<close>

definition typed_client :: "'w client \<Rightarrow> bool" where
  "typed_client sdk \<longleftrightarrow>
     apiWrap (clConfigMaps sdk) = KConfigMap \<and> apiWrap (clServices sdk) = KService
   \<and> apiWrap (clStatefulSets sdk) = KStatefulSet \<and> apiWrap (clDeployments sdk) = KDeployment
   \<and> apiWrap (clPods sdk) = KPod \<and> apiWrap (clPVCs sdk) = KPVC \<and> apiWrap (clPDBs sdk) = KPDB
   \<and> apiWrap (clHPAs sdk) = KHPA \<and> apiWrap (clIngresses sdk) = KIngress
   \<and> apiWrap (clDruids sdk) = KDruid"

lemma typed_memClient: "typed_client memClient"
  by (simp add: typed_client_def memClient_def memApi_def)

text \<open>
  A patch of the finalizers leaves the spec and the identity of the resource alone: the object
  the server answers with has the spec, type, name, namespace and UID of the one sent.
\<close>

definition patch_keeps_identity :: "'w client \<Rightarrow> bool" where
  "patch_keeps_identity sdk \<longleftrightarrow> (\<forall>fs m s m'.
     fst (apiPatch (clDruids sdk) (JSONPatchFinalizers fs) m s) = Inr m' \<longrightarrow>
     drSpec m' = drSpec m \<and> asOwner m' = asOwner m \<and> GetNamespace m' = GetNamespace m)"

lemma patch_keeps_identity_memClient: "patch_keeps_identity memClient"
  by (auto simp: patch_keeps_identity_def mem_defs Let_def split: if_splits)

section \<open>Nothing follows\<close>

definition ends_run :: "(effect \<Rightarrow> bool) \<Rightarrow> ('a \<Rightarrow> bool) \<Rightarrow> ('w, 'a) io \<Rightarrow> 'w \<Rightarrow> bool" where
  "ends_run P stop m s \<longleftrightarrow> (\<forall>es1 e es2. effs m s = es1 @ e # es2 \<longrightarrow> P e \<longrightarrow>
     requests es2 = [] \<and> (\<forall>a. res m s = Ok a \<longrightarrow> stop a))"

lemma ends_quiet:
  assumes "only (\<lambda>e. \<not> P e) m"
  shows "ends_run P stop m s"
proof -
  have "\<not> P e" if "effs m s = es1 @ e # es2" for es1 e es2
    using onlyD [OF assms, of e s] that by simp
  then show ?thesis by (auto simp: ends_run_def)
qed

lemma split_append_elem:
  assumes "xs @ ys = es1 @ e # es2"
  shows "(\<exists>us. xs = es1 @ e # us \<and> es2 = us @ ys) \<or> (\<exists>us. ys = us @ e # es2)"
proof -
  from assms obtain us where "xs = es1 @ us \<and> us @ ys = e # es2 \<or> xs @ us = es1 \<and> ys = us @ e # es2"
    by (auto simp: append_eq_append_conv2)
  then show ?thesis by (cases us) auto
qed

lemma ends_bind:
  assumes m: "ends_run P halt m s"
    and f: "\<And>x. res m s = Ok x \<Longrightarrow> ends_run P stop (f x) (post m s)"
    and q: "\<And>x. res m s = Ok x \<Longrightarrow> halt x \<Longrightarrow>
      requests (effs (f x) (post m s)) = [] \<and> (\<forall>a. res (f x) (post m s) = Ok a \<longrightarrow> stop a)"
  shows "ends_run P stop (bindE m f) s"
  unfolding ends_run_def
proof (intro allI impI)
  fix es1 e es2
  assume eq: "effs (bindE m f) s = es1 @ e # es2" and "P e"
  show "requests es2 = [] \<and> (\<forall>a. res (bindE m f) s = Ok a \<longrightarrow> stop a)"
  proof (cases "res m s")
    case (Ok x)
    then have r: "res (bindE m f) s = res (f x) (post m s)" by (simp add: go_run)
    have "effs m s @ effs (f x) (post m s) = es1 @ e # es2" using eq Ok by (simp add: go_run)
    from split_append_elem [OF this] consider (first) us where "effs m s = es1 @ e # us" "es2 = us @ effs (f x) (post m s)"
      | (second) us where "effs (f x) (post m s) = us @ e # es2"
      by blast
    then show ?thesis
    proof cases
      case first
      then have "requests us = []" "halt x" using m \<open>P e\<close> Ok unfolding ends_run_def by blast+
      with first q [OF Ok] show ?thesis by (simp add: r)
    next
      case second
      then show ?thesis using f [OF Ok] \<open>P e\<close> r unfolding ends_run_def by metis
    qed
  next
    case (Err err)
    then show ?thesis using eq m \<open>P e\<close> unfolding ends_run_def by (auto simp: go_run)
  next
    case (Panic p)
    then show ?thesis using eq m \<open>P e\<close> unfolding ends_run_def by (auto simp: go_run)
  qed
qed

lemma ends_bind_quiet:
  assumes "only (\<lambda>e. \<not> P e) m" and "\<And>x. res m s = Ok x \<Longrightarrow> ends_run P stop (f x) (post m s)"
  shows "ends_run P stop (bindE m f) s"
  by (rule ends_bind [where halt = "\<lambda>_. False"]) (auto intro: ends_quiet assms)

fun isReturn :: "('a, 'r) flow \<Rightarrow> bool" where
  "isReturn (Return _) = True"
| "isReturn (Next _) = False"

lemma ends_loopE:
  assumes step: "\<And>a x s. I a \<Longrightarrow> ends_run P isReturn (f a x) s"
    and inv: "\<And>a x s a'. I a \<Longrightarrow> res (f a x) s = Ok (Next a') \<Longrightarrow> I a'"
  shows "I a \<Longrightarrow> \<forall>s. ends_run P isReturn (loopE f a xs) s"
proof (induction xs arbitrary: a)
  case Nil
  show ?case by (simp add: ends_quiet only_ret)
next
  case (Cons y ys)
  let ?g = "\<lambda>r. case r of Next a' \<Rightarrow> loopE f a' ys | Return y \<Rightarrow> ret (Return y)"
  have "ends_run P isReturn (bindE (f a y) ?g) s" for s
  proof (rule ends_bind [where halt = isReturn])
    show "ends_run P isReturn (f a y) s" by (rule step) (rule Cons.prems)
    fix r assume r: "res (f a y) s = Ok r"
    show "ends_run P isReturn (?g r) (post (f a y) s)"
    proof (cases r)
      case (Next a')
      then show ?thesis using Cons.IH [OF inv [OF Cons.prems]] r by simp
    qed (simp add: ends_quiet only_ret)
    show "isReturn r \<Longrightarrow> requests (effs (?g r) (post (f a y) s)) = []
        \<and> (\<forall>b. res (?g r) (post (f a y) s) = Ok b \<longrightarrow> isReturn b)"
      by (cases r) (simp_all add: go_run)
  qed
  then show ?case by simp
qed

section \<open>Updates of workloads\<close>

fun is_rollout :: "effect \<Rightarrow> bool" where
  "is_rollout (UpdateCall (KStatefulSet _)) = True"
| "is_rollout (UpdateCall (KDeployment _)) = True"
| "is_rollout _ = False"

lemma ends_sync:
  "ends_run is_rollout (\<lambda>(st, _, _). st = resourceUpdated)
     (sdkCreateOrUpdateAsNeeded lib api (ret obj) isEqualFn updaterFn drd names) s"
  by (auto simp: ends_run_def sync_unfold Let_def go_run sdk_defs writer_Update_def writer_Create_def emit_defs
      Cons_eq_append_conv split: sum.splits if_splits)

abbreviation quiet :: "('w, 'a) io \<Rightarrow> bool" where
  "quiet m \<equiv> only (\<lambda>e. \<not> is_rollout e) m"

lemma quiet_sync:
  assumes "quiet objFn" "\<And>x. \<not> is_rollout (UpdateCall (apiWrap api x))"
  shows "quiet (sdkCreateOrUpdateAsNeeded lib api objFn isEqualFn updaterFn drd names)"
  using assms by (intro only_sync) simp_all

lemma quiet_common: "quiet (makeCommonConfigMap sdk m ls)"
  by (rule only_mono [OF only_makeCommonConfigMap]) (auto simp: is_get_def)

lemma service_step_run:
  "service_step sdk n lm u (m, names, f) (i, svc) =
     bindE (sdkCreateOrUpdateAsNeeded (clLib sdk) (clServices sdk) (ret (makeService (clLib sdk) svc n m lm u))
              alwaysTrueIsEqualsFn keepClusterIP m (wnServices names)) (\<lambda>r.
       ret (if ndServices n = None
            then updSpec (\<lambda>sp. sp\<lparr>crServices :=
                   map_option (\<lambda>l. l[i := leaveService (snd (snd r)) (l ! i)]) (crServices sp)\<rparr>) m
            else m,
            names\<lparr>wnServices := fst (snd r)\<rparr>, if f = [] then GetName (snd (snd r)) else f))"
  unfolding service_step_def Let_def prod.case
  by (intro arg_cong2 [where f = bindE] refl ext) (simp split: prod.split)

lemma quiet_services:
  assumes "typed_client sdk"
  shows "quiet (node_services sdk n lm u m names)"
proof -
  have "quiet (service_step sdk n lm u acc x)" for acc x
    using assms by (cases acc; cases x) (auto simp: service_step_run typed_client_def intro!: only_intro)
  then show ?thesis unfolding node_services_def Let_def by (intro only_intro)
qed

lemma quiet_extras: "typed_client sdk \<Longrightarrow> quiet (node_extras sdk n ls lm u m names)"
  unfolding node_extras_def by (intro only_intro quiet_sync) (auto simp: typed_client_def)

lemma only_expand [only_intro]:
  assumes "\<And>a b c. Q (EventEff a b c)" "\<And>k n ns. Q (GetCall k n ns)" "\<And>k ns l. Q (ListCall k ns l)"
    "\<And>x. Q (DeleteCall (apiWrap (clStatefulSets sdk) x) PropagationOrphan)"
    "\<And>x p. Q (PatchCall (apiWrap (clPVCs sdk) x) p)"
  shows "only Q (expandStatefulSetVolumes sdk m n u)"
  unfolding expandStatefulSetVolumes_def isVolumeExpansionEnabled_def expansion_step_def scalePVCForSts_def
    scale_step_def resize_step_def Let_def
  using assms
  by (intro only_intro rd_get.only_run rd_list.only_run wr_delete.only_run wr_patch.only_run only_emits emits_emitters) auto

lemma quiet_expand: "quiet (expandStatefulSetVolumes sdk m n u)"
  by (intro only_intro) auto

lemma quiet_gate: "quiet (rollout_gate api u m names)"
  unfolding rollout_gate_def by (intro only_intro) auto

lemma quiet_crash: "quiet (execCheckCrashStatus sdk n m u)"
  by (intro only_intro) auto

lemma quiet_orphan: "typed_client sdk \<Longrightarrow> quiet (deleteOrphanPVC sdk m)"
  by (intro only_deleteOrphanPVC) (auto simp: typed_client_def)

lemma quiet_cleanup: "quiet (cleanup_and_status sdk ls m names)"
  unfolding cleanup_and_status_def by (intro only_intro rd_list.only_run) auto

lemma quiet_finalizers: "typed_client sdk \<Longrightarrow> quiet (executeFinalizers sdk m)"
  by (intro only_executeFinalizers) (auto simp: typed_client_def)

lemma quiet_updateFinalizers: "quiet (updateFinalizers sdk m)"
  unfolding updateFinalizers_def Let_def sdk_defs by (intro only_intro) auto

lemmas quiet_parts = quiet_common quiet_services quiet_extras quiet_expand quiet_gate quiet_crash
  quiet_orphan quiet_cleanup quiet_finalizers quiet_updateFinalizers

section \<open>The custom resource keeps its frame\<close>

lemma service_step_frame:
  "res (service_step sdk n lm u (m, names, f) (i, svc)) s = Ok (m', names', f') \<Longrightarrow> cr_frame m' = cr_frame m"
  by (auto simp: service_step_def go_run Let_def framed split: outcome.splits if_splits)

lemma node_services_frame:
  assumes "res (node_services sdk n lm u m names) s = Ok (m', names', f')"
  shows "cr_frame m' = cr_frame m"
proof -
  have "res (foldE (service_step sdk n lm u) (m0, names0, f0) xs) w = Ok (m', names', f') \<Longrightarrow> cr_frame m' = cr_frame m0"
    for m0 names0 f0 xs w
  proof (induction xs arbitrary: m0 names0 f0 w)
    case (Cons x xs)
    obtain i svc where x: "x = (i, svc)" by (cases x)
    from Cons.prems obtain m1 names1 f1 w1 where
      "res (service_step sdk n lm u (m0, names0, f0) (i, svc)) w = Ok (m1, names1, f1)"
      "res (foldE (service_step sdk n lm u) (m1, names1, f1) xs) w1 = Ok (m', names', f')"
      by (auto simp: x go_run split: outcome.splits prod.splits)
    then show ?case using Cons.IH service_step_frame by metis
  qed (simp add: go_run)
  then show ?thesis using assms by (simp add: node_services_def Let_def)
qed

lemma node_deployment_frame:
  "res (node_deployment sdk n lm u sha f m names) s = Ok (Next (m', names')) \<Longrightarrow> cr_frame m' = cr_frame m"
  by (auto simp: node_deployment_def rollout_gate_def go_run Let_def framed
      split: outcome.splits prod.splits if_splits dest: frame_deployment)

lemma node_statefulset_frame:
  "res (node_statefulset sdk n lm u sha f m names) s = Ok (Next (m', names')) \<Longrightarrow> cr_frame m' = cr_frame m"
  by (auto simp: node_statefulset_def rollout_gate_def go_run Let_def case_prod_beta framed
      split: outcome.splits if_splits flow.splits)

lemma deployNode_frame:
  "res (deployNode sdk ls sha (m, names) elem) s = Ok (Next (m', names')) \<Longrightarrow> cr_frame m' = cr_frame m"
  by (auto simp: deployNode_def go_run Let_def split: outcome.splits prod.splits flow.splits if_splits
      dest!: node_services_frame node_deployment_frame node_statefulset_frame)

section \<open>A workload update is the last request\<close>

lemma rolling_frame: "cr_frame m' = cr_frame m \<Longrightarrow> crRollingDeploy (drSpec m') = crRollingDeploy (drSpec m)"
  by (rule frame_meta)

lemma rolling_share [simp]: "crRollingDeploy (drSpec (shareAnnotations x m)) = crRollingDeploy (drSpec m)"
  by (rule rolling_frame) (rule frame_share)

lemma ends_deployment:
  assumes "crRollingDeploy (drSpec m)"
  shows "ends_run is_rollout isReturn (node_deployment sdk n lm u sha f m names) s"
  unfolding node_deployment_def
proof (rule ends_bind_quiet [OF only_liftO])
  fix x assume x: "res (liftO (makeDeployment n m lm u sha f)) s = Ok x"
  obtain obj m1 where p: "x = (obj, m1)" by (cases x)
  have r: "crRollingDeploy (drSpec m1)"
    using x p assms rolling_frame [OF frame_deployment] by (simp add: go_run)
  show "ends_run is_rollout isReturn (case x of (obj, m) \<Rightarrow>
      bindE (sdkCreateOrUpdateAsNeeded (clLib sdk) (clDeployments sdk) (ret obj)
              deploymentIsEquals noopUpdaterFn m (wnDeployments names)) (\<lambda>(status, deploymentNames, sent).
       let m = shareAnnotations sent m; names = names\<lparr>wnDeployments := deploymentNames\<rparr> in
       if crRollingDeploy (drSpec m) then
         if status = resourceUpdated then ret (Return m)
         else rollout_gate (clDeployments sdk) u m names
       else ret (Next (m, names)))) (post (liftO (makeDeployment n m lm u sha f)) s)"
    unfolding p prod.case
    by (rule ends_bind [OF ends_sync])
       (auto simp: r go_run Let_def intro!: ends_quiet only_intro quiet_gate)
qed

lemma ends_statefulset:
  assumes "crRollingDeploy (drSpec m)"
  shows "ends_run is_rollout isReturn (node_statefulset sdk n lm u sha f m names) s"
proof -
  obtain obj m1 where p: "makeStatefulSet n m lm u sha f = (obj, m1)" by (cases "makeStatefulSet n m lm u sha f")
  have r: "crRollingDeploy (drSpec m1)"
    using assms rolling_frame [OF frame_statefulSet, of n m lm u sha f] p by simp
  show ?thesis
    unfolding node_statefulset_def p Let_def prod.case
  proof (rule ends_bind_quiet)
    show "quiet (if 1 < metaGeneration (objMeta m) \<and> crScalePvcSts (drSpec m)
        then expandStatefulSetVolumes sdk m n u else ret ())"
      by (intro only_if quiet_expand only_ret)
  qed (rule ends_bind [OF ends_sync], auto simp: r go_run intro!: ends_quiet only_intro quiet_gate quiet_crash)
qed

lemma ends_deployNode:
  assumes "typed_client sdk" "crRollingDeploy (drSpec m)"
  shows "ends_run is_rollout isReturn (deployNode sdk ls sha (m, names) elem) s"
  unfolding deployNode_def Let_def prod.case
proof (rule ends_bind_quiet [OF only_liftE], goal_cases)
  case (1 nodeSHA)
  show ?case
  proof (rule ends_bind_quiet, goal_cases)
    case 1
    then show ?case using assms(1) by (intro quiet_sync only_ret) (simp add: typed_client_def)
  next
    case (2 r)
    obtain st cmNames sent where r: "r = (st, cmNames, sent)" by (cases r)
    show ?case
      unfolding r prod.case
    proof (rule ends_bind_quiet [OF quiet_services [OF assms(1)]], goal_cases)
      case (1 svc)
      obtain m' names' fs where svc: "svc = (m', names', fs)" by (cases svc)
      have roll: "crRollingDeploy (drSpec m')"
        using assms(2) rolling_frame [OF node_services_frame [OF 1 [unfolded svc]]] by simp
      show ?case
        unfolding svc prod.case
      proof (rule ends_bind [where halt = isReturn], goal_cases)
        case 1
        show ?case by (auto intro: ends_deployment [OF roll] ends_statefulset [OF roll])
      next
        case (2 x)
        show ?case using assms(1) by (auto intro!: ends_quiet only_intro quiet_extras)
      next
        case (3 x)
        then show ?case by (cases x) (auto simp: go_run)
      qed
    qed
  qed
qed

lemma ends_deployNodes:
  assumes "typed_client sdk" "crRollingDeploy (drSpec m)"
  shows "ends_run is_rollout isReturn (deployNodes sdk ls sha (m, names) elems) s"
proof -
  let ?I = "\<lambda>st :: node_state. crRollingDeploy (drSpec (fst st))"
  have "\<forall>s. ends_run is_rollout isReturn (loopE (deployNode sdk ls sha) (m, names) elems) s"
  proof (rule ends_loopE [where I = ?I])
    show "?I st \<Longrightarrow> ends_run is_rollout isReturn (deployNode sdk ls sha st x) s" for st x s
      using ends_deployNode [OF assms(1), of "fst st" ls sha "snd st" x s] by simp
    show "?I st \<Longrightarrow> res (deployNode sdk ls sha st x) s = Ok (Next st') \<Longrightarrow> ?I st'" for st x s st'
      using rolling_frame [OF deployNode_frame, of sdk ls sha "fst st" "snd st" x s "fst st'" "snd st'"] by simp
  qed (simp add: assms(2))
  then show ?thesis by (simp add: deployNodes_def)
qed

lemma updateFinalizers_keeps:
  assumes "patch_keeps_identity sdk" "res (updateFinalizers sdk m) s = Ok m'"
  shows "drSpec m' = drSpec m \<and> asOwner m' = asOwner m \<and> GetNamespace m' = GetNamespace m"
proof (cases "metaFinalizers (objMeta m) = desiredFinalizers m")
  case True
  then show ?thesis using assms(2) by (simp add: updateFinalizers_def go_run)
next
  case False
  then have "fst (apiPatch (clDruids sdk) (JSONPatchFinalizers (desiredFinalizers m)) (SetFinalizers (desiredFinalizers m) m) s) = Inr m'"
    using assms(2) by (simp add: updateFinalizers_def Let_def go_run sdk_defs split: sum.splits)
  then have "drSpec m' = drSpec (SetFinalizers (desiredFinalizers m) m) \<and> asOwner m' = asOwner (SetFinalizers (desiredFinalizers m) m)
      \<and> GetNamespace m' = GetNamespace (SetFinalizers (desiredFinalizers m) m)"
    using assms(1) unfolding patch_keeps_identity_def by blast
  then show ?thesis by (simp add: SetFinalizers_def asOwner_def)
qed

lemma ends_deployLive:
  assumes "typed_client sdk" "patch_keeps_identity sdk" "crRollingDeploy (drSpec m)"
  shows "ends_run is_rollout (\<lambda>_. True) (deployLive sdk elems ls sha cms m) s"
  unfolding deployLive_def
proof (rule ends_bind_quiet [OF quiet_updateFinalizers], goal_cases)
  case (1 m')
  have roll: "crRollingDeploy (drSpec m')" using updateFinalizers_keeps [OF assms(2) 1] assms(3) by simp
  show ?case
  proof (rule ends_bind [OF ends_deployNodes [OF assms(1) roll]], goal_cases)
    case (1 r)
    show ?case using assms(1) by (auto intro!: ends_quiet only_intro quiet_orphan quiet_cleanup)
  next
    case (2 r)
    then show ?case by (cases r) (auto simp: go_run)
  qed
qed

lemma meta_share [simp]: "objMeta (shareAnnotations x m) = objMeta m"
  by (rule frame_meta) (rule frame_share)

lemma bindE_liftO: "bindE (liftO (Ok x)) f = f x"
  by (rule go_eqI) (simp_all add: go_run)

text \<open>
  The steps of a node group up to the gate of a rolling deployment: its ConfigMap, its services
  and the synchronisation of its workload, and for a StatefulSet the crash check. The result is
  whether the workload was created or updated, and the resource in memory.
\<close>

definition syncWorkload ::
  "'w client \<Rightarrow> druid_node_spec \<Rightarrow> strmap \<Rightarrow> string \<Rightarrow> string \<Rightarrow> string \<Rightarrow> druid \<Rightarrow> wanted
   \<Rightarrow> ('w, druid_node_status \<times> druid) io" where
  "syncWorkload sdk n lm u sha f m names =
     (if ndKind n = ''Deployment'' then
        bindE (liftO (makeDeployment n m lm u sha f)) (\<lambda>(obj, m).
        bindE (sdkCreateOrUpdateAsNeeded (clLib sdk) (clDeployments sdk) (ret obj)
                 deploymentIsEquals noopUpdaterFn m (wnDeployments names)) (\<lambda>(status, _, sent).
          ret (status, shareAnnotations sent m)))
      else
        bindE (if metaGeneration (objMeta m) > 1 \<and> crScalePvcSts (drSpec m)
               then expandStatefulSetVolumes sdk m n u else ret ()) (\<lambda>_.
        let (obj, m) = makeStatefulSet n m lm u sha f in
        bindE (sdkCreateOrUpdateAsNeeded (clLib sdk) (clStatefulSets sdk) (ret obj)
                 statefulSetIsEquals noopUpdaterFn m (wnStatefulSets names)) (\<lambda>(status, _, sent).
        bindE (execCheckCrashStatus sdk n (shareAnnotations sent m) u) (\<lambda>_.
          ret (status, shareAnnotations sent m)))))"

definition beforeGate ::
  "'w client \<Rightarrow> string \<Rightarrow> node_state \<Rightarrow> service_group \<Rightarrow> ('w, druid_node_status \<times> druid) io" where
  "beforeGate sdk commonConfigSHA = (\<lambda>(m, names) elem.
     let n = sgSpec elem; u = makeNodeSpecificUniqueString m (sgKey elem);
         lm = makeLabelsForNodeSpec n m (GetName m) u; nodeConfig = makeConfigMapForNodeSpec n m lm u in
     bindE (liftE (getObjectHash (clLib sdk) (apiWrap (clConfigMaps sdk) nodeConfig))) (\<lambda>nodeConfigSHA.
     bindE (sdkCreateOrUpdateAsNeeded (clLib sdk) (clConfigMaps sdk) (ret nodeConfig)
              alwaysTrueIsEqualsFn noopUpdaterFn m (wnConfigMaps names)) (\<lambda>(_, configMapNames, _).
     bindE (node_services sdk n lm u m (names\<lparr>wnConfigMaps := configMapNames\<rparr>)) (\<lambda>(m, names, firstServiceName).
       syncWorkload sdk (n\<lparr>ndPorts := ndPorts n @
           [\<lparr>cpName = ''druid-port'', cpContainerPort = ndDruidPort n, cpRest = []\<rparr>]\<rparr>) lm u
         (commonConfigSHA @ ''-'' @ nodeConfigSHA) firstServiceName m names))))"

text \<open>What the server answers for a workload that is rolled out.\<close>

definition readsRolledOut :: "'w client \<Rightarrow> druid_node_spec \<Rightarrow> string \<Rightarrow> string \<Rightarrow> 'w \<Rightarrow> bool" where
  "readsRolledOut sdk n u ns w \<longleftrightarrow>
     (if ndKind n = ''Deployment'' then
        \<exists>d c cs. fst (apiGet (clDeployments sdk) u ns w) = Inr d \<and> dsConditions (depStatus d) = c # cs
          \<and> condType c \<noteq> DeploymentReplicaFailure
          \<and> (condType c = DeploymentProgressing \<longrightarrow> condStatus c = ConditionTrue)
          \<and> dsReadyReplicas (depStatus d) = dsReplicas (depStatus d)
      else
        \<exists>x. fst (apiGet (clStatefulSets sdk) u ns w) = Inr x
          \<and> stCurrentRevision (stsStatus x) = stUpdateRevision (stsStatus x)
          \<and> stCurrentReplicas (stsStatus x) = stReadyReplicas (stsStatus x))"

lemma conditions_deployed:
  "deploymentConditions st cs = Inr True \<longleftrightarrow> (\<exists>c cs'. cs = c # cs' \<and> condType c \<noteq> DeploymentReplicaFailure
     \<and> (condType c = DeploymentProgressing \<longrightarrow> condStatus c = ConditionTrue) \<and> dsReadyReplicas st = dsReplicas st)"
  by (cases cs) auto

lemma gate_next:
  assumes "res (rollout_gate api u m names) s = Ok (Next r)" "metaGeneration (objMeta m) > 1"
  shows "res (isObjFullyDeployed api u m) s = Ok True" "effs (rollout_gate api u m names) s = effs (isObjFullyDeployed api u m) s"
  using assms by (auto simp: rollout_gate_def go_run split: outcome.splits if_splits)

lemma rolled_out_deployment:
  assumes "apiWrap (clDeployments sdk) = KDeployment" "ndKind n = ''Deployment''"
    and "res (isObjFullyDeployed (clDeployments sdk) u m) s = Ok True"
  shows "readsRolledOut sdk n u (GetNamespace m) s"
  using assms
  by (auto simp: isObjFullyDeployed_def go_run api_results readsRolledOut_def conditions_deployed
      split: sum.splits outcome.splits)

lemma rolled_out_statefulset:
  assumes "apiWrap (clStatefulSets sdk) = KStatefulSet" "ndKind n \<noteq> ''Deployment''"
    and "res (isObjFullyDeployed (clStatefulSets sdk) u m) s = Ok True"
  shows "readsRolledOut sdk n u (GetNamespace m) s"
  using assms
  by (auto simp: isObjFullyDeployed_def go_run api_results readsRolledOut_def statefulSetDeployed_def
      split: sum.splits outcome.splits if_splits)

text \<open>
  A workload of a rolling cluster is passed only if its synchronisation did not update it and the
  read that follows it, in the state it left, found the workload rolled out.
\<close>

definition passes ::
  "'w client \<Rightarrow> druid_node_spec \<Rightarrow> string \<Rightarrow> string \<Rightarrow> ('w, druid_node_status \<times> druid) io \<Rightarrow> effect list \<Rightarrow> 'w \<Rightarrow> bool" where
  "passes sdk n u ns before es s \<longleftrightarrow> (\<exists>status m' rest gate. res before s = Ok (status, m') \<and> status \<noteq> resourceUpdated
     \<and> es = effs before s @ gate @ rest
     \<and> requests gate = [GetCall (if ndKind n = ''Deployment'' then apiKind (clDeployments sdk) else apiKind (clStatefulSets sdk)) u ns]
     \<and> readsRolledOut sdk n u ns (post before s))"

lemma passes_more: "passes sdk n u ns before es s \<Longrightarrow> passes sdk n u ns before (es @ es') s"
  unfolding passes_def by fastforce

lemma passes_bind:
  "res m s = Ok x \<Longrightarrow> passes sdk n u ns (f x) es (post m s) \<Longrightarrow> passes sdk n u ns (bindE m f) (effs m s @ es) s"
  unfolding passes_def by (fastforce simp: go_run)

lemma passes_read:
  assumes "metaGeneration (objMeta m') > 1" "status \<noteq> resourceUpdated" "res (rollout_gate api u m' names) s = Ok (Next r)"
    and "apiKind api = (if ndKind n = ''Deployment'' then apiKind (clDeployments sdk) else apiKind (clStatefulSets sdk))"
    and "readsRolledOut sdk n u (GetNamespace m') s"
  shows "passes sdk n u (GetNamespace m') (ret (status, m')) (effs (rollout_gate api u m' names) s) s"
  unfolding passes_def gate_next(2) [OF assms(3,1)]
  by (rule exI [of _ status], rule exI [of _ m'], rule exI [of _ "[]"], rule exI [of _ "effs (isObjFullyDeployed api u m') s"])
     (use assms(2,4,5) in \<open>simp add: go_run isObjFullyDeployed_requests\<close>)

lemma passes_gate:
  assumes "typed_client sdk" "metaGeneration (objMeta m') > 1" "status \<noteq> resourceUpdated"
  shows "ndKind n = ''Deployment'' \<Longrightarrow> res (rollout_gate (clDeployments sdk) u m' names) s = Ok (Next r) \<Longrightarrow>
      passes sdk n u (GetNamespace m') (ret (status, m')) (effs (rollout_gate (clDeployments sdk) u m' names) s) s"
    and "ndKind n \<noteq> ''Deployment'' \<Longrightarrow> res (rollout_gate (clStatefulSets sdk) u m' names) s = Ok (Next r) \<Longrightarrow>
      passes sdk n u (GetNamespace m') (ret (status, m')) (effs (rollout_gate (clStatefulSets sdk) u m' names) s) s"
proof -
  have wrap: "apiWrap (clDeployments sdk) = KDeployment" "apiWrap (clStatefulSets sdk) = KStatefulSet"
    using assms(1) by (simp_all add: typed_client_def)
  show "ndKind n = ''Deployment'' \<Longrightarrow> res (rollout_gate (clDeployments sdk) u m' names) s = Ok (Next r) \<Longrightarrow>
      passes sdk n u (GetNamespace m') (ret (status, m')) (effs (rollout_gate (clDeployments sdk) u m' names) s) s"
    using rolled_out_deployment [OF wrap(1) _ gate_next(1) [OF _ assms(2)]] by (intro passes_read [OF assms(2,3)]) simp_all
  show "ndKind n \<noteq> ''Deployment'' \<Longrightarrow> res (rollout_gate (clStatefulSets sdk) u m' names) s = Ok (Next r) \<Longrightarrow>
      passes sdk n u (GetNamespace m') (ret (status, m')) (effs (rollout_gate (clStatefulSets sdk) u m' names) s) s"
    using rolled_out_statefulset [OF wrap(2) _ gate_next(1) [OF _ assms(2)]] by (intro passes_read [OF assms(2,3)]) simp_all
qed

lemma node_deployment_gate:
  assumes "typed_client sdk" "res (node_deployment sdk n lm u sha f m names) s = Ok (Next r)"
    and "crRollingDeploy (drSpec m)" "metaGeneration (objMeta m) > 1" "ndKind n = ''Deployment''"
  shows "passes sdk n u (GetNamespace m) (syncWorkload sdk n lm u sha f m names)
    (effs (node_deployment sdk n lm u sha f m names) s) s"
proof -
  from assms(2) obtain d m1 where d: "makeDeployment n m lm u sha f = Ok (d, m1)"
    by (auto simp: node_deployment_def go_run split: outcome.splits)
  note fr = frame_deployment [OF d]
  let ?sync = "sdkCreateOrUpdateAsNeeded (clLib sdk) (clDeployments sdk) (ret d) deploymentIsEquals noopUpdaterFn m1 (wnDeployments names)"
  from assms(2) d obtain status ns' sent where sync: "res ?sync s = Ok (status, ns', sent)"
    by (auto simp: node_deployment_def go_run split: outcome.splits)
  let ?m = "shareAnnotations sent m1" and ?names = "names\<lparr>wnDeployments := ns'\<rparr>"
  have roll: "crRollingDeploy (drSpec ?m)" using assms(3) rolling_frame [OF fr] by (simp add: rolling_frame [OF frame_share])
  have gate: "res (rollout_gate (clDeployments sdk) u ?m ?names) (post ?sync s) = Ok (Next r)" "status \<noteq> resourceUpdated"
    and effs: "effs (node_deployment sdk n lm u sha f m names) s
      = effs ?sync s @ effs (rollout_gate (clDeployments sdk) u ?m ?names) (post ?sync s)"
    using assms(2) d sync roll by (auto simp: node_deployment_def go_run Let_def split: if_splits)
  have meta: "metaGeneration (objMeta ?m) > 1" "GetNamespace ?m = GetNamespace m"
    using assms(4) frame_meta(1) [OF fr] by simp_all
  note passes_gate(1) [OF assms(1) meta(1) gate(2) assms(5) gate(1), unfolded meta(2)]
  with sync show ?thesis
    unfolding effs syncWorkload_def using assms(5) d
    by (simp add: bindE_liftO) (rule passes_bind, assumption, simp)
qed

lemma node_statefulset_gate:
  assumes "typed_client sdk" "res (node_statefulset sdk n lm u sha f m names) s = Ok (Next r)"
    and "crRollingDeploy (drSpec m)" "metaGeneration (objMeta m) > 1" "ndKind n \<noteq> ''Deployment''"
  shows "passes sdk n u (GetNamespace m) (syncWorkload sdk n lm u sha f m names)
    (effs (node_statefulset sdk n lm u sha f m names) s) s"
proof -
  let ?ex = "if metaGeneration (objMeta m) > 1 \<and> crScalePvcSts (drSpec m) then expandStatefulSetVolumes sdk m n u else ret ()"
  obtain obj m1 where p: "makeStatefulSet n m lm u sha f = (obj, m1)" by (cases "makeStatefulSet n m lm u sha f")
  have fr: "cr_frame m1 = cr_frame m" using frame_statefulSet [of n m lm u sha f] p by simp
  let ?sync = "sdkCreateOrUpdateAsNeeded (clLib sdk) (clStatefulSets sdk) (ret obj) statefulSetIsEquals noopUpdaterFn m1 (wnStatefulSets names)"
  have ex: "res ?ex s = Ok ()" using assms(2) by (auto simp: node_statefulset_def go_run split: outcome.splits)
  let ?s = "post ?ex s"
  from assms(2) p ex obtain status ns' sent where sync: "res ?sync ?s = Ok (status, ns', sent)"
    by (auto simp: node_statefulset_def go_run Let_def split: outcome.splits)
  let ?m = "shareAnnotations sent m1" and ?names = "names\<lparr>wnStatefulSets := ns'\<rparr>"
  let ?crash = "execCheckCrashStatus sdk n ?m u"
  let ?t = "post ?crash (post ?sync ?s)"
  let ?gate = "rollout_gate (clStatefulSets sdk) u ?m ?names"
  have roll: "crRollingDeploy (drSpec ?m)" using assms(3) rolling_frame [OF fr] by (simp add: rolling_frame [OF frame_share])
  obtain r' where gate: "res ?gate ?t = Ok (Next r')" "status \<noteq> resourceUpdated"
    and effs: "effs (node_statefulset sdk n lm u sha f m names) s
      = effs ?ex s @ effs ?sync ?s @ effs ?crash (post ?sync ?s) @ effs ?gate ?t @ effs ?crash (post ?gate ?t)"
    using assms(2) p ex sync roll
    by (auto simp: node_statefulset_def go_run Let_def execCheckCrashStatus_ok split: if_splits outcome.splits flow.splits)
  have meta: "metaGeneration (objMeta ?m) > 1" "GetNamespace ?m = GetNamespace m"
    using assms(4) frame_meta(1) [OF fr] by simp_all
  note passes_gate(2) [OF assms(1) meta(1) gate(2) assms(5) gate(1), unfolded meta(2)]
  then have "passes sdk n u (GetNamespace m) (ret (status, ?m)) (effs ?gate ?t @ effs ?crash (post ?gate ?t)) ?t" by (rule passes_more)
  then have "passes sdk n u (GetNamespace m) (bindE ?crash (\<lambda>_. ret (status, ?m)))
      (effs ?crash (post ?sync ?s) @ effs ?gate ?t @ effs ?crash (post ?gate ?t)) (post ?sync ?s)"
    by (rule passes_bind [OF execCheckCrashStatus_ok])
  then have "passes sdk n u (GetNamespace m)
      (bindE ?sync (\<lambda>(status, _, sent). bindE (execCheckCrashStatus sdk n (shareAnnotations sent m1) u)
        (\<lambda>_. ret (status, shareAnnotations sent m1))))
      (effs ?sync ?s @ effs ?crash (post ?sync ?s) @ effs ?gate ?t @ effs ?crash (post ?gate ?t)) ?s"
    by (intro passes_bind [OF sync]) simp
  then have "passes sdk n u (GetNamespace m) (bindE ?ex (\<lambda>_. let (obj, m) = makeStatefulSet n m lm u sha f in
      bindE (sdkCreateOrUpdateAsNeeded (clLib sdk) (clStatefulSets sdk) (ret obj) statefulSetIsEquals noopUpdaterFn m (wnStatefulSets names))
        (\<lambda>(status, _, sent). bindE (execCheckCrashStatus sdk n (shareAnnotations sent m) u)
        (\<lambda>_. ret (status, shareAnnotations sent m))))) (effs ?ex s @ effs ?sync ?s @ effs ?crash (post ?sync ?s) @ effs ?gate ?t @ effs ?crash (post ?gate ?t)) s"
    by (intro passes_bind [OF ex]) (simp add: p)
  then show ?thesis using assms(5) by (simp add: syncWorkload_def effs)
qed

section \<open>Created objects belong to the custom resource\<close>

fun adopted :: "druid \<Rightarrow> effect \<Rightarrow> bool" where
  "adopted m (CreateCall k) =
     (asOwner m \<in> set (metaOwnerReferences (kobjMeta k)) \<and> metaNamespace (kobjMeta k) = GetNamespace m
      \<and> hasLabels (makeLabelsForDruid m) k)"
| "adopted m _ = True"

text \<open>A built object lies in the namespace of the resource and is found by the labels of the cluster.\<close>

definition belongs :: "druid \<Rightarrow> 'a k8s_object_scheme \<Rightarrow> bool" where
  "belongs m obj \<longleftrightarrow> GetNamespace obj = GetNamespace m \<and> fmsubset (makeLabelsForDruid m) (GetLabels obj)"

lemma fmsubset_add: "fmsubset l r \<Longrightarrow> fmsubset l (x ++\<^sub>f r)"
  by (auto simp: fmsubset_alt_def fmpred_iff fmdomI)

lemma labels_pvc: "GetLabels (makePersistentVolumeClaim pvc n m ls u) = (case metaLabels (objMeta pvc) of None \<Rightarrow> ls | Some l \<Rightarrow> l ++\<^sub>f ls)"
proof -
  have "metaLabels (objMeta (foldl namedLike q l)) = metaLabels (objMeta q)" for q l
    by (induction l arbitrary: q) (simp_all add: namedLike_def copyPvcSpec_def)
  then show ?thesis by (simp add: makePersistentVolumeClaim_def Let_def GetLabels_def)
qed

lemma belongs_built:
  assumes "fmsubset (makeLabelsForDruid m) lm" "GetNamespace m' = GetNamespace m"
  shows "belongs m (makeConfigMapForNodeSpec n m' lm u)" "belongs m (makeService lib svc n m' lm u)"
    "belongs m (fst (makeStatefulSet n m' lm u sha f))" "makeDeployment n m' lm u sha f = Ok (d, m1) \<Longrightarrow> belongs m d"
    "makeIngress n m' lm u = Ok i \<Longrightarrow> belongs m i" "makePodDisruptionBudget n m' lm u = Ok p \<Longrightarrow> belongs m p"
    "makeHorizontalPodAutoscaler n m' lm u = Ok h \<Longrightarrow> belongs m h" "belongs m (makePersistentVolumeClaim pvc n m' lm u)"
  using assms built_deployment [of n m' lm u sha f d m1]
  by (auto simp: belongs_def makeConfigMapForNodeSpec_def makeConfigMap_def Let_def GetLabels_def makeService_def
      makeIngress_def makePodDisruptionBudget_def makeHorizontalPodAutoscaler_def builtMeta_def fmsubset_add
      labels_pvc [unfolded GetLabels_def] split: option.splits)

lemma only_bindE_res:
  "only Q m \<Longrightarrow> (\<And>x s. res m s = Ok x \<Longrightarrow> only Q (f x)) \<Longrightarrow> only Q (bindE m f)"
  by (auto simp: only_def go_run split: outcome.split)

lemma only_foldE_inv:
  assumes "\<And>a x. I a \<Longrightarrow> only Q (f a x)" "\<And>a x s a'. I a \<Longrightarrow> res (f a x) s = Ok a' \<Longrightarrow> I a'"
  shows "I a \<Longrightarrow> only Q (foldE f a xs)"
  by (induction xs arbitrary: a) (auto intro!: only_ret only_bindE_res assms)

lemma only_loopE_inv:
  assumes "\<And>a x. I a \<Longrightarrow> only Q (f a x)" "\<And>a x s a'. I a \<Longrightarrow> res (f a x) s = Ok (Next a') \<Longrightarrow> I a'"
  shows "I a \<Longrightarrow> only Q (loopE f a xs)"
proof (induction xs arbitrary: a)
  case (Cons x xs)
  then show ?case
    using assms by (auto intro!: only_bindE_res only_ret split: flow.split)
qed (simp add: only_ret)

lemma adopted_sync:
  assumes "only (adopted m) objFn" "\<And>obj s. res objFn s = Ok obj \<Longrightarrow> belongs m obj"
    and "\<And>x. kobjMeta (apiWrap api x) = objMeta x" and "asOwner m' = asOwner m"
  shows "only (adopted m) (sdkCreateOrUpdateAsNeeded lib api objFn isEqualFn updaterFn m' names)"
  unfolding sync_unfold Let_def sdk_defs
  using assms
  by (intro only_bindE_res only_intro wr_create.only_run wr_update.only_run only_emits emits_emitters)
     (auto simp: belongs_def hasLabels_def GetLabels_def)

lemma typed_meta:
  assumes "typed_client sdk"
  shows "kobjMeta (apiWrap (clConfigMaps sdk) a) = objMeta a" "kobjMeta (apiWrap (clServices sdk) b) = objMeta b"
    "kobjMeta (apiWrap (clStatefulSets sdk) c) = objMeta c" "kobjMeta (apiWrap (clDeployments sdk) d) = objMeta d"
    "kobjMeta (apiWrap (clPVCs sdk) e) = objMeta e" "kobjMeta (apiWrap (clPDBs sdk) f) = objMeta f"
    "kobjMeta (apiWrap (clHPAs sdk) g) = objMeta g" "kobjMeta (apiWrap (clIngresses sdk) h) = objMeta h"
  using assms by (simp_all add: typed_client_def)

lemma adopted_services:
  assumes "typed_client sdk" "cr_frame m' = cr_frame m" "fmsubset (makeLabelsForDruid m) lm"
  shows "only (adopted m) (node_services sdk n lm u m' names)"
proof -
  let ?I = "\<lambda>acc :: druid \<times> wanted \<times> string. cr_frame (fst acc) = cr_frame m"
  have "only (adopted m) (foldE (service_step sdk n lm u) (m', names, []) xs)" for xs
  proof (rule only_foldE_inv [where I = ?I])
    fix acc x
    assume "?I acc"
    then show "only (adopted m) (service_step sdk n lm u acc x)"
      using frame_meta(1) [of "fst acc" m] frame_owner [of "fst acc" m] assms(1,3)
      by (cases acc; cases x) (auto simp: service_step_run go_run typed_meta intro!: only_bindE only_ret adopted_sync belongs_built)
  next
    fix acc x s acc'
    assume "?I acc" "res (service_step sdk n lm u acc x) s = Ok acc'"
    then show "?I acc'" by (cases acc; cases x; cases acc') (auto dest: service_step_frame)
  qed (simp add: assms(2))
  then show ?thesis by (simp add: node_services_def Let_def)
qed

lemma adopted_other:
  "only (adopted m) (expandStatefulSetVolumes sdk m' n u)"
  "only (adopted m) (execCheckCrashStatus sdk n m' u)"
  "only (adopted m) (cleanup_and_status sdk ls m' names)"
  "only (adopted m) (deleteOrphanPVC sdk m')"
  "only (adopted m) (executeFinalizers sdk m')"
  "only (adopted m) (updateFinalizers sdk m')"
  "only (adopted m) (rollout_gate api u m' names)"
  unfolding cleanup_and_status_def updateFinalizers_def sdk_defs Let_def rollout_gate_def
  by (intro only_intro rd_list.only_run only_deleteOrphanPVC only_executeFinalizers; simp)+

lemma adopted_extras:
  assumes "typed_client sdk" "cr_frame m' = cr_frame m" "fmsubset (makeLabelsForDruid m) lm" "fmsubset (makeLabelsForDruid m) ls"
  shows "only (adopted m) (node_extras sdk n ls lm u m' names)"
  unfolding node_extras_def
  using assms(1) frame_meta(1) [OF assms(2)] frame_owner [OF assms(2)]
    belongs_built [OF assms(3), of m'] belongs_built [OF assms(4), of m']
  by (intro only_intro adopted_sync) (auto simp: go_run typed_meta)

lemma adopted_deployment:
  assumes "typed_client sdk" "cr_frame m' = cr_frame m" "fmsubset (makeLabelsForDruid m) lm"
  shows "only (adopted m) (node_deployment sdk n lm u sha f m' names)"
  unfolding node_deployment_def
proof (rule only_bindE_res [OF only_liftO])
  fix x s assume x: "res (liftO (makeDeployment n m' lm u sha f)) s = Ok x"
  obtain d m1 where p: "x = (d, m1)" by (cases x)
  then have d: "makeDeployment n m' lm u sha f = Ok (d, m1)" using x by (simp add: go_run)
  have fr: "cr_frame m1 = cr_frame m" using frame_deployment [OF d] assms(2) by simp
  have ns: "belongs m d" using belongs_built(4) [OF assms(3) _ d] frame_meta(1) [OF assms(2)] by simp
  have "only (adopted m) (sdkCreateOrUpdateAsNeeded (clLib sdk) (clDeployments sdk) (ret d)
              deploymentIsEquals noopUpdaterFn m1 (wnDeployments names))"
    using assms(1) ns frame_owner [OF fr] by (intro adopted_sync only_ret) (simp_all add: go_run typed_meta)
  then show "only (adopted m) (case x of (obj, m) \<Rightarrow>
      bindE (sdkCreateOrUpdateAsNeeded (clLib sdk) (clDeployments sdk) (ret obj)
              deploymentIsEquals noopUpdaterFn m (wnDeployments names)) (\<lambda>(status, deploymentNames, sent).
       let m = shareAnnotations sent m; names = names\<lparr>wnDeployments := deploymentNames\<rparr> in
       if crRollingDeploy (drSpec m) then
         if status = resourceUpdated then ret (Return m)
         else rollout_gate (clDeployments sdk) u m names
       else ret (Next (m, names))))"
    unfolding p prod.case Let_def by (intro only_bindE only_case_prod only_if only_ret adopted_other)
qed

lemma adopted_statefulset:
  assumes "typed_client sdk" "cr_frame m' = cr_frame m" "fmsubset (makeLabelsForDruid m) lm"
  shows "only (adopted m) (node_statefulset sdk n lm u sha f m' names)"
proof -
  obtain obj m1 where p: "makeStatefulSet n m' lm u sha f = (obj, m1)" by (cases "makeStatefulSet n m' lm u sha f")
  have fr: "cr_frame m1 = cr_frame m" using frame_statefulSet [of n m' lm u sha f] p assms(2) by simp
  have ns: "belongs m obj"
    using belongs_built(3) [OF assms(3), of m' n u sha f] p frame_meta(1) [OF assms(2)] by simp
  have "only (adopted m) (sdkCreateOrUpdateAsNeeded (clLib sdk) (clStatefulSets sdk) (ret obj)
              statefulSetIsEquals noopUpdaterFn m1 (wnStatefulSets names))"
    using assms(1) ns frame_owner [OF fr] by (intro adopted_sync only_ret) (simp_all add: go_run typed_meta)
  then show ?thesis
    unfolding node_statefulset_def p Let_def prod.case
    by (intro only_bindE only_case_prod only_case_flow only_if only_ret adopted_other)
qed

lemma node_labels:
  "cr_frame m' = cr_frame m \<Longrightarrow> fmsubset (makeLabelsForDruid m) (makeLabelsForNodeSpec n m' (GetName m') u)"
  using frame_labels [of m' m] frame_meta(1) [of m' m] druid_labels_subset [of m n u] by simp

lemma adopted_deployNode:
  assumes "typed_client sdk" "cr_frame m' = cr_frame m" and ls: "fmsubset (makeLabelsForDruid m) ls"
  shows "only (adopted m) (deployNode sdk ls sha (m', names) elem)"
  unfolding deployNode_def Let_def prod.case
proof (intro only_bindE [OF only_liftE], rule only_bindE, goal_cases)
  case (1 x)
  show ?case
    using assms(1) frame_meta(1) [OF assms(2)] frame_owner [OF assms(2)] belongs_built(1) [OF node_labels [OF assms(2)], of m']
    by (intro adopted_sync only_ret) (auto simp: go_run typed_meta)
next
  case (2 x r)
  obtain st cms sent where r: "r = (st, cms, sent)" by (cases r)
  show ?case
    unfolding r prod.case
  proof (rule only_bindE_res [OF adopted_services [OF assms(1,2) node_labels [OF assms(2)]]], goal_cases)
    case (1 svc w)
    obtain m1 names1 f1 where svc: "svc = (m1, names1, f1)" by (cases svc)
    have fr: "cr_frame m1 = cr_frame m" using node_services_frame [OF 1 [unfolded svc]] assms(2) by simp
    show ?case
      unfolding svc prod.case
    proof (rule only_bindE_res, goal_cases)
      case 1
      show ?case by (intro only_if adopted_deployment adopted_statefulset assms(1) fr node_labels [OF assms(2)])
    next
      case (2 x w')
      show ?case
      proof (cases x)
        case (Next st')
        obtain m2 names2 where st': "st' = (m2, names2)" by (cases st')
        have "cr_frame m2 = cr_frame m1"
          using 2 unfolding Next st' by (auto split: if_splits dest: node_deployment_frame node_statefulset_frame)
        then show ?thesis
          unfolding Next st' using fr assms(1) ls node_labels [OF assms(2)] by (auto intro!: only_bindE only_ret adopted_extras)
      qed (simp add: only_ret)
    qed
  qed
qed

lemma adopted_deployNodes:
  assumes "typed_client sdk" "cr_frame m' = cr_frame m" "fmsubset (makeLabelsForDruid m) ls"
  shows "only (adopted m) (deployNodes sdk ls sha (m', names) elems)"
  unfolding deployNodes_def
proof (rule only_loopE_inv [where I = "\<lambda>st :: node_state. cr_frame (fst st) = cr_frame m"])
  fix st :: node_state and x
  assume "cr_frame (fst st) = cr_frame m"
  then show "only (adopted m) (deployNode sdk ls sha st x)"
    using adopted_deployNode [OF assms(1) _ assms(3), of "fst st" sha "snd st" x] by simp
next
  fix st st' :: node_state and x s
  assume "cr_frame (fst st) = cr_frame m" "res (deployNode sdk ls sha st x) s = Ok (Next st')"
  then show "cr_frame (fst st') = cr_frame m"
    using deployNode_frame [of sdk ls sha "fst st" "snd st" x s "fst st'" "snd st'"] by simp
qed (simp add: assms(2))

lemma adopted_cong: "asOwner m' = asOwner m \<Longrightarrow> GetNamespace m' = GetNamespace m \<Longrightarrow> adopted m' e = adopted m e"
  by (cases e) (simp_all add: makeLabelsForDruid_def asOwner_def)

section \<open>Properties\<close>

lemma ends_deploy:
  assumes "typed_client sdk" and "patch_keeps_identity sdk" and "crRollingDeploy (drSpec m)"
  shows "ends_run is_rollout (\<lambda>_. True) (deployDruidCluster sdk m) s"
proof (cases "verifyDruidSpec m")
  case (Some err)
  then show ?thesis
    by (auto simp: deployDruidCluster_def intro!: ends_quiet only_intro only_emits emits_emitters)
next
  case None
  have rest: "ends_run is_rollout (\<lambda>_. True) (if b then executeFinalizers sdk m else deployLive sdk elems ls sha cms m) w"
    for b elems ls sha cms w
    using quiet_finalizers [OF assms(1)] ends_deployLive [OF assms(1-3)] by (simp add: ends_quiet)
  have cm: "\<not> is_rollout (UpdateCall (apiWrap (clConfigMaps sdk) x))" for x
    using assms(1) by (simp add: typed_client_def)
  show ?thesis
    unfolding deployDruidCluster_def None option.case Let_def
    by (intro ends_bind_quiet quiet_common only_liftE quiet_sync cm) (auto simp: rest)
qed

text \<open>
  In a cluster with rolling deployment, the update of a StatefulSet or a
  Deployment is the last request of the run: no other object of any node group is created,
  updated or deleted, and no status is written, before the next reconciliation has seen the
  workload roll out. In particular at most one workload is updated per run. The two hypotheses on
  the client say that each kind is served under its own type and that patching the finalizers
  leaves the spec alone.
\<close>

theorem rolling_update_is_last_request:
  assumes "typed_client sdk" and "patch_keeps_identity sdk" and "crRollingDeploy (drSpec m)"
    and "effs (deployDruidCluster sdk m) s = es1 @ UpdateCall k # es2"
    and "(\<exists>x. k = KStatefulSet x) \<or> (\<exists>x. k = KDeployment x)"
  shows "requests es2 = []"
proof -
  have "is_rollout (UpdateCall k)" using assms(5) by auto
  with ends_deploy [OF assms(1-3)] assms(4) show ?thesis unfolding ends_run_def by blast
qed

text \<open>
  C8 (safety). The loop over the node groups of a rolling cluster goes on to the next group, after
  the first generation of the resource, only if this run did not update the workload of this
  group and the request made right after the workload was synchronised (and, for a StatefulSet,
  after the crash check) is a read of the workload that finds it rolled out, in the state that
  the steps of this run before it left: a StatefulSet whose current revision is the update
  revision and whose current replicas are all ready, a Deployment whose first condition is no
  replica failure and no stalled progress and whose replicas are all ready.
\<close>

theorem next_group_only_after_rollout:
  assumes "typed_client sdk"
    and "res (deployNode sdk ls sha (m, names) elem) s = Ok (Next st)"
    and "crRollingDeploy (drSpec m)" and "metaGeneration (objMeta m) > 1"
    and "u = makeNodeSpecificUniqueString m (sgKey elem)"
  shows "\<exists>status m' gate rest. res (beforeGate sdk sha (m, names) elem) s = Ok (status, m') \<and> status \<noteq> resourceUpdated
    \<and> effs (deployNode sdk ls sha (m, names) elem) s = effs (beforeGate sdk sha (m, names) elem) s @ gate @ rest
    \<and> requests gate = [GetCall (if ndKind (sgSpec elem) = ''Deployment'' then apiKind (clDeployments sdk)
          else apiKind (clStatefulSets sdk)) u (GetNamespace m)]
    \<and> readsRolledOut sdk (sgSpec elem) u (GetNamespace m) (post (beforeGate sdk sha (m, names) elem) s)"
proof -
  let ?n = "sgSpec elem" and ?ns = "GetNamespace m"
  let ?n' = "?n\<lparr>ndPorts := ndPorts ?n @ [\<lparr>cpName = ''druid-port'', cpContainerPort = ndDruidPort ?n, cpRest = []\<rparr>]\<rparr>"
  let ?lm = "makeLabelsForNodeSpec ?n m (GetName m) u"
  let ?cm = "makeConfigMapForNodeSpec ?n m ?lm u"
  let ?hash = "liftE (getObjectHash (clLib sdk) (apiWrap (clConfigMaps sdk) ?cm)) :: (_, string) io"
  let ?sync = "sdkCreateOrUpdateAsNeeded (clLib sdk) (clConfigMaps sdk) (ret ?cm) alwaysTrueIsEqualsFn noopUpdaterFn m (wnConfigMaps names)"
  let ?wl = "\<lambda>sha' f m names. if ndKind ?n' = ''Deployment'' then node_deployment sdk ?n' ?lm u sha' f m names
      else node_statefulset sdk ?n' ?lm u sha' f m names"
  let ?rest = "\<lambda>r. case r of Return m \<Rightarrow> ret (Return m) | Next (m, names) \<Rightarrow>
      bindE (node_extras sdk ?n' ls ?lm u m names) (\<lambda>names. ret (Next (m, names)))"
  let ?svcs = "\<lambda>ns. node_services sdk ?n ?lm u m (names\<lparr>wnConfigMaps := ns\<rparr>)"
  have run: "deployNode sdk ls sha (m, names) elem = bindE ?hash (\<lambda>h. bindE ?sync (\<lambda>(_, ns, _). bindE (?svcs ns) (\<lambda>(m, names, f).
      bindE (?wl (sha @ ''-'' @ h) f m names) ?rest)))"
    unfolding deployNode_def Let_def prod.case assms(5) by simp
  obtain h where h: "res ?hash s = Ok h" using assms(2) unfolding run by (auto simp: go_run split: outcome.splits)
  obtain a ns b where sync: "res ?sync (post ?hash s) = Ok (a, ns, b)"
    using assms(2) h unfolding run by (auto simp: go_run split: outcome.splits)
  let ?s1 = "post ?sync (post ?hash s)"
  obtain m1 names1 f where svcs: "res (?svcs ns) ?s1 = Ok (m1, names1, f)"
    using assms(2) h sync unfolding run by (auto simp: go_run split: outcome.splits)
  let ?s2 = "post (?svcs ns) ?s1"
  obtain r where wl: "res (?wl (sha @ ''-'' @ h) f m1 names1) ?s2 = Ok (Next r)"
    and effs: "\<exists>rest. effs (deployNode sdk ls sha (m, names) elem) s
      = effs ?hash s @ effs ?sync (post ?hash s) @ effs (?svcs ns) ?s1 @ effs (?wl (sha @ ''-'' @ h) f m1 names1) ?s2 @ rest"
    using assms(2) h sync svcs unfolding run by (simp add: go_run split: outcome.splits flow.splits if_splits)
  have fr: "cr_frame m1 = cr_frame m" by (rule node_services_frame [OF svcs])
  have facts: "crRollingDeploy (drSpec m1)" "metaGeneration (objMeta m1) > 1" "GetNamespace m1 = ?ns"
    using assms(3,4) frame_meta [OF fr] by simp_all
  have "passes sdk ?n' u ?ns (syncWorkload sdk ?n' ?lm u (sha @ ''-'' @ h) f m1 names1) (effs (?wl (sha @ ''-'' @ h) f m1 names1) ?s2) ?s2"
    using node_deployment_gate [OF assms(1) _ facts(1,2), of ?n' ?lm u "sha @ ''-'' @ h" f names1 ?s2 r]
      node_statefulset_gate [OF assms(1) _ facts(1,2), of ?n' ?lm u "sha @ ''-'' @ h" f names1 ?s2 r] wl facts(3)
    by (simp split: if_splits)
  note wlp = passes_more [OF this]
  obtain rest where rest: "effs (deployNode sdk ls sha (m, names) elem) s
      = effs ?hash s @ effs ?sync (post ?hash s) @ effs (?svcs ns) ?s1 @ effs (?wl (sha @ ''-'' @ h) f m1 names1) ?s2 @ rest"
    using effs ..
  have before: "beforeGate sdk sha (m, names) elem = bindE ?hash (\<lambda>h. bindE ?sync (\<lambda>(_, ns, _). bindE (?svcs ns)
      (\<lambda>(m, names, f). syncWorkload sdk ?n' ?lm u (sha @ ''-'' @ h) f m names)))"
    unfolding beforeGate_def Let_def prod.case assms(5) by simp
  have "passes sdk ?n' u ?ns (beforeGate sdk sha (m, names) elem) (effs (deployNode sdk ls sha (m, names) elem) s) s"
    unfolding before rest
    by (rule passes_bind [OF h], rule passes_bind [OF sync], unfold prod.case, rule passes_bind [OF svcs], unfold prod.case, rule wlp)
  moreover have "ndKind ?n' = ndKind ?n" "readsRolledOut sdk ?n' u ?ns w = readsRolledOut sdk ?n u ?ns w" for w
    by (simp_all add: readsRolledOut_def)
  ultimately show ?thesis unfolding passes_def by (metis (no_types, lifting))
qed

text \<open>
  Every object that a deployment creates, in any branch of the run, is in the namespace of the
  custom resource, carries an owner reference to it and is selected by the labels of the cluster.
\<close>

lemma only_adopted:
  assumes "typed_client sdk" and "patch_keeps_identity sdk"
  shows "only (adopted m) (deployDruidCluster sdk m)"
proof -
  let ?ls = "makeLabelsForDruid m"
  have live: "only (adopted m) (deployLive sdk elems ?ls sha cms m)" for elems sha cms
    unfolding deployLive_def
  proof (rule only_bindE_res [OF adopted_other(6)], goal_cases)
    case (1 m' w)
    note keeps = updateFinalizers_keeps [OF assms(2) 1]
    then have "makeLabelsForDruid m' = ?ls" by (simp add: makeLabelsForDruid_def asOwner_def)
    then have "only (adopted m') (deployNodes sdk ?ls sha (m', noneWanted\<lparr>wnConfigMaps := cms\<rparr>) elems)"
      by (intro adopted_deployNodes [OF assms(1) refl]) (simp add: fmsubset_alt_def fmpred_iff)
    moreover have "adopted m' = adopted m"
      using keeps adopted_cong [of m' m] by blast
    ultimately show ?case
      by (auto intro!: only_bindE only_ret adopted_other split: flow.split)
  qed
  have common: "only (adopted m) (makeCommonConfigMap sdk m ls)" for ls
    by (rule only_mono [OF only_makeCommonConfigMap]) (auto simp: is_get_def)
  have ns: "res (makeCommonConfigMap sdk m ?ls) s = Ok cm \<Longrightarrow> belongs m cm" for s cm
    by (auto simp: makeCommonConfigMap_def go_run Let_def makeConfigMap_def belongs_def GetLabels_def fmsubset_alt_def fmpred_iff
        split: outcome.splits)
  show ?thesis
    unfolding deployDruidCluster_def Let_def
    using assms(1) ns
    by (intro only_case_option only_bindE only_ret only_emits emits_emitters common only_liftE only_case_prod only_if
        adopted_other live adopted_sync) (auto simp: typed_meta)
qed

text \<open>
  C27 (error). A custom resource with an invalid spec changes nothing: whatever the cluster looks
  like, the only effect is one warning event and the call succeeds. This also holds for a
  resource that is being deleted: its finalizer is not run.
\<close>

theorem invalid_spec_only_event:
  assumes "\<not> valid_spec m"
  shows "\<exists>msg. effs (deployDruidCluster sdk m) s = [EventEff EventTypeWarning ''DruidOperatorInvalidSpec'' msg]
    \<and> res (deployDruidCluster sdk m) s = Ok m \<and> post (deployDruidCluster sdk m) s = s"
proof -
  obtain err where "verifyDruidSpec m = Some err" using assms verifyDruidSpec_None by fastforce
  then show ?thesis by (simp add: deployDruidCluster_def go_run emit_defs)
qed

text \<open>The writes of a run for a resource that is being deleted.\<close>

fun teardown_write :: "druid \<Rightarrow> effect \<Rightarrow> bool" where
  "teardown_write m (CreateCall k) = (\<exists>c. k = KConfigMap c \<and> GetName c = GetName m @ ''-druid-common-config'' \<and> GetNamespace c = GetNamespace m)"
| "teardown_write m (UpdateCall k) =
     ((\<exists>c. k = KConfigMap c \<and> GetName c = GetName m @ ''-druid-common-config'' \<and> GetNamespace c = GetNamespace m) \<or> (\<exists>fs. k = KDruid (SetFinalizers fs m)))"
| "teardown_write m (DeleteCall k opt) = ((\<exists>x. k = KStatefulSet x) \<or> (\<exists>x. k = KPVC x))"
| "teardown_write m (PatchCall k p) = False"
| "teardown_write m (StatusPatchCall k p) = False"
| "teardown_write m _ = True"

lemma common_named:
  "res (makeCommonConfigMap sdk m ls) s = Ok cc \<Longrightarrow>
   GetName cc = GetName m @ ''-druid-common-config'' \<and> GetNamespace cc = GetNamespace m"
  by (auto simp: makeCommonConfigMap_def go_run Let_def makeConfigMap_def split: outcome.splits)

lemma teardown_sync:
  assumes "typed_client sdk"
  shows "only (teardown_write m) (sdkCreateOrUpdateAsNeeded (clLib sdk) (clConfigMaps sdk)
    (makeCommonConfigMap sdk m ls) alwaysTrueIsEqualsFn noopUpdaterFn m names)"
proof -
  have common: "only (teardown_write m) (makeCommonConfigMap sdk m ls)"
    by (rule only_mono [OF only_makeCommonConfigMap]) (auto simp: is_get_def)
  show ?thesis
    unfolding sync_unfold Let_def sdk_defs
    using assms common
    by (intro only_bindE_res only_intro wr_create.only_run wr_update.only_run only_emits emits_emitters)
       (auto simp: typed_client_def noopUpdaterFn_def SetResourceVersion_def dest!: common_named)
qed

text \<open>
  C15 (safety). For a resource that is being deleted no object of a node group is created or
  updated, whatever the server answers: the only ConfigMap that is created or updated is the
  common one of this resource, the only other object that is updated is this resource, with
  another list of finalizers and otherwise unchanged, deletions are of StatefulSets and claims,
  and nothing is patched.
\<close>

theorem deletion_creates_no_workload:
  assumes "typed_client sdk" and "metaDeletionTimestamp (objMeta m) \<noteq> None"
    and "e \<in> set (effs (deployDruidCluster sdk m) s)"
  shows "teardown_write m e"
proof -
  have common: "only (teardown_write m) (makeCommonConfigMap sdk m ls)" for ls
    by (rule only_mono [OF only_makeCommonConfigMap]) (auto simp: is_get_def)
  have "only (teardown_write m) (deployDruidCluster sdk m)"
    unfolding deployDruidCluster_def Let_def
    using assms(1,2)
    by (intro only_case_option only_bindE only_ret only_emits emits_emitters common only_liftE only_case_prod only_if
        only_executeFinalizers teardown_sync) (auto simp: typed_client_def)
  from onlyD [OF this assms(3)] show ?thesis .
qed

lemma podConditions_fold:
  "foldl (podConditionStatus po) st cs =
     (if \<exists>c \<in> set cs. condType c = PodReady \<and> condStatus c = ConditionFalse
      then newDruidNodeTypeStatus ConditionTrue DruidNodeErrorState (GetName po)
        (Some (GoErr (condReason (last (filter (\<lambda>c. condType c = PodReady \<and> condStatus c = ConditionFalse) cs)))))
      else st)"
  by (induction cs rule: rev_induct) (auto simp: podConditionStatus_def)

definition unready :: "pod \<Rightarrow> bool" where
  "unready po \<longleftrightarrow> (\<exists>c \<in> set (podConditions po). condType c = PodReady \<and> condStatus c = ConditionFalse)"

text \<open>
  The node status the operator reports: ready for all nodes exactly when no
  listed pod has a false ready condition; otherwise an error state that names the last such pod.
\<close>

theorem reported_node_status:
  "dnConditionType (nodeStatusOfPods pods) = (if list_ex unready pods then DruidNodeErrorState else DruidClusterReady)
   \<and> dnDruidNode (nodeStatusOfPods pods) = (if list_ex unready pods then GetName (last (filter unready pods)) else ''All'')"
proof (induction pods rule: rev_induct)
  case Nil
  show ?case by (simp add: nodeStatusOfPods_def newDruidNodeTypeStatus_def)
next
  case (snoc po pods)
  have "nodeStatusOfPods (pods @ [po]) = foldl (podConditionStatus po) (nodeStatusOfPods pods) (podConditions po)"
    by (simp add: nodeStatusOfPods_def)
  then show ?case
    unfolding podConditions_fold unready_def [symmetric]
    using snoc by (cases "unready po") (simp_all add: newDruidNodeTypeStatus_def)
qed

section \<open>Witnesses\<close>

lemma rolling_valid: "verifyDruidSpec rollingDruid = None"
  by (simp add: verifyDruidSpec_None valid_spec_def rollingDruid_def historicalNode_def sampleDruid_def zeroSpec_def
   zeroNode_def getAllAdditionalContainers_def isLowerAlnum_def MatchString_key_iff)

lemma rolling_groups: "getNodeSpecsByOrder rollingDruid = [\<lparr>sgKey = ''h'', sgSpec = historicalNode\<rparr>]"
  by (simp add: getNodeSpecsByOrder_concat rollingDruid_def historicalNode_def druidServicesOrder_def asGroup_def)

lemma mem_hash: "hashOf (prepared memLib api drd obj) = metaName (kobjMeta (apiWrap api (addOwnerRefToObject (asOwner drd) obj)))"
  by (simp add: hashOf_def prepared_def addHashToObject_def getObjectHash_def memLib_def mapGet_def)


lemma stub_fields [simp]:
  "clConfigMaps (stubClient x) = stubApi ConfigMapKind KConfigMap None"
  "clStatefulSets (stubClient x) = stubApi StatefulSetKind KStatefulSet (Some x)"
  "clDruids (stubClient x) = stubApi DruidKind KDruid (Some rollingDruid)"
  "clPods (stubClient x) = stubApi PodKind KPod None"
  "clLib (stubClient x) = memLib"
  "apiWrap (stubApi kd wr st) = wr"
  by (simp_all add: stubClient_def stubApi_def)

lemma stub_create:
  "res (sdkCreateOrUpdateAsNeeded lib (stubApi kd wr None) (ret obj) eq up drd names) s =
     Ok (resourceCreated, insert (GetName obj) names, prepared lib (stubApi kd wr None) drd obj)"
  by (simp add: sync_unfold go_run sdk_defs api_results stubApi_def Let_def)

lemma stub_update:
  assumes "hashOf (prepared lib (stubApi kd wr (Some x)) drd obj) \<noteq> hashOf x" "\<And>y. is_rollout (UpdateCall (wr y))"
  shows "list_ex is_rollout (effs (sdkCreateOrUpdateAsNeeded lib (stubApi kd wr (Some x)) (ret obj) eq up drd names) s)"
  using assms
  by (simp add: sync_unfold go_run sdk_defs api_results stubApi_def Let_def writer_Update_def)

lemma ex_bind:
  "list_ex P (effs (bindE m f) s) \<longleftrightarrow> list_ex P (effs m s)
     \<or> (\<exists>x. res m s = Ok x \<and> list_ex P (effs (f x) (post m s)))"
  by (simp add: go_run split: outcome.split)

lemma stub_common: "makeCommonConfigMap sdk rollingDruid ls = ret (makeConfigMap ''c-druid-common-config'' ''ns'' ls
    (fmupd ''common.runtime.properties'' [] fmempty))"
  by (simp add: makeCommonConfigMap_def commonProperties_def addExtraCommonConfig_def rollingDruid_def sample_defs liftE_def
     Let_def putIf_def)

lemma rolling_facts [simp]: "metaDeletionTimestamp (objMeta rollingDruid) = None" "crRollingDeploy (drSpec rollingDruid)"
  "crServices (drSpec rollingDruid) = None" "crScalePvcSts (drSpec rollingDruid) = False"
  "GetName rollingDruid = ''c''" "crWorkloadAnnotations (drSpec rollingDruid) = None"
  by (simp_all add: rollingDruid_def sample_defs)

lemma node_facts [simp]: "ndServices historicalNode = None" "ndKind historicalNode = ''StatefulSet''"
  by (simp_all add: historicalNode_def zeroNode_def)

lemma liftE_hash [simp]: "liftE (getObjectHash memLib k) = ret (metaName (kobjMeta k))"
  by (simp add: getObjectHash_def memLib_def liftE_def)



lemma sts_hash: "hashOf (sampleSts n) = []"
  by (simp add: hashOf_def GetAnnotations_def sample_defs mapGet_def)

lemma sts_update:
  assumes "u \<noteq> []" "crScalePvcSts (drSpec m) = False"
  shows "list_ex is_rollout (effs (node_statefulset (stubClient (sampleSts x)) n lm u sha f m names) s)"
proof -
  obtain obj m1 where p: "makeStatefulSet n m lm u sha f = (obj, m1)" by (cases "makeStatefulSet n m lm u sha f")
  have "hashOf (prepared memLib (stubApi StatefulSetKind KStatefulSet (Some (sampleSts x))) m1 obj) \<noteq> hashOf (sampleSts x)"
    using assms(1) built_statefulSet [of n m lm u sha f] p
    by (simp add: mem_hash sts_hash addOwnerRefToObject_def SetOwnerReferences_def)
  from stub_update [OF this] show ?thesis
    using assms(2) by (simp add: node_statefulset_def p ex_bind)
qed

lemma node_update:
  assumes "ndServices n = None" "crServices (drSpec m) = None" "ndKind n = ''StatefulSet''" "crScalePvcSts (drSpec m) = False"
  shows "list_ex is_rollout (effs (deployNode (stubClient (sampleSts x)) ls sha (m, names) \<lparr>sgKey = k, sgSpec = n\<rparr>) s)"
  using assms
  by (simp add: deployNode_def Let_def ex_bind stub_create node_services_def go_run sts_update makeNodeSpecificUniqueString_def)

lemma deploy_update:
  "list_ex is_rollout (effs (deployDruidCluster (stubClient (sampleSts x)) rollingDruid) ())"
proof -
  let ?sdk = "stubClient (sampleSts x)"
  have fin: "res (updateFinalizers ?sdk rollingDruid) s = Ok (SetFinalizers [deletePVCFinalizerName] rollingDruid)" for s
    by (simp add: updateFinalizers_def Let_def go_run sdk_defs stubApi_def desiredFinalizers_eq) (simp add: rollingDruid_def sample_defs)
  have "list_ex is_rollout (effs (deployLive ?sdk [\<lparr>sgKey = ''h'', sgSpec = historicalNode\<rparr>] ls sha cms rollingDruid) s)" for ls sha cms s
    by (simp add: deployLive_def deployNodes_def ex_bind fin node_update SetFinalizers_def)
  then show ?thesis
    by (simp add: deployDruidCluster_def rolling_valid rolling_groups stub_common ex_bind stub_create Let_def)
qed

lemma typed_stub: "typed_client (stubClient x)" "patch_keeps_identity (stubClient x)"
  by (simp_all add: typed_client_def patch_keeps_identity_def stubClient_def stubApi_def)

theorem rolling_update_witness:
  "\<exists>es1 k es2. effs (deployDruidCluster (stubClient (sampleSts ''druid-c-h'')) rollingDruid) () = es1 @ UpdateCall k # es2
     \<and> requests es2 = []"
proof -
  obtain e where e: "e \<in> set (effs (deployDruidCluster (stubClient (sampleSts ''druid-c-h'')) rollingDruid) ())" "is_rollout e"
    using deploy_update [of "''druid-c-h''"] by (auto simp: list_ex_iff)
  from e(2) obtain k where k: "e = UpdateCall k" "(\<exists>x. k = KStatefulSet x) \<or> (\<exists>x. k = KDeployment x)"
    by (cases e rule: is_rollout.cases) auto
  from split_list [OF e(1)] k(1) obtain es1 es2 where
    es: "effs (deployDruidCluster (stubClient (sampleSts ''druid-c-h'')) rollingDruid) () = es1 @ UpdateCall k # es2" by auto
  show ?thesis
    using es rolling_update_is_last_request [OF typed_stub _ es k(2)] by auto
qed

lemma stub_creates:
  "list_ex (\<lambda>e. \<exists>k. e = CreateCall k)
     (effs (sdkCreateOrUpdateAsNeeded lib (stubApi kd wr None) (ret obj) eq up drd names) s)"
  by (simp add: sync_unfold go_run sdk_defs api_results stubApi_def Let_def writer_Create_def)

lemma deploy_creates:
  "list_ex (\<lambda>e. \<exists>k. e = CreateCall k) (effs (deployDruidCluster (stubClient (sampleSts x)) rollingDruid) ())"
  by (simp add: deployDruidCluster_def rolling_valid rolling_groups stub_common ex_bind stub_create stub_creates Let_def)

theorem invalid_spec_witness:
  "\<exists>msg. effs (deployDruidCluster memClient (zeroDruid\<lparr>drSpec := zeroSpec\<lparr>crNodes := [(''h'', zeroNode)]\<rparr>\<rparr>)) emptyWorld
       = [EventEff EventTypeWarning ''DruidOperatorInvalidSpec'' msg]
    \<and> res (deployDruidCluster memClient (zeroDruid\<lparr>drSpec := zeroSpec\<lparr>crNodes := [(''h'', zeroNode)]\<rparr>\<rparr>)) emptyWorld
       = Ok (zeroDruid\<lparr>drSpec := zeroSpec\<lparr>crNodes := [(''h'', zeroNode)]\<rparr>\<rparr>)
    \<and> post (deployDruidCluster memClient (zeroDruid\<lparr>drSpec := zeroSpec\<lparr>crNodes := [(''h'', zeroNode)]\<rparr>\<rparr>)) emptyWorld = emptyWorld"
  by (rule invalid_spec_only_event) (simp add: valid_spec_def zeroDruid_def zeroSpec_def zeroNode_def)

definition deletedDruid :: druid where
  "deletedDruid = rollingDruid\<lparr>objMeta := (objMeta rollingDruid)\<lparr>metaDeletionTimestamp := Some ''now''\<rparr>\<rparr>"

theorem deletion_creates_no_workload_witness:
  "list_all (teardown_write deletedDruid) (effs (deployDruidCluster (stubClient (sampleSts ''x'')) deletedDruid) ())"
  using deletion_creates_no_workload [OF typed_stub(1), of deletedDruid]
  by (simp add: list_all_iff deletedDruid_def)

text \<open>A StatefulSet that carries the hash of the wanted one and is rolled out.\<close>

definition settledSts :: statefulset where
  "settledSts = SetAnnotations (fmupd druidOpResourceHash ''druid-c-h'' fmempty) (sampleSts ''druid-c-h'')"

lemma settled_hash: "hashOf settledSts = ''druid-c-h''"
  by (simp add: settledSts_def hashOf_def mapGet_def)

lemma stub_same:
  assumes "hashOf (prepared lib (stubApi kd wr (Some x)) drd obj) = hashOf x" "eq x (prepared lib (stubApi kd wr (Some x)) drd obj)"
  shows "res (sdkCreateOrUpdateAsNeeded lib (stubApi kd wr (Some x)) (ret obj) eq up drd names) s =
     Ok (NoStatus, insert (GetName obj) names, prepared lib (stubApi kd wr (Some x)) drd obj)"
  using assms by (simp add: sync_unfold go_run sdk_defs stubApi_def Let_def)

lemma settled_node:
  "\<exists>st. res (deployNode (stubClient settledSts) ls sha (rollingDruid, noneWanted) \<lparr>sgKey = ''h'', sgSpec = historicalNode\<rparr>) () = Ok (Next st)"
proof -
  have "\<exists>st. res (node_statefulset (stubClient settledSts) n lm ''druid-c-h'' sha' f rollingDruid names) s = Ok (Next st)"
    for n lm sha' f names s
  proof -
    obtain obj m1 where p: "makeStatefulSet n rollingDruid lm ''druid-c-h'' sha' f = (obj, m1)"
      by (cases "makeStatefulSet n rollingDruid lm ''druid-c-h'' sha' f")
    have fr: "cr_frame m1 = cr_frame rollingDruid" using frame_statefulSet [of n rollingDruid lm "''druid-c-h''" sha' f] p by simp
    have "hashOf (prepared memLib (stubApi StatefulSetKind KStatefulSet (Some settledSts)) m1 obj) = hashOf settledSts"
      using built_statefulSet [of n rollingDruid lm "''druid-c-h''" sha' f] p
      by (simp add: mem_hash addOwnerRefToObject_def SetOwnerReferences_def settled_hash)
    note same = stub_same [OF this, where eq = statefulSetIsEquals]
    have "res (isObjFullyDeployed (stubApi StatefulSetKind KStatefulSet (Some settledSts)) u d) w = Ok True" for u d w
      by (simp add: isObjFullyDeployed_def go_run api_results stubApi_def statefulSetDeployed_def settledSts_def
          SetAnnotations_def sampleSts_def)
    then show ?thesis
      using frame_meta [OF fr] same
      by (simp add: node_statefulset_def p go_run statefulSetIsEquals_def Let_def execCheckCrashStatus_ok rollout_gate_def)
  qed
  then obtain st where "res (node_statefulset (stubClient settledSts) n lm ''druid-c-h'' sha' f rollingDruid names) s = Ok (Next (st n lm sha' f names s))"
    for n lm sha' f names s by metis
  then show ?thesis
    by (simp add: deployNode_def Let_def go_run stub_create node_services_def makeNodeSpecificUniqueString_def
        node_extras_def historicalNode_def zeroNode_def split: prod.split)
qed

theorem next_group_witness:
  "readsRolledOut (stubClient settledSts) historicalNode ''druid-c-h'' ''ns''
     (post (beforeGate (stubClient settledSts) [] (rollingDruid, noneWanted) \<lparr>sgKey = ''h'', sgSpec = historicalNode\<rparr>) ())"
proof -
  obtain st where st: "res (deployNode (stubClient settledSts) fmempty [] (rollingDruid, noneWanted)
      \<lparr>sgKey = ''h'', sgSpec = historicalNode\<rparr>) () = Ok (Next st)"
    using settled_node by blast
  have "metaGeneration (objMeta rollingDruid) > 1" "GetNamespace rollingDruid = ''ns''"
    "makeNodeSpecificUniqueString rollingDruid ''h'' = ''druid-c-h''" "crRollingDeploy (drSpec rollingDruid)"
    by (simp_all add: rollingDruid_def sample_defs makeNodeSpecificUniqueString_def)
  with next_group_only_after_rollout [OF typed_stub(1) st _ _ refl] show ?thesis by auto
qed

end
