(* ===== verification/Plan_Following.thy ===== *)
theory Plan_Following
  imports Cluster_Plan Deploy_Safety
begin

text \<open>
  How a deployment follows its plan, independently of what is claimed of the run. A claim is a
  predicate \<open>J\<close> on the actions, the state before, the effects, the state after and whether the
  actions were completed; the locales \<open>frame_follower\<close> and \<open>plan_follower\<close> ask that it holds of the
  requests for one object and of the code that asks for none, and that it composes. Proved
  inside them, once, block by block: the claim holds of a whole deployment and its plan. They are
  interpreted for runs against a server that does not fail (\<open>Cluster_Refinement\<close>), for the order of
  the writes against any server (\<open>Request_Order\<close>) and for runs against a server whose requests may
  fail (\<open>Faulty_Deploy\<close>).
\<close>

section \<open>Names recorded by a run\<close>

definition absorb :: "act list \<Rightarrow> wanted \<Rightarrow> wanted" where
  "absorb acts names = \<lparr>
     wnStatefulSets = wnStatefulSets names \<union> ensuredNames StatefulSetKind acts,
     wnDeployments = wnDeployments names \<union> ensuredNames DeploymentKind acts,
     wnServices = wnServices names \<union> ensuredNames ServiceKind acts,
     wnConfigMaps = wnConfigMaps names \<union> ensuredNames ConfigMapKind acts,
     wnPodDisruptionBudgets = wnPodDisruptionBudgets names \<union> ensuredNames PDBKind acts,
     wnHPAs = wnHPAs names \<union> ensuredNames HPAKind acts,
     wnIngresses = wnIngresses names \<union> ensuredNames IngressKind acts,
     wnPVCs = wnPVCs names \<union> ensuredNames PVCKind acts\<rparr>"

lemma ensuredNames_simps [simp]:
  "ensuredNames kd [] = {}"
  "ensuredNames kd (Ensure kd' key d # acts) = (if kd' = kd then insert (fst key) (ensuredNames kd acts) else ensuredNames kd acts)"
  "ensuredNames kd (as @ bs) = ensuredNames kd as \<union> ensuredNames kd bs"
proof -
  show "ensuredNames kd (Ensure kd' key d # acts) = (if kd' = kd then insert (fst key) (ensuredNames kd acts) else ensuredNames kd acts)"
    by (cases key) (auto simp: ensuredNames_def simp del: split_paired_Ex)
qed (auto simp: ensuredNames_def simp del: split_paired_Ex)

lemma absorb_append [simp]: "absorb (as @ bs) names = absorb bs (absorb as names)"
  by (simp add: absorb_def Un_assoc)

lemma absorb_Nil [simp]: "absorb [] names = names"
  by (simp add: absorb_def)

lemma absorb_Cons: "absorb (a # acts) names = absorb acts (absorb [a] names)"
  using absorb_append [of "[a]" acts names] by simp

lemma absorb_want:
  "absorb [want lib StatefulSetKind w1 m x1] names = names\<lparr>wnStatefulSets := insert (GetName x1) (wnStatefulSets names)\<rparr>"
  "absorb [want lib DeploymentKind w2 m x2] names = names\<lparr>wnDeployments := insert (GetName x2) (wnDeployments names)\<rparr>"
  "absorb [want lib ServiceKind w3 m x3] names = names\<lparr>wnServices := insert (GetName x3) (wnServices names)\<rparr>"
  "absorb [want lib ConfigMapKind w4 m x4] names = names\<lparr>wnConfigMaps := insert (GetName x4) (wnConfigMaps names)\<rparr>"
  "absorb [want lib PDBKind w5 m x5] names = names\<lparr>wnPodDisruptionBudgets := insert (GetName x5) (wnPodDisruptionBudgets names)\<rparr>"
  "absorb [want lib HPAKind w6 m x6] names = names\<lparr>wnHPAs := insert (GetName x6) (wnHPAs names)\<rparr>"
  "absorb [want lib IngressKind w7 m x7] names = names\<lparr>wnIngresses := insert (GetName x7) (wnIngresses names)\<rparr>"
  "absorb [want lib PVCKind w8 m x8] names = names\<lparr>wnPVCs := insert (GetName x8) (wnPVCs names)\<rparr>"
  by (simp_all add: absorb_def want_def)

lemma liftO_Ok [simp]: "liftO (Ok x) = ret x"
  by (simp add: liftO_def ret_def)

lemma liftE_Inr [simp]: "liftE (Inr x) = ret x"
  by (simp add: liftE_def)

text \<open>
  A run in which neither volume expansion nor orphan cleanup is due; one that moreover goes
  straight through, because rolling deployment is not asked for.
\<close>

definition steady :: "druid \<Rightarrow> bool" where
  "steady m \<longleftrightarrow> \<not> (metaGeneration (objMeta m) > 1 \<and> (crScalePvcSts (drSpec m) \<or> crDeleteOrphanPvc (drSpec m)))"

definition direct :: "druid \<Rightarrow> bool" where
  "direct m \<longleftrightarrow> \<not> crRollingDeploy (drSpec m) \<and> steady m"

lemma steady_frame: "cr_frame m' = cr_frame m \<Longrightarrow> steady m' = steady m"
  using frame_meta [of m' m] by (simp add: steady_def)

lemma direct_frame: "cr_frame m' = cr_frame m \<Longrightarrow> direct m' = direct m"
  using frame_meta [of m' m] by (simp add: direct_def steady_frame [of m' m])

lemma steady_core: "same_core m' m \<Longrightarrow> steady m' = steady m"
  by (simp add: steady_def same_core_def)

lemma direct_core: "same_core m' m \<Longrightarrow> direct m' = direct m"
  by (simp add: direct_def steady_def same_core_def)

lemma planServices_frame: "cr_frame (fst (planServices lib n lm u m first svcs)) = cr_frame m"
  by (induction lib n lm u m first svcs rule: planServices.induct) (simp_all add: Let_def case_prod_beta framed)

lemma planWorkload_frame: "planWorkload lib n lm u sha first m = Ok (m', acts) \<Longrightarrow> cr_frame m' = cr_frame m"
proof -
  obtain obj m1 where b: "makeStatefulSet n m lm u sha first = (obj, m1)" by (cases "makeStatefulSet n m lm u sha first")
  then have "cr_frame m1 = cr_frame m" using frame_statefulSet [of n m lm u sha first] by simp
  then show "planWorkload lib n lm u sha first m = Ok (m', acts) \<Longrightarrow> cr_frame m' = cr_frame m"
    by (auto simp: planWorkload_def bindO_Ok b framed split: if_splits dest: frame_deployment)
qed

lemma planNode_frame: "planNode lib ls sha m elem = Ok (m', acts) \<Longrightarrow> cr_frame m' = cr_frame m"
  unfolding planNode_def Let_def case_prod_beta bindO_Ok
  by (elim exE conjE) (auto simp: planServices_frame dest!: planWorkload_frame)

lemma planNodes_frame: "planNodes lib ls sha m elems = Ok (m', acts) \<Longrightarrow> cr_frame m' = cr_frame m"
proof (induction elems arbitrary: m acts)
  case (Cons elem elems)
  then show ?case by (fastforce simp: bindO_Ok dest: planNode_frame)
qed simp

abbreviation node_workload ::
  "'w client \<Rightarrow> druid_node_spec \<Rightarrow> strmap \<Rightarrow> string \<Rightarrow> string \<Rightarrow> string \<Rightarrow> druid \<Rightarrow> wanted
   \<Rightarrow> ('w, (node_state, druid) flow) io" where
  "node_workload sdk n lm u sha first m names \<equiv>
     (if ndKind n = ''Deployment'' then node_deployment sdk n lm u sha first m names
      else node_statefulset sdk n lm u sha first m names)"

lemma deployNode_unfold:
  assumes typed: "typed_client sdk" and n: "n = sgSpec elem" "u = makeNodeSpecificUniqueString m (sgKey elem)" "lm = makeLabelsForNodeSpec n m (GetName m) u"
    "cm = makeConfigMapForNodeSpec n m lm u" "getObjectHash (clLib sdk) (KConfigMap cm) = Inr nodeSHA"
  shows "deployNode sdk ls sha (m, names) elem =
    bindE (sdkCreateOrUpdateAsNeeded (clLib sdk) (clConfigMaps sdk) (ret cm) alwaysTrueIsEqualsFn noopUpdaterFn m (wnConfigMaps names))
      (\<lambda>(_, configMapNames, _).
    bindE (node_services sdk n lm u m (names\<lparr>wnConfigMaps := configMapNames\<rparr>)) (\<lambda>(m, names, first).
    bindE (node_workload sdk (withDruidPort n) lm u (sha @ ''-'' @ nodeSHA) first m names) (\<lambda>r.
      case r of
        Return m \<Rightarrow> ret (Return m)
      | Next (m, names) \<Rightarrow>
          bindE (node_extras sdk (withDruidPort n) ls lm u m names) (\<lambda>names. ret (Next (m, names))))))"
proof -
  have wrap: "apiWrap (clConfigMaps sdk) = KConfigMap" using typed by (simp add: typed_client_def)
  show ?thesis
    unfolding deployNode_def Let_def prod.case wrap using assms(2-6) by (simp only: liftE_Inr bindE_ret)
qed

lemma typed_prepared:
  assumes "typed_client sdk"
  shows "prepared lib (clConfigMaps sdk) m = stamped lib KConfigMap m" "prepared lib (clServices sdk) m = stamped lib KService m"
    "prepared lib (clStatefulSets sdk) m = stamped lib KStatefulSet m" "prepared lib (clDeployments sdk) m = stamped lib KDeployment m"
    "prepared lib (clPVCs sdk) m = stamped lib KPVC m" "prepared lib (clPDBs sdk) m = stamped lib KPDB m"
    "prepared lib (clHPAs sdk) m = stamped lib KHPA m" "prepared lib (clIngresses sdk) m = stamped lib KIngress m"
  using assms by (auto simp: prepared_def stamped_def typed_client_def)

section \<open>Claims about a run\<close>

text \<open>
  \<open>follows I J m D P acts\<close>: from a state with \<open>I\<close> the code \<open>m\<close> leads to one with \<open>I\<close>; a result is in \<open>P\<close>
  and \<open>J\<close> holds of the run, with the actions completed if the result is in \<open>D\<close>; \<open>J\<close> also holds of a run
  that ends with an error or a panic.
\<close>

type_synonym 'w claim = "act list \<Rightarrow> 'w \<Rightarrow> effect list \<Rightarrow> 'w \<Rightarrow> bool \<Rightarrow> bool"

definition follows :: "('w \<Rightarrow> bool) \<Rightarrow> 'w claim \<Rightarrow> ('w, 'a) io \<Rightarrow> ('a \<Rightarrow> bool) \<Rightarrow> ('a \<Rightarrow> bool) \<Rightarrow> act list \<Rightarrow> bool" where
  "follows I J m D P acts \<longleftrightarrow> (\<forall>s. I s \<longrightarrow> I (post m s)
     \<and> (\<forall>x. res m s = Ok x \<longrightarrow> P x \<and> J acts s (effs m s) (post m s) (D x))
     \<and> ((\<forall>x. res m s \<noteq> Ok x) \<longrightarrow> J acts s (effs m s) (post m s) False))"

abbreviation always :: "'a \<Rightarrow> bool" where
  "always \<equiv> \<lambda>_. True"

fun goesOn :: "('a, 'r) flow \<Rightarrow> bool" where
  "goesOn (Next _) = True"
| "goesOn (Return _) = False"

lemma follows_weaken: "follows I J m D P acts \<Longrightarrow> (\<And>x. P x \<Longrightarrow> Q x) \<Longrightarrow> follows I J m D Q acts"
  unfolding follows_def by blast

lemma followsD:
  assumes "follows I J m D P acts" "I s"
  shows "I (post m s)" "res m s = Ok x \<Longrightarrow> P x" "res m s = Ok x \<Longrightarrow> J acts s (effs m s) (post m s) (D x)"
    "(\<And>x. res m s \<noteq> Ok x) \<Longrightarrow> J acts s (effs m s) (post m s) False"
  using assms unfolding follows_def by blast+

locale composable =
  fixes I :: "'w \<Rightarrow> bool" and J :: "'w claim"
  assumes at_rest: "I s \<Longrightarrow> J [] s [] s True"
    and onwards: "I s \<Longrightarrow> I s' \<Longrightarrow> J as s es s' True \<Longrightarrow> J bs s' es' s'' b \<Longrightarrow> J (as @ bs) s (es @ es') s'' b"
    and halted: "J as s es s' False \<Longrightarrow> J (as @ bs) s es s' False"
begin

lemma follows_ret: "P x \<Longrightarrow> D x \<Longrightarrow> follows I J (ret x) D P []"
  by (simp add: follows_def go_run at_rest)

lemma follows_flow:
  assumes m: "follows I J m D P as" and f: "\<And>x. P x \<Longrightarrow> D x \<Longrightarrow> follows I J (f x) E Q bs"
    and r: "\<And>x. P x \<Longrightarrow> \<not> D x \<Longrightarrow> \<exists>y. f x = ret y \<and> Q y \<and> \<not> E y"
  shows "follows I J (bindE m f) E Q (as @ bs)"
  unfolding follows_def
proof (intro allI impI)
  fix s assume I: "I s"
  note d = followsD [OF m I]
  let ?m = "bindE m f"
  show "I (post ?m s) \<and> (\<forall>x. res ?m s = Ok x \<longrightarrow> Q x \<and> J (as @ bs) s (effs ?m s) (post ?m s) (E x))
      \<and> ((\<forall>x. res ?m s \<noteq> Ok x) \<longrightarrow> J (as @ bs) s (effs ?m s) (post ?m s) False)"
  proof (cases "\<exists>x. res m s = Ok x")
    case True
    then obtain x where x: "res m s = Ok x" ..
    have run: "res ?m s = res (f x) (post m s)" "post ?m s = post (f x) (post m s)" "effs ?m s = effs m s @ effs (f x) (post m s)"
      using x by (simp_all add: go_run)
    show ?thesis
    proof (cases "D x")
      case True
      then have "J as s (effs m s) (post m s) True" using d(3) [OF x] by simp
      note on = onwards [OF I d(1) this]
      from f [OF d(2) [OF x] True] d(1) show ?thesis unfolding run follows_def using on by blast
    next
      case False
      obtain y where y: "f x = ret y" "Q y" "\<not> E y" using r [OF d(2) [OF x] False] by blast
      have "res ?m s = Ok y" "post ?m s = post m s" "effs ?m s = effs m s" unfolding run y(1) by (simp_all add: go_run)
      moreover have "J (as @ bs) s (effs m s) (post m s) False" using d(3) [OF x] False by (simp add: halted)
      ultimately show ?thesis using d(1) y(2,3) by simp
    qed
  next
    case False
    then have "\<And>x. res m s \<noteq> Ok x" by blast
    moreover then have "res ?m s \<noteq> Ok y" "post ?m s = post m s" "effs ?m s = effs m s" for y
      by (cases "res m s"; simp add: go_run)+
    ultimately show ?thesis using d(1,4) halted by simp
  qed
qed

lemma follows_bind:
  "follows I J m always P as \<Longrightarrow> (\<And>x. P x \<Longrightarrow> follows I J (f x) D Q bs) \<Longrightarrow> follows I J (bindE m f) D Q (as @ bs)"
  by (rule follows_flow [where D = always and P = P]) simp_all

lemma follows_last:
  "follows I J m always P as \<Longrightarrow> (\<And>x. P x \<Longrightarrow> follows I J (f x) D Q []) \<Longrightarrow> follows I J (bindE m f) D Q as"
  using follows_bind [of m P as f D Q "[]"] by simp

lemma follows_first:
  "follows I J m always P [] \<Longrightarrow> (\<And>x. P x \<Longrightarrow> follows I J (f x) D Q bs) \<Longrightarrow> follows I J (bindE m f) D Q bs"
  using follows_bind [of m P "[]" f D Q bs] by simp

lemma follows_sync:
  assumes "follows I J m always (\<lambda>(st, ns', x). ns' = a \<and> x = b) [w]" and "\<And>st. follows I J (f (st, a, b)) D Q acts"
  shows "follows I J (bindE m f) D Q (w # acts)"
  using follows_bind [OF assms(1), of f D Q acts] assms(2) by auto

text \<open>Code that ends early, and a loop over the rest of the work.\<close>

lemma follows_case_flow:
  assumes "follows I J m goesOn P as" and "\<And>x. P (Next x) \<Longrightarrow> follows I J (f x) D Q bs"
    and "\<And>y. P (Return y) \<Longrightarrow> Q (g y) \<and> \<not> D (g y)"
  shows "follows I J (bindE m (\<lambda>r. case r of Next x \<Rightarrow> f x | Return y \<Rightarrow> ret (g y))) D Q (as @ bs)"
proof (rule follows_flow [OF assms(1)], goal_cases)
  case (1 r)
  then show ?case using assms(2) by (cases r) simp_all
next
  case (2 r)
  then show ?case using assms(3) by (cases r) auto
qed

end

section \<open>Everything but the workloads\<close>

text \<open>
  The claim holds of the synchronisation of one object of every kind but StatefulSets and
  Deployments. \<open>frame_follower\<close> then has the blocks of a node group that come before and after
  its workload.
\<close>

locale frame_follower = composable I J for I :: "'w \<Rightarrow> bool" and J :: "'w claim" +
  fixes sdk :: "'w client"
  assumes typed: "typed_client sdk"
    and cm_sync: "follows I J (sdkCreateOrUpdateAsNeeded (clLib sdk) (clConfigMaps sdk) (ret cm) alwaysTrueIsEqualsFn noopUpdaterFn m ns) always
      (\<lambda>(st, ns', x). ns' = insert (GetName cm) ns \<and> x = stamped (clLib sdk) KConfigMap m cm) [want (clLib sdk) ConfigMapKind KConfigMap m cm]"
    and svc_sync: "follows I J (sdkCreateOrUpdateAsNeeded (clLib sdk) (clServices sdk) (ret svc) alwaysTrueIsEqualsFn keepClusterIP m ns) always
      (\<lambda>(st, ns', x). ns' = insert (GetName svc) ns \<and> x = stamped (clLib sdk) KService m svc) [want (clLib sdk) ServiceKind KService m svc]"
    and pvc_sync: "follows I J (sdkCreateOrUpdateAsNeeded (clLib sdk) (clPVCs sdk) (ret pvc) alwaysTrueIsEqualsFn noopUpdaterFn m ns) always
      (\<lambda>(st, ns', x). ns' = insert (GetName pvc) ns \<and> x = stamped (clLib sdk) KPVC m pvc) [want (clLib sdk) PVCKind KPVC m pvc]"
    and pdb_sync: "follows I J (sdkCreateOrUpdateAsNeeded (clLib sdk) (clPDBs sdk) (ret pdb) alwaysTrueIsEqualsFn noopUpdaterFn m ns) always
      (\<lambda>(st, ns', x). ns' = insert (GetName pdb) ns \<and> x = stamped (clLib sdk) KPDB m pdb) [want (clLib sdk) PDBKind KPDB m pdb]"
    and hpa_sync: "follows I J (sdkCreateOrUpdateAsNeeded (clLib sdk) (clHPAs sdk) (ret hpa) alwaysTrueIsEqualsFn noopUpdaterFn m ns) always
      (\<lambda>(st, ns', x). ns' = insert (GetName hpa) ns \<and> x = stamped (clLib sdk) KHPA m hpa) [want (clLib sdk) HPAKind KHPA m hpa]"
    and ing_sync: "follows I J (sdkCreateOrUpdateAsNeeded (clLib sdk) (clIngresses sdk) (ret ing) alwaysTrueIsEqualsFn noopUpdaterFn m ns) always
      (\<lambda>(st, ns', x). ns' = insert (GetName ing) ns \<and> x = stamped (clLib sdk) KIngress m ing) [want (clLib sdk) IngressKind KIngress m ing]"
begin

lemma services_follow:
  "planServices (clLib sdk) n lm u m first svcs = (m', first', acts) \<Longrightarrow>
   follows I J (foldE (service_step sdk n lm u) (m, names, first) svcs) always
     (\<lambda>r. r = (m', absorb acts names, first')) acts"
proof (induction svcs arbitrary: m names first acts)
  case Nil
  then show ?case by (simp add: follows_ret)
next
  case (Cons x svcs)
  obtain i svc where x: "x = (i, svc)" by (cases x)
  let ?obj = "makeService (clLib sdk) svc n m lm u"
  let ?m1 = "if ndServices n = None then updSpec (\<lambda>sp. sp\<lparr>crServices :=
      map_option (\<lambda>l. l[i := leaveService (stamped (clLib sdk) KService m ?obj) (l ! i)]) (crServices sp)\<rparr>) m else m"
  let ?first = "if first = [] then GetName ?obj else first"
  obtain rest where rest: "planServices (clLib sdk) n lm u ?m1 ?first svcs = (m', first', rest)"
    "acts = want (clLib sdk) ServiceKind KService m ?obj # rest"
    using Cons.prems by (auto simp: x Let_def split: prod.splits)
  have name: "GetName (stamped (clLib sdk) KService m ?obj) = GetName ?obj"
    by (metis prepared_meta(1) typed_prepared(2) [OF typed])
  show ?case
    unfolding x foldE.simps service_step_run bindE_assoc bindE_ret rest(2) absorb_Cons [of _ rest] absorb_want
  proof (rule follows_sync [OF svc_sync], goal_cases)
    case (1 st)
    from Cons.IH [OF rest(1), of "names\<lparr>wnServices := insert (GetName ?obj) (wnServices names)\<rparr>"] show ?case
      by (simp only: fst_conv snd_conv name)
  qed
qed

lemma node_services_follow:
  "planServices (clLib sdk) n lm u m [] (enumerate 0 (nodeServices n m)) = (m1, first, services) \<Longrightarrow>
   follows I J (node_services sdk n lm u m names) always (\<lambda>r. r = (m1, absorb services names, first)) services"
  unfolding node_services_def Let_def by (rule services_follow)

lemma optional_follows:
  assumes "(if b then bindO r (\<lambda>x. Ok [want (clLib sdk) kd wrap m x]) else Ok []) = Ok acts"
    and "\<And>obj. follows I J (sync (ret obj)) always (\<lambda>(st, ns', x). ns' = insert (GetName obj) ns \<and> x = stamped (clLib sdk) wrap m obj)
           [want (clLib sdk) kd wrap m obj]"
    and "\<And>obj. put (insert (GetName obj) ns) = absorb [want (clLib sdk) kd wrap m obj] names"
  shows "follows I J (if b then bindE (sync (liftO r)) (\<lambda>(_, ns', _). ret (put ns')) else ret names) always
    (\<lambda>names'. names' = absorb acts names) acts"
proof (cases b)
  case True
  then obtain obj where "r = Ok obj" "acts = [want (clLib sdk) kd wrap m obj]" using assms(1) by (auto simp: bindO_Ok)
  then show ?thesis using True assms(3) [of obj]
    by (auto intro!: follows_sync [OF assms(2)] follows_ret)
next
  case False
  then show ?thesis using assms(1) by (simp add: follows_ret)
qed

lemma claims_follow:
  "follows I J
     (foldE (\<lambda>names pvc.
         bindE (sdkCreateOrUpdateAsNeeded (clLib sdk) (clPVCs sdk)
             (ret (makePersistentVolumeClaim pvc n m lm u)) alwaysTrueIsEqualsFn noopUpdaterFn m (wnPVCs names)) (\<lambda>(_, ns, _).
           ret (names\<lparr>wnPVCs := ns\<rparr>))) names pvcs) always
     (\<lambda>names'. names' = absorb (map (\<lambda>pvc. want (clLib sdk) PVCKind KPVC m (makePersistentVolumeClaim pvc n m lm u)) pvcs) names)
     (map (\<lambda>pvc. want (clLib sdk) PVCKind KPVC m (makePersistentVolumeClaim pvc n m lm u)) pvcs)"
proof (induction pvcs arbitrary: names)
  case (Cons pvc pvcs)
  show ?case
    unfolding foldE.simps bindE_assoc list.map absorb_Cons [of _ "map _ _"] absorb_want
    by (rule follows_sync [OF pvc_sync]) (simp add: Cons)
qed (simp add: follows_ret)

lemma extras_follow:
  assumes "planExtras (clLib sdk) n ls lm u m = Ok acts"
  shows "follows I J (node_extras sdk n ls lm u m names) always (\<lambda>names'. names' = absorb acts names) acts"
proof -
  from assms obtain ig ps hs where acts:
    "(if ndIngress n \<noteq> None then bindO (makeIngress n m ls u) (\<lambda>x. Ok [want (clLib sdk) IngressKind KIngress m x]) else Ok []) = Ok ig"
    "(if ndPodDisruptionBudgetSpec n \<noteq> None then bindO (makePodDisruptionBudget n m lm u)
        (\<lambda>x. Ok [want (clLib sdk) PDBKind KPDB m x]) else Ok []) = Ok ps"
    "(if ndHPAutoScaler n \<noteq> None then bindO (makeHorizontalPodAutoscaler n m ls u)
        (\<lambda>x. Ok [want (clLib sdk) HPAKind KHPA m x]) else Ok []) = Ok hs"
    "acts = ig @ ps @ hs @ map (\<lambda>pvc. want (clLib sdk) PVCKind KPVC m (makePersistentVolumeClaim pvc n m lm u))
        (case ndPersistentVolumeClaim n of None \<Rightarrow> [] | Some l \<Rightarrow> l)"
    by (rule planExtrasE)
  show ?thesis
    unfolding node_extras_def acts(4)
    by (intro follows_bind [OF optional_follows [OF acts(1) ing_sync]]
        follows_bind [OF optional_follows [OF acts(2) pdb_sync]]
        follows_bind [OF optional_follows [OF acts(3) hpa_sync]])
       (auto simp: absorb_want follows_ret split: option.split intro: follows_weaken [OF claims_follow])
qed

end

section \<open>The whole deployment\<close>

text \<open>
  The claim moreover holds of workloads, of the code that asks for no object and of the cleanup.
  \<open>allowed\<close> says of a resource what of its options the claim can deal with: volume expansion and
  orphan cleanup have to follow no actions where they are allowed, and where rolling deployment is
  allowed a run that stops early is a run whose actions were not completed.
\<close>

definition reaches :: "druid \<Rightarrow> wanted \<Rightarrow> (node_state, druid) flow \<Rightarrow> bool" where
  "reaches m names r = (case r of Next x \<Rightarrow> x = (m, names) | Return _ \<Rightarrow> crRollingDeploy (drSpec m))"

lemma reaches_simps [simp]:
  "reaches m names (Next x) \<longleftrightarrow> x = (m, names)" "reaches m names (Return y) \<longleftrightarrow> crRollingDeploy (drSpec m)"
  by (simp_all add: reaches_def)

locale plan_follower = frame_follower I J sdk for I :: "'w \<Rightarrow> bool" and J :: "'w claim" and sdk :: "'w client" +
  fixes cr :: druid and allowed :: "druid \<Rightarrow> bool"
  assumes sts_sync: "follows I J (sdkCreateOrUpdateAsNeeded (clLib sdk) (clStatefulSets sdk) (ret sts) statefulSetIsEquals noopUpdaterFn m ns) always
      (\<lambda>(st, ns', x). ns' = insert (GetName sts) ns \<and> x = stamped (clLib sdk) KStatefulSet m sts)
      [want (clLib sdk) StatefulSetKind KStatefulSet m sts]"
    and dep_sync: "follows I J (sdkCreateOrUpdateAsNeeded (clLib sdk) (clDeployments sdk) (ret dep) deploymentIsEquals noopUpdaterFn m ns) always
      (\<lambda>(st, ns', x). ns' = insert (GetName dep) ns \<and> x = stamped (clLib sdk) KDeployment m dep)
      [want (clLib sdk) DeploymentKind KDeployment m dep]"
    and allowed_frame: "cr_frame m' = cr_frame m \<Longrightarrow> allowed m' = allowed m"
    and allowed_core: "same_core m' m \<Longrightarrow> allowed m' = allowed m"
    and stops: "allowed m \<Longrightarrow> crRollingDeploy (drSpec m) \<Longrightarrow> J as s es s' True \<Longrightarrow> J as s es s' False"
    and sts_gate: "allowed m \<Longrightarrow> crRollingDeploy (drSpec m) \<Longrightarrow>
      follows I J (isObjFullyDeployed (clStatefulSets sdk) u m) always always []"
    and dep_gate: "allowed m \<Longrightarrow> crRollingDeploy (drSpec m) \<Longrightarrow>
      follows I J (isObjFullyDeployed (clDeployments sdk) u m) always always []"
    and crash_check: "follows I J (execCheckCrashStatus sdk n m u) always always []"
    and expansion: "allowed m \<Longrightarrow> metaGeneration (objMeta m) > 1 \<and> crScalePvcSts (drSpec m) \<Longrightarrow>
      follows I J (expandStatefulSetVolumes sdk m n u) always always []"
    and orphans: "allowed m \<Longrightarrow> metaGeneration (objMeta m) > 1 \<and> crDeleteOrphanPvc (drSpec m) \<Longrightarrow>
      follows I J (deleteOrphanPVC sdk m) always always []"
    and finalizers: "follows I J (updateFinalizers sdk cr) always (\<lambda>m. same_core m cr) []"
    and cleanup: "follows I J (deleteUnusedResources (clStatefulSets sdk) m names ls) always always [Sweep StatefulSetKind (GetNamespace m) ls names]"
      "follows I J (deleteUnusedResources (clDeployments sdk) m names ls) always always [Sweep DeploymentKind (GetNamespace m) ls names]"
      "follows I J (deleteUnusedResources (clHPAs sdk) m names ls) always always [Sweep HPAKind (GetNamespace m) ls names]"
      "follows I J (deleteUnusedResources (clIngresses sdk) m names ls) always always [Sweep IngressKind (GetNamespace m) ls names]"
      "follows I J (deleteUnusedResources (clPDBs sdk) m names ls) always always [Sweep PDBKind (GetNamespace m) ls names]"
      "follows I J (deleteUnusedResources (clServices sdk) m names ls) always always [Sweep ServiceKind (GetNamespace m) ls names]"
      "follows I J (deleteUnusedResources (clConfigMaps sdk) m names ls) always always [Sweep ConfigMapKind (GetNamespace m) ls names]"
    and pod_list: "follows I J (handleE (reader_List (clPods sdk) ls m) (\<lambda>err. ret []) ret) always always []"
    and status: "follows I J (druidClusterStatusPatcher sdk st m) always always []"
begin

text \<open>Where the resource rolls, a claim about a run also holds of it as one that was not completed.\<close>

lemma follows_stopped:
  assumes "follows I J m D P acts" "allowed c" "crRollingDeploy (drSpec c)"
  shows "follows I J m (\<lambda>_. False) P acts"
proof -
  have "J acts s es s' b \<Longrightarrow> J acts s es s' False" for s es s' b
    by (cases b) (auto intro: stops [OF assms(2,3)])
  then show ?thesis using assms(1) unfolding follows_def by blast
qed

lemma stopped_ret: "P x \<Longrightarrow> allowed c \<Longrightarrow> crRollingDeploy (drSpec c) \<Longrightarrow> \<not> D x \<Longrightarrow> follows I J (ret x) D P []"
  using follows_stopped [OF follows_ret [of P x always]] by (simp add: follows_def go_run)

lemma gate_follows:
  assumes "follows I J (isObjFullyDeployed api u m) always always []" "allowed m" "crRollingDeploy (drSpec m)"
  shows "follows I J (rollout_gate api u m names) goesOn (reaches m names) []"
proof -
  have "follows I J (if \<not> complete then ret (Return m) else ret (Next (m, names))) goesOn (reaches m names) []" for complete
    using assms(2,3) by (simp add: follows_ret stopped_ret [of _ _ m])
  then show ?thesis
    unfolding rollout_gate_def by (simp add: follows_first [OF assms(1)] follows_ret)
qed

lemma deployment_follows:
  assumes "allowed m" and "ndKind n = ''Deployment''" and "planWorkload (clLib sdk) n lm u sha first m = Ok (m', acts)"
  shows "follows I J (node_deployment sdk n lm u sha first m names) goesOn (reaches m' (absorb acts names)) acts"
proof -
  obtain obj m1 where p: "makeDeployment n m lm u sha first = Ok (obj, m1)"
    "m' = shareAnnotations (stamped (clLib sdk) KDeployment m1 obj) m1"
    "acts = [want (clLib sdk) DeploymentKind KDeployment m1 obj]"
    using assms(2,3) by (auto simp: planWorkload_def bindO_Ok)
  have a: "allowed m'" using allowed_frame [OF planWorkload_frame [OF assms(3)]] assms(1) by simp
  have gate: "follows I J (if crRollingDeploy (drSpec m') then if st = resourceUpdated then ret (Return m')
      else rollout_gate (clDeployments sdk) u m' names' else ret (Next (m', names'))) goesOn (reaches m' names') []" for st names'
    using a by (auto intro: follows_ret stopped_ret gate_follows [OF dep_gate])
  show ?thesis
    unfolding node_deployment_def p(1,3) liftO_Ok bindE_ret prod.case Let_def absorb_want
    by (rule follows_sync [OF dep_sync]) (simp only: prod.case p(2) [symmetric] gate)
qed

lemma statefulset_follows:
  assumes "allowed m" and "ndKind n \<noteq> ''Deployment''" and "planWorkload (clLib sdk) n lm u sha first m = Ok (m', acts)"
  shows "follows I J (node_statefulset sdk n lm u sha first m names) goesOn (reaches m' (absorb acts names)) acts"
proof -
  obtain obj m1 where b: "makeStatefulSet n m lm u sha first = (obj, m1)" by (cases "makeStatefulSet n m lm u sha first")
  then have p: "m' = shareAnnotations (stamped (clLib sdk) KStatefulSet m1 obj) m1"
    "acts = [want (clLib sdk) StatefulSetKind KStatefulSet m1 obj]"
    using assms(2,3) by (auto simp: planWorkload_def)
  have a: "allowed m'" using allowed_frame [OF planWorkload_frame [OF assms(3)]] assms(1) by simp
  have expand: "follows I J (if metaGeneration (objMeta m) > 1 \<and> crScalePvcSts (drSpec m)
      then expandStatefulSetVolumes sdk m n u else ret ()) always always []"
    using expansion [OF assms(1), of n u] by (simp add: follows_ret)
  have gate: "follows I J (if crRollingDeploy (drSpec m') then if st = resourceUpdated then ret (Return m')
      else bindE (execCheckCrashStatus sdk n m' u) (\<lambda>_. rollout_gate (clStatefulSets sdk) u m' names')
      else ret (Next (m', names'))) goesOn (reaches m' names') []" for st names'
    using a by (auto intro: follows_ret stopped_ret follows_first [OF crash_check] gate_follows [OF sts_gate])
  show ?thesis
    unfolding node_statefulset_def b p(2) prod.case Let_def absorb_want
  proof (rule follows_first [OF expand], rule follows_sync [OF sts_sync], goal_cases)
    case (1 _ st)
    let ?names = "names\<lparr>wnStatefulSets := insert (GetName obj) (wnStatefulSets names)\<rparr>"
    show ?case unfolding prod.case p(1) [symmetric]
      using follows_case_flow [OF gate [of st ?names], of "\<lambda>x. bindE (execCheckCrashStatus sdk n m' u) (\<lambda>_. ret (Next x))" goesOn "reaches m' ?names" "[]" Return]
      by (simp add: follows_first [OF crash_check] follows_ret)
  qed
qed

lemma node_follows:
  assumes a: "allowed m" and plan: "planNode (clLib sdk) ls sha m elem = Ok (m', acts)"
  shows "follows I J (deployNode sdk ls sha (m, names) elem) goesOn (reaches m' (absorb acts names)) acts"
proof -
  from plan obtain n u lm cm m1 first services nodeSHA workload extras where
    n: "n = sgSpec elem" "u = makeNodeSpecificUniqueString m (sgKey elem)" "lm = makeLabelsForNodeSpec n m (GetName m) u"
      "cm = makeConfigMapForNodeSpec n m lm u"
    and svc: "planServices (clLib sdk) n lm u m [] (enumerate 0 (nodeServices n m)) = (m1, first, services)"
    and hash: "getObjectHash (clLib sdk) (KConfigMap cm) = Inr nodeSHA"
    and wl: "planWorkload (clLib sdk) (withDruidPort n) lm u (sha @ ''-'' @ nodeSHA) first m1 = Ok (m', workload)"
    and ex: "planExtras (clLib sdk) (withDruidPort n) ls lm u m' = Ok extras"
    and acts: "acts = want (clLib sdk) ConfigMapKind KConfigMap m cm # services @ workload @ extras"
    by (rule planNodeE)
  have m1: "allowed m1"
    using a allowed_frame [OF planServices_frame, of "clLib sdk" n lm u m "[]" "enumerate 0 (nodeServices n m)"] svc by simp
  have workload: "follows I J (node_workload sdk (withDruidPort n) lm u (sha @ ''-'' @ nodeSHA) first m1 names') goesOn
      (reaches m' (absorb workload names')) workload" for names'
    using deployment_follows [OF m1 _ wl] statefulset_follows [OF m1 _ wl] by simp
  have rest: "follows I J (bindE (node_extras sdk (withDruidPort n) ls lm u m' names') (\<lambda>names. ret (Next (m', names)))) goesOn
      (reaches m' (absorb extras names')) extras" for names'
    by (rule follows_last [OF extras_follow [OF ex]]) (simp add: follows_ret)
  note svcs = node_services_follow [OF svc]
  show ?thesis
    unfolding deployNode_unfold [OF typed n hash] acts absorb_Cons [of _ "services @ workload @ extras"] absorb_append absorb_want
  proof (rule follows_sync [OF cm_sync], unfold prod.case, rule follows_bind [OF svcs], goal_cases)
    case (1 st r)
    show ?case unfolding 1 prod.case
      by (rule follows_case_flow [OF workload]) (auto simp: rest)
  qed
qed

lemma nodes_follow:
  "allowed m \<Longrightarrow> planNodes (clLib sdk) ls sha m elems = Ok (m', acts) \<Longrightarrow>
   follows I J (deployNodes sdk ls sha (m, names) elems) goesOn (reaches m' (absorb acts names)) acts"
  unfolding deployNodes_def
proof (induction elems arbitrary: m names acts)
  case (Cons elem elems)
  obtain m1 as bs where p: "planNode (clLib sdk) ls sha m elem = Ok (m1, as)" "planNodes (clLib sdk) ls sha m1 elems = Ok (m', bs)"
    "acts = as @ bs"
    using Cons.prems(2) by (auto simp: bindO_Ok)
  have m1: "allowed m1" using Cons.prems(1) allowed_frame [OF planNode_frame [OF p(1)]] by simp
  have "crRollingDeploy (drSpec m1) = crRollingDeploy (drSpec m')" using rolling_frame [OF planNodes_frame [OF p(2)]] by simp
  then show ?case
    unfolding loopE.simps p(3) absorb_append
    by (intro follows_case_flow [OF node_follows [OF Cons.prems(1) p(1)]]) (auto simp: Cons.IH [OF m1 p(2)])
qed (simp add: follows_ret)

lemma cleanup_follows:
  "follows I J (cleanup_and_status sdk ls m names) always always
     [Sweep StatefulSetKind (GetNamespace m) ls (wnStatefulSets names), Sweep DeploymentKind (GetNamespace m) ls (wnDeployments names),
      Sweep HPAKind (GetNamespace m) ls (wnHPAs names), Sweep IngressKind (GetNamespace m) ls (wnIngresses names),
      Sweep PDBKind (GetNamespace m) ls (wnPodDisruptionBudgets names), Sweep ServiceKind (GetNamespace m) ls (wnServices names),
      Sweep ConfigMapKind (GetNamespace m) ls (wnConfigMaps names)]"
proof -
  have one: "follows I J (bindE a f) D Q (w # acts)" if "follows I J a always always [w]" "\<And>x. follows I J (f x) D Q acts"
    for a :: "('w, 'x) io" and f :: "'x \<Rightarrow> ('w, 'y) io" and D Q w acts
    using follows_bind [OF that(1), of f D Q acts] that(2) by simp
  show ?thesis
    unfolding cleanup_and_status_def by (intro one cleanup follows_first [OF pod_list] status)
qed

text \<open>After the finalizers: the node groups, then the cleanup, unless a rolling deployment stopped.\<close>

lemma live_follows:
  assumes a: "allowed cr" and plan: "planNodes (clLib sdk) ls sha cr elems = Ok (m', acts)"
    and names: "absorb pre noneWanted = noneWanted\<lparr>wnConfigMaps := cmNames\<rparr>"
  shows "follows I J (deployLive sdk elems ls sha cmNames cr) (\<lambda>_. \<not> crRollingDeploy (drSpec cr)) always
    (acts @ sweeps (GetNamespace cr) ls (pre @ acts))"
  unfolding deployLive_def
proof (rule follows_first [OF finalizers], goal_cases)
  case (1 m)
  then obtain m1 where m1: "planNodes (clLib sdk) ls sha m elems = Ok (m1, acts)"
    using core_planNodes [OF 1, of "clLib sdk" ls sha elems] plan
    by (cases "planNodes (clLib sdk) ls sha m elems") (auto simp: rel_prod_sel)
  have am: "allowed m" using a allowed_core [OF 1] by simp
  have f: "cr_frame m1 = cr_frame m" by (rule planNodes_frame [OF m1])
  have a1: "allowed m1" using am allowed_frame [OF f] by simp
  have ns: "GetNamespace m1 = GetNamespace cr" using 1 frame_meta(1) [OF f] by (simp add: same_core_def)
  have rolling: "crRollingDeploy (drSpec m1) = crRollingDeploy (drSpec cr)" using 1 rolling_frame [OF f] by (simp add: same_core_def)
  have due: "follows I J (if metaGeneration (objMeta m1) > 1 \<and> crDeleteOrphanPvc (drSpec m1) then deleteOrphanPVC sdk m1 else ret ())
      always always []"
    using orphans [OF a1] by (simp add: follows_ret)
  have sweep: "follows I J (cleanup_and_status sdk ls m1 (absorb (pre @ acts) noneWanted)) always always
      (sweeps (GetNamespace cr) ls (pre @ acts))"
    using cleanup_follows [of ls m1 "absorb (pre @ acts) noneWanted"]
    by (simp add: sweeps_def sweptKinds_def absorb_def noneWanted_def ns)
  have "follows I J (cleanup_and_status sdk ls m1 (absorb (pre @ acts) noneWanted)) (\<lambda>_. \<not> crRollingDeploy (drSpec cr)) always
      (sweeps (GetNamespace cr) ls (pre @ acts))"
    using follows_stopped [OF sweep a1] sweep unfolding rolling by (cases "crRollingDeploy (drSpec cr)") simp_all
  then have rest: "follows I J (bindE (if metaGeneration (objMeta m1) > 1 \<and> crDeleteOrphanPvc (drSpec m1) then deleteOrphanPVC sdk m1 else ret ())
      (\<lambda>_. cleanup_and_status sdk ls m1 (absorb (pre @ acts) noneWanted))) (\<lambda>_. \<not> crRollingDeploy (drSpec cr)) always
      (sweeps (GetNamespace cr) ls (pre @ acts))"
    by (rule follows_first [OF due])
  have "absorb acts (noneWanted\<lparr>wnConfigMaps := cmNames\<rparr>) = absorb (pre @ acts) noneWanted"
    by (simp only: absorb_append names)
  note nodes = nodes_follow [OF am m1, of "noneWanted\<lparr>wnConfigMaps := cmNames\<rparr>", unfolded this]
  show ?case
  proof (rule follows_case_flow [OF nodes], goal_cases)
    case (1 x)
    then show ?case using rest by (simp only: reaches_simps prod.case)
  qed (simp add: rolling)
qed

text \<open>The common ConfigMap and everything after it.\<close>

lemma deploy_follows:
  assumes "allowed cr" and "planNodes (clLib sdk) ls sha cr elems = Ok (m', nodes)"
  shows "follows I J
    (bindE (sdkCreateOrUpdateAsNeeded (clLib sdk) (clConfigMaps sdk) (ret cc) alwaysTrueIsEqualsFn noopUpdaterFn cr {})
      (\<lambda>(_, configMapNames, _). deployLive sdk elems ls sha configMapNames cr)) (\<lambda>_. \<not> crRollingDeploy (drSpec cr)) always
    (want (clLib sdk) ConfigMapKind KConfigMap cr cc # nodes @ sweeps (GetNamespace cr) ls (want (clLib sdk) ConfigMapKind KConfigMap cr cc # nodes))"
proof -
  let ?w = "want (clLib sdk) ConfigMapKind KConfigMap cr cc"
  have "absorb [?w] noneWanted = noneWanted\<lparr>wnConfigMaps := {GetName cc}\<rparr>" by (simp add: absorb_want noneWanted_def)
  from live_follows [OF assms this] show ?thesis
    by (intro follows_sync [OF cm_sync]) (simp only: prod.case append_Cons append_Nil)
qed

end

end
