(* ===== verification/Node_Order.thy ===== *)
theory Node_Order
  imports Cluster_Plan Spec_Validation
begin

text \<open>
  A reconciliation starts by reading the custom resource again. The node groups are a Go map:
  the next run may see them in another order, and builders write through pointers and maps of the
  cluster level of the spec (workload annotations, probes without a port, maps of services) into
  the resource that the next node group is built from. \<open>reread\<close> relates the resources of two
  reconciliations with the same spec, \<open>unshared\<close> says that there is nothing at the cluster level
  that a builder writes through. Proved: the plans of such resources are permutations of each
  other. Without \<open>unshared\<close> the hashes of two node groups of one type may depend on the order.
\<close>

section \<open>Reading the resource again\<close>

text \<open>
  The same spec up to the order of the node map, the same identity and generation; the rest of
  the metadata and the status are free.
\<close>

definition reread :: "druid \<Rightarrow> druid \<Rightarrow> bool" where
  "reread m m' \<longleftrightarrow> (\<exists>ns. drSpec m' = (drSpec m)\<lparr>crNodes := ns\<rparr> \<and> mset ns = mset (crNodes (drSpec m)))
     \<and> GetName m' = GetName m \<and> GetNamespace m' = GetNamespace m \<and> asOwner m' = asOwner m
     \<and> metaGeneration (objMeta m') = metaGeneration (objMeta m)
     \<and> metaDeletionTimestamp (objMeta m') = metaDeletionTimestamp (objMeta m)"

lemma reread_refl [simp]: "reread m m"
  unfolding reread_def by (auto intro!: exI [of _ "crNodes (drSpec m)"])

lemma reread_spec:
  assumes "reread m m'"
  obtains ns where "drSpec m' = (drSpec m)\<lparr>crNodes := ns\<rparr>" "mset ns = mset (crNodes (drSpec m))"
    "GetName m' = GetName m" "GetNamespace m' = GetNamespace m" "asOwner m' = asOwner m"
    "metaGeneration (objMeta m') = metaGeneration (objMeta m)"
    "metaDeletionTimestamp (objMeta m') = metaDeletionTimestamp (objMeta m)"
  using assms unfolding reread_def by blast

text \<open>A probe that \<open>updateDefaultPortInProbe\<close> leaves alone: no HTTP probe, or one with a port.\<close>

definition portGiven :: "probe option \<Rightarrow> bool" where
  "portGiven prb = (case prb of None \<Rightarrow> True | Some p \<Rightarrow> (case prHTTPGet p of None \<Rightarrow> True
     | Some h \<Rightarrow> \<not> (iosIntVal (hgPort h) = 0 \<and> iosStrVal (hgPort h) = [])))"

lemma portGiven_update: "portGiven p \<Longrightarrow> updateDefaultPortInProbe p d = p"
  by (auto simp: portGiven_def updateDefaultPortInProbe_def split: option.splits)

definition unshared :: "druid \<Rightarrow> bool" where
  "unshared m \<longleftrightarrow> crWorkloadAnnotations (drSpec m) = None
     \<and> portGiven (crLivenessProbe (drSpec m)) \<and> portGiven (crReadinessProbe (drSpec m)) \<and> portGiven (crStartUpProbe (drSpec m))
     \<and> list_all (\<lambda>svc. metaLabels (objMeta svc) = None \<and> metaAnnotations (objMeta svc) = None \<and> svcSelector svc = None)
         (case crServices (drSpec m) of None \<Rightarrow> [] | Some l \<Rightarrow> l)"

lemma reread_unshared: "reread m m' \<Longrightarrow> unshared m' = unshared m"
  by (elim reread_spec) (simp add: unshared_def)

lemma reread_live: "reread m m' \<Longrightarrow> metaDeletionTimestamp (objMeta m') = metaDeletionTimestamp (objMeta m)"
  by (simp add: reread_def)

lemma reread_valid:
  assumes "reread m m'"
  shows "verifyDruidSpec m' = None \<longleftrightarrow> verifyDruidSpec m = None"
proof -
  obtain ns where ns: "drSpec m' = (drSpec m)\<lparr>crNodes := ns\<rparr>" "mset ns = mset (crNodes (drSpec m))"
    using assms by (rule reread_spec)
  from ns(2) have "set ns = set (crNodes (drSpec m))" by (rule mset_eq_setD)
  then show ?thesis by (simp add: verifyDruidSpec_None valid_spec_def ns(1) getAllAdditionalContainers_def)
qed

section \<open>Builders do not see the order\<close>

lemma reread_builders:
  assumes "reread m m'"
  shows "makeNodeSpecificUniqueString m' = makeNodeSpecificUniqueString m"
    "makeLabelsForNodeSpec n m' = makeLabelsForNodeSpec n m" "makeLabelsForDruid m' = makeLabelsForDruid m"
    "makeConfigMapForNodeSpec n m' = makeConfigMapForNodeSpec n m" "makeService lib svc n m' = makeService lib svc n m"
    "makeIngress n m' = makeIngress n m" "makePodDisruptionBudget n m' = makePodDisruptionBudget n m"
    "makeHorizontalPodAutoscaler n m' = makeHorizontalPodAutoscaler n m"
    "makePersistentVolumeClaim pvc n m' = makePersistentVolumeClaim pvc n m"
    "want lib kd wrap m' obj = want lib kd wrap m obj" "stamped lib wrap m' obj = stamped lib wrap m obj"
    "crServices (drSpec m') = crServices (drSpec m)" "GetName m' = GetName m" "GetNamespace m' = GetNamespace m"
  using assms
  by (elim reread_spec; simp add: fun_eq_iff makeNodeSpecificUniqueString_def makeLabelsForNodeSpec_def makeLabelsForDruid_def
      makeConfigMapForNodeSpec_def makeService_def makeIngress_def makePodDisruptionBudget_def
      makeHorizontalPodAutoscaler_def makePersistentVolumeClaim_def builtMeta_def want_def stamped_def split: option.split)+

lemma reread_common:
  assumes "reread m m'"
  shows "makeCommonConfigMap sdk m' (makeLabelsForDruid m') = makeCommonConfigMap sdk m (makeLabelsForDruid m)"
proof -
  obtain ns where "drSpec m' = (drSpec m)\<lparr>crNodes := ns\<rparr>" using assms by (rule reread_spec)
  moreover from this have "commonProperties lib m' = commonProperties lib m" "addExtraCommonConfig sdk m' = addExtraCommonConfig sdk m" for lib
    by (simp_all add: commonProperties_def addExtraCommonConfig_def fun_eq_iff Let_def split: sum.split)
  ultimately show ?thesis by (simp add: makeCommonConfigMap_def reread_builders [OF assms] Let_def)
qed

text \<open>
  For an unshared resource a builder that also returns the resource builds the same object and
  returns the resource unchanged.
\<close>

lemma unshared_annotations:
  "unshared m \<Longrightarrow> snd (makeAnnotationsForWorkload n m) = m" "unshared m \<Longrightarrow> shareAnnotations obj m = m"
  by (simp_all add: unshared_def makeAnnotationsForWorkload_def shareAnnotations_def)

lemma reread_annotations:
  "unshared m \<Longrightarrow> reread m m' \<Longrightarrow> fst (makeAnnotationsForWorkload n m') = fst (makeAnnotationsForWorkload n m)"
  by (elim reread_spec) (simp add: unshared_def makeAnnotationsForWorkload_def)

lemma unshared_probes:
  assumes "unshared m"
  shows "snd (setLivenessProbe n m) = m" "snd (setReadinessProbe n m) = m" "snd (setStartUpProbe n m) = m"
proof -
  have "firstNonNilValue None x = x" for x :: "probe option" by (simp add: firstNonNilValue_def)
  with assms show "snd (setLivenessProbe n m) = m" "snd (setReadinessProbe n m) = m" "snd (setStartUpProbe n m) = m"
    by (simp_all add: unshared_def setLivenessProbe_def setReadinessProbe_def setStartUpProbe_def Let_def portGiven_update)
qed

lemma reread_probes:
  assumes "reread m m'"
  shows "fst (setLivenessProbe n m') = fst (setLivenessProbe n m)" "fst (setReadinessProbe n m') = fst (setReadinessProbe n m)"
    "fst (setStartUpProbe n m') = fst (setStartUpProbe n m)"
  using assms
  by (elim reread_spec; simp add: setLivenessProbe_def setReadinessProbe_def setStartUpProbe_def Let_def)+

lemma unshared_pods:
  "unshared m \<Longrightarrow> snd (makePodSpec n m u c) = m" "unshared m \<Longrightarrow> snd (makePodTemplate n m ls u c) = m"
  by (simp_all add: makePodSpec_def makePodTemplate_def Let_def case_prod_beta unshared_probes)

lemma reread_pods:
  assumes "unshared m" "reread m m'"
  shows "fst (makePodSpec n m' u c) = fst (makePodSpec n m u c)"
    and "fst (makePodTemplate n m' ls u c) = fst (makePodTemplate n m ls u c)"
proof -
  obtain ns where ns: "drSpec m' = (drSpec m)\<lparr>crNodes := ns\<rparr>" "GetName m' = GetName m" using assms(2) by (rule reread_spec)
  have un: "unshared m'" using assms reread_unshared by simp
  show "fst (makePodSpec n m' u c) = fst (makePodSpec n m u c)"
    by (simp add: makePodSpec_def Let_def case_prod_beta unshared_probes [OF un] unshared_probes [OF assms(1)]
        reread_probes [OF assms(2)] ns getEnv_def getEnvFrom_def getVolumeMounts_def getTolerations_def getAffinity_def
        getVolume_def addAdditionalContainers_def getAllAdditionalContainers_def)
  then show "fst (makePodTemplate n m' ls u c) = fst (makePodTemplate n m ls u c)"
    by (simp add: makePodTemplate_def case_prod_beta ns)
qed

lemma unshared_statefulSet: "unshared m \<Longrightarrow> snd (makeStatefulSet n m ls u c sv) = m"
  by (simp add: makeStatefulSet_def makeStatefulSetSpec_def Let_def case_prod_beta unshared_annotations unshared_pods)

lemma reread_statefulSet:
  assumes "unshared m" "reread m m'"
  shows "fst (makeStatefulSet n m' ls u c sv) = fst (makeStatefulSet n m ls u c sv)"
proof -
  obtain ns where ns: "drSpec m' = (drSpec m)\<lparr>crNodes := ns\<rparr>" "GetNamespace m' = GetNamespace m" using assms(2) by (rule reread_spec)
  have un: "unshared m'" using assms reread_unshared by simp
  show ?thesis
    by (simp add: makeStatefulSet_def makeStatefulSetSpec_def Let_def case_prod_beta unshared_annotations [OF un]
        unshared_annotations [OF assms(1)] reread_annotations [OF assms] reread_pods [OF assms] ns getPersistentVolumeClaim_def)
qed

lemma unshared_deployment: "unshared m \<Longrightarrow> makeDeployment n m ls u c sv = Ok (d, x) \<Longrightarrow> x = m"
  by (auto simp: makeDeployment_def makeDeploymentSpec_def Let_def case_prod_beta unshared_annotations unshared_pods
      split: outcome.splits)

lemma reread_deployment:
  assumes "unshared m" "reread m m'"
  shows "makeDeployment n m' ls u c sv = map_outcome (\<lambda>(d, _). (d, m')) (makeDeployment n m ls u c sv)"
proof -
  have un: "unshared m'" using assms reread_unshared by simp
  show ?thesis
    by (cases "getRollingUpdateStrategy n")
       (simp_all add: makeDeployment_def makeDeploymentSpec_def Let_def case_prod_beta unshared_annotations [OF un]
        unshared_annotations [OF assms(1)] unshared_pods [OF un] unshared_pods [OF assms(1)] reread_annotations [OF assms]
        reread_pods [OF assms] reread_builders [OF assms(2)])
qed

section \<open>The plan of a node group\<close>

lemma leaveService_plain:
  "metaLabels (objMeta svc) = None \<Longrightarrow> metaAnnotations (objMeta svc) = None \<Longrightarrow> svcSelector svc = None \<Longrightarrow> leaveService built svc = svc"
  by (simp add: leaveService_def Let_def)

lemma unshared_leave:
  assumes "unshared m"
  shows "updSpec (\<lambda>sp. sp\<lparr>crServices := map_option (\<lambda>l. l[i := leaveService built (l ! i)]) (crServices sp)\<rparr>) m = m"
proof -
  have "map_option (\<lambda>l. l[i := leaveService built (l ! i)]) (crServices (drSpec m)) = crServices (drSpec m)"
  proof (cases "crServices (drSpec m)")
    case (Some l)
    have "leaveService built (l ! i) = l ! i" if "i < length l"
      using assms that nth_mem [OF that] by (intro leaveService_plain) (auto simp: unshared_def Some list_all_iff)
    then show ?thesis by (cases "i < length l") (simp_all add: Some list_update_beyond)
  qed simp
  then show ?thesis by simp
qed

lemma unshared_planServices:
  assumes "unshared m"
  shows "fst (planServices lib n lm u m first svcs) = m"
proof (induction svcs arbitrary: first)
  case (Cons x svcs)
  then show ?case
    by (cases x) (simp add: Let_def case_prod_beta unshared_leave [OF assms] cong: if_cong)
qed simp

lemma reread_planServices:
  assumes "unshared m" "reread m m'"
  shows "snd (planServices lib n lm u m' first svcs) = snd (planServices lib n lm u m first svcs)"
proof (induction svcs arbitrary: first)
  case (Cons x svcs)
  obtain i svc where x: "x = (i, svc)" by (cases x)
  have un: "unshared m'" using assms reread_unshared by simp
  show ?case
    unfolding x planServices.simps Let_def
    unfolding unshared_leave [OF assms(1)] unshared_leave [OF un] if_cancel
    unfolding case_prod_beta Cons.IH reread_builders [OF assms(2)] by simp
qed simp

lemma unshared_planWorkload:
  "unshared m \<Longrightarrow> planWorkload lib n lm u sha first m = Ok (x, acts) \<Longrightarrow> x = m"
  by (auto simp: planWorkload_def bindO_Ok case_prod_beta unshared_annotations(2) unshared_statefulSet
      split: if_splits dest: unshared_deployment) (metis unshared_annotations(2) unshared_deployment)

lemma reread_planWorkload:
  assumes "unshared m" "reread m m'"
  shows "planWorkload lib n lm u sha first m' = map_outcome (\<lambda>(_, acts). (m', acts)) (planWorkload lib n lm u sha first m)"
proof -
  have un: "unshared m'" using assms reread_unshared by simp
  note simps = planWorkload_def bindO_def case_prod_beta unshared_annotations(2) [OF un] reread_builders [OF assms(2)]
    unshared_statefulSet [OF un] unshared_statefulSet [OF assms(1)] reread_statefulSet [OF assms] reread_deployment [OF assms]
  show ?thesis
  proof (cases "makeDeployment n m lm u sha first")
    case (Ok p)
    then have "snd p = m" using unshared_deployment [OF assms(1)] by (cases p) simp
    with Ok show ?thesis by (simp add: simps)
  qed (simp_all add: simps)
qed

lemma reread_planExtras: "reread m m' \<Longrightarrow> planExtras lib n ls lm u m' = planExtras lib n ls lm u m"
  by (simp add: planExtras_def reread_builders)

lemma reread_planNode:
  assumes "unshared m" "reread m m'"
  shows "planNode lib ls sha m' elem = map_outcome (\<lambda>(_, acts). (m', acts)) (planNode lib ls sha m elem)"
proof -
  let ?n = "sgSpec elem" and ?u = "makeNodeSpecificUniqueString m (sgKey elem)"
  let ?lm = "makeLabelsForNodeSpec ?n m (GetName m) ?u"
  let ?svc = "snd (planServices lib ?n ?lm ?u m [] (enumerate 0 (nodeServices ?n m)))"
  let ?cm = "makeConfigMapForNodeSpec ?n m ?lm ?u"
  have un: "unshared m'" using assms reread_unshared by simp
  have node: "planNode lib ls sha x elem = bindO (eitherO (getObjectHash lib (KConfigMap ?cm))) (\<lambda>nodeSHA.
      bindO (planWorkload lib (withDruidPort ?n) ?lm ?u (sha @ ''-'' @ nodeSHA) (fst ?svc) x) (\<lambda>(m2, workload).
      bindO (planExtras lib (withDruidPort ?n) ls ?lm ?u m2) (\<lambda>extras.
        Ok (m2, want lib ConfigMapKind KConfigMap m ?cm # snd ?svc @ workload @ extras))))"
    if x: "reread m x" for x
  proof -
    have "unshared x" using x assms(1) reread_unshared by simp
    then show ?thesis
      unfolding planNode_def Let_def reread_builders [OF x] case_prod_beta
      by (simp add: reread_planServices [OF assms(1) x] unshared_planServices)
  qed
  show ?thesis
  proof (cases "getObjectHash lib (KConfigMap ?cm)")
    case (Inr h)
    let ?w = "planWorkload lib (withDruidPort ?n) ?lm ?u (sha @ ''-'' @ h) (fst ?svc) m"
    show ?thesis
      unfolding node [OF assms(2)] node [OF reread_refl] Inr
      using unshared_planWorkload [OF assms(1), of lib "withDruidPort ?n" ?lm ?u "sha @ ''-'' @ h" "fst ?svc"]
      by (cases ?w) (auto simp: eitherO_def bindO_def reread_planWorkload [OF assms] reread_planExtras [OF assms(2)] split: outcome.split)
  qed (simp add: node [OF assms(2)] node [OF reread_refl] eitherO_def bindO_def)
qed

section \<open>The whole plan\<close>

definition nodeActs :: "golib \<Rightarrow> strmap \<Rightarrow> string \<Rightarrow> druid \<Rightarrow> service_group \<Rightarrow> act list" where
  "nodeActs lib ls sha m elem = (case planNode lib ls sha m elem of Ok (_, acts) \<Rightarrow> acts | _ \<Rightarrow> [])"

text \<open>The plan of an unshared resource is made of the plans of its node groups, each on its own.\<close>

lemma reread_planNodes:
  assumes "unshared m" "reread m m'"
  shows "planNodes lib ls sha m' elems = Ok (x, acts) \<longleftrightarrow>
    x = m' \<and> (\<forall>e \<in> set elems. \<exists>y a. planNode lib ls sha m e = Ok (y, a)) \<and> acts = concat (map (nodeActs lib ls sha m) elems)"
proof (induction elems arbitrary: x acts)
  case (Cons e elems)
  show ?case
  proof (cases "planNode lib ls sha m e")
    case (Ok p)
    then have "planNode lib ls sha m' e = Ok (m', nodeActs lib ls sha m e)"
      by (cases p) (simp add: reread_planNode [OF assms] nodeActs_def)
    with Ok Cons.IH show ?thesis by (cases p) (auto simp: bindO_Ok)
  qed (simp_all add: reread_planNode [OF assms] bindO_def)
qed auto

lemma reread_groups: "reread m m' \<Longrightarrow> mset (getNodeSpecsByOrder m') = mset (getNodeSpecsByOrder m)"
  by (elim reread_spec) (simp add: mset_getNodeSpecsByOrder)

lemma ensuredNames_set: "set as = set bs \<Longrightarrow> ensuredNames kd as = ensuredNames kd bs"
  by (simp add: ensuredNames_def)

text \<open>Reading the resource again permutes its plan: the wanted objects, and after them the same sweeps.\<close>

lemma reread_plan:
  assumes un: "unshared m" and re: "reread m m'" and plan: "clusterPlan lib m cc = Ok acts"
  obtains acts' where "clusterPlan lib m' cc = Ok acts'" "mset acts' = mset acts" "set acts' = set acts"
    "mset (filter isEnsure acts') = mset (filter isEnsure acts)" "mset (wantedKeys acts') = mset (wantedKeys acts)"
proof -
  let ?ls = "makeLabelsForDruid m" and ?w = "want lib ConfigMapKind KConfigMap m cc"
  from plan obtain sha x nodes where hash: "getObjectHash lib (KConfigMap cc) = Inr sha"
    and nodes: "planNodes lib ?ls sha m (getNodeSpecsByOrder m) = Ok (x, nodes)"
    and acts: "acts = (?w # nodes) @ sweeps (GetNamespace m) ?ls (?w # nodes)"
    by (rule clusterPlanE)
  let ?f = "nodeActs lib ?ls sha m"
  let ?nodes = "concat (map ?f (getNodeSpecsByOrder m'))"
  note self = nodes [unfolded reread_planNodes [OF un reread_refl]]
  note groups = reread_groups [OF re]
  have flat: "mset (concat (map ?f es)) = \<Sum>\<^sub># (image_mset (\<lambda>e. mset (?f e)) (mset es))" for es
    by (induction es) simp_all
  have perm: "mset ?nodes = mset nodes"
    using self groups by (simp only: flat)
  have "planNodes lib ?ls sha m' (getNodeSpecsByOrder m') = Ok (m', ?nodes)"
    unfolding reread_planNodes [OF un re] using self mset_eq_setD [OF groups] by simp
  then have plan': "clusterPlan lib m' cc = Ok ((?w # ?nodes) @ sweeps (GetNamespace m) ?ls (?w # ?nodes))"
    by (simp add: clusterPlan_def Let_def reread_builders [OF re] hash eitherO_def bindO_def)
  have sw: "sweeps (GetNamespace m) ?ls (?w # ?nodes) = sweeps (GetNamespace m) ?ls (?w # nodes)"
    using ensuredNames_set [of "?w # ?nodes" "?w # nodes"] mset_eq_setD [OF perm] by (simp add: sweeps_def)
  have m: "mset ((?w # ?nodes) @ sweeps (GetNamespace m) ?ls (?w # ?nodes)) = mset acts"
    unfolding sw acts using perm by simp
  have "mset (wantedKeys as) = image_mset (\<lambda>a. case a of Ensure kd key d \<Rightarrow> (kd, key)) (mset (filter isEnsure as))" for as
    by (induction as rule: wantedKeys.induct) simp_all
  with m show thesis by (intro that [OF plan' m mset_eq_setD [OF m]]) (metis mset_filter, metis mset_filter)
qed

end
