(* ===== verification/Cluster_Refinement.thy ===== *)
theory Cluster_Refinement
  imports Plan_Following Node_Order
begin

text \<open>
  A deployment refines its plan. The contract \<open>cluster_store\<close> asks of the server that every kind
  of object the operator manages is a \<open>kind_store\<close>, and that pods and patches of the custom
  resource are a separate matter (\<open>other_requests\<close>). It makes the claim \<open>doing\<close> one that a deployment
  follows (\<open>plan_follower\<close>), so that \<open>deployDruidCluster\<close> performs its \<open>clusterPlan\<close>. The contract is
  discharged for the server in memory. Proved over it: a run without rolling deployment brings the
  cluster to the planned state, and a second run changes nothing.
\<close>

section \<open>Doing the actions\<close>

text \<open>
  The claim that code succeeds and does its actions: the abstraction of the state afterwards is
  what they make of it, and nothing changes if they are settled.
\<close>

definition doing :: "('w \<Rightarrow> dstore) \<Rightarrow> 'w claim" where
  "doing view acts s es s' b \<longleftrightarrow> b \<and> view s' = applyActs acts (view s) \<and> (settled acts (view s) \<longrightarrow> \<not> list_ex changes es)"

lemma follows_does: "follows good (doing view) m D P acts \<longleftrightarrow> does good view m (\<lambda>x. D x \<and> P x) acts"
proof -
  have "(good s \<longrightarrow> good (post m s) \<and> (\<forall>x. res m s = Ok x \<longrightarrow> P x \<and> doing view acts s (effs m s) (post m s) (D x))
      \<and> ((\<forall>x. res m s \<noteq> Ok x) \<longrightarrow> doing view acts s (effs m s) (post m s) False))
    \<longleftrightarrow> (good s \<longrightarrow> (\<exists>x. res m s = Ok x \<and> D x \<and> P x) \<and> good (post m s) \<and> view (post m s) = applyActs acts (view s)
      \<and> (settled acts (view s) \<longrightarrow> \<not> list_ex changes (effs m s)))" for s
    by (cases "res m s") (auto simp: doing_def)
  then show ?thesis unfolding follows_def does_def by simp
qed

lemma does_follows: "does good view m P acts \<longleftrightarrow> follows good (doing view) m always P acts"
  by (simp add: follows_does)

lemma composable_doing: "composable good (doing view)"
  by unfold_locales (auto simp: doing_def settled_apply)

section \<open>The contract of the whole server\<close>

definition kinded_client :: "'w client \<Rightarrow> bool" where
  "kinded_client sdk \<longleftrightarrow>
     apiKind (clConfigMaps sdk) = ConfigMapKind \<and> apiKind (clServices sdk) = ServiceKind
   \<and> apiKind (clStatefulSets sdk) = StatefulSetKind \<and> apiKind (clDeployments sdk) = DeploymentKind
   \<and> apiKind (clPVCs sdk) = PVCKind \<and> apiKind (clPDBs sdk) = PDBKind
   \<and> apiKind (clHPAs sdk) = HPAKind \<and> apiKind (clIngresses sdk) = IngressKind"

text \<open>
  Reads and deletions of pods and patches of the status leave the managed kinds alone, whatever
  they answer.
\<close>

locale other_requests =
  fixes sdk :: "'w client" and good :: "'w \<Rightarrow> bool" and view :: "'w \<Rightarrow> dstore"
  assumes typed: "typed_client sdk"
    and pods_listed: "good s \<Longrightarrow> good (snd (apiList (clPods sdk) ns ls s)) \<and> view (snd (apiList (clPods sdk) ns ls s)) = view s"
    and pod_deleted: "good s \<Longrightarrow> good (snd (apiDelete (clPods sdk) opt p s)) \<and> view (snd (apiDelete (clPods sdk) opt p s)) = view s"
    and status_patched: "good s \<Longrightarrow> good (snd (apiStatusPatch (clDruids sdk) st m s))
      \<and> view (snd (apiStatusPatch (clDruids sdk) st m s)) = view s"
begin

lemma keeps_pods [keeps_intro]:
  "keeps good view (reader_List (clPods sdk) ls m)" "keeps good view (writer_Delete (clPods sdk) opt p)"
proof -
  have "\<not> list_ex changes (effs (reader_List (clPods sdk) ls m) s)" for s
    using requests_change [of "effs (reader_List (clPods sdk) ls m) s" "[ListCall (apiKind (clPods sdk)) (GetNamespace m) ls]"]
    by (simp add: api_requests)
  moreover have "\<not> list_ex changes (effs (writer_Delete (clPods sdk) opt p) s)" for s
    using requests_change [of "effs (writer_Delete (clPods sdk) opt p) s" "[DeleteCall (apiWrap (clPods sdk) p) opt]"] typed
    by (simp add: api_requests typed_client_def)
  ultimately show "keeps good view (reader_List (clPods sdk) ls m)" "keeps good view (writer_Delete (clPods sdk) opt p)"
    by (simp_all add: keeps_def api_posts pods_listed pod_deleted)
qed

lemma keeps_crash_check: "keeps good view (execCheckCrashStatus sdk n m u)"
  unfolding execCheckCrashStatus_def checkCrashStatus_def crash_step_def crash_containers_def
  by (intro keeps_intro)

lemma keeps_pod_names: "keeps good view (handleE (reader_List (clPods sdk) ls m) (\<lambda>err. ret []) ret)"
  by (intro keeps_intro)

lemma keeps_status: "keeps good view (druidClusterStatusPatcher sdk st m)"
proof -
  have "\<not> list_ex changes (effs (druidClusterStatusPatcher sdk st m) s)" for s
    using requests_change [of "effs (druidClusterStatusPatcher sdk st m) s"
        "if st = drStatus m then [] else [StatusPatchCall (apiWrap (clDruids sdk) m) (MergePatchStatus st)]"]
    by (simp add: patcher_requests split: if_splits)
  then show ?thesis
    using status_patched by (simp add: keeps_def druidClusterStatusPatcher_def go_run api_posts split: outcome.split)
qed

end

lemma pod_names_ok: "\<exists>x. res (handleE (reader_List (clPods sdk) ls m) (\<lambda>err. ret []) ret) s = Ok x"
  by (simp add: go_run api_results split: sum.split)

text \<open>
  \<open>cr\<close> is the custom resource that is reconciled: the server has it, so that its finalizers can
  be patched; the answer has the spec and the identity of what was sent.
\<close>

locale frame_store = other_requests sdk good view +
  cms: kind_store "clConfigMaps sdk" good view + svcs: kind_store "clServices sdk" good view +
  pvcs: kind_store "clPVCs sdk" good view + pdbs: kind_store "clPDBs sdk" good view +
  hpas: kind_store "clHPAs sdk" good view + ings: kind_store "clIngresses sdk" good view
  for sdk :: "'w client" and good :: "'w \<Rightarrow> bool" and view :: "'w \<Rightarrow> dstore" +
  fixes cr :: druid
  assumes kinded: "kinded_client sdk"
    and cr_patched: "good s \<Longrightarrow> \<exists>m' s'. apiPatch (clDruids sdk) (JSONPatchFinalizers fs) (SetFinalizers fs cr) s = (Inr m', s')
      \<and> good s' \<and> view s' = view s \<and> same_core m' cr"
begin

lemmas prepared_stamped = typed_prepared [OF typed]

lemma sync_want:
  "does good view (sdkCreateOrUpdateAsNeeded lib (clConfigMaps sdk) (ret cm) alwaysTrueIsEqualsFn noopUpdaterFn m ns)
     (\<lambda>(st, ns', x). ns' = insert (GetName cm) ns \<and> x = stamped lib KConfigMap m cm) [want lib ConfigMapKind KConfigMap m cm]"
  "does good view (sdkCreateOrUpdateAsNeeded lib (clServices sdk) (ret svc) alwaysTrueIsEqualsFn keepClusterIP m ns)
     (\<lambda>(st, ns', x). ns' = insert (GetName svc) ns \<and> x = stamped lib KService m svc) [want lib ServiceKind KService m svc]"
  "does good view (sdkCreateOrUpdateAsNeeded lib (clPVCs sdk) (ret pvc) alwaysTrueIsEqualsFn noopUpdaterFn m ns)
     (\<lambda>(st, ns', x). ns' = insert (GetName pvc) ns \<and> x = stamped lib KPVC m pvc) [want lib PVCKind KPVC m pvc]"
  "does good view (sdkCreateOrUpdateAsNeeded lib (clPDBs sdk) (ret pdb) alwaysTrueIsEqualsFn noopUpdaterFn m ns)
     (\<lambda>(st, ns', x). ns' = insert (GetName pdb) ns \<and> x = stamped lib KPDB m pdb) [want lib PDBKind KPDB m pdb]"
  "does good view (sdkCreateOrUpdateAsNeeded lib (clHPAs sdk) (ret hpa) alwaysTrueIsEqualsFn noopUpdaterFn m ns)
     (\<lambda>(st, ns', x). ns' = insert (GetName hpa) ns \<and> x = stamped lib KHPA m hpa) [want lib HPAKind KHPA m hpa]"
  "does good view (sdkCreateOrUpdateAsNeeded lib (clIngresses sdk) (ret ing) alwaysTrueIsEqualsFn noopUpdaterFn m ns)
     (\<lambda>(st, ns', x). ns' = insert (GetName ing) ns \<and> x = stamped lib KIngress m ing) [want lib IngressKind KIngress m ing]"
  using cms.sync_refines [of alwaysTrueIsEqualsFn noopUpdaterFn lib cm m ns]
    svcs.sync_refines [of alwaysTrueIsEqualsFn keepClusterIP lib svc m ns]
    pvcs.sync_refines [of alwaysTrueIsEqualsFn noopUpdaterFn lib pvc m ns]
    pdbs.sync_refines [of alwaysTrueIsEqualsFn noopUpdaterFn lib pdb m ns]
    hpas.sync_refines [of alwaysTrueIsEqualsFn noopUpdaterFn lib hpa m ns]
    ings.sync_refines [of alwaysTrueIsEqualsFn noopUpdaterFn lib ing m ns] kinded
  by (simp_all add: alwaysTrueIsEqualsFn_def noopUpdaterFn_def keepClusterIP_def want_def prepared_stamped kinded_client_def)

sublocale follow: frame_follower good "doing view" sdk
  using composable_doing [of good view] sync_want typed
  by (simp add: frame_follower_def frame_follower_axioms_def does_follows)

subsection \<open>The parts of a node group\<close>

lemma extras_perform:
  "planExtras (clLib sdk) n ls lm u m = Ok acts \<Longrightarrow>
   does good view (node_extras sdk n ls lm u m names) (\<lambda>names'. names' = absorb acts names) acts"
  unfolding does_follows by (rule follow.extras_follow)

lemma node_services_perform:
  "planServices (clLib sdk) n lm u m [] (enumerate 0 (nodeServices n m)) = (m1, first, services) \<Longrightarrow>
   does good view (node_services sdk n lm u m names) (\<lambda>r. r = (m1, absorb services names, first)) services"
  unfolding does_follows by (rule follow.node_services_follow)

subsection \<open>Status and finalizers\<close>

lemma crash_check_performs: "does good view (execCheckCrashStatus sdk n m u) always []"
  by (rule does_keeps [OF keeps_crash_check]) (simp add: execCheckCrashStatus_ok)

lemma pod_names_perform: "does good view (handleE (reader_List (clPods sdk) ls m) (\<lambda>err. ret []) ret) always []"
  by (rule does_keeps [OF keeps_pod_names]) (simp add: pod_names_ok)

lemma status_performs: "does good view (druidClusterStatusPatcher sdk st m) always []"
  by (rule does_keeps [OF keeps_status]) (simp add: patcher_ok)

lemma finalizers_perform: "does good view (updateFinalizers sdk cr) (\<lambda>m. same_core m cr) []"
proof (cases "metaFinalizers (objMeta cr) = desiredFinalizers cr")
  case True
  then show ?thesis by (simp add: updateFinalizers_def does_ret same_core_def)
next
  case False
  then show ?thesis
    unfolding does_def updateFinalizers_def Let_def
    using cr_patched [of _ "desiredFinalizers cr"] by (fastforce simp: go_run sdk_defs)
qed

lemma common_config_pure:
  assumes "good s"
  shows "post (makeCommonConfigMap sdk m ls) s = s"
proof -
  have "post (sdkGet (clConfigMaps sdk) n ns) s = s" for n ns
    using cms.get_absent [OF assms, of n ns] cms.get_present [OF assms, of n ns]
    by (cases "view s (apiKind (clConfigMaps sdk)) (n, ns)") (auto simp: sdk_defs go_run)
  then have "post (foldE (\<lambda>data cmRef. handleE (sdkGet (clConfigMaps sdk) (orName cmRef) (orNamespace cmRef))
      (\<lambda>err. ret data) (\<lambda>cm. ret (data ++\<^sub>f cmData cm))) data refs) s = s" for data and refs :: "object_reference list"
    by (induction refs arbitrary: data) (simp_all add: go_run split: outcome.split)
  then have "post (addExtraCommonConfig sdk m data) s = s" for data
    by (simp add: addExtraCommonConfig_def)
  then show ?thesis
    by (simp add: makeCommonConfigMap_def go_run Let_def split: outcome.split)
qed

text \<open>
  The common ConfigMap is built twice, without changing anything; then it is synchronised and
  the node groups are deployed.
\<close>

lemma deploy_unfold:
  assumes g: "good s" and valid: "verifyDruidSpec cr = None" and live: "metaDeletionTimestamp (objMeta cr) = None"
    and cc: "res (makeCommonConfigMap sdk cr (makeLabelsForDruid cr)) s = Ok cc"
    and hash: "getObjectHash (clLib sdk) (KConfigMap cc) = Inr sha"
    and R: "R = bindE (sdkCreateOrUpdateAsNeeded (clLib sdk) (clConfigMaps sdk) (ret cc) alwaysTrueIsEqualsFn noopUpdaterFn cr {})
      (\<lambda>(_, configMapNames, _). deployLive sdk (getNodeSpecsByOrder cr) (makeLabelsForDruid cr) sha configMapNames cr)"
  shows "res (deployDruidCluster sdk cr) s = res R s" "post (deployDruidCluster sdk cr) s = post R s"
    "list_ex changes (effs (deployDruidCluster sdk cr) s) = list_ex changes (effs R s)"
proof -
  let ?C = "makeCommonConfigMap sdk cr (makeLabelsForDruid cr)"
  have pure: "post ?C s = s" by (rule common_config_pure [OF g])
  have quiet: "\<not> list_ex changes (effs ?C s)"
  proof -
    have "is_get e \<Longrightarrow> \<not> changes e" for e by (auto simp: is_get_def)
    then show ?thesis using onlyD [OF only_makeCommonConfigMap, of _ sdk cr "makeLabelsForDruid cr" s] by (auto simp: list_ex_iff)
  qed
  have wrap: "apiWrap (clConfigMaps sdk) = KConfigMap" using typed by (simp add: typed_client_def)
  have sync: "sdkCreateOrUpdateAsNeeded (clLib sdk) (clConfigMaps sdk) ?C eq up cr ns =
      bindE ?C (\<lambda>obj. sdkCreateOrUpdateAsNeeded (clLib sdk) (clConfigMaps sdk) (ret obj) eq up cr ns)" for eq up ns
    by (simp add: sync_unfold)
  have "effs (deployDruidCluster sdk cr) s = effs ?C s @ effs ?C s @ effs R s"
    "res (deployDruidCluster sdk cr) s = res R s" "post (deployDruidCluster sdk cr) s = post R s"
    unfolding deployDruidCluster_def valid option.case Let_def wrap sync bindE_assoc R
    by (simp_all add: bindE_run cc pure hash live)
  with quiet show "res (deployDruidCluster sdk cr) s = res R s" "post (deployDruidCluster sdk cr) s = post R s"
    "list_ex changes (effs (deployDruidCluster sdk cr) s) = list_ex changes (effs R s)" by simp_all
qed

end

text \<open>The same together with the workloads, whose creation and update start pods.\<close>

locale cluster_store = frame_store sdk good view cr + stss: kind_store "clStatefulSets sdk" good view +
  deps: kind_store "clDeployments sdk" good view
  for sdk :: "'w client" and good :: "'w \<Rightarrow> bool" and view :: "'w \<Rightarrow> dstore" and cr :: druid
begin

lemma sync_workload:
  "does good view (sdkCreateOrUpdateAsNeeded lib (clStatefulSets sdk) (ret sts) statefulSetIsEquals noopUpdaterFn m ns)
     (\<lambda>(st, ns', x). ns' = insert (GetName sts) ns \<and> x = stamped lib KStatefulSet m sts) [want lib StatefulSetKind KStatefulSet m sts]"
  "does good view (sdkCreateOrUpdateAsNeeded lib (clDeployments sdk) (ret dep) deploymentIsEquals noopUpdaterFn m ns)
     (\<lambda>(st, ns', x). ns' = insert (GetName dep) ns \<and> x = stamped lib KDeployment m dep) [want lib DeploymentKind KDeployment m dep]"
  using stss.sync_refines [of statefulSetIsEquals noopUpdaterFn lib sts m ns]
    deps.sync_refines [of deploymentIsEquals noopUpdaterFn lib dep m ns] kinded
  by (simp_all add: statefulSetIsEquals_def deploymentIsEquals_def noopUpdaterFn_def want_def prepared_stamped kinded_client_def)

text \<open>A run that goes straight through neither expands volumes, nor removes orphans, nor stops early.\<close>

lemma direct_options:
  "direct m \<Longrightarrow> \<not> crRollingDeploy (drSpec m)" "direct m \<Longrightarrow> \<not> (metaGeneration (objMeta m) > 1 \<and> crScalePvcSts (drSpec m))"
  "direct m \<Longrightarrow> \<not> (metaGeneration (objMeta m) > 1 \<and> crDeleteOrphanPvc (drSpec m))"
  by (auto simp: direct_def steady_def)

lemma cleanups_perform:
  "does good view (deleteUnusedResources (clStatefulSets sdk) m names ls) always [Sweep StatefulSetKind (GetNamespace m) ls names]"
  "does good view (deleteUnusedResources (clDeployments sdk) m names ls) always [Sweep DeploymentKind (GetNamespace m) ls names]"
  "does good view (deleteUnusedResources (clHPAs sdk) m names ls) always [Sweep HPAKind (GetNamespace m) ls names]"
  "does good view (deleteUnusedResources (clIngresses sdk) m names ls) always [Sweep IngressKind (GetNamespace m) ls names]"
  "does good view (deleteUnusedResources (clPDBs sdk) m names ls) always [Sweep PDBKind (GetNamespace m) ls names]"
  "does good view (deleteUnusedResources (clServices sdk) m names ls) always [Sweep ServiceKind (GetNamespace m) ls names]"
  "does good view (deleteUnusedResources (clConfigMaps sdk) m names ls) always [Sweep ConfigMapKind (GetNamespace m) ls names]"
  using stss.cleanup_refines [of m names ls] deps.cleanup_refines [of m names ls] hpas.cleanup_refines [of m names ls]
    ings.cleanup_refines [of m names ls] pdbs.cleanup_refines [of m names ls] svcs.cleanup_refines [of m names ls]
    cms.cleanup_refines [of m names ls] kinded
  by (simp_all add: kinded_client_def)

sublocale plan: plan_follower good "doing view" sdk cr direct
proof (unfold_locales, goal_cases)
  case 1
  show ?case using sync_workload(1) by (simp add: does_follows)
next
  case 2
  show ?case using sync_workload(2) by (simp add: does_follows)
next
  case 3
  then show ?case by (rule direct_frame)
next
  case 4
  then show ?case by (rule direct_core)
next
  case 8
  show ?case using crash_check_performs by (simp add: does_follows)
next
  case 11
  show ?case using finalizers_perform by (simp add: does_follows)
next
  case 19
  show ?case using pod_names_perform by (simp add: does_follows)
next
  case 20
  show ?case using status_performs by (simp add: does_follows)
qed (use direct_options cleanups_perform in \<open>auto simp: does_follows\<close>)

lemma cleanup_performs:
  "does good view (cleanup_and_status sdk ls m names) always
     [Sweep StatefulSetKind (GetNamespace m) ls (wnStatefulSets names), Sweep DeploymentKind (GetNamespace m) ls (wnDeployments names),
      Sweep HPAKind (GetNamespace m) ls (wnHPAs names), Sweep IngressKind (GetNamespace m) ls (wnIngresses names),
      Sweep PDBKind (GetNamespace m) ls (wnPodDisruptionBudgets names), Sweep ServiceKind (GetNamespace m) ls (wnServices names),
      Sweep ConfigMapKind (GetNamespace m) ls (wnConfigMaps names)]"
  unfolding does_follows by (rule plan.cleanup_follows)

subsection \<open>The whole deployment\<close>

lemma deploy_performs:
  assumes g: "good s" and valid: "verifyDruidSpec cr = None" and live: "metaDeletionTimestamp (objMeta cr) = None"
    and d: "direct cr" and cc: "res (makeCommonConfigMap sdk cr (makeLabelsForDruid cr)) s = Ok cc"
    and plan: "clusterPlan (clLib sdk) cr cc = Ok acts"
  shows "(\<exists>m'. res (deployDruidCluster sdk cr) s = Ok m') \<and> good (post (deployDruidCluster sdk cr) s)
    \<and> view (post (deployDruidCluster sdk cr) s) = applyActs acts (view s)
    \<and> (settled acts (view s) \<longrightarrow> \<not> list_ex changes (effs (deployDruidCluster sdk cr) s))"
proof -
  let ?ls = "makeLabelsForDruid cr"
  let ?w = "want (clLib sdk) ConfigMapKind KConfigMap cr cc"
  from plan obtain sha m' nodes where hash: "getObjectHash (clLib sdk) (KConfigMap cc) = Inr sha"
    and nodes: "planNodes (clLib sdk) ?ls sha cr (getNodeSpecsByOrder cr) = Ok (m', nodes)"
    and acts: "acts = (?w # nodes) @ sweeps (GetNamespace cr) ?ls (?w # nodes)"
    by (rule clusterPlanE)
  define R where R: "R = bindE (sdkCreateOrUpdateAsNeeded (clLib sdk) (clConfigMaps sdk) (ret cc) alwaysTrueIsEqualsFn noopUpdaterFn cr {})
    (\<lambda>(_, configMapNames, _). deployLive sdk (getNodeSpecsByOrder cr) ?ls sha configMapNames cr)"
  have "does good view R always (?w # nodes @ sweeps (GetNamespace cr) ?ls (?w # nodes))"
    using plan.deploy_follows [OF d nodes, of cc, folded R] direct_options(1) [OF d] by (simp add: does_follows)
  from this g obtain x where "res R s = Ok x" "good (post R s)" "view (post R s) = applyActs acts (view s)"
    "settled acts (view s) \<longrightarrow> \<not> list_ex changes (effs R s)"
    unfolding acts by (elim doesD) auto
  with deploy_unfold [OF g valid live cc hash R] show ?thesis by auto
qed

end

section \<open>The server in memory keeps the contract\<close>

lemma memory_apis:
  "clConfigMaps memClient = memApi ConfigMapKind KConfigMap unConfigMap" "clServices memClient = memApi ServiceKind KService unService"
  "clStatefulSets memClient = memApi StatefulSetKind KStatefulSet unStatefulSet"
  "clDeployments memClient = memApi DeploymentKind KDeployment unDeployment" "clPods memClient = memApi PodKind KPod unPod"
  "clPVCs memClient = memApi PVCKind KPVC unPVC" "clPDBs memClient = memApi PDBKind KPDB unPDB"
  "clHPAs memClient = memApi HPAKind KHPA unHPA" "clIngresses memClient = memApi IngressKind KIngress unIngress"
  "clDruids memClient = memApi DruidKind KDruid unDruid" "clLib memClient = memLib"
  by (simp_all add: memClient_def)

lemma memory_kinds:
  "kind_store (clConfigMaps memClient) (memGood cr) memView" "kind_store (clServices memClient) (memGood cr) memView"
  "kind_store (clStatefulSets memClient) (memGood cr) memView" "kind_store (clDeployments memClient) (memGood cr) memView"
  "kind_store (clPVCs memClient) (memGood cr) memView" "kind_store (clPDBs memClient) (memGood cr) memView"
  "kind_store (clHPAs memClient) (memGood cr) memView" "kind_store (clIngresses memClient) (memGood cr) memView"
  unfolding memory_apis by (intro memory_kind_store wraps_kinds; simp add: managed_def)+

text \<open>Replacing or deleting a pod or a custom resource leaves the managed kinds alone.\<close>

lemma replace_other:
  assumes "\<not> managed (kindOf (wrap x))"
  shows "memView (snd (memReplace wrap x w)) = memView w" and "memGood cr w \<Longrightarrow> memGood cr (snd (memReplace wrap x w))"
proof -
  let ?f = "\<lambda>k. if kobjKey k = kobjKey (wrap x) then wrap x else k"
  have keys: "map kobjKey (map ?f (wObjs w)) = map kobjKey (wObjs w)" by (simp add: comp_def)
  have "find (\<lambda>k. kobjKey k = (kd, key)) (map ?f (wObjs w)) = find (\<lambda>k. kobjKey k = (kd, key)) (wObjs w)" if "managed kd" for kd key
    using that assms by (intro find_replace_other) (auto simp: kobjKey_def)
  then show "memView (snd (memReplace wrap x w)) = memView w"
    by (simp add: memReplace_def Let_def sameKey_kobjKey kobjKey_def [of "wrap x", symmetric] memView_def fun_eq_iff)
  show "memGood cr w \<Longrightarrow> memGood cr (snd (memReplace wrap x w))"
  proof -
    have "map kobjKey (wObjs (w\<lparr>wObjs := map ?f (wObjs w)\<rparr>)) = map kobjKey (wObjs w)" using keys by simp
    then have "memGood cr (w\<lparr>wObjs := map ?f (wObjs w)\<rparr>) = memGood cr w" unfolding memGood_def by (simp only:)
    then show "memGood cr w \<Longrightarrow> memGood cr (snd (memReplace wrap x w))"
      by (simp add: memReplace_def Let_def sameKey_kobjKey kobjKey_def [of "wrap x", symmetric])
  qed
qed

lemma delete_pod:
  "memView (snd (memDelete KPod p w)) = memView w" "memGood cr w \<Longrightarrow> memGood cr (snd (memDelete KPod p w))"
  by (auto simp: memDelete_def Let_def sameKey_kobjKey memView_def memGood_def fun_eq_iff managed_def find_remove distinct_map_filter)

lemma memory_frame_store: "frame_store memClient (memGood (objKey cr)) memView cr"
proof (intro frame_store.intro other_requests.intro memory_kinds frame_store_axioms.intro)
  show "typed_client memClient" by (rule typed_memClient)
  show "kinded_client memClient" by (simp add: kinded_client_def memory_apis memApi_def)
next
  fix s ns ls assume "memGood (objKey cr) s"
  then show "memGood (objKey cr) (snd (apiList (clPods memClient) ns ls s)) \<and> memView (snd (apiList (clPods memClient) ns ls s)) = memView s"
    by (simp add: memory_apis memApi_def memList_def)
next
  fix s opt p assume "memGood (objKey cr) s"
  then show "memGood (objKey cr) (snd (apiDelete (clPods memClient) opt p s)) \<and> memView (snd (apiDelete (clPods memClient) opt p s)) = memView s"
    by (simp add: memory_apis memApi_def delete_pod)
next
  fix s st m assume "memGood (objKey cr) s"
  then show "memGood (objKey cr) (snd (apiStatusPatch (clDruids memClient) st m s))
      \<and> memView (snd (apiStatusPatch (clDruids memClient) st m s)) = memView s"
    by (simp add: memory_apis memApi_def replace_other managed_def)
next
  fix s fs assume g: "memGood (objKey cr) s"
  let ?x = "SetFinalizers fs cr"
  have "list_ex (\<lambda>k. kobjKey k = (DruidKind, objKey ?x)) (wObjs s)"
    using g by (auto simp: memGood_def list_ex_iff SetFinalizers_def)
  then have "fst (memReplace KDruid ?x s) = Inr ?x"
    by (simp add: memReplace_def Let_def sameKey_kobjKey)
  then have "memReplace KDruid ?x s = (Inr ?x, snd (memReplace KDruid ?x s))" by (simp add: prod_eq_iff)
  moreover have "same_core ?x cr" by (simp add: same_core_def SetFinalizers_def asOwner_def)
  ultimately show "\<exists>m' s'. apiPatch (clDruids memClient) (JSONPatchFinalizers fs) ?x s = (Inr m', s')
      \<and> memGood (objKey cr) s' \<and> memView s' = memView s \<and> same_core m' cr"
    using replace_other [of KDruid ?x] g
    by (intro exI [of _ ?x] exI [of _ "snd (memReplace KDruid ?x s)"]) (simp add: memory_apis memApi_def managed_def)
qed

lemma memory_cluster_store: "cluster_store memClient (memGood (objKey cr)) memView cr"
  by (intro cluster_store.intro memory_frame_store memory_kinds)

interpretation mem: cluster_store memClient "memGood (objKey cr)" memView cr for cr
  by (rule memory_cluster_store)

section \<open>Properties\<close>

text \<open>
  C1 (refinement). A deployment implements its plan: against a server that keeps the contract,
  for a valid resource that is not being deleted and goes straight through, the run succeeds and
  the store afterwards is the planned one, action by action: every wanted object exists with its
  hash, every object of the cluster that no node group asks for is gone.
\<close>

theorem deploy_refines_plan:
  assumes "cluster_store sdk good view m" and "good s" and "verifyDruidSpec m = None"
    and "metaDeletionTimestamp (objMeta m) = None" and "direct m"
    and "res (makeCommonConfigMap sdk m (makeLabelsForDruid m)) s = Ok cc" and "clusterPlan (clLib sdk) m cc = Ok acts"
  shows "(\<exists>m'. res (deployDruidCluster sdk m) s = Ok m')
    \<and> good (post (deployDruidCluster sdk m) s)
    \<and> view (post (deployDruidCluster sdk m) s) = applyActs acts (view s)"
  using cluster_store.deploy_performs [OF assms] by blast

text \<open>The options of a resource are the same after it was read again, and so is what its plan settles.\<close>

lemma reread_options: "reread m m' \<Longrightarrow> steady m' = steady m" "reread m m' \<Longrightarrow> direct m' = direct m"
  by (elim reread_spec; simp add: direct_def steady_def)+

lemma settled_set: "set as = set bs \<Longrightarrow> settled as \<sigma> = settled bs \<sigma>"
  by (simp add: settled_def list_all_iff)

text \<open>
  C2 (liveness). Convergence of a whole deployment. Once a run went straight through (no rolling
  deployment; no volume expansion and no removal of orphaned claims, or the first generation), for a
  valid resource that is not being deleted, a later run creates, updates and deletes nothing (but
  pods), returns without error and leaves the store as it is. The later run starts from the
  resource as it is read then, with the node map in any order, and from any state of the server in
  which the managed objects are as the first run left them. It needs that no two planned objects
  share a key, that the common ConfigMap is built with the same content, and that the cluster level
  of the spec has nothing that builders write through (\<open>unshared\<close>: no workload annotations, no
  HTTP probe without a port, no labels, annotations or selector of services).
\<close>

theorem deploy_converges:
  assumes store: "\<And>x. reread m x \<Longrightarrow> cluster_store sdk good view x" and "good s" and "verifyDruidSpec m = None"
    and "metaDeletionTimestamp (objMeta m) = None" and "direct m"
    and "res (makeCommonConfigMap sdk m (makeLabelsForDruid m)) s = Ok cc" and plan: "clusterPlan (clLib sdk) m cc = Ok acts"
    and "distinct (wantedKeys acts)" and un: "unshared m"
    and re: "reread m m'" and later: "good s'" "view s' = view (post (deployDruidCluster sdk m) s)"
    and "res (makeCommonConfigMap sdk m' (makeLabelsForDruid m')) s' = Ok cc"
  shows "(\<exists>x. res (deployDruidCluster sdk m') s' = Ok x)
    \<and> \<not> list_ex changes (effs (deployDruidCluster sdk m') s')
    \<and> view (post (deployDruidCluster sdk m') s') = view s'"
proof -
  note first = cluster_store.deploy_performs [OF store [OF reread_refl] assms(2-7)]
  obtain acts' where acts': "clusterPlan (clLib sdk) m' cc = Ok acts'" "set acts' = set acts"
    using un re plan by (rule reread_plan)
  have "settled acts (view s')" using plan_settles [OF plan assms(8)] first later(2) by simp
  then have set: "settled acts' (view s')" using settled_set [OF acts'(2)] by simp
  have facts: "verifyDruidSpec m' = None" "metaDeletionTimestamp (objMeta m') = None" "direct m'"
    using assms(3-5) by (simp_all add: reread_valid [OF re] reread_live [OF re] reread_options [OF re])
  from cluster_store.deploy_performs [OF store [OF re] later(1) facts assms(13) acts'(1)] set show ?thesis
    by (simp add: settled_apply)
qed

text \<open>
  C9 (functional). The state of the cluster after a run that goes straight through (no rolling
  deployment; no volume expansion and no removal of orphaned claims, or the first generation), for a
  valid resource that is not being deleted and whose planned objects have distinct keys: every
  planned object is there with the planned hash; an object of a cleaned kind in the resource's
  namespace with the labels of the cluster is a planned one; and an object under a key that is not
  planned, which lacks the labels of the cluster or lies in another namespace, is exactly what it
  was.
\<close>

theorem deploy_leaves_desired_state:
  assumes "cluster_store sdk good view m" and "good s" and "verifyDruidSpec m = None"
    and "metaDeletionTimestamp (objMeta m) = None" and "direct m"
    and "res (makeCommonConfigMap sdk m (makeLabelsForDruid m)) s = Ok cc" and "clusterPlan (clLib sdk) m cc = Ok acts"
    and "distinct (wantedKeys acts)" and s': "s' = post (deployDruidCluster sdk m) s"
  shows "(\<forall>kd key d. Ensure kd key d \<in> set acts \<longrightarrow> (\<exists>d'. view s' kd key = Some d' \<and> fst d' = fst d))
    \<and> (\<forall>kd n d. kd \<in> set sweptKinds \<longrightarrow> view s' kd (n, GetNamespace m) = Some d \<longrightarrow>
          fmsubset (makeLabelsForDruid m) (snd d) \<longrightarrow> n \<in> ensuredNames kd acts)
    \<and> (\<forall>kd key. (kd, key) \<notin> set (wantedKeys acts) \<longrightarrow>
          (\<forall>d. view s kd key = Some d \<longrightarrow> snd key \<noteq> GetNamespace m \<or> \<not> fmsubset (makeLabelsForDruid m) (snd d)) \<longrightarrow>
          view s' kd key = view s kd key)"
proof -
  have v: "view s' = applyActs acts (view s)"
    using cluster_store.deploy_performs [OF assms(1-7)] s' by simp
  have "settled acts (view s')" using plan_settles [OF assms(7,8)] v by simp
  then show ?thesis
    using settled_wanted [of acts "view s'"] settled_swept [OF assms(7), of "view s'"] plan_untouched [OF assms(7), of _ _ "view s"]
    unfolding v by blast
qed

section \<open>Witnesses\<close>

text \<open>One node group, with or without rolling deployment, and a ConfigMap nobody asks for.\<close>

definition plainDruid :: "bool \<Rightarrow> druid" where
  "plainDruid r = sampleDruid\<lparr>drSpec := (drSpec sampleDruid)\<lparr>crRollingDeploy := r, crNodes := [(''h'', historicalNode)]\<rparr>\<rparr>"

definition plainCommon :: "bool \<Rightarrow> configmap" where
  "plainCommon r = makeConfigMap ''c-druid-common-config'' ''ns'' (makeLabelsForDruid (plainDruid r))
     (fmupd ''common.runtime.properties'' [] fmempty)"

definition plainWorld :: "bool \<Rightarrow> world" where
  "plainWorld r = emptyWorld\<lparr>wObjs := [KDruid (plainDruid r), KConfigMap (sampleConfigMap ''old'')]\<rparr>"

lemma plain_facts:
  "verifyDruidSpec (plainDruid r) = None" "metaDeletionTimestamp (objMeta (plainDruid r)) = None" 
  "steady (plainDruid r)" "direct (plainDruid False)"
  "memGood (objKey (plainDruid r)) (plainWorld r)" "GetName (plainDruid r) = ''c''" "GetNamespace (plainDruid r) = ''ns''"
  by (simp_all add: verifyDruidSpec_None valid_spec_def plainDruid_def historicalNode_def sampleDruid_def zeroSpec_def
      zeroNode_def getAllAdditionalContainers_def isLowerAlnum_def MatchString_key_iff direct_def steady_def metaOf_def zeroMeta_def
      zeroDruid_def plainWorld_def emptyWorld_def memGood_def kobjKey_def sampleConfigMap_def)

lemma plain_common: "makeCommonConfigMap sdk (plainDruid r) ls = ret (makeConfigMap ''c-druid-common-config'' ''ns'' ls
    (fmupd ''common.runtime.properties'' [] fmempty))"
  by (simp add: makeCommonConfigMap_def commonProperties_def addExtraCommonConfig_def plainDruid_def sample_defs Let_def putIf_def)

lemma plain_plan:
  "\<exists>acts. clusterPlan memLib (plainDruid r) (plainCommon r) = Ok acts
     \<and> wantedKeys acts = [(ConfigMapKind, ''c-druid-common-config'', ''ns''), (ConfigMapKind, ''druid-c-h-config'', ''ns''),
         (StatefulSetKind, ''druid-c-h'', ''ns'')]"
proof -
  have groups: "getNodeSpecsByOrder (plainDruid r) = [\<lparr>sgKey = ''h'', sgSpec = historicalNode\<rparr>]"
    by (simp add: getNodeSpecsByOrder_concat plainDruid_def historicalNode_def druidServicesOrder_def asGroup_def)
  have none: "crServices (drSpec (plainDruid r)) = None" by (simp add: plainDruid_def sample_defs)
  have hash: "eitherO (getObjectHash memLib k) = Ok (metaName (kobjMeta k))" for k
    by (simp add: eitherO_def getObjectHash_def memLib_def)
  have node: "\<exists>m' acts. planNode memLib ls sha (plainDruid r) \<lparr>sgKey = ''h'', sgSpec = historicalNode\<rparr> = Ok (m', acts)
      \<and> wantedKeys acts = [(ConfigMapKind, ''druid-c-h-config'', ''ns''), (StatefulSetKind, ''druid-c-h'', ''ns'')]" for ls sha
    using built_statefulSet
    by (simp add: planNode_def Let_def hash none historicalNode_def zeroNode_def planWorkload_def planExtras_def bindO_def case_prod_beta
        want_def makeNodeSpecificUniqueString_def plain_facts makeConfigMapForNodeSpec_def makeConfigMap_def)
  obtain m' acts where "planNode memLib (makeLabelsForDruid (plainDruid r)) ''c-druid-common-config'' (plainDruid r)
      \<lparr>sgKey = ''h'', sgSpec = historicalNode\<rparr> = Ok (m', acts)"
    "wantedKeys acts = [(ConfigMapKind, ''druid-c-h-config'', ''ns''), (StatefulSetKind, ''druid-c-h'', ''ns'')]"
    using node by blast
  then show ?thesis
    by (simp add: clusterPlan_def Let_def hash groups bindO_def want_def plainCommon_def makeConfigMap_def)
qed

lemma plain_common_run: "res (makeCommonConfigMap memClient (plainDruid r) (makeLabelsForDruid (plainDruid r))) s = Ok (plainCommon r)"
  by (simp add: plain_common plainCommon_def go_run)

lemmas plain_run = memory_cluster_store [of "plainDruid False"] plain_facts(5,1,2) [of False] plain_facts(4) plain_common_run [of False]

theorem deploy_refines_plan_witness:
  "\<exists>acts. clusterPlan memLib (plainDruid False) (plainCommon False) = Ok acts
     \<and> (\<exists>m'. res (deployDruidCluster memClient (plainDruid False)) (plainWorld False) = Ok m')
     \<and> memView (post (deployDruidCluster memClient (plainDruid False)) (plainWorld False)) = applyActs acts (memView (plainWorld False))"
proof -
  obtain acts where plan: "clusterPlan (clLib memClient) (plainDruid False) (plainCommon False) = Ok acts"
    using plain_plan [of False] by (auto simp: memory_apis)
  from deploy_refines_plan [OF plain_run this] plan show ?thesis by (auto simp: memory_apis)
qed

text \<open>Two node groups of one type, whose order changes between the runs.\<close>

definition pairDruid :: "bool \<Rightarrow> bool \<Rightarrow> druid" where
  "pairDruid r flip = (plainDruid r)\<lparr>drSpec := (drSpec (plainDruid r))\<lparr>crNodes :=
     (if flip then [(''w'', historicalNode), (''h'', historicalNode)] else [(''h'', historicalNode), (''w'', historicalNode)])\<rparr>\<rparr>"

lemma pair_facts:
  "verifyDruidSpec (pairDruid r b) = None" "metaDeletionTimestamp (objMeta (pairDruid r b)) = None"
  "steady (pairDruid r b)" "direct (pairDruid False b)" "unshared (pairDruid r b)" "objKey (pairDruid r b) = (''c'', ''ns'')"
  "memGood (''c'', ''ns'') (plainWorld r)"
  using plain_facts(5,6,7) [of r]
  by (simp_all add: verifyDruidSpec_None valid_spec_def pairDruid_def plainDruid_def historicalNode_def sampleDruid_def zeroSpec_def
      zeroNode_def getAllAdditionalContainers_def isLowerAlnum_def direct_def steady_def metaOf_def zeroMeta_def
      zeroDruid_def unshared_def portGiven_def)

lemma pair_reread: "reread (pairDruid r a) (pairDruid r b)"
  unfolding reread_def
  by (intro conjI exI [of _ "crNodes (drSpec (pairDruid r b))"]) (simp_all add: pairDruid_def asOwner_def)

lemma pair_common_run: "res (makeCommonConfigMap memClient (pairDruid r b) (makeLabelsForDruid (pairDruid r b))) s = Ok (plainCommon r)"
  by (simp add: makeCommonConfigMap_def commonProperties_def addExtraCommonConfig_def pairDruid_def plainDruid_def sample_defs Let_def
      putIf_def plainCommon_def go_run makeLabelsForDruid_def)

lemma pair_store:
  assumes "reread (pairDruid r b) x"
  shows "cluster_store memClient (memGood (''c'', ''ns'')) memView x"
proof -
  have "objKey x = (''c'', ''ns'')" using assms pair_facts(6) [of r b] by (simp add: reread_def)
  with memory_cluster_store [of x] show ?thesis by simp
qed

lemma pair_plan:
  "\<exists>acts. clusterPlan memLib (pairDruid r False) (plainCommon r) = Ok acts \<and> distinct (wantedKeys acts)
     \<and> (StatefulSetKind, ''druid-c-h'', ''ns'') \<in> set (wantedKeys acts) \<and> length (wantedKeys acts) = 5"
proof -
  let ?m = "pairDruid r False" and ?g = "\<lambda>k. \<lparr>sgKey = k, sgSpec = historicalNode\<rparr>"
  let ?ls = "makeLabelsForDruid ?m" and ?sha = "''c-druid-common-config''"
  have groups: "getNodeSpecsByOrder ?m = [?g ''h'', ?g ''w'']"
    by (simp add: getNodeSpecsByOrder_concat pairDruid_def historicalNode_def druidServicesOrder_def asGroup_def)
  have none: "crServices (drSpec ?m) = None" by (simp add: pairDruid_def plainDruid_def sample_defs)
  have meta: "GetName ?m = ''c''" "GetNamespace ?m = ''ns''" using pair_facts(6) [of r False] by simp_all
  have hash: "eitherO (getObjectHash memLib k) = Ok (metaName (kobjMeta k))" for k
    by (simp add: eitherO_def getObjectHash_def memLib_def)
  have node: "\<exists>x acts. planNode memLib ?ls ?sha ?m (?g k) = Ok (x, acts)
      \<and> wantedKeys acts = [(ConfigMapKind, ''druid-c-'' @ k @ ''-config'', ''ns''), (StatefulSetKind, ''druid-c-'' @ k, ''ns'')]" for k
    using built_statefulSet
    by (simp add: planNode_def Let_def hash none historicalNode_def zeroNode_def planWorkload_def planExtras_def bindO_def case_prod_beta
        want_def makeNodeSpecificUniqueString_def meta makeConfigMapForNodeSpec_def makeConfigMap_def)
  then have keys: "wantedKeys (nodeActs memLib ?ls ?sha ?m (?g k))
      = [(ConfigMapKind, ''druid-c-'' @ k @ ''-config'', ''ns''), (StatefulSetKind, ''druid-c-'' @ k, ''ns'')]" for k
    by (metis (no_types, lifting) nodeActs_def outcome.simps(10) case_prod_conv)
  have "planNodes memLib ?ls ?sha ?m (getNodeSpecsByOrder ?m)
      = Ok (?m, concat (map (nodeActs memLib ?ls ?sha ?m) (getNodeSpecsByOrder ?m)))"
    unfolding reread_planNodes [OF pair_facts(5) reread_refl] groups using node [of "''h''"] node [of "''w''"] by auto
  then show ?thesis
    by (simp add: clusterPlan_def Let_def hash bindO_def want_def plainCommon_def makeConfigMap_def groups keys)
qed

theorem deploy_converges_witness:
  "\<not> list_ex changes (effs (deployDruidCluster memClient (pairDruid False True))
     (post (deployDruidCluster memClient (pairDruid False False)) (plainWorld False)))"
proof -
  obtain acts where plan: "clusterPlan (clLib memClient) (pairDruid False False) (plainCommon False) = Ok acts" "distinct (wantedKeys acts)"
    using pair_plan [of False] by (auto simp: memory_apis)
  have good: "memGood (''c'', ''ns'') (post (deployDruidCluster memClient (pairDruid False False)) (plainWorld False))"
    using cluster_store.deploy_performs [OF pair_store [OF reread_refl] pair_facts(7) pair_facts(1,2) pair_facts(4) pair_common_run plan(1)]
    by simp
  from deploy_converges [OF pair_store [of False False] pair_facts(7) pair_facts(1,2) pair_facts(4) pair_common_run plan pair_facts(5)
      pair_reread good refl pair_common_run]
  show ?thesis by blast
qed

theorem deploy_leaves_desired_state_witness:
  "\<exists>d. memView (post (deployDruidCluster memClient (plainDruid False)) (plainWorld False)) StatefulSetKind (''druid-c-h'', ''ns'') = Some d"
proof -
  obtain acts where plan: "clusterPlan (clLib memClient) (plainDruid False) (plainCommon False) = Ok acts" "distinct (wantedKeys acts)"
    and keys: "(StatefulSetKind, ''druid-c-h'', ''ns'') \<in> set (wantedKeys acts)"
    using plain_plan [of False] by (auto simp: memory_apis)
  from keys obtain d where d: "Ensure StatefulSetKind (''druid-c-h'', ''ns'') d \<in> set acts" unfolding in_wantedKeys ..
  from deploy_leaves_desired_state [OF plain_run plan refl] d show ?thesis by blast
qed

end
