(* ===== verification/Rolling_Progress.thy ===== *)
theory Rolling_Progress
  imports Cluster_Refinement
begin

text \<open>
  A rolling deployment finishes. With \<^verbatim>\<open>rollingDeploy\<close> a run stops early: after the update of a
  workload, or at a workload that is not rolled out. The predicate \<open>rolls\<close> says what such a run
  does of its plan: a beginning of it, and all of it when nothing is left to do in that beginning
  and every workload is rolled out. The contract \<open>rolling_store\<close> extends \<open>cluster_store\<close> by what it
  means for a state of the server that the workloads are rolled out (\<open>calm\<close>). Every run that finds
  them so either completes the plan or settles an action that was not settled before, so that the
  number of unsettled actions bounds the number of runs. The contract is discharged for the server
  in memory.
\<close>

section \<open>Runs that may stop\<close>

definition finished :: "('a \<Rightarrow> bool) \<Rightarrow> ('a, 'r) flow outcome \<Rightarrow> bool" where
  "finished P r \<longleftrightarrow> (\<exists>x. r = Ok (Next x) \<and> P x)"

definition stopped :: "('a, 'r) flow outcome \<Rightarrow> bool" where
  "stopped r \<longleftrightarrow> (\<exists>y. r = Ok (Return y)) \<or> (\<exists>e. r = Err e)"

text \<open>\<open>rolled\<close>: from the state \<open>s\<close>, exactly the first \<open>n\<close> actions are performed.\<close>

definition rolled :: "('w \<Rightarrow> bool) \<Rightarrow> ('w \<Rightarrow> bool) \<Rightarrow> ('w \<Rightarrow> dstore) \<Rightarrow> ('w, ('a, 'r) flow) io
    \<Rightarrow> ('a \<Rightarrow> bool) \<Rightarrow> act list \<Rightarrow> 'w \<Rightarrow> nat \<Rightarrow> bool" where
  "rolled good calm view m P acts s n \<longleftrightarrow> good (post m s) \<and> n \<le> length acts
     \<and> view (post m s) = applyActs (take n acts) (view s)
     \<and> (finished P (res m s) \<and> n = length acts \<or> stopped (res m s))
     \<and> (calm s \<longrightarrow> settled (take n acts) (view s) \<longrightarrow>
          finished P (res m s) \<and> n = length acts \<and> calm (post m s))"

definition rolls :: "('w \<Rightarrow> bool) \<Rightarrow> ('w \<Rightarrow> bool) \<Rightarrow> ('w \<Rightarrow> dstore) \<Rightarrow> ('w, ('a, 'r) flow) io
    \<Rightarrow> ('a \<Rightarrow> bool) \<Rightarrow> act list \<Rightarrow> bool" where
  "rolls good calm view m P acts \<longleftrightarrow> (\<forall>s. good s \<longrightarrow> (\<exists>n. rolled good calm view m P acts s n))"

lemma rolls_ret: "P x \<Longrightarrow> rolls good calm view (ret (Next x)) P []"
  by (simp add: rolls_def rolled_def finished_def go_run)

lemma rolls_return: "rolls good (\<lambda>_. False) view (ret (Return y)) P []"
  by (simp add: rolls_def rolled_def stopped_def go_run)

text \<open>What always completes, in every good state and in every calm one, can come first.\<close>

lemma rolls_first:
  assumes m: "does good view m P as" and c: "does (\<lambda>s. good s \<and> calm s) view m P as"
    and f: "\<And>x. P x \<Longrightarrow> rolls good calm view (f x) Q bs"
  shows "rolls good calm view (bindE m f) Q (as @ bs)"
  unfolding rolls_def
proof (intro allI impI)
  fix s assume g: "good s"
  from m g obtain x where x: "res m s = Ok x" "P x" "good (post m s)" "view (post m s) = applyActs as (view s)"
    by (rule doesD)
  from f [OF x(2)] x(3) obtain n where n: "rolled good calm view (f x) Q bs (post m s) n"
    unfolding rolls_def by blast
  have "calm s \<Longrightarrow> calm (post m s)" using c g by (auto elim: doesD)
  with n x have "rolled good calm view (bindE m f) Q (as @ bs) s (length as + n)"
    by (auto simp: rolled_def go_run settled_apply)
  then show "\<exists>n. rolled good calm view (bindE m f) Q (as @ bs) s n" ..
qed

lemma rolls_bind:
  assumes m: "rolls good calm view m P as" and f: "\<And>x. P x \<Longrightarrow> rolls good calm view (f x) Q bs"
  shows "rolls good calm view (bindE m (\<lambda>r. case r of Next x \<Rightarrow> f x | Return y \<Rightarrow> ret (Return y))) Q (as @ bs)"
    (is "rolls _ _ _ ?m _ _")
  unfolding rolls_def
proof (intro allI impI)
  fix s assume g: "good s"
  with m obtain k where k: "rolled good calm view m P as s k" unfolding rolls_def by blast
  show "\<exists>n. rolled good calm view ?m Q (as @ bs) s n"
  proof (cases "finished P (res m s)")
    case True
    then obtain x where x: "res m s = Ok (Next x)" "P x" by (auto simp: finished_def)
    then have len: "k = length as" using k by (auto simp: rolled_def stopped_def)
    from f [OF x(2)] k obtain n where "rolled good calm view (f x) Q bs (post m s) n"
      unfolding rolls_def rolled_def by blast
    with k len x have "rolled good calm view ?m Q (as @ bs) s (length as + n)"
      by (auto simp: rolled_def go_run settled_apply)
    then show ?thesis ..
  next
    case False
    then have "rolled good calm view ?m Q (as @ bs) s k"
      using k by (auto simp: rolled_def stopped_def go_run)
    then show ?thesis ..
  qed
qed

text \<open>
  A wanted object that is then waited for: synchronising it performs the action, and doing so
  again changes nothing; what follows neither changes the store nor fails otherwise than by
  stopping, and goes on if nothing was done and the workloads are rolled out.
\<close>

lemma rolls_wait:
  assumes sync: "does good view m (\<lambda>(st, ns', x). ns' = a \<and> x = b) [w]"
    and idle: "\<And>s. good s \<Longrightarrow> settledAct w (view s) \<Longrightarrow> res m s = Ok (st0, a, b) \<and> post m s = s"
    and wait: "\<And>st. rolls (\<lambda>s. good s \<and> settledAct w (view s)) (\<lambda>_. False) view (f (st, a, b)) P []"
    and go: "rolls (\<lambda>s. good s \<and> settledAct w (view s)) calm view (f (st0, a, b)) P []"
    and w: "\<And>\<sigma>. settledAct w (applyAct w \<sigma>)"
  shows "rolls good calm view (bindE m f) P [w]"
  unfolding rolls_def
proof (intro allI impI)
  fix s assume g: "good s"
  from sync g obtain st where st: "res m s = Ok (st, a, b)" "good (post m s)" "view (post m s) = applyAct w (view s)"
    by (elim doesD) auto
  with wait [of st] w [of "view s"]
  have "rolled (\<lambda>s. good s \<and> settledAct w (view s)) (\<lambda>_. False) view (f (st, a, b)) P [] (post m s) 0"
    by (auto simp: rolls_def rolled_def simp del: settledAct.simps)
  moreover have "finished P (res (bindE m f) s) \<and> calm (post (bindE m f) s)" if "calm s" "settledAct w (view s)"
    using idle [OF g that(2)] go g that by (auto simp: rolls_def rolled_def go_run simp del: settledAct.simps)
  ultimately have "rolled good calm view (bindE m f) P [w] s 1"
    using st by (auto simp: rolled_def go_run)
  then show "\<exists>n. rolled good calm view (bindE m f) P [w] s n" ..
qed

text \<open>When a stored workload counts as rolled out; the gate opens then.\<close>

fun rolledOut :: "kobj \<Rightarrow> bool" where
  "rolledOut (KStatefulSet x) = statefulSetDeployed (stsStatus x)"
| "rolledOut (KDeployment x) = (deploymentConditions (depStatus x) (dsConditions (depStatus x)) = Inr True)"
| "rolledOut _ = False"

lemma gate_rolls:
  assumes "\<And>s. good s \<Longrightarrow> \<exists>p. apiGet api u (GetNamespace m) s = (Inr p, s) \<and> (calm s \<longrightarrow> rolledOut (apiWrap api p))"
  shows "rolls good calm view (rollout_gate api u m names) (\<lambda>x. x = (m, names)) []"
  unfolding rolls_def
proof (intro allI impI)
  fix s assume g: "good s"
  from assms [OF this] obtain p where p: "apiGet api u (GetNamespace m) s = (Inr p, s)" "calm s \<longrightarrow> rolledOut (apiWrap api p)"
    by blast
  have post: "post (isObjFullyDeployed api u m) s = s"
    using p(1) by (simp add: isObjFullyDeployed_def go_run api_results api_posts split: kobj.split)
  have "res (isObjFullyDeployed api u m) s = Ok (rolledOut (apiWrap api p))
      \<or> \<not> rolledOut (apiWrap api p) \<and> (\<exists>e. res (isObjFullyDeployed api u m) s = Err e)"
    using p(1) by (auto simp: isObjFullyDeployed_def go_run api_results split: kobj.split sum.split)
  with g p post have "rolled good calm view (rollout_gate api u m names) (\<lambda>x. x = (m, names)) [] s 0"
    by (auto simp: rolled_def rollout_gate_def finished_def stopped_def go_run)
  then show "\<exists>n. rolled good calm view (rollout_gate api u m names) (\<lambda>x. x = (m, names)) [] s n" ..
qed

lemma does_where: "does good view m P [] \<Longrightarrow> does (\<lambda>s. good s \<and> V (view s)) view m P []"
  by (simp add: does_def)

lemma rolls_quiet:
  assumes "does good view m (\<lambda>_. True) []" and "does (\<lambda>s. good s \<and> calm s) view m (\<lambda>_. True) []"
    and "\<And>x. rolls (\<lambda>s. good s \<and> V (view s)) C view (f x) Q []" and "C = calm \<or> C = (\<lambda>_. False)"
  shows "rolls (\<lambda>s. good s \<and> V (view s)) C view (bindE m f) Q []"
proof -
  have "does (\<lambda>s. (good s \<and> V (view s)) \<and> C s) view m (\<lambda>_. True) []"
    using does_where [OF assms(2), of V] assms(4) by (auto simp: does_def conj_ac)
  from rolls_first [OF does_where [OF assms(1)] this assms(3)] show ?thesis by simp
qed

lemma rolls_bind_quiet:
  "rolls good calm view m P [] \<Longrightarrow> (\<And>x. P x \<Longrightarrow> rolls good calm view (f x) Q []) \<Longrightarrow>
   rolls good calm view (bindE m (\<lambda>r. case r of Next x \<Rightarrow> f x | Return y \<Rightarrow> ret (Return y))) Q []"
  using rolls_bind [of good calm view m P "[]" f Q "[]"] by simp

lemma rolls_sync_then:
  assumes "does good view m (\<lambda>(st, ns', x). ns' = a \<and> x = b) [w]"
    and "does (\<lambda>s. good s \<and> calm s) view m (\<lambda>(st, ns', x). ns' = a \<and> x = b) [w]"
    and "\<And>st. rolls good calm view (f (st, a, b)) Q acts"
  shows "rolls good calm view (bindE m f) Q (w # acts)"
  using rolls_first [OF assms(1,2), of f Q acts] assms(3) by auto

text \<open>
  \<open>advances\<close>: a whole run over the wanted objects and then the rest of the plan. It does not
  panic, and performs either all of the plan, successfully, or a beginning of the wanted objects
  in which something was left to do if the workloads were rolled out.
\<close>

definition advances :: "('w \<Rightarrow> bool) \<Rightarrow> ('w \<Rightarrow> bool) \<Rightarrow> ('w \<Rightarrow> dstore) \<Rightarrow> ('w, 'a) io \<Rightarrow> act list \<Rightarrow> act list \<Rightarrow> bool" where
  "advances good calm view m wanted rest \<longleftrightarrow> (\<forall>s. good s \<longrightarrow> good (post m s) \<and> (\<forall>p. res m s \<noteq> Panic p)
     \<and> ((\<exists>x. res m s = Ok x) \<and> view (post m s) = applyActs (wanted @ rest) (view s)
        \<or> (\<exists>n. view (post m s) = applyActs (take n wanted) (view s)
             \<and> (calm s \<longrightarrow> \<not> settled (take n wanted) (view s)))))"

lemma advances_last:
  assumes m: "rolls good calm view m P as" and f: "\<And>x. P x \<Longrightarrow> does good view (f x) (\<lambda>_. True) rest"
  shows "advances good calm view (bindE m (\<lambda>r. case r of Next x \<Rightarrow> f x | Return y \<Rightarrow> ret y)) as rest"
    (is "advances _ _ _ ?m _ _")
  unfolding advances_def
proof (intro allI impI)
  fix s assume g: "good s"
  with m obtain n where n: "rolled good calm view m P as s n" unfolding rolls_def by blast
  show "good (post ?m s) \<and> (\<forall>p. res ?m s \<noteq> Panic p)
     \<and> ((\<exists>x. res ?m s = Ok x) \<and> view (post ?m s) = applyActs (as @ rest) (view s)
        \<or> (\<exists>n. view (post ?m s) = applyActs (take n as) (view s) \<and> (calm s \<longrightarrow> \<not> settled (take n as) (view s))))"
  proof (cases "finished P (res m s)")
    case True
    then obtain x where x: "res m s = Ok (Next x)" "P x" by (auto simp: finished_def)
    moreover have "good (post m s)" "view (post m s) = applyActs as (view s)"
      using n x by (auto simp: rolled_def stopped_def)
    moreover with f [OF x(2)] obtain y where "res (f x) (post m s) = Ok y" "good (post (f x) (post m s))"
      "view (post (f x) (post m s)) = applyActs rest (view (post m s))" by (elim doesD)
    ultimately show ?thesis by (simp add: go_run)
  next
    case False
    with n show ?thesis by (auto simp: rolled_def stopped_def go_run)
  qed
qed

lemma advances_first:
  assumes m: "does good view m P as" and c: "does (\<lambda>s. good s \<and> calm s) view m P as"
    and f: "\<And>x. P x \<Longrightarrow> advances good calm view (f x) bs rest"
  shows "advances good calm view (bindE m f) (as @ bs) rest"
  unfolding advances_def
proof (intro allI impI)
  fix s assume g: "good s"
  from m g obtain x where x: "res m s = Ok x" "P x" "good (post m s)" "view (post m s) = applyActs as (view s)"
    by (rule doesD)
  have calm: "calm s \<Longrightarrow> calm (post m s)" using c g by (auto elim: doesD)
  have part: "\<exists>k. view (post (f x) (post m s)) = applyActs (take k (as @ bs)) (view s) \<and> (calm s \<longrightarrow> \<not> settled (take k (as @ bs)) (view s))"
    if "view (post (f x) (post m s)) = applyActs (take n bs) (view (post m s))"
      "calm (post m s) \<longrightarrow> \<not> settled (take n bs) (view (post m s))" for n
    using that x(4) calm by (intro exI [of _ "length as + n"]) (auto simp: settled_apply)
  have run: "res (bindE m f) s = res (f x) (post m s)" "post (bindE m f) s = post (f x) (post m s)"
    by (simp_all add: go_run x(1))
  from f [OF x(2)] have "good (post (f x) (post m s))" "\<forall>p. res (f x) (post m s) \<noteq> Panic p"
    and fx: "(\<exists>y. res (f x) (post m s) = Ok y) \<and> view (post (f x) (post m s)) = applyActs (bs @ rest) (view (post m s))
      \<or> (\<exists>n. view (post (f x) (post m s)) = applyActs (take n bs) (view (post m s))
           \<and> (calm (post m s) \<longrightarrow> \<not> settled (take n bs) (view (post m s))))"
    using x(3) unfolding advances_def by blast+
  moreover from fx have "(\<exists>y. res (f x) (post m s) = Ok y) \<and> view (post (f x) (post m s)) = applyActs ((as @ bs) @ rest) (view s)
      \<or> (\<exists>k. view (post (f x) (post m s)) = applyActs (take k (as @ bs)) (view s) \<and> (calm s \<longrightarrow> \<not> settled (take k (as @ bs)) (view s)))"
  proof (elim disjE exE conjE)
    fix n assume "view (post (f x) (post m s)) = applyActs (take n bs) (view (post m s))"
      "calm (post m s) \<longrightarrow> \<not> settled (take n bs) (view (post m s))"
    from part [OF this] show ?thesis ..
  qed (simp add: x(4))
  ultimately show "good (post (bindE m f) s) \<and> (\<forall>p. res (bindE m f) s \<noteq> Panic p)
     \<and> ((\<exists>x. res (bindE m f) s = Ok x) \<and> view (post (bindE m f) s) = applyActs ((as @ bs) @ rest) (view s)
        \<or> (\<exists>n. view (post (bindE m f) s) = applyActs (take n (as @ bs)) (view s)
             \<and> (calm s \<longrightarrow> \<not> settled (take n (as @ bs)) (view s))))"
    unfolding run by (intro conjI)
qed

section \<open>The contract of rolling deployments\<close>

text \<open>
  \<open>calm s\<close>: in the state \<open>s\<close> of the server the workloads of the namespace are rolled out. Requests
  for other objects leave that alone. Whether a workload that was just created or updated is
  rolled out is left open.
\<close>

locale rolling_store = cluster_store sdk good view cr + calm: frame_store sdk "\<lambda>s. good s \<and> calm s" view cr
  for sdk :: "'w client" and good :: "'w \<Rightarrow> bool" and calm :: "'w \<Rightarrow> bool" and view :: "'w \<Rightarrow> dstore" and cr :: druid +
  assumes sts_calm: "good s \<Longrightarrow> calm s \<Longrightarrow> apiGet (clStatefulSets sdk) n (GetNamespace cr) s = (Inr sts, s) \<Longrightarrow>
      rolledOut (apiWrap (clStatefulSets sdk) sts)"
    and dep_calm: "good s \<Longrightarrow> calm s \<Longrightarrow> apiGet (clDeployments sdk) n (GetNamespace cr) s = (Inr dep, s) \<Longrightarrow>
      rolledOut (apiWrap (clDeployments sdk) dep)"
begin

lemma workload_get:
  assumes "good s" "settledAct (want lib StatefulSetKind KStatefulSet m x) (view s)" "GetName x = u" "GetNamespace x = GetNamespace cr"
  shows "\<exists>p. apiGet (clStatefulSets sdk) u (GetNamespace cr) s = (Inr p, s)"
  using assms stss.get_present [OF assms(1), of u "GetNamespace cr"] kinded
  by (auto simp: want_def kinded_client_def split: option.splits)

lemma workload_get':
  assumes "good s" "settledAct (want lib DeploymentKind KDeployment m x) (view s)" "GetName x = u" "GetNamespace x = GetNamespace cr"
  shows "\<exists>p. apiGet (clDeployments sdk) u (GetNamespace cr) s = (Inr p, s)"
  using assms deps.get_present [OF assms(1), of u "GetNamespace cr"] kinded
  by (auto simp: want_def kinded_client_def split: option.splits)

lemma sync_idle:
  "good s \<Longrightarrow> settledAct (want lib StatefulSetKind KStatefulSet m sts) (view s) \<Longrightarrow>
     res (sdkCreateOrUpdateAsNeeded lib (clStatefulSets sdk) (ret sts) statefulSetIsEquals noopUpdaterFn m ns) s
       = Ok (NoStatus, insert (GetName sts) ns, stamped lib KStatefulSet m sts)
     \<and> post (sdkCreateOrUpdateAsNeeded lib (clStatefulSets sdk) (ret sts) statefulSetIsEquals noopUpdaterFn m ns) s = s"
  "good s \<Longrightarrow> settledAct (want lib DeploymentKind KDeployment m dep) (view s) \<Longrightarrow>
     res (sdkCreateOrUpdateAsNeeded lib (clDeployments sdk) (ret dep) deploymentIsEquals noopUpdaterFn m ns) s
       = Ok (NoStatus, insert (GetName dep) ns, stamped lib KDeployment m dep)
     \<and> post (sdkCreateOrUpdateAsNeeded lib (clDeployments sdk) (ret dep) deploymentIsEquals noopUpdaterFn m ns) s = s"
  using stss.sync_settled [of s statefulSetIsEquals sts lib m noopUpdaterFn ns]
    deps.sync_settled [of s deploymentIsEquals dep lib m noopUpdaterFn ns] kinded
  by (simp_all add: statefulSetIsEquals_def deploymentIsEquals_def want_def prepared_stamped kinded_client_def)

lemma want_settles: "settledAct (want lib kd wrap m x) (applyAct (want lib kd wrap m x) \<sigma>)"
  unfolding want_def by (rule settled_by_Ensure)

lemma deployment_rolls:
  assumes "ndKind n = ''Deployment''" and "planWorkload (clLib sdk) n lm u sha first m = Ok (m', acts)"
    and ns: "GetNamespace m = GetNamespace cr"
  shows "rolls good calm view (node_deployment sdk n lm u sha first m names) (\<lambda>r. r = (m', absorb acts names)) acts"
proof -
  obtain obj m1 where p: "makeDeployment n m lm u sha first = Ok (obj, m1)"
    "m' = shareAnnotations (stamped (clLib sdk) KDeployment m1 obj) m1"
    "acts = [want (clLib sdk) DeploymentKind KDeployment m1 obj]"
    using assms(1,2) by (auto simp: planWorkload_def bindO_Ok)
  have obj: "GetName obj = u" "GetNamespace obj = GetNamespace cr"
    using built_deployment [OF p(1)] ns by simp_all
  have ns': "GetNamespace m' = GetNamespace cr"
    using frame_meta(1) [OF frame_deployment [OF p(1)]] ns p(2) frame_meta(1) [OF frame_share] by simp
  let ?G = "\<lambda>s. good s \<and> settledAct (want (clLib sdk) DeploymentKind KDeployment m1 obj) (view s)"
  have gate: "rolls ?G C view (rollout_gate (clDeployments sdk) u m' names') (\<lambda>x. x = (m', names')) []"
    if "C = calm \<or> C = (\<lambda>_. False)" for C names'
    using that workload_get' [OF _ _ obj] dep_calm unfolding ns' [symmetric] by (intro gate_rolls) blast
  show ?thesis
    unfolding node_deployment_def p(1,3) absorb_want liftO_Ok bindE_ret prod.case Let_def
  proof (rule rolls_wait [OF sync_workload(2) sync_idle(2) _ _ want_settles], goal_cases)
    case (3 st)
    show ?case unfolding prod.case p(2) [symmetric] by (simp add: gate rolls_return rolls_ret)
  next
    case 4
    show ?case unfolding prod.case p(2) [symmetric] by (simp add: gate rolls_ret)
  qed simp_all
qed

lemma statefulset_rolls:
  assumes "steady m" and "ndKind n \<noteq> ''Deployment''" and "planWorkload (clLib sdk) n lm u sha first m = Ok (m', acts)"
    and ns: "GetNamespace m = GetNamespace cr"
  shows "rolls good calm view (node_statefulset sdk n lm u sha first m names) (\<lambda>r. r = (m', absorb acts names)) acts"
proof -
  obtain obj m1 where b: "makeStatefulSet n m lm u sha first = (obj, m1)" by (cases "makeStatefulSet n m lm u sha first")
  then have p: "m' = shareAnnotations (stamped (clLib sdk) KStatefulSet m1 obj) m1"
    "acts = [want (clLib sdk) StatefulSetKind KStatefulSet m1 obj]"
    using assms(2,3) by (auto simp: planWorkload_def)
  have obj: "GetName obj = u" "GetNamespace obj = GetNamespace cr"
    using built_statefulSet [of n m lm u sha first] ns b by simp_all
  have fr: "cr_frame m1 = cr_frame m" using frame_statefulSet [of n m lm u sha first] b by simp
  have ns': "GetNamespace m' = GetNamespace cr"
    using frame_meta(1) [OF fr] ns p(1) frame_meta(1) [OF frame_share] by simp
  let ?G = "\<lambda>s. good s \<and> settledAct (want (clLib sdk) StatefulSetKind KStatefulSet m1 obj) (view s)"
  have gate: "rolls ?G C view (rollout_gate (clStatefulSets sdk) u m' names') (\<lambda>x. x = (m', names')) []"
    if "C = calm \<or> C = (\<lambda>_. False)" for C names'
    using that workload_get [OF _ _ obj] sts_calm unfolding ns' [symmetric] by (intro gate_rolls) blast
  have crash: "rolls ?G C view (bindE (execCheckCrashStatus sdk n m' u) (\<lambda>_. f)) Q []"
    if "C = calm \<or> C = (\<lambda>_. False)" "rolls ?G C view f Q []" for C Q and f :: "('w, (node_state, druid) flow) io"
    by (rule rolls_quiet [where V = "settledAct (want (clLib sdk) StatefulSetKind KStatefulSet m1 obj)",
          OF crash_check_performs calm.crash_check_performs that(2,1)])
  have off: "\<not> (metaGeneration (objMeta m) > 1 \<and> crScalePvcSts (drSpec m))" using assms(1) by (auto simp: steady_def)
  show ?thesis
    unfolding node_statefulset_def b p(2) absorb_want if_not_P [OF off] bindE_ret prod.case Let_def
  proof (rule rolls_wait [OF sync_workload(1) sync_idle(1) _ _ want_settles], goal_cases)
    case (3 st)
    show ?case unfolding prod.case p(1) [symmetric]
      by (rule rolls_bind_quiet [where P = "\<lambda>x. x = (m', names\<lparr>wnStatefulSets := insert (GetName obj) (wnStatefulSets names)\<rparr>)"])
         (simp_all add: crash gate rolls_return rolls_ret)
  next
    case 4
    show ?case unfolding prod.case p(1) [symmetric]
      by (rule rolls_bind_quiet [where P = "\<lambda>x. x = (m', names\<lparr>wnStatefulSets := insert (GetName obj) (wnStatefulSets names)\<rparr>)"])
         (simp_all add: crash gate rolls_ret)
  qed simp_all
qed

subsection \<open>Node groups\<close>

lemma node_rolls:
  assumes st: "steady m" and ns: "GetNamespace m = GetNamespace cr" and plan: "planNode (clLib sdk) ls sha m elem = Ok (m', acts)"
  shows "rolls good calm view (deployNode sdk ls sha (m, names) elem) (\<lambda>r. r = (m', absorb acts names)) acts"
proof -
  from plan obtain n u lm cm m1 first services nodeSHA workload extras where
    n: "n = sgSpec elem" "u = makeNodeSpecificUniqueString m (sgKey elem)" "lm = makeLabelsForNodeSpec n m (GetName m) u"
      "cm = makeConfigMapForNodeSpec n m lm u"
    and svc: "planServices (clLib sdk) n lm u m [] (enumerate 0 (nodeServices n m)) = (m1, first, services)"
    and hash: "getObjectHash (clLib sdk) (KConfigMap cm) = Inr nodeSHA"
    and wl: "planWorkload (clLib sdk) (withDruidPort n) lm u (sha @ ''-'' @ nodeSHA) first m1 = Ok (m', workload)"
    and ex: "planExtras (clLib sdk) (withDruidPort n) ls lm u m' = Ok extras"
    and acts: "acts = want (clLib sdk) ConfigMapKind KConfigMap m cm # services @ workload @ extras"
    by (rule planNodeE)
  have fr: "cr_frame m1 = cr_frame m"
    using planServices_frame [of "clLib sdk" n lm u m "[]" "enumerate 0 (nodeServices n m)"] svc by simp
  have m1: "steady m1" "GetNamespace m1 = GetNamespace cr"
    using st ns steady_frame [OF fr] frame_meta(1) [OF fr] by simp_all
  have workload: "rolls good calm view (node_workload sdk (withDruidPort n) lm u (sha @ ''-'' @ nodeSHA) first m1 names')
      (\<lambda>r. r = (m', absorb workload names')) workload" for names'
    using deployment_rolls [OF _ wl m1(2)] statefulset_rolls [OF m1(1) _ wl m1(2)] by simp
  have extras: "rolls good calm view (bindE (node_extras sdk (withDruidPort n) ls lm u m' names') (\<lambda>names. ret (Next (m', names))))
      (\<lambda>r. r = (m', absorb extras names')) extras" for names'
    using rolls_first [OF extras_perform [OF ex] calm.extras_perform [OF ex], of names' "\<lambda>names. ret (Next (m', names))"
        "\<lambda>r. r = (m', absorb extras names')" "[]"] by (simp add: rolls_ret)
  show ?thesis
    unfolding deployNode_unfold [OF typed n hash] acts absorb_Cons [of _ "services @ workload @ extras"] absorb_append absorb_want
  proof (rule rolls_sync_then [OF sync_want(1) calm.sync_want(1)], unfold prod.case,
      rule rolls_first [OF node_services_perform [OF svc] calm.node_services_perform [OF svc]], goal_cases)
    case (1 st r)
    then show ?case by (simp only: prod.case) (rule rolls_bind [OF workload], simp only: prod.case, rule extras)
  qed
qed

lemma nodes_roll:
  "steady m \<Longrightarrow> GetNamespace m = GetNamespace cr \<Longrightarrow> planNodes (clLib sdk) ls sha m elems = Ok (m', acts) \<Longrightarrow>
   rolls good calm view (deployNodes sdk ls sha (m, names) elems) (\<lambda>r. r = (m', absorb acts names)) acts"
  unfolding deployNodes_def
proof (induction elems arbitrary: m names acts)
  case (Cons elem elems)
  obtain m1 as bs where p: "planNode (clLib sdk) ls sha m elem = Ok (m1, as)" "planNodes (clLib sdk) ls sha m1 elems = Ok (m', bs)"
    "acts = as @ bs"
    using Cons.prems(3) by (auto simp: bindO_Ok)
  note fr = planNode_frame [OF p(1)]
  have "steady m1" "GetNamespace m1 = GetNamespace cr"
    using Cons.prems(1,2) steady_frame [OF fr] frame_meta(1) [OF fr] by simp_all
  note rest = Cons.IH [OF this p(2)]
  show ?case
    unfolding loopE.simps p(3) absorb_append
    by (rule rolls_bind [OF node_rolls [OF Cons.prems(1,2) p(1)]]) (simp add: rest)
qed (simp add: rolls_ret)

subsection \<open>The whole deployment\<close>

lemma live_advances:
  assumes st: "steady cr" and plan: "planNodes (clLib sdk) ls sha cr elems = Ok (m', acts)"
    and names: "absorb pre noneWanted = noneWanted\<lparr>wnConfigMaps := cmNames\<rparr>"
  shows "advances good calm view (deployLive sdk elems ls sha cmNames cr) acts (sweeps (GetNamespace cr) ls (pre @ acts))"
proof -
  have "advances good calm view (deployLive sdk elems ls sha cmNames cr) ([] @ acts) (sweeps (GetNamespace cr) ls (pre @ acts))"
    unfolding deployLive_def
  proof (rule advances_first [OF finalizers_perform calm.finalizers_perform], goal_cases)
    case (1 m)
    then obtain m1 where m1: "planNodes (clLib sdk) ls sha m elems = Ok (m1, acts)"
      using core_planNodes [OF 1, of "clLib sdk" ls sha elems] plan
      by (cases "planNodes (clLib sdk) ls sha m elems") (auto simp: rel_prod_sel)
    have m: "steady m" "GetNamespace m = GetNamespace cr" using st steady_core [OF 1] 1 by (simp_all add: same_core_def)
    note fr = planNodes_frame [OF m1]
    have "\<not> (metaGeneration (objMeta m1) > 1 \<and> crDeleteOrphanPvc (drSpec m1))" "GetNamespace m1 = GetNamespace cr"
      using m steady_frame [OF fr] frame_meta(1) [OF fr] by (auto simp: steady_def)
    moreover then have "does good view (cleanup_and_status sdk ls m1 (absorb (pre @ acts) noneWanted)) (\<lambda>_. True)
        (sweeps (GetNamespace cr) ls (pre @ acts))"
      using cleanup_performs [of ls m1 "absorb (pre @ acts) noneWanted"]
      by (simp add: sweeps_def sweptKinds_def absorb_def noneWanted_def)
    moreover have "absorb acts (noneWanted\<lparr>wnConfigMaps := cmNames\<rparr>) = absorb (pre @ acts) noneWanted"
      by (simp only: absorb_append names)
    ultimately show ?case
      by (intro advances_last [OF nodes_roll [OF m m1, of "noneWanted\<lparr>wnConfigMaps := cmNames\<rparr>"]])
         (simp only: prod.case if_False simp_thms bindE_ret)
  qed
  then show ?thesis by simp
qed

lemma deploy_advances:
  assumes g: "good s" and valid: "verifyDruidSpec cr = None" and live: "metaDeletionTimestamp (objMeta cr) = None"
    and st: "steady cr" and cc: "res (makeCommonConfigMap sdk cr (makeLabelsForDruid cr)) s = Ok cc"
    and plan: "clusterPlan (clLib sdk) cr cc = Ok acts"
  obtains "good (post (deployDruidCluster sdk cr) s)" "view (post (deployDruidCluster sdk cr) s) = applyActs acts (view s)"
  | n where "good (post (deployDruidCluster sdk cr) s)"
      "view (post (deployDruidCluster sdk cr) s) = applyActs (take n (filter isEnsure acts)) (view s)"
      "calm s \<longrightarrow> \<not> settled (take n (filter isEnsure acts)) (view s)"
proof -
  let ?ls = "makeLabelsForDruid cr"
  let ?w = "want (clLib sdk) ConfigMapKind KConfigMap cr cc"
  from plan obtain sha m' nodes where hash: "getObjectHash (clLib sdk) (KConfigMap cc) = Inr sha"
    and nodes: "planNodes (clLib sdk) ?ls sha cr (getNodeSpecsByOrder cr) = Ok (m', nodes)"
    and acts: "acts = (?w # nodes) @ sweeps (GetNamespace cr) ?ls (?w # nodes)"
    by (rule clusterPlanE)
  define R where R: "R = bindE (sdkCreateOrUpdateAsNeeded (clLib sdk) (clConfigMaps sdk) (ret cc) alwaysTrueIsEqualsFn noopUpdaterFn cr {})
    (\<lambda>(_, configMapNames, _). deployLive sdk (getNodeSpecsByOrder cr) ?ls sha configMapNames cr)"
  have names: "absorb [?w] noneWanted = noneWanted\<lparr>wnConfigMaps := {GetName cc}\<rparr>"
    by (simp add: absorb_want noneWanted_def)
  have "advances good calm view R ([?w] @ nodes) (sweeps (GetNamespace cr) ?ls ([?w] @ nodes))" unfolding R
    using live_advances [OF st nodes names] by (intro advances_first [OF sync_want(1) calm.sync_want(1)]) auto
  moreover have "filter isEnsure acts = ?w # nodes"
    using planNodes_Ensures [OF nodes]
    by (simp add: acts sweeps_def want_def filter_id_conv list_all_iff)
  ultimately show thesis
    using that deploy_unfold(2) [OF g valid live cc hash R] g unfolding advances_def acts by auto
qed

end

section \<open>Repeated runs\<close>

definition unsettled :: "act list \<Rightarrow> dstore \<Rightarrow> nat" where
  "unsettled acts \<sigma> = length (filter (\<lambda>a. \<not> settledAct a \<sigma>) acts)"

lemma unsettled_0: "unsettled acts \<sigma> = 0 \<longleftrightarrow> settled acts \<sigma>"
  by (induction acts) (auto simp: unsettled_def)

lemma unsettled_perm: "mset as = mset bs \<Longrightarrow> unsettled as \<sigma> = unsettled bs \<sigma>"
  unfolding unsettled_def by (metis mset_filter size_mset)

lemma unsettled_append: "unsettled (as @ bs) \<sigma> = unsettled as \<sigma> + unsettled bs \<sigma>"
  by (simp add: unsettled_def)

text \<open>A beginning of the plan that is not settled yet, once performed, leaves less to do.\<close>

lemma beginning_decreases:
  assumes "list_all isEnsure wanted" "distinct (wantedKeys wanted)" and new: "\<not> settled (take n wanted) \<sigma>"
  shows "unsettled wanted (applyActs (take n wanted) \<sigma>) < unsettled wanted \<sigma>"
proof -
  let ?a = "take n wanted" and ?b = "drop n wanted"
  have split: "wanted = ?a @ ?b" by simp
  have en: "list_all isEnsure ?a" "list_all isEnsure ?b"
    using assms(1) by (metis list_all_append split)+
  have dist: "distinct (wantedKeys ?a)" "set (wantedKeys ?a) \<inter> set (wantedKeys ?b) = {}"
    using assms(2) by (metis distinct_append split wantedKeys_append)+
  have "settledAct x (applyActs ?a \<sigma>) = settledAct x \<sigma>" if x: "x \<in> set ?b" for x
  proof -
    from en(2) x have "isEnsure x" by (simp add: list_all_iff)
    then obtain kd key d where d: "x = Ensure kd key d" by (cases x) auto
    with x have "(kd, key) \<in> set (wantedKeys ?b)" unfolding in_wantedKeys by blast
    then have "(kd, key) \<notin> set (wantedKeys ?a)" using dist(2) by blast
    from applyActs_Ensure_other [OF en(1) this] show ?thesis by (simp add: d)
  qed
  then have "filter (\<lambda>x. \<not> settledAct x (applyActs ?a \<sigma>)) ?b = filter (\<lambda>x. \<not> settledAct x \<sigma>) ?b"
    by (intro filter_cong) auto
  then have "unsettled ?b (applyActs ?a \<sigma>) = unsettled ?b \<sigma>" by (simp add: unsettled_def)
  moreover have "unsettled ?a (applyActs ?a \<sigma>) = 0"
    using settled_by_Ensures [OF en(1) dist(1)] by (simp add: unsettled_0)
  moreover have "unsettled ?a \<sigma> > 0" using new unsettled_0 by (metis gr0I)
  ultimately show ?thesis using unsettled_append [of ?a ?b] by simp
qed

text \<open>
  \<open>n\<close> runs of the deployment, each started when the workloads are rolled out, for the resource as
  it is read at that moment. Between two runs anything may happen on the server that leaves the
  managed objects alone.
\<close>

inductive deploy_runs :: "'w client \<Rightarrow> druid \<Rightarrow> ('w \<Rightarrow> bool) \<Rightarrow> ('w \<Rightarrow> bool) \<Rightarrow> ('w \<Rightarrow> dstore) \<Rightarrow> configmap
    \<Rightarrow> nat \<Rightarrow> 'w \<Rightarrow> 'w \<Rightarrow> bool"
  for sdk :: "'w client" and m good calm view cc where
  none: "deploy_runs sdk m good calm view cc 0 s s"
| again: "deploy_runs sdk m good calm view cc n s0 s \<Longrightarrow> good s \<Longrightarrow> calm s \<Longrightarrow> reread m m' \<Longrightarrow>
    res (makeCommonConfigMap sdk m' (makeLabelsForDruid m')) s = Ok cc \<Longrightarrow>
    view s' = view (post (deployDruidCluster sdk m') s) \<Longrightarrow>
    deploy_runs sdk m good calm view cc (Suc n) s0 s'"

inductive_cases deploy_runs_SucE: "deploy_runs sdk m good calm view cc (Suc n) s0 s"

lemma runs_decrease:
  assumes rs: "\<And>x. reread m x \<Longrightarrow> rolling_store sdk good calm view x" and valid: "verifyDruidSpec m = None"
    and live: "metaDeletionTimestamp (objMeta m) = None" and st: "steady m"
    and plan: "clusterPlan (clLib sdk) m cc = Ok acts" "distinct (wantedKeys acts)" and un: "unshared m"
    and runs: "deploy_runs sdk m good calm view cc n s0 s"
  shows "settled acts (view s) \<or> n + unsettled (filter isEnsure acts) (view s) \<le> unsettled (filter isEnsure acts) (view s0)"
  using runs
proof induction
  case (again n s0 s m' s')
  note re = again.hyps(4)
  obtain acts' where acts': "clusterPlan (clLib sdk) m' cc = Ok acts'" "set acts' = set acts"
      "mset (filter isEnsure acts') = mset (filter isEnsure acts)" "mset (wantedKeys acts') = mset (wantedKeys acts)"
    using un re plan(1) by (rule reread_plan)
  from acts'(1) obtain wanted where shape: "acts' = wanted @ sweeps (GetNamespace m') (makeLabelsForDruid m') wanted" "list_all isEnsure wanted"
    by (rule clusterPlan_shape)
  have w: "filter isEnsure acts' = wanted"
    using shape(2) by (simp add: shape(1) sweeps_def filter_id_conv list_all_iff)
  have dist': "distinct (wantedKeys acts')" using plan(2) mset_eq_imp_distinct_iff [OF acts'(4)] by simp
  then have dist: "distinct (wantedKeys wanted)" by (simp add: shape(1))
  have facts: "verifyDruidSpec m' = None" "metaDeletionTimestamp (objMeta m') = None" "steady m'"
    using valid live st by (simp_all add: reread_valid [OF re] reread_live [OF re] reread_options [OF re])
  from rolling_store.deploy_advances [OF rs [OF re] again.hyps(2) facts again.hyps(5) acts'(1)] show ?case
  proof cases
    case 1
    then have "settled acts' (view s')" using plan_settles [OF acts'(1) dist', of "view s"] again.hyps(6) by simp
    then show ?thesis using settled_set [OF acts'(2)] by simp
  next
    case (2 k)
    then have new: "\<not> settled (take k wanted) (view s)" using again.hyps(3) by (simp add: w)
    then have "\<not> settled acts' (view s)"
      using set_take_subset [of k wanted] by (auto simp: settled_def list_all_iff shape(1))
    then have "\<not> settled acts (view s)" using settled_set [OF acts'(2)] by simp
    with again.IH beginning_decreases [OF shape(2) dist new] 2(2) again.hyps(6) show ?thesis
      by (simp add: w flip: unsettled_perm [OF acts'(3)])
  qed
qed simp

section \<open>The server in memory keeps the contract\<close>

definition isWorkload :: "kobj \<Rightarrow> bool" where
  "isWorkload k \<longleftrightarrow> kindOf k = StatefulSetKind \<or> kindOf k = DeploymentKind"

definition memCalm :: "string \<Rightarrow> world \<Rightarrow> bool" where
  "memCalm ns w \<longleftrightarrow> (\<forall>k \<in> set (wObjs w). isWorkload k \<longrightarrow> metaNamespace (kobjMeta k) = ns \<longrightarrow> rolledOut k)"

lemma calm_requests:
  assumes "\<not> isWorkload (wrap x)" "memCalm ns w"
  shows "memCalm ns (snd (memCreate wrap x w))" "memCalm ns (snd (memReplace wrap x w))" "memCalm ns (snd (memDelete wrap x w))"
  using assms by (auto simp: memCalm_def memCreate_def memReplace_def memDelete_def Let_def)

lemma memory_calm_kind:
  assumes "kind_store (memApi kd wrap unwrap) (memGood key) memView" and "\<And>x. \<not> isWorkload (wrap x)"
  shows "kind_store (memApi kd wrap unwrap) (\<lambda>s. memGood key s \<and> memCalm ns s) memView"
  by (intro kind_store_also [OF assms(1)]) (simp_all add: memApi_def calm_requests assms(2))

lemma memory_calm_others:
  "memCalm ns s \<Longrightarrow> memCalm ns (snd (apiList (clPods memClient) ns' ls s))"
  "memCalm ns s \<Longrightarrow> memCalm ns (snd (apiDelete (clPods memClient) opt p s))"
  "memCalm ns s \<Longrightarrow> memCalm ns (snd (apiPatch (clDruids memClient) pt m s))"
  "memCalm ns s \<Longrightarrow> memCalm ns (snd (apiStatusPatch (clDruids memClient) pt m s))"
  by (simp_all add: memory_apis memApi_def memList_def calm_requests isWorkload_def)

lemma memory_calm_frame: "frame_store memClient (\<lambda>s. memGood (objKey cr) s \<and> memCalm ns s) memView cr"
  supply mem = frame_store.axioms(1) [OF memory_frame_store, of cr]
proof (intro frame_store.intro other_requests.intro frame_store_axioms.intro, goal_cases)
  case 1
  show ?case by (rule typed_memClient)
next
  case (2 s ns ls)
  then show ?case using other_requests.pods_listed [OF mem, of s ns ls] by (simp add: memory_calm_others)
next
  case (3 s opt p)
  then show ?case using other_requests.pod_deleted [OF mem, of s opt p] by (simp add: memory_calm_others)
next
  case (4 s st m)
  then show ?case using other_requests.status_patched [OF mem, of s st m] by (simp add: memory_calm_others)
next
  case 11
  show ?case by (rule frame_store.kinded [OF memory_frame_store])
next
  case (12 s fs)
  then obtain m' s' where "apiPatch (clDruids memClient) (JSONPatchFinalizers fs) (SetFinalizers fs cr) s = (Inr m', s')"
    "memGood (objKey cr) s'" "memView s' = memView s" "same_core m' cr"
    using frame_store.cr_patched [OF memory_frame_store, of cr s fs] by blast
  moreover with 12 have "memCalm ns s'"
    using memory_calm_others(3) [of ns s "JSONPatchFinalizers fs" "SetFinalizers fs cr"] by simp
  ultimately show ?case by blast
qed (use memory_kinds [of "objKey cr"] in \<open>auto simp: memory_apis intro!: memory_calm_kind simp: isWorkload_def\<close>)

lemma memory_calm_get:
  fixes wrap :: "'a k8s_object_scheme \<Rightarrow> kobj"
  assumes w: "wraps kd wrap unwrap" and kd: "kd = StatefulSetKind \<or> kd = DeploymentKind"
    and calm: "memCalm ns s" and get: "memGet kd unwrap n ns s = (Inr p, s)"
  shows "rolledOut (wrap p)"
proof -
  from get obtain k where k: "find (sameKey kd n ns) (wObjs s) = Some k" "p = unwrap k"
    by (auto simp: memGet_def split: option.splits)
  then have "k \<in> set (wObjs s)" "kindOf k = kd" "metaNamespace (kobjMeta k) = ns"
    by (auto simp: find_Some_iff sameKey_def)
  with calm kd show ?thesis by (auto simp: memCalm_def isWorkload_def k(2) wrapsD(4) [OF w])
qed

lemma memory_rolling_store: "rolling_store memClient (memGood (objKey cr)) (memCalm (GetNamespace cr)) memView cr"
  by (intro rolling_store.intro rolling_store_axioms.intro memory_cluster_store memory_calm_frame)
     (simp add: memory_apis memApi_def del: rolledOut.simps,
      blast intro: memory_calm_get [OF wraps_kinds(3)] memory_calm_get [OF wraps_kinds(4)])+

interpretation mem_rolling: rolling_store memClient "memGood (objKey cr)" "memCalm (GetNamespace cr)" memView cr for cr
  by (rule memory_rolling_store)

section \<open>Properties\<close>

text \<open>
  C3 (termination). A deployment finishes, with and without rolling deployment, for any number of
  node groups: when more runs were made than there were unsettled wanted objects in the plan at the
  start, and each run found the workloads rolled out, the plan is settled, so that every wanted
  object is there with its hash and nothing unwanted is left. Each run is for the resource as it is
  read then, with the node map in any order, and between the runs anything may happen on the server
  that leaves the managed objects alone. The resource is valid and not being deleted; volume
  expansion and the removal of orphaned claims are off, or it is the first generation; the planned
  objects have distinct keys; each run builds the common ConfigMap with the same content; and the
  cluster level of the spec has nothing that builders write through (\<open>unshared\<close>).
\<close>

theorem rolling_deployment_finishes:
  assumes "\<And>x. reread m x \<Longrightarrow> rolling_store sdk good calm view x" and "verifyDruidSpec m = None"
    and "metaDeletionTimestamp (objMeta m) = None" and "steady m"
    and "clusterPlan (clLib sdk) m cc = Ok acts" and "distinct (wantedKeys acts)" and "unshared m"
    and "deploy_runs sdk m good calm view cc n s0 s"
    and "unsettled (filter isEnsure acts) (view s0) < n"
  shows "settled acts (view s)"
  using runs_decrease [OF assms(1-8)] assms(9) by simp

section \<open>Witnesses\<close>

text \<open>Between two runs the workloads of the server in memory become ready.\<close>

fun readied :: "kobj \<Rightarrow> kobj" where
  "readied (KStatefulSet x) = KStatefulSet (x\<lparr>stsStatus := (stsStatus x)\<lparr>
     stCurrentRevision := stUpdateRevision (stsStatus x), stCurrentReplicas := stReadyReplicas (stsStatus x)\<rparr>\<rparr>)"
| "readied (KDeployment x) = KDeployment (x\<lparr>depStatus := (depStatus x)\<lparr>dsReadyReplicas := dsReplicas (depStatus x),
     dsConditions := [\<lparr>condType = DeploymentProgressing, condStatus = ConditionTrue, condReason = []\<rparr>]\<rparr>\<rparr>)"
| "readied k = k"

definition memReady :: "world \<Rightarrow> world" where
  "memReady w = w\<lparr>wObjs := map readied (wObjs w)\<rparr>"

lemma readied_simps [simp]: "kobjMeta (readied k) = kobjMeta k" "kindOf (readied k) = kindOf k"
  by (cases k; simp)+

lemma readied_rolledOut: "isWorkload k \<Longrightarrow> rolledOut (readied k)"
  by (cases k) (simp_all add: isWorkload_def statefulSetDeployed_def)

lemma memReady:
  "memCalm ns (memReady w)" "memGood key (memReady w) = memGood key w" "memView (memReady w) = memView w"
proof -
  have key: "kobjKey (readied k) = kobjKey k" for k by (simp add: kobjKey_def)
  have "isWorkload (readied k) = isWorkload k" for k by (simp add: isWorkload_def)
  then show "memCalm ns (memReady w)" by (auto simp: memCalm_def memReady_def readied_rolledOut)
  show "memGood key (memReady w) = memGood key w" by (simp add: memGood_def memReady_def comp_def key)
  have "map_option (\<lambda>k. metaDigest (kobjMeta k)) (find (\<lambda>k. kobjKey k = a) (map readied ks))
      = map_option (\<lambda>k. metaDigest (kobjMeta k)) (find (\<lambda>k. kobjKey k = a) ks)" for a ks
    by (induction ks) (simp_all add: key)
  then show "memView (memReady w) = memView w" by (simp add: memView_def memReady_def fun_eq_iff)
qed

lemma pair_rolling_store:
  assumes "reread (pairDruid r b) x"
  shows "rolling_store memClient (memGood (''c'', ''ns'')) (memCalm ''ns'') memView x"
proof -
  have "objKey x = (''c'', ''ns'')" using assms pair_facts(6) [of r b] by (simp add: reread_def)
  with memory_rolling_store [of x] show ?thesis by simp
qed

text \<open>Runs of two node groups of one type, whose order changes from run to run.\<close>

lemma pair_runs:
  "\<exists>s. deploy_runs memClient (pairDruid True False) (memGood (''c'', ''ns'')) (memCalm ''ns'') memView (plainCommon True)
      n (memReady (plainWorld True)) s \<and> memGood (''c'', ''ns'') s \<and> memCalm ''ns'' s"
proof (induction n)
  case 0
  have "memGood (''c'', ''ns'') (memReady (plainWorld True))" using pair_facts(7) [of True] by (simp only: memReady)
  with deploy_runs.none memReady(1) show ?case by (intro exI [of _ "memReady (plainWorld True)"] conjI)
next
  case (Suc n)
  then obtain s where s: "deploy_runs memClient (pairDruid True False) (memGood (''c'', ''ns'')) (memCalm ''ns'') memView
      (plainCommon True) n (memReady (plainWorld True)) s" "memGood (''c'', ''ns'') s" "memCalm ''ns'' s" by blast
  let ?m = "pairDruid True (even n)"
  let ?s' = "post (deployDruidCluster memClient ?m) s"
  obtain acts where plan: "clusterPlan (clLib memClient) (pairDruid True False) (plainCommon True) = Ok acts"
    using pair_plan [of True] by (auto simp: memory_apis)
  obtain acts' where plan': "clusterPlan (clLib memClient) ?m (plainCommon True) = Ok acts'"
    using pair_facts(5) pair_reread plan by (rule reread_plan)
  have "memGood (''c'', ''ns'') ?s'"
    by (rule rolling_store.deploy_advances [OF pair_rolling_store [OF reread_refl] s(2) pair_facts(1,2,3) pair_common_run plan'])
  with deploy_runs.again [OF s pair_reread pair_common_run, of "memReady ?s'" "even n"] show ?case
    by (intro exI [of _ "memReady ?s'"]) (simp add: memReady)
qed

theorem rolling_deployment_finishes_witness:
  "\<exists>acts s. clusterPlan memLib (pairDruid True False) (plainCommon True) = Ok acts
     \<and> deploy_runs memClient (pairDruid True False) (memGood (''c'', ''ns'')) (memCalm ''ns'') memView (plainCommon True)
         6 (memReady (plainWorld True)) s
     \<and> settled acts (memView s)"
proof -
  obtain acts where plan: "clusterPlan (clLib memClient) (pairDruid True False) (plainCommon True) = Ok acts" "distinct (wantedKeys acts)"
    and len: "length (wantedKeys acts) = 5"
    using pair_plan [of True] by (auto simp: memory_apis)
  obtain s where s: "deploy_runs memClient (pairDruid True False) (memGood (''c'', ''ns'')) (memCalm ''ns'') memView
      (plainCommon True) 6 (memReady (plainWorld True)) s"
    using pair_runs [of 6] by blast
  have "length (filter isEnsure as) = length (wantedKeys as)" for as
    by (induction as rule: wantedKeys.induct) simp_all
  then have "length (filter isEnsure acts) = 5" by (simp add: len)
  then have "unsettled (filter isEnsure acts) \<sigma> < 6" for \<sigma>
    using length_filter_le [of "\<lambda>a. \<not> settledAct a \<sigma>" "filter isEnsure acts"] by (simp add: unsettled_def)
  from rolling_deployment_finishes [OF pair_rolling_store [of True False] pair_facts(1,2,3) plan pair_facts(5) s this] s plan(1)
  show ?thesis by (auto simp: memory_apis)
qed

end
