(* ===== verification/Cluster_Isolation.thy ===== *)
theory Cluster_Isolation
  imports Rolling_Progress
begin

text \<open>
  Two clusters on one server. The objects a plan asks for carry the labels of their cluster
  (\<open>ofCluster\<close>), and the sweeps of a plan select by these labels; so the actions of one cluster's
  plan are \<open>foreign\<close> to another cluster, and performing any of them leaves the other cluster as it
  stands. Proved from it: a deployment of one resource, complete or stopped half-way by a rolling
  deployment, does not disturb a cluster of another name or namespace, provided no planned object
  of the two has the same key. Keys can indeed collide, since names are joined with hyphens.
\<close>

section \<open>Plans belong to their cluster\<close>

lemma fmsubset_refl [simp]: "fmsubset l l"
  by (simp add: fmsubset_alt_def fmpred_iff)

fun ofCluster :: "druid \<Rightarrow> act \<Rightarrow> bool" where
  "ofCluster m (Ensure kd key d) = (snd key = GetNamespace m \<and> fmsubset (makeLabelsForDruid m) (snd d))"
| "ofCluster m (Sweep kd ns ls names) = (ns = GetNamespace m \<and> ls = makeLabelsForDruid m)"

lemma want_ofCluster: "belongs m obj \<Longrightarrow> ofCluster m (want lib kd wrap m' obj)"
  by (simp add: want_def belongs_def metaDigest_def GetLabels_def stamped_def addHashToObject_def addOwnerRefToObject_def
      metaSet_defs split: sum.split)

lemma planServices_ofCluster:
  "cr_frame m' = cr_frame m \<Longrightarrow> fmsubset (makeLabelsForDruid m) lm \<Longrightarrow>
   list_all (ofCluster m) (snd (snd (planServices lib n lm u m' first svcs)))"
proof (induction lib n lm u m' first svcs rule: planServices.induct)
  case (2 lib n lm u m' first i svc rest)
  have "belongs m (makeService lib svc n m' lm u)"
    using 2(2,3) frame_meta(1) [OF 2(2)] by (intro belongs_built) simp_all
  with 2 show ?case by (simp add: Let_def case_prod_beta want_ofCluster framed)
qed simp

lemma planWorkload_ofCluster:
  assumes "cr_frame m' = cr_frame m" "fmsubset (makeLabelsForDruid m) lm" "planWorkload lib n lm u sha first m' = Ok (m1, acts)"
  shows "list_all (ofCluster m) acts"
proof -
  have ns: "GetNamespace m' = GetNamespace m" using frame_meta(1) [OF assms(1)] by simp
  obtain obj m2 where b: "makeStatefulSet n m' lm u sha first = (obj, m2)" by (cases "makeStatefulSet n m' lm u sha first")
  with belongs_built(3) [OF assms(2) ns, of n u sha first] have "belongs m obj" by simp
  with b assms(3) belongs_built(4) [OF assms(2) ns] show ?thesis
    by (auto simp: planWorkload_def bindO_Ok want_ofCluster split: if_splits)
qed

lemma planExtras_ofCluster:
  assumes "cr_frame m' = cr_frame m" "fmsubset (makeLabelsForDruid m) lm" "fmsubset (makeLabelsForDruid m) ls"
    "planExtras lib n ls lm u m' = Ok acts"
  shows "list_all (ofCluster m) acts"
proof -
  have ns: "GetNamespace m' = GetNamespace m" using frame_meta(1) [OF assms(1)] by simp
  note lm = belongs_built [OF assms(2) ns] and ls = belongs_built [OF assms(3) ns]
  have one: "list_all (ofCluster m) as"
    if "(if b then bindO r (\<lambda>x. Ok [want lib kd wrap m' x]) else Ok []) = Ok as" "\<And>x. r = Ok x \<Longrightarrow> belongs m x" for b r kd wrap as
    using that by (auto simp: bindO_Ok want_ofCluster split: if_splits)
  from assms(4) show ?thesis
    by (rule planExtrasE) (auto simp: lm want_ofCluster list_all_iff dest!: one [unfolded list_all_iff] intro: lm ls)
qed

lemma planNode_ofCluster:
  assumes fr: "cr_frame m' = cr_frame m" and ls: "fmsubset (makeLabelsForDruid m) ls" and plan: "planNode lib ls sha m' elem = Ok (m1, acts)"
  shows "list_all (ofCluster m) acts"
proof -
  from plan obtain n u lm cm m2 first services nodeSHA workload extras where
    n: "n = sgSpec elem" "u = makeNodeSpecificUniqueString m' (sgKey elem)" "lm = makeLabelsForNodeSpec n m' (GetName m') u"
      "cm = makeConfigMapForNodeSpec n m' lm u"
    and svc: "planServices lib n lm u m' [] (enumerate 0 (nodeServices n m')) = (m2, first, services)"
    and wl: "planWorkload lib (withDruidPort n) lm u (sha @ ''-'' @ nodeSHA) first m2 = Ok (m1, workload)"
    and ex: "planExtras lib (withDruidPort n) ls lm u m1 = Ok extras"
    and acts: "acts = want lib ConfigMapKind KConfigMap m' cm # services @ workload @ extras"
    by (rule planNodeE)
  have lm: "fmsubset (makeLabelsForDruid m) lm" unfolding n(3) by (rule node_labels [OF fr])
  have ns: "GetNamespace m' = GetNamespace m" using frame_meta(1) [OF fr] by simp
  have f2: "cr_frame m2 = cr_frame m"
    using planServices_frame [of lib n lm u m' "[]" "enumerate 0 (nodeServices n m')"] svc fr by simp
  have f1: "cr_frame m1 = cr_frame m" using planWorkload_frame [OF wl] f2 by simp
  show ?thesis
    using planServices_ofCluster [OF fr lm, of lib n u "[]" "enumerate 0 (nodeServices n m')"] svc
      planWorkload_ofCluster [OF f2 lm wl] planExtras_ofCluster [OF f1 lm ls ex] belongs_built(1) [OF lm ns, of n u]
    by (simp add: acts n(4) want_ofCluster)
qed

lemma planNodes_ofCluster:
  "cr_frame m' = cr_frame m \<Longrightarrow> fmsubset (makeLabelsForDruid m) ls \<Longrightarrow> planNodes lib ls sha m' elems = Ok (m1, acts) \<Longrightarrow>
   list_all (ofCluster m) acts"
proof (induction elems arbitrary: m' acts)
  case (Cons elem elems)
  then obtain m2 as bs where p: "planNode lib ls sha m' elem = Ok (m2, as)" "planNodes lib ls sha m2 elems = Ok (m1, bs)" "acts = as @ bs"
    by (auto simp: bindO_Ok)
  have "cr_frame m2 = cr_frame m" using planNode_frame [OF p(1)] Cons.prems(1) by simp
  from Cons.IH [OF this Cons.prems(2) p(2)] planNode_ofCluster [OF Cons.prems(1,2) p(1)] show ?case by (simp add: p(3))
qed simp

lemma clusterPlan_ofCluster:
  assumes "clusterPlan lib m cc = Ok acts" "belongs m cc"
  shows "list_all (ofCluster m) acts"
proof -
  from assms(1) obtain sha m' nodes where
    "planNodes lib (makeLabelsForDruid m) sha m (getNodeSpecsByOrder m) = Ok (m', nodes)"
    "acts = (want lib ConfigMapKind KConfigMap m cc # nodes)
       @ sweeps (GetNamespace m) (makeLabelsForDruid m) (want lib ConfigMapKind KConfigMap m cc # nodes)"
    by (rule clusterPlanE)
  with planNodes_ofCluster [OF refl fmsubset_refl this(1)] assms(2) show ?thesis
    by (auto simp: want_ofCluster sweeps_def list_all_iff)
qed

lemma common_belongs: "res (makeCommonConfigMap sdk m (makeLabelsForDruid m)) s = Ok cc \<Longrightarrow> belongs m cc"
  by (auto simp: makeCommonConfigMap_def go_run Let_def makeConfigMap_def belongs_def GetLabels_def split: outcome.splits)

section \<open>Actions of another cluster\<close>

definition apart :: "druid \<Rightarrow> druid \<Rightarrow> bool" where
  "apart m m' \<longleftrightarrow> GetNamespace m \<noteq> GetNamespace m' \<or> GetName m \<noteq> GetName m'"

text \<open>No object carries the labels of two clusters of different names.\<close>

lemma labels_name: "fmsubset (makeLabelsForDruid m) l \<Longrightarrow> fmlookup l ''druid_cr'' = Some (GetName m)"
  unfolding fmsubset_alt_def fmpred_iff by (simp add: makeLabelsForDruid_def)

lemma labels_apart: "fmsubset (makeLabelsForDruid m) l \<Longrightarrow> fmsubset (makeLabelsForDruid m') l \<Longrightarrow> GetName m = GetName m'"
  by (drule labels_name)+ simp

text \<open>
  A cluster stands: its plan is settled, and the objects under the planned keys carry the labels
  of the cluster.
\<close>

definition stands :: "druid \<Rightarrow> act list \<Rightarrow> dstore \<Rightarrow> bool" where
  "stands m acts \<sigma> \<longleftrightarrow> settled acts \<sigma>
     \<and> (\<forall>kd key d. (kd, key) \<in> set (wantedKeys acts) \<longrightarrow> \<sigma> kd key = Some d \<longrightarrow> fmsubset (makeLabelsForDruid m) (snd d))"

fun foreign :: "druid \<Rightarrow> act list \<Rightarrow> act \<Rightarrow> bool" where
  "foreign m acts (Ensure kd key d) = ((kd, key) \<notin> set (wantedKeys acts)
     \<and> \<not> (snd key = GetNamespace m \<and> fmsubset (makeLabelsForDruid m) (snd d)))"
| "foreign m acts (Sweep kd ns ls names) =
     (ns = GetNamespace m \<longrightarrow> (\<forall>l. fmsubset (makeLabelsForDruid m) l \<longrightarrow> \<not> fmsubset ls l))"

lemma ofCluster_foreign:
  assumes "apart m m'" "ofCluster m' a" "\<And>kd key. (kd, key) \<in> set (wantedKeys [a]) \<Longrightarrow> (kd, key) \<notin> set (wantedKeys acts)"
  shows "foreign m acts a"
  using assms labels_apart [of m _ m'] by (cases a) (auto simp: apart_def)

text \<open>What an action of another cluster does to a single object of this one: nothing.\<close>

lemma foreign_Ensure:
  "foreign m acts (Ensure kd key d) \<Longrightarrow> (kd', key') \<in> set (wantedKeys acts) \<Longrightarrow> applyAct (Ensure kd key d) \<sigma> kd' key' = \<sigma> kd' key'"
  by (intro apply_Ensure_other) auto

lemma foreign_Sweep:
  assumes "foreign m acts (Sweep kd ns ls names)" "\<sigma> kd' key' = Some d" "snd key' = GetNamespace m" "fmsubset (makeLabelsForDruid m) (snd d)"
  shows "applyAct (Sweep kd ns ls names) \<sigma> kd' key' = Some d"
  unfolding apply_Sweep_Some using assms by (auto simp: unwanted_def)

lemma foreign_stands:
  assumes st: "stands m acts \<sigma>" and of: "list_all (ofCluster m) acts" and f: "foreign m acts a"
  shows "stands m acts (applyAct a \<sigma>)"
proof -
  have same: "applyAct a \<sigma> kd key = \<sigma> kd key" if key: "(kd, key) \<in> set (wantedKeys acts)" for kd key
  proof (cases a)
    case (Ensure kd' key' d')
    then show ?thesis using foreign_Ensure f key by blast
  next
    case (Sweep kd' ns ls names)
    from key obtain d where d: "Ensure kd key d \<in> set acts" by (auto simp only: in_wantedKeys)
    with of have ns: "snd key = GetNamespace m" by (auto simp: list_all_iff)
    from st d obtain d' where d': "\<sigma> kd key = Some d'" using settled_wanted [of acts \<sigma> kd key d] by (auto simp: stands_def)
    then have "fmsubset (makeLabelsForDruid m) (snd d')" using st key unfolding stands_def by blast
    with foreign_Sweep [of m acts kd' ns ls names \<sigma> kd key d'] f Sweep ns d' show ?thesis by simp
  qed
  have "settledAct b (applyAct a \<sigma>)" if b: "b \<in> set acts" for b
  proof (cases b)
    case (Ensure kd key d)
    then have "(kd, key) \<in> set (wantedKeys acts)" using b by (auto simp only: in_wantedKeys)
    from same [OF this] b st Ensure show ?thesis by (auto simp: stands_def settled_def list_all_iff)
  next
    case (Sweep kd ns ls names)
    have lsns: "ns = GetNamespace m" "ls = makeLabelsForDruid m" using of b Sweep by (auto simp: list_all_iff)
    have old: "settledAct (Sweep kd ns ls names) \<sigma>" using st b Sweep by (auto simp: stands_def settled_def list_all_iff)
    show ?thesis
    proof (cases a)
      case (Ensure kd' key' d')
      with f lsns old show ?thesis unfolding Sweep by (auto simp: putObj_def unwanted_def split: option.splits if_splits)
    next
      case (Sweep kd' ns' ls' names')
      with old show ?thesis unfolding \<open>b = Sweep kd ns ls names\<close> by (simp only: settled_after_Sweep(2))
    qed
  qed
  with same st show ?thesis by (auto simp: stands_def settled_def list_all_iff)
qed

lemma foreign_acts_stand:
  "stands m acts \<sigma> \<Longrightarrow> list_all (ofCluster m) acts \<Longrightarrow> list_all (foreign m acts) as \<Longrightarrow> stands m acts (applyActs as \<sigma>)"
  by (induction as arbitrary: \<sigma>) (auto intro: foreign_stands)

text \<open>
  A cluster stands once its plan was performed, unless an object without its labels was in the
  place of a planned one.
\<close>

lemma applied_labels:
  "list_all (ofCluster m) as \<Longrightarrow> applyActs as \<sigma> kd key = Some d \<Longrightarrow>
   (\<And>d. \<sigma> kd key = Some d \<Longrightarrow> fmsubset (makeLabelsForDruid m) (snd d)) \<Longrightarrow> fmsubset (makeLabelsForDruid m) (snd d)"
proof (induction as arbitrary: \<sigma>)
  case (Cons a as)
  have "fmsubset (makeLabelsForDruid m) (snd d')" if d': "applyAct a \<sigma> kd key = Some d'" for d'
  proof (cases a)
    case (Ensure kd' key' e)
    then show ?thesis
      using d' Cons.prems(1,3) by (auto simp: putObj_def simp del: settledAct.simps split: if_splits)
  next
    case (Sweep kd' ns ls names)
    then show ?thesis using d' Cons.prems(3) unfolding Sweep apply_Sweep_Some by blast
  qed
  with Cons.IH [of "applyAct a \<sigma>"] Cons.prems(1,2) show ?case by simp
qed simp

lemma plan_stands:
  assumes "clusterPlan lib m cc = Ok acts" "belongs m cc" "distinct (wantedKeys acts)"
    and "\<And>kd key d. (kd, key) \<in> set (wantedKeys acts) \<Longrightarrow> \<sigma> kd key = Some d \<Longrightarrow> fmsubset (makeLabelsForDruid m) (snd d)"
  shows "stands m acts (applyActs acts \<sigma>)"
  unfolding stands_def
  using plan_settles [OF assms(1,3)] applied_labels [OF clusterPlan_ofCluster [OF assms(1,2)]] assms(4) by blast

text \<open>Nothing is known of the workloads: every \<open>cluster_store\<close> is a \<open>rolling_store\<close> without calm states.\<close>

lemma never_calm: "cluster_store sdk good view m \<Longrightarrow> rolling_store sdk good (\<lambda>_. False) view m"
proof (intro rolling_store.intro rolling_store_axioms.intro)
  assume cs: "cluster_store sdk good view m"
  then have "typed_client sdk" "kinded_client sdk"
    by (simp_all add: cluster_store_def frame_store_def frame_store_axioms_def other_requests_def)
  then show "frame_store sdk (\<lambda>s. good s \<and> False) view m"
    by (simp add: frame_store_def frame_store_axioms_def kind_store_def other_requests_def)
qed simp_all

section \<open>Properties\<close>

text \<open>
  C16 (safety). Clusters do not interfere: a deployment of one resource, valid, not being deleted
  and without volume expansion or orphan cleanup after its first generation, whether it goes through
  or is stopped by a rolling deployment, leaves a cluster of another name or in another namespace
  as it stands, that is with all its planned objects and nothing unwanted, provided no planned
  object of the one has the key of a planned object of the other.
\<close>

theorem clusters_do_not_interfere:
  assumes "cluster_store sdk good view m'" and "good s" and "verifyDruidSpec m' = None"
    and "metaDeletionTimestamp (objMeta m') = None" and "steady m'"
    and "res (makeCommonConfigMap sdk m' (makeLabelsForDruid m')) s = Ok cc'" and "clusterPlan (clLib sdk) m' cc' = Ok acts'"
    and "clusterPlan (clLib sdk) m cc = Ok acts" and "belongs m cc" and "apart m m'"
    and "set (wantedKeys acts) \<inter> set (wantedKeys acts') = {}" and "stands m acts (view s)"
  shows "stands m acts (view (post (deployDruidCluster sdk m') s))"
proof -
  have mine: "list_all (ofCluster m) acts" by (rule clusterPlan_ofCluster [OF assms(8,9)])
  have theirs: "list_all (ofCluster m') acts'" by (rule clusterPlan_ofCluster [OF assms(7) common_belongs [OF assms(6)]])
  have keys: "set (wantedKeys [a]) \<subseteq> set (wantedKeys acts')" if "a \<in> set acts'" for a
    using that by (auto simp: in_wantedKeys simp del: split_paired_Ex)
  have "foreign m acts a" if "a \<in> set acts'" for a
    using that theirs keys [OF that] assms(10,11) by (intro ofCluster_foreign [of m m']) (auto simp: list_all_iff)
  then have foreign: "list_all (foreign m acts) as" if "set as \<subseteq> set acts'" for as
    using that by (auto simp: list_all_iff)
  from rolling_store.deploy_advances [OF never_calm [OF assms(1)] assms(2-7)] show ?thesis
  proof cases
    case 1
    then show ?thesis using foreign_acts_stand [OF assms(12) mine foreign, of acts'] by simp
  next
    case (2 n)
    have "set (take n (filter isEnsure acts')) \<subseteq> set acts'" using set_take_subset [of n "filter isEnsure acts'"] by auto
    with 2 show ?thesis using foreign_acts_stand [OF assms(12) mine foreign] by simp
  qed
qed

text \<open>
  Keys do collide: the names of two clusters and of their node groups can be joined to the same
  object name, so that the hypothesis on the keys cannot be dropped.
\<close>

lemma names_collide:
  "GetName m = a \<Longrightarrow> GetName m' = a @ ''-'' @ b \<Longrightarrow>
   makeNodeSpecificUniqueString m (b @ ''-'' @ c) = makeNodeSpecificUniqueString m' c"
  by (simp add: makeNodeSpecificUniqueString_def)

section \<open>Witnesses\<close>

text \<open>A second cluster in the same namespace, without node groups, whose common ConfigMap is there.\<close>

definition otherDruid :: druid where
  "otherDruid = sampleDruid\<lparr>objMeta := (metaOf ''x'' None)\<lparr>metaUID := ''u2''\<rparr>\<rparr>"

definition otherCommon :: configmap where
  "otherCommon = makeConfigMap ''x-druid-common-config'' ''ns'' (makeLabelsForDruid otherDruid) fmempty"

definition sharedWorld :: world where
  "sharedWorld = emptyWorld\<lparr>wObjs := [KDruid (plainDruid True), KDruid otherDruid, KConfigMap (stamped memLib KConfigMap otherDruid otherCommon)]\<rparr>"

lemma other_facts: "GetName otherDruid = ''x''" "GetNamespace otherDruid = ''ns''" "belongs otherDruid otherCommon"
  by (simp_all add: otherDruid_def otherCommon_def belongs_def makeConfigMap_def GetLabels_def metaOf_def)

lemma stamped_meta [simp]:
  "metaName (objMeta (stamped lib wrap m x)) = GetName x" "metaNamespace (objMeta (stamped lib wrap m x)) = GetNamespace x"
  "metaLabels (objMeta (stamped lib wrap m x)) = metaLabels (objMeta x)"
  by (simp_all add: stamped_def addHashToObject_def addOwnerRefToObject_def metaSet_defs split: sum.split)

lemma shared_view: "memView sharedWorld kd key =
    (if kd = ConfigMapKind \<and> key = (''x-druid-common-config'', ''ns'')
     then Some (digestOf (stamped memLib KConfigMap otherDruid otherCommon)) else None)"
  by (auto simp: memView_def sharedWorld_def emptyWorld_def kobjKey_def managed_def otherCommon_def makeConfigMap_def)

definition otherPlan :: "act list" where
  "otherPlan = [want memLib ConfigMapKind KConfigMap otherDruid otherCommon]
     @ sweeps ''ns'' (makeLabelsForDruid otherDruid) [want memLib ConfigMapKind KConfigMap otherDruid otherCommon]"

lemma other_plan: "clusterPlan memLib otherDruid otherCommon = Ok otherPlan"
proof -
  have "getNodeSpecsByOrder otherDruid = []"
    by (simp add: getNodeSpecsByOrder_concat otherDruid_def sample_defs druidServicesOrder_def)
  then show ?thesis
    by (simp add: clusterPlan_def bindO_def eitherO_def getObjectHash_def memLib_def other_facts otherPlan_def)
qed

lemma other_stands: "stands otherDruid otherPlan (memView sharedWorld)"
proof -
  have "objKey otherCommon = (''x-druid-common-config'', ''ns'')" by (simp add: otherCommon_def makeConfigMap_def)
  then show ?thesis
    using other_facts(3)
    by (auto simp: stands_def otherPlan_def sweeps_def sweptKinds_def want_def shared_view unwanted_def ensuredNames_def belongs_def
        metaDigest_def GetLabels_def split: if_splits)
qed

theorem clusters_do_not_interfere_witness:
  "\<exists>acts. clusterPlan memLib otherDruid otherCommon = Ok acts
     \<and> stands otherDruid acts (memView (post (deployDruidCluster memClient (plainDruid True)) sharedWorld))"
proof -
  obtain acts' where plan: "clusterPlan (clLib memClient) (plainDruid True) (plainCommon True) = Ok acts'"
    and keys: "wantedKeys acts' = [(ConfigMapKind, ''c-druid-common-config'', ''ns''), (ConfigMapKind, ''druid-c-h-config'', ''ns''),
         (StatefulSetKind, ''druid-c-h'', ''ns'')]"
    using plain_plan [of True] by (auto simp: memory_apis)
  have good: "memGood (objKey (plainDruid True)) sharedWorld"
    by (simp add: memGood_def sharedWorld_def emptyWorld_def kobjKey_def other_facts plain_facts)
  have "apart otherDruid (plainDruid True)" by (simp add: apart_def other_facts plain_facts)
  moreover have "clusterPlan (clLib memClient) otherDruid otherCommon = Ok otherPlan" by (simp add: memory_apis other_plan)
  moreover have "set (wantedKeys otherPlan) \<inter> set (wantedKeys acts') = {}"
    by (simp add: keys otherPlan_def want_def otherCommon_def makeConfigMap_def)
  ultimately have "stands otherDruid otherPlan (memView (post (deployDruidCluster memClient (plainDruid True)) sharedWorld))"
    by (intro clusters_do_not_interfere [OF memory_cluster_store good plain_facts(1,2,3) plain_common_run plan _ other_facts(3) _ _ other_stands])
  with other_plan show ?thesis by blast
qed

end
