(* ===== verification/Request_Order.thy ===== *)
theory Request_Order
  imports Cluster_Refinement "HOL-Library.Sublist"
begin

text \<open>
  The order of the writes of a deployment, for every server. The keys of the objects that a run
  creates or updates form a subsequence of the keys of its plan: whatever the server answers, and
  wherever the run fails or stops, nothing outside the plan is created or updated, no planned
  object is written more often than it is planned, and the objects are written in the order of the
  plan. This is the claim \<open>ordered\<close>, which every typed client lets a deployment follow.
\<close>

section \<open>Keys that are written\<close>

fun wroteKey :: "effect \<Rightarrow> (kind \<times> string \<times> string) list" where
  "wroteKey (CreateCall k) = [kobjKey k]"
| "wroteKey (UpdateCall k) = [kobjKey k]"
| "wroteKey _ = []"

definition wroteKeys :: "effect list \<Rightarrow> (kind \<times> string \<times> string) list" where
  "wroteKeys es = concat (map wroteKey es)"

lemma wroteKeys_simps [simp]:
  "wroteKeys [] = []" "wroteKeys (e # es) = wroteKey e @ wroteKeys es" "wroteKeys (as @ bs) = wroteKeys as @ wroteKeys bs"
  by (simp_all add: wroteKeys_def)

lemma wroteKeys_requests: "wroteKeys (requests es) = wroteKeys es"
proof (induction es)
  case (Cons e es)
  then show ?case by (cases e) simp_all
qed simp

text \<open>The claim that the writes follow the actions, whatever was answered and wherever the run ended.\<close>

definition ordered :: "'w claim" where
  "ordered acts s es s' b \<longleftrightarrow> subseq (wroteKeys es) (wantedKeys acts)"

interpretation order: composable always ordered
  by unfold_locales (auto simp: ordered_def intro: list_emb_append_mono list_emb_append2)

abbreviation writeless :: "effect \<Rightarrow> bool" where
  "writeless e \<equiv> wroteKey e = []"

lemma only_writeless: "only writeless m \<Longrightarrow> wroteKeys (effs m s) = []"
  by (auto simp: wroteKeys_def dest: onlyD)

lemma follows_ordered:
  "follows always ordered m D P acts \<longleftrightarrow> (\<forall>s. subseq (wroteKeys (effs m s)) (wantedKeys acts) \<and> (\<forall>x. res m s = Ok x \<longrightarrow> P x))"
proof -
  have "((\<forall>x. res m s = Ok x \<longrightarrow> P x \<and> ordered acts s (effs m s) (post m s) (D x))
      \<and> ((\<forall>x. res m s \<noteq> Ok x) \<longrightarrow> ordered acts s (effs m s) (post m s) False))
    \<longleftrightarrow> subseq (wroteKeys (effs m s)) (wantedKeys acts) \<and> (\<forall>x. res m s = Ok x \<longrightarrow> P x)" for s
    by (cases "res m s") (auto simp: ordered_def)
  then show ?thesis unfolding follows_def by simp
qed

text \<open>Code that writes nothing follows any actions without a wanted object.\<close>

lemma only_ordered: "only writeless m \<Longrightarrow> (\<And>s x. res m s = Ok x \<Longrightarrow> P x) \<Longrightarrow> follows always ordered m D P acts"
  by (simp add: follows_ordered only_writeless)

text \<open>Synchronising an object writes at most the object.\<close>

lemma sync_ordered:
  assumes key: "\<And>x. kobjKey (apiWrap api x) = (kd, objKey x)" and up: "\<And>p x. objMeta (updaterFn p x) = objMeta x"
  shows "follows always ordered (sdkCreateOrUpdateAsNeeded lib api (ret obj) isEqualFn updaterFn drd names) D
    (\<lambda>(st, ns', x). ns' = insert (GetName obj) names \<and> x = prepared lib api drd obj) [Ensure kd (objKey obj) d]"
  unfolding follows_ordered
proof (intro allI conjI impI)
  fix s
  let ?m = "sdkCreateOrUpdateAsNeeded lib api (ret obj) isEqualFn updaterFn drd names"
  have "subseq (wroteKeys (requests (effs ?m s))) [(kd, objKey obj)]"
    unfolding sync_requests by (simp add: key up SetResourceVersion_def split: sum.split)
  then show "subseq (wroteKeys (effs ?m s)) (wantedKeys [Ensure kd (objKey obj) d])"
    by (simp add: wroteKeys_requests)
  fix x assume "res ?m s = Ok x"
  then show "case x of (st, ns', x) \<Rightarrow> ns' = insert (GetName obj) names \<and> x = prepared lib api drd obj"
    using sync_names [of lib api obj isEqualFn updaterFn drd names s] by (cases x) auto
qed

section \<open>The whole deployment\<close>

text \<open>Patching finalizers is not a change of the spec: the server does not count it as a new generation.\<close>

definition patch_keeps_generation :: "'w client \<Rightarrow> bool" where
  "patch_keeps_generation sdk \<longleftrightarrow> (\<forall>fs m s m'.
     fst (apiPatch (clDruids sdk) (JSONPatchFinalizers fs) m s) = Inr m' \<longrightarrow>
     metaGeneration (objMeta m') = metaGeneration (objMeta m))"

lemma finalizers_ordered:
  assumes "patch_keeps_identity sdk" "patch_keeps_generation sdk"
  shows "follows always ordered (updateFinalizers sdk m) D (\<lambda>m'. same_core m' m) []"
proof (rule only_ordered)
  show "only writeless (updateFinalizers sdk m)"
    unfolding updateFinalizers_def Let_def sdk_defs by (intro only_intro) simp_all
next
  fix s m' assume ok: "res (updateFinalizers sdk m) s = Ok m'"
  show "same_core m' m"
  proof (cases "metaFinalizers (objMeta m) = desiredFinalizers m")
    case True
    then show ?thesis using ok by (simp add: updateFinalizers_def go_run same_core_def)
  next
    case False
    let ?fs = "desiredFinalizers m"
    have "fst (apiPatch (clDruids sdk) (JSONPatchFinalizers ?fs) (SetFinalizers ?fs m) s) = Inr m'"
      using ok False by (simp add: updateFinalizers_def Let_def go_run sdk_defs split: sum.splits)
    then have "metaGeneration (objMeta m') = metaGeneration (objMeta (SetFinalizers ?fs m))"
      using assms(2) unfolding patch_keeps_generation_def by blast
    with updateFinalizers_keeps [OF assms(1) ok] show ?thesis by (simp add: same_core_def SetFinalizers_def asOwner_def)
  qed
qed

lemma writeless_blocks:
  "only writeless (deleteUnusedResources api m names ls)" "only writeless (isObjFullyDeployed api' u m)"
  "only writeless (execCheckCrashStatus sdk n m u)" "only writeless (expandStatefulSetVolumes sdk m n u)"
  "only writeless (handleE (reader_List (clPods sdk) ls m) (\<lambda>err. ret []) ret)" "only writeless (druidClusterStatusPatcher sdk st m)"
  by (intro only_intro rd_list.only_run; simp)+

text \<open>So the writes of a deployment are in the order of its plan, if orphaned claims are left alone.\<close>

abbreviation keepsOrphans :: "druid \<Rightarrow> bool" where
  "keepsOrphans m \<equiv> \<not> crDeleteOrphanPvc (drSpec m)"

lemmas sync_facts = want_def typed_client_def kobjKey_def noopUpdaterFn_def keepClusterIP_def

lemma ordered_frame:
  assumes "typed_client sdk"
  shows "frame_follower always ordered sdk"
  by unfold_locales (use assms in \<open>auto simp: sync_facts typed_prepared [OF assms, symmetric] intro!: sync_ordered\<close>)

lemma ordered_follower:
  assumes typed: "typed_client sdk" and patch: "patch_keeps_identity sdk" "patch_keeps_generation sdk"
  shows "plan_follower always ordered sdk cr keepsOrphans"
proof (intro plan_follower.intro ordered_frame [OF typed] plan_follower_axioms.intro, goal_cases)
  case (3 m' m)
  then show ?case using frame_meta(7) [of m' m] by simp
next
  case (4 m' m)
  then show ?case by (simp add: same_core_def)
next
  case 11
  show ?case by (rule finalizers_ordered [OF patch])
next
  case 1
  show ?case using typed by (auto simp: sync_facts typed_prepared [OF typed, symmetric] intro!: sync_ordered)
next
  case 2
  show ?case using typed by (auto simp: sync_facts typed_prepared [OF typed, symmetric] intro!: sync_ordered)
qed (auto simp: ordered_def intro!: only_ordered writeless_blocks)

lemma common_key: "res (makeCommonConfigMap sdk m ls) s = Ok cc \<Longrightarrow> objKey cc = (GetName m @ ''-druid-common-config'', GetNamespace m)"
  by (auto simp: makeCommonConfigMap_def go_run Let_def makeConfigMap_def split: outcome.splits)

section \<open>Properties\<close>

text \<open>
  C17 (safety). For a valid resource that is not being deleted and does not ask for the cleanup of
  orphaned claims, with a client whose kinds are wrapped as such and whose patch of the finalizers
  keeps the identity and the generation of the resource, and with a plan that can be built from the
  common ConfigMap as it reads at the start: whatever the server answers, and wherever the
  deployment fails or stops, the objects it creates or updates are planned ones, in the order of
  the plan and each at most as often as it is planned. Patches, by which the status and the
  finalizers are written and claims are resized, are not counted.
\<close>

theorem writes_follow_plan:
  assumes typed: "typed_client sdk" and patch: "patch_keeps_identity sdk" "patch_keeps_generation sdk"
    and valid: "verifyDruidSpec m = None" and live: "metaDeletionTimestamp (objMeta m) = None" and keep: "\<not> crDeleteOrphanPvc (drSpec m)"
    and cc: "res (makeCommonConfigMap sdk m (makeLabelsForDruid m)) s = Ok cc" and plan: "clusterPlan (clLib sdk) m cc = Ok acts"
  shows "subseq (wroteKeys (effs (deployDruidCluster sdk m) s)) (wantedKeys acts)"
proof -
  let ?ls = "makeLabelsForDruid m"
  let ?w = "want (clLib sdk) ConfigMapKind KConfigMap m cc"
  let ?C = "makeCommonConfigMap sdk m ?ls"
  from plan obtain sha m' nodes where hash: "getObjectHash (clLib sdk) (KConfigMap cc) = Inr sha"
    and nodes: "planNodes (clLib sdk) ?ls sha m (getNodeSpecsByOrder m) = Ok (m', nodes)"
    and acts: "acts = (?w # nodes) @ sweeps (GetNamespace m) ?ls (?w # nodes)"
    by (rule clusterPlanE)
  have quiet: "only writeless ?C" by (rule only_mono [OF only_makeCommonConfigMap]) (auto simp: is_get_def)
  have common: "objKey x = objKey cc" if "res ?C t = Ok x" for t x
    using common_key [OF that] common_key [OF cc] by simp
  have wrap: "apiWrap (clConfigMaps sdk) = KConfigMap" using typed by (simp add: typed_client_def)
  have sync: "sdkCreateOrUpdateAsNeeded (clLib sdk) (clConfigMaps sdk) ?C eq up m ns =
      bindE ?C (\<lambda>obj. sdkCreateOrUpdateAsNeeded (clLib sdk) (clConfigMaps sdk) (ret obj) eq up m ns)" for eq up ns
    by (simp add: sync_unfold)
  let ?R = "bindE (sdkCreateOrUpdateAsNeeded (clLib sdk) (clConfigMaps sdk) ?C alwaysTrueIsEqualsFn noopUpdaterFn m {})
    (\<lambda>(_, configMapNames, _). deployLive sdk (getNodeSpecsByOrder m) ?ls sha configMapNames m)"
  have keys: "wantedKeys (want (clLib sdk) ConfigMapKind KConfigMap m obj # nodes @
      sweeps (GetNamespace m) ?ls (want (clLib sdk) ConfigMapKind KConfigMap m obj # nodes)) = wantedKeys acts"
    if "objKey obj = objKey cc" for obj
    unfolding acts using that by (simp add: want_def)
  have "follows always ordered ?R (\<lambda>_. \<not> crRollingDeploy (drSpec m)) always acts"
    unfolding sync bindE_assoc
  proof (rule order.follows_first [where P = "\<lambda>x. objKey x = objKey cc"], rule only_ordered [OF quiet common], goal_cases)
    case (2 obj)
    from plan_follower.deploy_follows [OF ordered_follower [OF typed patch] keep nodes, of obj] show ?case
      unfolding follows_ordered keys [OF 2] .
  qed
  then have "subseq (wroteKeys (effs ?R (post ?C s))) (wantedKeys acts)" unfolding follows_ordered by blast
  moreover have "wroteKeys (effs ?C s) = []" by (rule only_writeless [OF quiet])
  moreover have "effs (deployDruidCluster sdk m) s = effs ?C s @ effs ?R (post ?C s)"
    unfolding deployDruidCluster_def valid option.case Let_def wrap by (simp add: bindE_run cc hash live)
  ultimately show ?thesis by simp
qed

section \<open>Witnesses\<close>

theorem writes_follow_plan_witness:
  "subseq (wroteKeys (effs (deployDruidCluster memClient (plainDruid True)) (plainWorld True)))
     [(ConfigMapKind, ''c-druid-common-config'', ''ns''), (ConfigMapKind, ''druid-c-h-config'', ''ns''), (StatefulSetKind, ''druid-c-h'', ''ns'')]"
proof -
  obtain acts where plan: "clusterPlan (clLib memClient) (plainDruid True) (plainCommon True) = Ok acts"
    and keys: "wantedKeys acts = [(ConfigMapKind, ''c-druid-common-config'', ''ns''), (ConfigMapKind, ''druid-c-h-config'', ''ns''),
         (StatefulSetKind, ''druid-c-h'', ''ns'')]"
    using plain_plan [of True] by (auto simp: memory_apis)
  have "patch_keeps_generation memClient"
    by (auto simp: patch_keeps_generation_def mem_defs Let_def split: if_splits)
  moreover have "\<not> crDeleteOrphanPvc (drSpec (plainDruid True))" by (simp add: plainDruid_def sample_defs)
  ultimately show ?thesis
    unfolding keys [symmetric]
    by (intro writes_follow_plan [OF typed_memClient patch_keeps_identity_memClient _ plain_facts(1,2) _ plain_common_run plan])
qed

end
