(* ===== verification/Faulty_Connection.thy ===== *)
theory Faulty_Connection
  imports Memory_Client
begin

text \<open>
  A connection to the API server that fails now and then. A request that is \<open>lossy\<close> is served, or
  it fails with an error, and then the server may or may not have carried it out; \<open>left\<close> bounds how
  many requests still fail. \<open>faulty\<close> is such a connection to the server in memory, whose failures
  are a list of faults. Deployments (\<open>Faulty_Deploy\<close>) and the growth of volumes
  (\<open>Volume_Lifecycle\<close>) are run over it.
\<close>

section \<open>Requests that may fail\<close>

text \<open>\<open>f0\<close> is the request as the server carries it out, \<open>base\<close> the state of the server in a state of both.\<close>

definition lossy :: "('w \<Rightarrow> 'b) \<Rightarrow> ('w \<Rightarrow> nat) \<Rightarrow> ('b \<Rightarrow> (goerr + 'a) \<times> 'b) \<Rightarrow> ('w \<Rightarrow> (goerr + 'a) \<times> 'w) \<Rightarrow> bool" where
  "lossy base left f0 f \<longleftrightarrow> (\<forall>s.
     (left (snd (f s)) = left s \<and> fst (f s) = fst (f0 (base s)) \<and> base (snd (f s)) = snd (f0 (base s)))
   \<or> (left (snd (f s)) < left s \<and> (\<exists>e. fst (f s) = Inl (GoErr e)) \<and> (base (snd (f s)) = base s \<or> base (snd (f s)) = snd (f0 (base s)))))"

lemma lossy_cases:
  assumes "lossy base left f0 f"
  obtains (served) "left (snd (f s)) = left s" "fst (f s) = fst (f0 (base s))" "base (snd (f s)) = snd (f0 (base s))"
  | (failed) e where "left (snd (f s)) < left s" "fst (f s) = Inl (GoErr e)" "base (snd (f s)) = base s \<or> base (snd (f s)) = snd (f0 (base s))"
  using assms unfolding lossy_def by blast

text \<open>A property of the server that the request keeps is kept over the connection.\<close>

lemma lossy_keeps:
  assumes "lossy base left f0 f" "Q (base s)" "Q (snd (f0 (base s)))"
  shows "Q (base (snd (f s)))"
  using assms(1) by (rule lossy_cases [of base left f0 f s]) (use assms(2-) in auto)

definition lossyApi :: "('w \<Rightarrow> 'b) \<Rightarrow> ('w \<Rightarrow> nat) \<Rightarrow> ('b, 'o) resource_api \<Rightarrow> ('w, 'o) resource_api \<Rightarrow> bool" where
  "lossyApi base left api0 api \<longleftrightarrow> apiKind api = apiKind api0 \<and> apiWrap api = apiWrap api0
   \<and> (\<forall>n ns. lossy base left (apiGet api0 n ns) (apiGet api n ns)) \<and> (\<forall>ns ls. lossy base left (apiList api0 ns ls) (apiList api ns ls))
   \<and> (\<forall>x. lossy base left (apiCreate api0 x) (apiCreate api x)) \<and> (\<forall>x. lossy base left (apiUpdate api0 x) (apiUpdate api x))
   \<and> (\<forall>opt x. lossy base left (apiDelete api0 opt x) (apiDelete api opt x))
   \<and> (\<forall>p x. lossy base left (apiPatch api0 p x) (apiPatch api p x))
   \<and> (\<forall>p x. lossy base left (apiStatusPatch api0 p x) (apiStatusPatch api p x))"

lemma lossyApiD:
  assumes "lossyApi base left api0 api"
  shows "apiKind api = apiKind api0" "apiWrap api = apiWrap api0"
    "lossy base left (apiGet api0 n ns) (apiGet api n ns)" "lossy base left (apiList api0 ns ls) (apiList api ns ls)"
    "lossy base left (apiCreate api0 x) (apiCreate api x)" "lossy base left (apiUpdate api0 x) (apiUpdate api x)"
    "lossy base left (apiDelete api0 opt x) (apiDelete api opt x)" "lossy base left (apiPatch api0 p x) (apiPatch api p x)"
    "lossy base left (apiStatusPatch api0 p' x) (apiStatusPatch api p' x)"
  using assms by (simp_all add: lossyApi_def)

text \<open>A client all of whose requests may fail; the clock and the library do not.\<close>

definition lossyClient :: "('w \<Rightarrow> 'b) \<Rightarrow> ('w \<Rightarrow> nat) \<Rightarrow> 'b client \<Rightarrow> 'w client \<Rightarrow> bool" where
  "lossyClient base left sdk0 sdk \<longleftrightarrow> clLib sdk = clLib sdk0
   \<and> lossyApi base left (clConfigMaps sdk0) (clConfigMaps sdk) \<and> lossyApi base left (clServices sdk0) (clServices sdk)
   \<and> lossyApi base left (clStatefulSets sdk0) (clStatefulSets sdk) \<and> lossyApi base left (clDeployments sdk0) (clDeployments sdk)
   \<and> lossyApi base left (clPods sdk0) (clPods sdk) \<and> lossyApi base left (clPVCs sdk0) (clPVCs sdk)
   \<and> lossyApi base left (clPDBs sdk0) (clPDBs sdk) \<and> lossyApi base left (clHPAs sdk0) (clHPAs sdk)
   \<and> lossyApi base left (clIngresses sdk0) (clIngresses sdk) \<and> lossyApi base left (clStorageClasses sdk0) (clStorageClasses sdk)
   \<and> lossyApi base left (clDruids sdk0) (clDruids sdk)
   \<and> (\<forall>s. fst (clNow sdk s) = fst (clNow sdk0 (base s)) \<and> base (snd (clNow sdk s)) = snd (clNow sdk0 (base s))
          \<and> left (snd (clNow sdk s)) = left s)"

lemma lossyClientD:
  assumes "lossyClient base left sdk0 sdk"
  shows "clLib sdk = clLib sdk0"
    "lossyApi base left (clConfigMaps sdk0) (clConfigMaps sdk)" "lossyApi base left (clServices sdk0) (clServices sdk)"
    "lossyApi base left (clStatefulSets sdk0) (clStatefulSets sdk)" "lossyApi base left (clDeployments sdk0) (clDeployments sdk)"
    "lossyApi base left (clPods sdk0) (clPods sdk)" "lossyApi base left (clPVCs sdk0) (clPVCs sdk)"
    "lossyApi base left (clPDBs sdk0) (clPDBs sdk)" "lossyApi base left (clHPAs sdk0) (clHPAs sdk)"
    "lossyApi base left (clIngresses sdk0) (clIngresses sdk)" "lossyApi base left (clStorageClasses sdk0) (clStorageClasses sdk)"
    "lossyApi base left (clDruids sdk0) (clDruids sdk)"
  using assms by (simp_all add: lossyClient_def)

section \<open>Code over a connection that may fail\<close>

text \<open>
  \<open>mirrors base left m0 m\<close>: \<open>m\<close> over the connection is \<open>m0\<close> on the server itself in a run in which no
  request fails, in its result, its effects and what it leaves behind. The rules take any code
  apart down to its requests.
\<close>

definition mirrors :: "('w \<Rightarrow> 'b) \<Rightarrow> ('w \<Rightarrow> nat) \<Rightarrow> ('b, 'a) io \<Rightarrow> ('w, 'a) io \<Rightarrow> bool" where
  "mirrors base left m0 m \<longleftrightarrow> (\<forall>s. left (post m s) \<le> left s \<and> (left (post m s) = left s \<longrightarrow>
     res m s = res m0 (base s) \<and> effs m s = effs m0 (base s) \<and> base (post m s) = post m0 (base s)))"

named_theorems mirrors_intro

lemma mirrors_left: "mirrors base left m0 m \<Longrightarrow> left (post m s) \<le> left s"
  by (simp add: mirrors_def)

lemma mirrorsD:
  assumes "mirrors base left m0 m" "left (post m s) = left s"
  shows "res m s = res m0 (base s)" "effs m s = effs m0 (base s)" "base (post m s) = post m0 (base s)"
  using assms by (simp_all add: mirrors_def)

lemma mirrorsI:
  assumes "\<And>s. left (post m s) \<le> left s" "\<And>s. left (post m s) = left s \<Longrightarrow> res m s = res m0 (base s)"
    "\<And>s. left (post m s) = left s \<Longrightarrow> effs m s = effs m0 (base s)" "\<And>s. left (post m s) = left s \<Longrightarrow> base (post m s) = post m0 (base s)"
  shows "mirrors base left m0 m"
  using assms by (simp add: mirrors_def)

lemma mirrors_pure [mirrors_intro]:
  "mirrors base left (ret x) (ret x)" "mirrors base left (throw e) (throw e)" "mirrors base left (panic p) (panic p)"
  "mirrors base left (liftE r) (liftE r)" "mirrors base left (liftO q) (liftO q)" "mirrors base left (tell ef) (tell ef)"
  by (simp_all add: mirrors_def go_run)

lemma mirrors_ask [mirrors_intro]:
  assumes "lossy base left f0 f"
  shows "mirrors base left (ask e f0) (ask e f)"
proof (rule mirrorsI)
  fix s
  show "left (post (ask e f) s) \<le> left s" using assms by (cases rule: lossy_cases [where s = s]) (simp_all add: go_run)
  show "left (post (ask e f) s) = left s \<Longrightarrow> res (ask e f) s = res (ask e f0) (base s)"
    using assms by (cases rule: lossy_cases [where s = s]) (simp_all add: go_run)
  show "left (post (ask e f) s) = left s \<Longrightarrow> base (post (ask e f) s) = post (ask e f0) (base s)"
    using assms by (cases rule: lossy_cases [where s = s]) (simp_all add: go_run)
qed (simp add: go_run)

lemma mirrors_handleE [mirrors_intro]:
  assumes m: "mirrors base left m0 m" and h: "\<And>e. mirrors base left (h0 e) (h e)" and f: "\<And>x. mirrors base left (f0 x) (f x)"
  shows "mirrors base left (handleE m0 h0 f0) (handleE m h f)"
  unfolding mirrors_def
proof
  fix s
  let ?k = "handleE m h f"
  let ?server = "handleE m0 h0 f0"
  have le: "left (post ?k s) \<le> left (post m s)"
    using mirrors_left [OF h] mirrors_left [OF f] by (simp add: go_run split: outcome.split)
  have "res ?k s = res ?server (base s) \<and> effs ?k s = effs ?server (base s) \<and> base (post ?k s) = post ?server (base s)"
    if "left (post ?k s) = left s"
  proof -
    have 1: "left (post m s) = left s" and 2: "left (post ?k s) = left (post m s)"
      using that le mirrors_left [OF m, of s] by simp_all
    show ?thesis
      using 2 mirrorsD [OF m 1] mirrorsD [OF h] mirrorsD [OF f] by (simp add: go_run split: outcome.splits)
  qed
  with le mirrors_left [OF m, of s] show "left (post ?k s) \<le> left s \<and> (left (post ?k s) = left s \<longrightarrow>
      res ?k s = res ?server (base s) \<and> effs ?k s = effs ?server (base s) \<and> base (post ?k s) = post ?server (base s))" by linarith
qed

lemma mirrors_bindE [mirrors_intro]:
  "mirrors base left m0 m \<Longrightarrow> (\<And>x. mirrors base left (f0 x) (f x)) \<Longrightarrow> mirrors base left (bindE m0 f0) (bindE m f)"
  unfolding handleE_throw [symmetric] by (intro mirrors_intro)

lemma mirrors_if [mirrors_intro]:
  "mirrors base left m0 m \<Longrightarrow> mirrors base left n0 n \<Longrightarrow> mirrors base left (if b then m0 else n0) (if b then m else n)"
  by simp

lemma mirrors_cases [mirrors_intro]:
  "(\<And>a b. mirrors base left (k0 a b) (k a b)) \<Longrightarrow> mirrors base left (case p of (a, b) \<Rightarrow> k0 a b) (case p of (a, b) \<Rightarrow> k a b)"
  "mirrors base left m0 m \<Longrightarrow> (\<And>x. mirrors base left (f0 x) (f x)) \<Longrightarrow>
   mirrors base left (case v of None \<Rightarrow> m0 | Some x \<Rightarrow> f0 x) (case v of None \<Rightarrow> m | Some x \<Rightarrow> f x)"
  "(\<And>x. mirrors base left (g0 x) (g x)) \<Longrightarrow> (\<And>y. mirrors base left (h0 y) (h y)) \<Longrightarrow>
   mirrors base left (case r of Next x \<Rightarrow> g0 x | Return y \<Rightarrow> h0 y) (case r of Next x \<Rightarrow> g x | Return y \<Rightarrow> h y)"
  by (simp_all split: prod.split option.split flow.split)

lemma mirrors_foldE [mirrors_intro]:
  "(\<And>a x. mirrors base left (f0 a x) (f a x)) \<Longrightarrow> mirrors base left (foldE f0 a xs) (foldE f a xs)"
  by (induction xs arbitrary: a) (auto intro!: mirrors_intro)

lemma mirrors_forE [mirrors_intro]:
  "(\<And>x. mirrors base left (f0 x) (f x)) \<Longrightarrow> mirrors base left (forE f0 xs) (forE f xs)"
  unfolding forE_def by (intro mirrors_intro)

lemma mirrors_loopE [mirrors_intro]:
  "(\<And>a x. mirrors base left (f0 a x) (f a x)) \<Longrightarrow> mirrors base left (loopE f0 a xs) (loopE f a xs)"
  by (induction xs arbitrary: a) (auto intro!: mirrors_intro)

lemma mirrors_Event [mirrors_intro]: "mirrors base left (Event t r msg) (Event t r msg)"
  by (simp add: Event_def mirrors_intro)

lemma mirrors_emitters [mirrors_intro]:
  "mirrors base left (EmitEventGeneric r msg er) (EmitEventGeneric r msg er)" "mirrors base left (EmitEventOnGetError e) (EmitEventOnGetError e)"
  "mirrors base left (EmitEventOnList ns er) (EmitEventOnList ns er)" "mirrors base left (EmitEventOnUpdate k er) (EmitEventOnUpdate k er)"
  "mirrors base left (EmitEventOnDelete k er) (EmitEventOnDelete k er)" "mirrors base left (EmitEventOnCreate k er) (EmitEventOnCreate k er)"
  "mirrors base left (EmitEventOnPatch k er) (EmitEventOnPatch k er)"
  unfolding EmitEventGeneric_def EmitEventOnGetError_def EmitEventOnList_def EmitEventOnUpdate_def EmitEventOnDelete_def
    EmitEventOnCreate_def EmitEventOnPatch_def
  by (intro mirrors_intro)+

lemma mirrors_requests [mirrors_intro]:
  assumes "lossyApi base left api0 api"
  shows "mirrors base left (sdkGet api0 n ns) (sdkGet api n ns)" "mirrors base left (sdkList api0 ns ls) (sdkList api ns ls)"
    "mirrors base left (sdkPatch api0 p x) (sdkPatch api p x)"
    "mirrors base left (reader_Get api0 n m) (reader_Get api n m)" "mirrors base left (reader_List api0 ls m) (reader_List api ls m)"
    "mirrors base left (writer_Create api0 x) (writer_Create api x)" "mirrors base left (writer_Update api0 x) (writer_Update api x)"
    "mirrors base left (writer_Delete api0 opt x) (writer_Delete api opt x)"
    "mirrors base left (writer_Patch api0 st p x) (writer_Patch api st p x)"
  unfolding reader_Get_def reader_List_def writer_Create_def writer_Update_def writer_Delete_def writer_Patch_def sdk_defs
    lossyApiD(1,2) [OF assms]
  by (intro mirrors_intro lossyApiD(3-) [OF assms])+

lemma mirrors_timeNow [mirrors_intro]:
  "lossyClient base left sdk0 sdk \<Longrightarrow> mirrors base left (timeNow sdk0) (timeNow sdk)"
  by (simp add: mirrors_def go_run lossyClient_def)

section \<open>Faults of a connection\<close>

text \<open>
  A connection that serves a request, refuses it, or loses the answer of a request the server
  carried out, as a list of faults says.
\<close>

datatype fault = Served | Refused | AnswerLost

fun faulty :: "('b \<Rightarrow> (goerr + 'a) \<times> 'b) \<Rightarrow> fault list \<times> 'b \<Rightarrow> (goerr + 'a) \<times> fault list \<times> 'b" where
  "faulty f ([], w) = (let (r, w') = f w in (r, [], w'))"
| "faulty f (Served # fs, w) = (let (r, w') = f w in (r, fs, w'))"
| "faulty f (Refused # fs, w) = (Inl (GoErr ''connection refused''), fs, w)"
| "faulty f (AnswerLost # fs, w) = (let (r, w') = f w in (Inl (GoErr ''timeout''), fs, w'))"

definition faultyApi :: "('b, 'o) resource_api \<Rightarrow> (fault list \<times> 'b, 'o) resource_api" where
  "faultyApi api = \<lparr>apiKind = apiKind api, apiWrap = apiWrap api, apiGet = (\<lambda>n ns. faulty (apiGet api n ns)),
     apiList = (\<lambda>ns ls. faulty (apiList api ns ls)), apiCreate = (\<lambda>x. faulty (apiCreate api x)),
     apiUpdate = (\<lambda>x. faulty (apiUpdate api x)), apiDelete = (\<lambda>opt x. faulty (apiDelete api opt x)),
     apiPatch = (\<lambda>p x. faulty (apiPatch api p x)), apiStatusPatch = (\<lambda>p x. faulty (apiStatusPatch api p x))\<rparr>"

definition faultyOver :: "'b client \<Rightarrow> (fault list \<times> 'b) client" where
  "faultyOver sdk = \<lparr>clConfigMaps = faultyApi (clConfigMaps sdk), clServices = faultyApi (clServices sdk),
     clStatefulSets = faultyApi (clStatefulSets sdk), clDeployments = faultyApi (clDeployments sdk),
     clPods = faultyApi (clPods sdk), clPVCs = faultyApi (clPVCs sdk), clPDBs = faultyApi (clPDBs sdk),
     clHPAs = faultyApi (clHPAs sdk), clIngresses = faultyApi (clIngresses sdk),
     clStorageClasses = faultyApi (clStorageClasses sdk), clSecrets = faultyApi (clSecrets sdk),
     clDruids = faultyApi (clDruids sdk), clDruidIngestions = faultyApi (clDruidIngestions sdk),
     clHttp = (\<lambda>rq. faulty (clHttp sdk rq)), clNow = (\<lambda>v. case clNow sdk (snd v) of (t, w) \<Rightarrow> (t, fst v, w)), clLib = clLib sdk\<rparr>"

definition faultsLeft :: "fault list \<times> 'b \<Rightarrow> nat" where
  "faultsLeft v = length (filter (\<lambda>f. f \<noteq> Served) (fst v))"

lemma faulty_lossy: "lossy snd faultsLeft f (faulty f)"
  unfolding lossy_def
proof
  fix v
  show "(faultsLeft (snd (faulty f v)) = faultsLeft v \<and> fst (faulty f v) = fst (f (snd v)) \<and> snd (snd (faulty f v)) = snd (f (snd v)))
    \<or> (faultsLeft (snd (faulty f v)) < faultsLeft v \<and> (\<exists>e. fst (faulty f v) = Inl (GoErr e))
       \<and> (snd (snd (faulty f v)) = snd v \<or> snd (snd (faulty f v)) = snd (f (snd v))))"
    by (induction f v rule: faulty.induct) (simp_all add: faultsLeft_def split_beta)
qed

lemma faultyApi_lossy: "lossyApi snd faultsLeft api (faultyApi api)"
  by (simp add: lossyApi_def faultyApi_def faulty_lossy)

lemma faultyOver_lossy: "lossyClient snd faultsLeft sdk (faultyOver sdk)"
  by (simp add: lossyClient_def faultyOver_def faultyApi_lossy faultsLeft_def split: prod.split)

lemma faulty_cases:
  assumes "faulty f v = (r, v')"
  obtains (lost) e where "snd v' = snd v" "r = Inl e" "\<not> isNotFound e"
  | (served) r' where "f (snd v) = (r', snd v')" "r = r' \<or> (\<exists>e. r = Inl e \<and> \<not> isNotFound e)"
  using assms by (induction f v rule: faulty.induct) (auto split: prod.splits)

lemma faulty_answers:
  "faulty f v = (Inr x, v') \<Longrightarrow> f (snd v) = (Inr x, snd v')"
  "faulty f v = (Inl e, v') \<Longrightarrow> isNotFound e \<Longrightarrow> f (snd v) = (Inl e, snd v')"
  by (erule faulty_cases; auto)+

lemma faulty_keeps: "Q (snd v) \<Longrightarrow> (\<And>r w'. f (snd v) = (r, w') \<Longrightarrow> Q w') \<Longrightarrow> Q (snd (snd (faulty f v)))"
  by (induction f v rule: faulty.induct) (auto split: prod.split)

end
