(* ===== verification/Faulty_Deploy.thy ===== *)
theory Faulty_Deploy
  imports Cluster_Refinement Faulty_Connection
begin

text \<open>
  Deployments over a connection on which requests fail, at any point of a run and with or without
  effect on the server. A run in which none fails is the run on the server itself, for any
  resource (locale \<open>connection\<close>). In any other run the store makes steps of the plan (\<open>plan_step\<close>): the
  claim \<open>faring\<close> is shown of the requests for one kind (locale \<open>lossy_kind\<close>) and carried to the whole
  deployment by \<open>plan_follower\<close> (locales \<open>lossy_store\<close>, \<open>lossy_deploy\<close>). Proved over any number of runs:
  nothing outside the plan happens, what a successful run completed lasts, and once the failures are
  used up the cluster is in its desired state for good.
\<close>

section \<open>A run without failures is a run on the server\<close>

lemma mirrors_sync [mirrors_intro]:
  assumes "lossyApi base left api0 api" and "mirrors base left objFn0 objFn"
  shows "mirrors base left (sdkCreateOrUpdateAsNeeded lib api0 objFn0 isEqualFn updaterFn drd names)
    (sdkCreateOrUpdateAsNeeded lib api objFn isEqualFn updaterFn drd names)"
  unfolding sdkCreateOrUpdateAsNeeded_def Let_def lossyApiD(2) [OF assms(1)]
  by (intro mirrors_intro assms)

lemma mirrors_cleanup [mirrors_intro]:
  "lossyApi base left api0 api \<Longrightarrow>
   mirrors base left (deleteUnusedResources api0 drd names ls) (deleteUnusedResources api drd names ls)"
  unfolding deleteUnusedResources_def deleteUnused_step_def by (intro mirrors_intro)

lemma mirrors_deployed [mirrors_intro]:
  assumes "lossyApi base left api0 api"
  shows "mirrors base left (isObjFullyDeployed api0 u m) (isObjFullyDeployed api u m)"
  unfolding isObjFullyDeployed_def lossyApiD(2) [OF assms]
  by (intro mirrors_intro assms) (simp_all add: mirrors_intro split: kobj.split)

locale connection =
  fixes base :: "'w \<Rightarrow> 'b" and left :: "'w \<Rightarrow> nat" and sdk0 :: "'b client" and sdk :: "'w client"
  assumes lossy: "lossyClient base left sdk0 sdk"
begin

lemmas apis = lossyClientD(2-) [OF lossy]
lemmas wraps = apis [THEN lossyApiD(2)] lossyClientD(1) [OF lossy]

lemma mirrors_crash_check: "mirrors base left (execCheckCrashStatus sdk0 n m u) (execCheckCrashStatus sdk n m u)"
  unfolding execCheckCrashStatus_def checkCrashStatus_def crash_step_def crash_containers_def
  by (intro mirrors_intro apis)

lemma mirrors_expansion: "mirrors base left (expandStatefulSetVolumes sdk0 m n u) (expandStatefulSetVolumes sdk m n u)"
  unfolding expandStatefulSetVolumes_def isVolumeExpansionEnabled_def expansion_step_def scalePVCForSts_def scale_step_def
    resize_step_def Let_def wraps
  by (intro mirrors_intro apis)

lemma mirrors_orphans: "mirrors base left (deleteOrphanPVC sdk0 m) (deleteOrphanPVC sdk m)"
  unfolding deleteOrphanPVC_def orphan_step_def checkPVCLabelsAndDelete_def setPVCLabels_def Let_def wraps
  by (intro mirrors_intro apis lossy)

lemma mirrors_finalizers:
  "mirrors base left (updateFinalizers sdk0 m) (updateFinalizers sdk m)"
  "mirrors base left (executeFinalizers sdk0 m) (executeFinalizers sdk m)"
  unfolding updateFinalizers_def executeFinalizers_def executePVCFinalizer_def deleteSTSAndPVC_def Let_def
  by (intro mirrors_intro apis)+

lemma mirrors_common_config: "mirrors base left (makeCommonConfigMap sdk0 m ls) (makeCommonConfigMap sdk m ls)"
  unfolding makeCommonConfigMap_def addExtraCommonConfig_def Let_def wraps
  by (intro mirrors_intro apis)

lemma mirrors_gate:
  "lossyApi base left api0 api \<Longrightarrow> mirrors base left (rollout_gate api0 u m names) (rollout_gate api u m names)"
  unfolding rollout_gate_def by (intro mirrors_intro)

lemma mirrors_workloads:
  "mirrors base left (node_deployment sdk0 n lm u sha first m names) (node_deployment sdk n lm u sha first m names)"
  "mirrors base left (node_statefulset sdk0 n lm u sha first m names) (node_statefulset sdk n lm u sha first m names)"
  unfolding node_deployment_def node_statefulset_def Let_def wraps
  by (intro mirrors_intro mirrors_gate mirrors_crash_check mirrors_expansion apis)+

lemma mirrors_node: "mirrors base left (deployNode sdk0 ls sha st elem) (deployNode sdk ls sha st elem)"
  unfolding deployNode_def node_services_def service_step_def node_extras_def Let_def wraps case_prod_beta
  by (intro mirrors_intro mirrors_workloads apis)

lemma mirrors_live: "mirrors base left (deployLive sdk0 elems ls sha names m) (deployLive sdk elems ls sha names m)"
  unfolding deployLive_def deployNodes_def cleanup_and_status_def druidClusterStatusPatcher_def
  by (intro mirrors_intro mirrors_finalizers mirrors_node mirrors_orphans apis)

lemma mirrors_deploy: "mirrors base left (deployDruidCluster sdk0 m) (deployDruidCluster sdk m)"
  unfolding deployDruidCluster_def Let_def wraps
  by (intro mirrors_intro mirrors_common_config mirrors_finalizers mirrors_live apis)

end

section \<open>What runs with failures may do\<close>

text \<open>A store in which some objects of one kind are gone.\<close>

definition without :: "kind \<Rightarrow> (string \<times> string) set \<Rightarrow> dstore \<Rightarrow> dstore" where
  "without kd gone \<sigma> = \<sigma>(kd := (\<lambda>key. if key \<in> gone then None else \<sigma> kd key))"

lemma without_simps [simp]:
  "without kd {} \<sigma> = \<sigma>" "without kd g (without kd h \<sigma>) = without kd (g \<union> h) \<sigma>"
  by (auto simp: without_def fun_eq_iff)

lemma without_dropObj: "dropObj kd key \<sigma> = without kd {key} \<sigma>"
  by (auto simp: without_def dropObj_def fun_eq_iff)

lemma without_at: "without kd gone \<sigma> kd' key = (if kd' = kd \<and> key \<in> gone then None else \<sigma> kd' key)"
  by (simp add: without_def)

text \<open>
  One step of the store under a plan: a planned object gets its planned digest, or some of the
  objects that a sweep of the plan does not want are gone.
\<close>

inductive plan_step :: "act list \<Rightarrow> dstore \<Rightarrow> dstore \<Rightarrow> bool" for plan where
  ensured: "Ensure kd key d \<in> set plan \<Longrightarrow> plan_step plan \<sigma> (putObj kd key d \<sigma>)"
| swept: "Sweep kd ns ls names \<in> set plan \<Longrightarrow> \<forall>key \<in> gone. \<exists>d. \<sigma> kd key = Some d \<and> unwanted ns ls names key d \<Longrightarrow>
    plan_step plan \<sigma> (without kd gone \<sigma>)"

inductive_simps plan_step_iff: "plan_step plan \<sigma> \<tau>"

lemma plan_step_set: "set as = set bs \<Longrightarrow> plan_step as = plan_step bs"
  by (intro ext) (simp only: plan_step_iff)

text \<open>A plan that does not contradict itself.\<close>

definition coherent :: "act list \<Rightarrow> bool" where
  "coherent plan \<longleftrightarrow>
     (\<forall>kd key d d'. Ensure kd key d \<in> set plan \<longrightarrow> Ensure kd key d' \<in> set plan \<longrightarrow> fst d = fst d')
   \<and> (\<forall>kd ns ls names key d. Sweep kd ns ls names \<in> set plan \<longrightarrow> Ensure kd key d \<in> set plan \<longrightarrow> fst key \<in> names)"

lemma coherentD:
  assumes "coherent plan"
  shows "Ensure kd key d \<in> set plan \<Longrightarrow> Ensure kd key d' \<in> set plan \<Longrightarrow> fst d = fst d'"
    "Sweep kd ns ls names \<in> set plan \<Longrightarrow> Ensure kd key d \<in> set plan \<Longrightarrow> fst key \<in> names"
  using assms unfolding coherent_def by blast+

lemma wanted_once:
  "distinct (wantedKeys acts) \<Longrightarrow> Ensure kd key d \<in> set acts \<Longrightarrow> Ensure kd key d' \<in> set acts \<Longrightarrow> d = d'"
proof (induction acts)
  case (Cons a acts)
  then show ?case by (cases a) (auto simp: in_wantedKeys simp del: split_paired_All split_paired_Ex)
qed simp

lemma ensured_name: "Ensure kd key d \<in> set acts \<Longrightarrow> fst key \<in> ensuredNames kd acts"
  unfolding ensuredNames_def by (cases key) (auto simp del: split_paired_Ex)

lemma sweeps_in: "Sweep kd ns ls names \<in> set (sweeps ns' ls' acts) \<longleftrightarrow>
    kd \<in> set sweptKinds \<and> ns = ns' \<and> ls = ls' \<and> names = ensuredNames kd acts"
  by (auto simp: sweeps_def)

text \<open>The sweeps of the plan of a cluster.\<close>

lemma plan_sweeps:
  assumes "clusterPlan lib m cc = Ok acts" "Sweep kd ns ls names \<in> set acts"
  shows "kd \<in> set sweptKinds" "ns = GetNamespace m" "ls = makeLabelsForDruid m" "Ensure kd key d \<in> set acts \<Longrightarrow> fst key \<in> names"
proof -
  from assms(1) obtain wanted where w: "acts = wanted @ sweeps (GetNamespace m) (makeLabelsForDruid m) wanted" "list_all isEnsure wanted"
    by (rule clusterPlan_shape)
  with assms(2) have s: "Sweep kd ns ls names \<in> set (sweeps (GetNamespace m) (makeLabelsForDruid m) wanted)"
    by (auto simp: list_all_iff)
  then show "kd \<in> set sweptKinds" "ns = GetNamespace m" "ls = makeLabelsForDruid m" by (simp_all add: sweeps_in)
  assume "Ensure kd key d \<in> set acts"
  then have "Ensure kd key d \<in> set wanted" by (auto simp: w sweeps_def)
  with ensured_name s show "fst key \<in> names" by (auto simp: sweeps_in)
qed

lemma plan_coherent: "clusterPlan lib m cc = Ok acts \<Longrightarrow> distinct (wantedKeys acts) \<Longrightarrow> coherent acts"
  unfolding coherent_def using wanted_once plan_sweeps(4) by blast

text \<open>What is settled stays settled, whatever else of the plan happens.\<close>

lemma settled_step:
  assumes c: "coherent plan" and a: "a \<in> set plan" "settledAct a \<sigma>" and step: "plan_step plan \<sigma> \<tau>"
  shows "settledAct a \<tau>"
  using step
proof (cases rule: plan_step.cases)
  case (ensured kd key d)
  show ?thesis
  proof (cases a)
    case (Ensure kd' key' d')
    then show ?thesis
      using a coherentD(1) [OF c ensured(2), of d'] by (cases "kd' = kd \<and> key' = key") (auto simp: ensured(1) putObj_def split: option.splits)
  next
    case (Sweep kd' ns ls names)
    then show ?thesis using a ensured(1) coherentD(2) [OF c _ ensured(2)] by (auto simp: putObj_def unwanted_def split: if_splits)
  qed
next
  case (swept kd ns ls names gone)
  show ?thesis
  proof (cases a)
    case (Ensure kd' key d)
    have "key \<notin> gone" if "kd' = kd" using swept(3) coherentD(2) [OF c swept(2), of key d] a(1) that unfolding Ensure unwanted_def by blast
    then show ?thesis using a(2) unfolding Ensure swept(1) by (auto simp: without_at)
  next
    case (Sweep kd' ns' ls' names')
    then show ?thesis using a(2) by (auto simp: swept(1) without_at split: if_splits)
  qed
qed

lemma settled_steps:
  assumes "coherent plan" "a \<in> set plan" "settledAct a \<sigma>" "(plan_step plan)\<^sup>*\<^sup>* \<sigma> \<tau>"
  shows "settledAct a \<tau>"
  using assms(4,3) by (induction rule: rtranclp_induct) (auto intro: settled_step [OF assms(1,2)])

text \<open>What may become of one object.\<close>

definition accounted :: "act list \<Rightarrow> kind \<Rightarrow> string \<times> string \<Rightarrow> digest option \<Rightarrow> digest option \<Rightarrow> bool" where
  "accounted plan kd key d d' \<longleftrightarrow> d' = d \<or> (\<exists>e. Ensure kd key e \<in> set plan \<and> d' = Some e)
     \<or> (d' = None \<and> (kd, key) \<notin> set (wantedKeys plan)
        \<and> (\<exists>ns ls names e. Sweep kd ns ls names \<in> set plan \<and> d = Some e \<and> unwanted ns ls names key e))"

lemma step_accounted:
  assumes c: "coherent plan" and step: "plan_step plan \<sigma> \<tau>"
  shows "accounted plan kd key (\<sigma> kd key) (\<tau> kd key)"
  using step
proof (cases rule: plan_step.cases)
  case (ensured kd' key' d)
  then show ?thesis by (auto simp: accounted_def putObj_def simp del: split_paired_All split_paired_Ex)
next
  case (swept kd' ns ls names gone)
  show ?thesis
  proof (cases "kd' = kd \<and> key \<in> gone")
    case True
    then obtain d where d: "\<sigma> kd key = Some d" "unwanted ns ls names key d" using swept(3) by blast
    then have "(kd, key) \<notin> set (wantedKeys plan)"
      using True coherentD(2) [OF c swept(2), of key] unfolding in_wantedKeys unwanted_def by blast
    then show ?thesis using True d swept(1,2) by (auto simp: accounted_def without_at)
  qed (auto simp: accounted_def swept(1) without_at)
qed

lemma accounted_trans:
  assumes "accounted plan kd key d d'" "accounted plan kd key d' d''"
  shows "accounted plan kd key d d''"
  using assms unfolding accounted_def in_wantedKeys by blast

lemma steps_accounted:
  assumes "coherent plan" "(plan_step plan)\<^sup>*\<^sup>* \<sigma> \<tau>"
  shows "accounted plan kd key (\<sigma> kd key) (\<tau> kd key)"
  using assms(2)
proof (induction rule: rtranclp_induct)
  case (step \<tau> \<rho>)
  then show ?case by (blast intro: accounted_trans step_accounted [OF assms(1)])
qed (simp add: accounted_def)

lemma plan_accounted:
  assumes plan: "clusterPlan lib m cc = Ok acts" and "accounted acts kd key d d'"
  shows "d' = d \<or> (\<exists>e. Ensure kd key e \<in> set acts \<and> d' = Some e)
    \<or> (d' = None \<and> kd \<in> set sweptKinds \<and> (kd, key) \<notin> set (wantedKeys acts) \<and> snd key = GetNamespace m
        \<and> (\<exists>e. d = Some e \<and> fmsubset (makeLabelsForDruid m) (snd e)))"
  using assms(2) unfolding accounted_def
proof (elim disjE conjE exE)
  fix ns ls names e
  assume "Sweep kd ns ls names \<in> set acts" "d = Some e" "unwanted ns ls names key e" "d' = None" "(kd, key) \<notin> set (wantedKeys acts)"
  with plan_sweeps(1-3) [OF plan] show ?thesis unfolding unwanted_def by blast
qed blast+

text \<open>
  The claim about a run with failures: the store makes steps of the plan, and if the actions were
  completed, every object they want is there.
\<close>

definition faring :: "act list \<Rightarrow> ('w \<Rightarrow> dstore) \<Rightarrow> 'w claim" where
  "faring plan view acts s es s' b \<longleftrightarrow> (set acts \<subseteq> set plan \<longrightarrow> (plan_step plan)\<^sup>*\<^sup>* (view s) (view s')
     \<and> (b \<longrightarrow> (\<forall>a \<in> set acts. isEnsure a \<longrightarrow> settledAct a (view s'))))"

lemma composable_faring:
  assumes "coherent plan"
  shows "composable I (faring plan view)"
proof
  fix as s es s' bs es' s'' b
  assume "faring plan view as s es s' True" "faring plan view bs s' es' s'' b"
  then show "faring plan view (as @ bs) s (es @ es') s'' b"
    unfolding faring_def using settled_steps [OF assms, of _ "view s'" "view s''"] by auto
qed (auto simp: faring_def)

lemma put_steps: "Ensure kd key d \<in> set plan \<Longrightarrow> (plan_step plan)\<^sup>*\<^sup>* \<sigma> (putObj kd key d \<sigma>)"
  by (rule r_into_rtranclp) (rule ensured)

lemma ensure_steps: "Ensure kd key d \<in> set plan \<Longrightarrow> (plan_step plan)\<^sup>*\<^sup>* \<sigma> (applyAct (Ensure kd key d) \<sigma>)"
  by (auto intro: put_steps simp del: settledAct.simps)

section \<open>One kind of object over the connection\<close>

text \<open>A synchronisation by the answer to its read.\<close>

lemma sync_runs:
  assumes new: "new = prepared lib api drd obj" and m: "m = sdkCreateOrUpdateAsNeeded lib api (ret obj) isEqualFn updaterFn drd names"
    and get: "get = apiGet api (GetName obj) (GetNamespace obj) s"
  shows "fst get = Inl (GoErr e) \<Longrightarrow> post m s = snd get \<and> (\<forall>x. res m s \<noteq> Ok x)"
    "fst get = Inl (NotFoundErr e) \<Longrightarrow> post m s = snd (apiCreate api new (snd get))
       \<and> (\<forall>er. fst (apiCreate api new (snd get)) = Inl er \<longrightarrow> (\<forall>x. res m s \<noteq> Ok x))"
    "fst get = Inr p \<Longrightarrow> hashOf new = hashOf p \<and> isEqualFn p new \<Longrightarrow> post m s = snd get"
    "fst get = Inr p \<Longrightarrow> sent = updaterFn p (SetResourceVersion (GetResourceVersion p) new) \<Longrightarrow>
       \<not> (hashOf new = hashOf p \<and> isEqualFn p new) \<Longrightarrow> post m s = snd (apiUpdate api sent (snd get))
       \<and> (\<forall>er. fst (apiUpdate api sent (snd get)) = Inl er \<longrightarrow> (\<forall>x. res m s \<noteq> Ok x))"
  unfolding m get new by (auto simp: sync_unfold Let_def go_run sdk_defs api_results api_posts split: sum.split outcome.split)

text \<open>The state of the server in a state of both, and what is seen of it.\<close>

locale lossy_kind = kind_store api0 good view
  for api0 :: "('b, 'a k8s_object_scheme) resource_api" and good :: "'b \<Rightarrow> bool" and view :: "'b \<Rightarrow> dstore" +
  fixes base :: "'w \<Rightarrow> 'b" and left :: "'w \<Rightarrow> nat" and api :: "('w, 'a k8s_object_scheme) resource_api"
  assumes lossy_api: "lossyApi base left api0 api"
begin

abbreviation sound :: "'w \<Rightarrow> bool" where
  "sound s \<equiv> good (base s)"

abbreviation seen :: "'w \<Rightarrow> dstore" where
  "seen s \<equiv> view (base s)"

lemma get_base: "sound s \<Longrightarrow> snd (apiGet api0 n ns (base s)) = base s" "sound s \<Longrightarrow> base (snd (apiGet api n ns s)) = base s"
proof -
  show server: "sound s \<Longrightarrow> snd (apiGet api0 n ns (base s)) = base s" for s
    using get_absent [of "base s" n ns] get_present [of "base s" n ns] by (cases "seen s (apiKind api0) (n, ns)") auto
  show "sound s \<Longrightarrow> base (snd (apiGet api n ns s)) = base s"
    using lossyApiD(3) [OF lossy_api, of n ns] by (cases rule: lossy_cases [where s = s]) (auto simp: server)
qed

lemma keeps_lossy_get: "keeps sound seen (reader_Get api n m)"
proof -
  have "\<not> list_ex changes (effs (reader_Get api n m) s)" for s
    using requests_change [of "effs (reader_Get api n m) s" "[GetCall (apiKind api) n (GetNamespace m)]"] by (simp add: api_requests)
  then show ?thesis by (simp add: keeps_def api_posts get_base)
qed

lemma keeps_deployed: "keeps sound seen (isObjFullyDeployed api u m)"
proof -
  have "keeps sound seen (liftE r)" for r :: "goerr + bool" by (simp add: keeps_def go_run)
  then show ?thesis
    unfolding isObjFullyDeployed_def by (intro keeps_bind keeps_lossy_get) (simp add: keeps_ret split: kobj.split)
qed

text \<open>A synchronisation during which a request failed returns an error; the object may have got through.\<close>

lemma sync_failed:
  assumes g: "sound s" and eq: "\<And>x y. isEqualFn x y" and up: "\<And>p x. objMeta (updaterFn p x) = objMeta x"
    and m: "m = sdkCreateOrUpdateAsNeeded lib api (ret obj) isEqualFn updaterFn drd names" and failed: "left (post m s) < left s"
  shows "res m s \<noteq> Ok x" and "sound (post m s)"
    and "seen (post m s) = seen s \<or> seen (post m s) = putObj (apiKind api0) (objKey obj) (digestOf (prepared lib api0 drd obj)) (seen s)"
proof -
  let ?new = "prepared lib api0 drd obj"
  have new: "prepared lib api drd obj = ?new" by (simp add: prepared_def lossyApiD(2) [OF lossy_api])
  let ?get = "apiGet api (GetName obj) (GetNamespace obj) s"
  let ?s = "snd ?get"
  note b = get_base(2) [OF g, of "GetName obj" "GetNamespace obj"]
  note runs = sync_runs [OF new [symmetric] m refl, of s]
  have "(\<forall>x. res m s \<noteq> Ok x) \<and> sound (post m s)
    \<and> (seen (post m s) = seen s \<or> seen (post m s) = putObj (apiKind api0) (objKey obj) (digestOf ?new) (seen s))"
    using lossyApiD(3) [OF lossy_api, of "GetName obj" "GetNamespace obj"]
  proof (cases rule: lossy_cases [where s = s])
    case (failed e)
    then show ?thesis using g b runs(1) by simp
  next
    case served
    show ?thesis
    proof (cases "seen s (apiKind api0) (objKey obj)")
      case None
      then obtain e where e: "fst ?get = Inl (NotFoundErr e)"
        using get_absent [OF g, of "GetName obj" "GetNamespace obj"] served(2) by auto
      obtain x' b' where c: "apiCreate api0 ?new (base s) = (Inr x', b')" "good b'" "view b' = putObj (apiKind api0) (objKey obj) (digestOf ?new) (seen s)"
        using create_absent [OF g, of ?new] None by auto
      show ?thesis using lossyApiD(5) [OF lossy_api, of ?new]
        by (cases rule: lossy_cases [where s = "?s"]) (use failed served(1) g b c runs(2) [OF e] in auto)
    next
      case (Some d)
      then obtain p where p: "apiGet api0 (GetName obj) (GetNamespace obj) (base s) = (Inr p, base s)" using get_present [OF g] by blast
      then have got: "fst ?get = Inr p" using served(2) by simp
      let ?sent = "updaterFn p (SetResourceVersion (GetResourceVersion p) ?new)"
      have "hashOf ?new \<noteq> hashOf p" using runs(3) [OF got] failed served(1) eq new by auto
      then have post: "post m s = snd (apiUpdate api ?sent ?s) \<and> (\<forall>er. fst (apiUpdate api ?sent ?s) = Inl er \<longrightarrow> (\<forall>x. res m s \<noteq> Ok x))"
        using runs(4) [OF got, of ?sent] new by auto
      obtain x' b' where u: "apiUpdate api0 ?sent (base s) = (Inr x', b')" "good b'" "view b' = putObj (apiKind api0) (objKey obj) (digestOf ?new) (seen s)"
        using update_current [OF g, of ?sent p] p up by (auto simp: SetResourceVersion_def metaDigest_def)
      show ?thesis using lossyApiD(6) [OF lossy_api, of ?sent]
        by (cases rule: lossy_cases [where s = "?s"]) (use failed served(1) g b u post in auto)
    qed
  qed
  then show "res m s \<noteq> Ok x" and "sound (post m s)"
    and "seen (post m s) = seen s \<or> seen (post m s) = putObj (apiKind api0) (objKey obj) (digestOf ?new) (seen s)" by blast+
qed

text \<open>So a synchronisation makes at most the step its plan asks for, and made it if it succeeds.\<close>

lemma sync_fares:
  assumes eq: "\<And>x y. isEqualFn x y" and up: "\<And>p x. objMeta (updaterFn p x) = objMeta x"
  shows "follows sound (faring plan seen) (sdkCreateOrUpdateAsNeeded lib api (ret obj) isEqualFn updaterFn drd names) always
    (\<lambda>(st, names', sent). names' = insert (GetName obj) names \<and> sent = prepared lib api drd obj)
    [Ensure (apiKind api) (objKey obj) (digestOf (prepared lib api drd obj))]"
  unfolding follows_def
proof (intro allI impI)
  fix s assume g: "sound s"
  let ?m = "sdkCreateOrUpdateAsNeeded lib api (ret obj) isEqualFn updaterFn drd names"
  let ?server = "sdkCreateOrUpdateAsNeeded lib api0 (ret obj) isEqualFn updaterFn drd names"
  let ?P = "\<lambda>(st, names', sent). names' = insert (GetName obj) names \<and> sent = prepared lib api drd obj"
  let ?a = "Ensure (apiKind api) (objKey obj) (digestOf (prepared lib api drd obj))"
  have same: "prepared lib api drd obj = prepared lib api0 drd obj" "apiKind api = apiKind api0"
    by (simp_all add: prepared_def lossyApiD(1,2) [OF lossy_api])
  have mi: "mirrors base left ?server ?m" by (intro mirrors_intro lossy_api)
  have P: "res ?m s = Ok x \<Longrightarrow> ?P x" for x using sync_names [of lib api obj isEqualFn updaterFn drd names s] by (cases x) auto
  have "sound (post ?m s) \<and> faring plan seen [?a] s (effs ?m s) (post ?m s) (\<exists>x. res ?m s = Ok x)"
  proof (cases "left (post ?m s) = left s")
    case True
    have "good (post ?server (base s))" "view (post ?server (base s)) = applyActs [?a] (seen s)"
      using sync_refines [of isEqualFn updaterFn lib obj drd names, OF eq up] g unfolding same does_def by blast+
    then have "sound (post ?m s)" "seen (post ?m s) = applyAct ?a (seen s)" using mirrorsD(3) [OF mi True] by simp_all
    then show ?thesis using ensure_steps settled_by_Ensure by (simp add: faring_def del: applyAct.simps settledAct.simps)
  next
    case False
    then have "left (post ?m s) < left s" using mirrors_left [OF mi, of s] by simp
    note f = sync_failed [OF g eq up refl this]
    then have "Ensure (apiKind api) (objKey obj) (digestOf (prepared lib api drd obj)) \<in> set plan \<longrightarrow> (plan_step plan)\<^sup>*\<^sup>* (seen s) (seen (post ?m s))"
      unfolding same by (auto intro: put_steps)
    then show ?thesis using f(1,2) by (simp add: faring_def)
  qed
  then show "sound (post ?m s) \<and> (\<forall>x. res ?m s = Ok x \<longrightarrow> ?P x \<and> faring plan seen [?a] s (effs ?m s) (post ?m s) True)
      \<and> ((\<forall>x. res ?m s \<noteq> Ok x) \<longrightarrow> faring plan seen [?a] s (effs ?m s) (post ?m s) False)"
    using P by auto
qed

text \<open>One round of the cleanup removes the object, or leaves everything as it is.\<close>

lemma deleted_once:
  assumes g: "sound s" and there: "seen s (apiKind api0) (objKey x) \<noteq> None"
  shows "sound (post (deleteUnused_step api names acc x) s) \<and> (\<exists>gone \<subseteq> objKey ` {y. y = x \<and> GetName y \<notin> names}.
    seen (post (deleteUnused_step api names acc x) s) = without (apiKind api0) gone (seen s))"
proof (cases "GetName x \<in> names")
  case True
  then show ?thesis using g by (auto simp: step_keep go_run intro: exI [of _ "{}"])
next
  case False
  obtain b where b: "snd (apiDelete api0 EmptyOptions x (base s)) = b" "good b" "view b = dropObj (apiKind api0) (objKey x) (seen s)"
    using delete_present [OF g there] by auto
  let ?s = "post (deleteUnused_step api names acc x) s"
  have s: "?s = snd (apiDelete api EmptyOptions x s)"
    using False by (auto simp: step_drop go_run api_results api_posts split: outcome.split sum.split)
  have "base ?s = base s \<or> base ?s = b"
    using lossyApiD(7) [OF lossy_api, of EmptyOptions x] by (cases rule: lossy_cases [where s = s]) (auto simp: s b(1))
  then show ?thesis
  proof
    assume "base ?s = b"
    then show ?thesis using b False by (intro conjI exI [of _ "{objKey x}"]) (auto simp: without_dropObj)
  qed (use g in \<open>auto intro: exI [of _ "{}"]\<close>)
qed

text \<open>The loop of the cleanup removes some of the listed objects outside the wanted names.\<close>

lemma delete_loop_fares:
  assumes "sound s" "distinct (map objKey items)" "\<And>x. x \<in> set items \<Longrightarrow> seen s (apiKind api0) (objKey x) \<noteq> None"
  shows "sound (post (foldE (deleteUnused_step api names) acc items) s)
    \<and> (\<exists>gone \<subseteq> objKey ` {x \<in> set items. GetName x \<notin> names}. 
        seen (post (foldE (deleteUnused_step api names) acc items) s) = without (apiKind api0) gone (seen s))"
  using assms
proof (induction items arbitrary: acc s)
  case Nil
  then show ?case by (auto simp: go_run intro: exI [of _ "{}"])
next
  case (Cons x items)
  obtain acc' where step: "post (foldE (deleteUnused_step api names) acc (x # items)) s =
      post (foldE (deleteUnused_step api names) acc' items) (post (deleteUnused_step api names acc x) s)"
    using wr_delete.not_panic [of api EmptyOptions x s]
    by (cases "GetName x \<in> names"; cases "res (writer_Delete api EmptyOptions x) s") (auto simp: step_keep step_drop go_run)
  let ?s = "post (deleteUnused_step api names acc x) s"
  obtain g where g: "sound ?s" "g \<subseteq> objKey ` {y. y = x \<and> GetName y \<notin> names}"
    "seen ?s = without (apiKind api0) g (seen s)"
    using deleted_once [of s x names acc] Cons.prems by auto
  have "seen ?s (apiKind api0) (objKey y) \<noteq> None" if "y \<in> set items" for y
  proof -
    have "objKey x \<notin> objKey ` set items" using Cons.prems(2) by simp
    then have "objKey y \<noteq> objKey x" using that by (auto simp: image_iff)
    then show ?thesis using Cons.prems(3) [of y] that g(2,3) by (auto simp: without_at)
  qed
  with Cons.IH [of ?s acc'] Cons.prems(2) g(1) obtain gone where
    "sound (post (foldE (deleteUnused_step api names) acc' items) ?s)" "gone \<subseteq> objKey ` {x \<in> set items. GetName x \<notin> names}"
    "seen (post (foldE (deleteUnused_step api names) acc' items) ?s) = without (apiKind api0) gone (seen ?s)" by auto
  then show ?case unfolding step using g(2,3) by (intro conjI exI [of _ "gone \<union> g"]) auto
qed

lemma list_base: "sound s \<Longrightarrow> base (snd (apiList api ns ls s)) = base s"
proof -
  assume g: "sound s"
  then have same: "snd (apiList api0 ns ls (base s)) = base s" using list_selected [of "base s" ns ls] by auto
  show ?thesis
    using lossyApiD(4) [OF lossy_api, of ns ls] by (cases rule: lossy_cases [where s = s]) (auto simp: same)
qed

lemma cleanup_removes:
  assumes g: "sound s"
  shows "sound (post (deleteUnusedResources api drd names ls) s)
    \<and> (\<exists>gone. (\<forall>key \<in> gone. \<exists>d. seen s (apiKind api0) key = Some d \<and> unwanted (GetNamespace drd) ls names key d)
        \<and> seen (post (deleteUnusedResources api drd names ls) s) = without (apiKind api0) gone (seen s))"
  using lossyApiD(4) [OF lossy_api, of "GetNamespace drd" ls]
proof (cases rule: lossy_cases [where s = s])
  case (failed e)
  then show ?thesis using g list_base [OF g] by (auto simp: deleteUnusedResources_def go_run sdk_defs intro: exI [of _ "{}"])
next
  case served
  let ?m = "deleteUnusedResources api drd names ls"
  let ?list = "apiList api (GetNamespace drd) ls s"
  obtain items where items: "fst ?list = Inr items" "distinct (map objKey items)"
    "\<forall>x \<in> set items. seen s (apiKind api0) (objKey x) = Some (digestOf x)"
    "objKey ` set items = {key. \<exists>d. seen s (apiKind api0) key = Some d \<and> snd key = GetNamespace drd \<and> fmsubset ls (snd d)}"
    using list_selected [OF g, of "GetNamespace drd" ls] served(2) by auto
  have "post ?m s = post (foldE (deleteUnused_step api names) [] items) (snd ?list)"
    using items(1) by (simp add: deleteUnusedResources_def go_run sdk_defs)
  with delete_loop_fares [of "snd ?list" items names "[]"] g list_base [OF g] items(2,3) obtain gone where
    gone: "sound (post ?m s)" "gone \<subseteq> objKey ` {x \<in> set items. GetName x \<notin> names}" "seen (post ?m s) = without (apiKind api0) gone (seen s)"
    by auto
  have "objKey ` {x \<in> set items. GetName x \<notin> names} = objKey ` set items \<inter> {key. fst key \<notin> names}" by auto
  then have "\<exists>d. seen s (apiKind api0) key = Some d \<and> unwanted (GetNamespace drd) ls names key d" if "key \<in> gone" for key
    using that gone(2) unfolding items(4) unwanted_def by blast
  then show ?thesis using gone(1,3) by blast
qed

lemma cleanup_fares:
  "follows sound (faring plan seen) (deleteUnusedResources api drd names ls) always always [Sweep (apiKind api) (GetNamespace drd) ls names]"
proof -
  let ?m = "deleteUnusedResources api drd names ls"
  let ?a = "Sweep (apiKind api) (GetNamespace drd) ls names"
  have "faring plan seen [?a] s es (post ?m s) b" if "sound s" for s es b
    using cleanup_removes [OF that, of drd names ls] swept [of "apiKind api0" "GetNamespace drd" ls names plan _ "seen s"]
    by (auto simp: faring_def lossyApiD(1) [OF lossy_api])
  then show ?thesis unfolding follows_def using cleanup_removes by blast
qed

end

section \<open>Deployments over the connection\<close>

lemma keeps_fares: "keeps I view m \<Longrightarrow> follows I (faring plan view) m D always []"
  by (auto simp: keeps_def follows_def faring_def)

text \<open>A server that keeps the contract of a deployment, and a connection to it on which requests fail.\<close>

locale lossy_store = cluster_store sdk0 good view cr + connection base left sdk0 sdk
  for sdk0 :: "'b client" and good :: "'b \<Rightarrow> bool" and view :: "'b \<Rightarrow> dstore" and cr :: druid
    and base :: "'w \<Rightarrow> 'b" and left :: "'w \<Rightarrow> nat" and sdk :: "'w client"
begin

abbreviation sound :: "'w \<Rightarrow> bool" where
  "sound s \<equiv> good (base s)"

abbreviation seen :: "'w \<Rightarrow> dstore" where
  "seen s \<equiv> view (base s)"

lemma lossy_kinds:
  "lossy_kind (clConfigMaps sdk0) good view base left (clConfigMaps sdk)" "lossy_kind (clServices sdk0) good view base left (clServices sdk)"
  "lossy_kind (clPVCs sdk0) good view base left (clPVCs sdk)" "lossy_kind (clPDBs sdk0) good view base left (clPDBs sdk)"
  "lossy_kind (clHPAs sdk0) good view base left (clHPAs sdk)" "lossy_kind (clIngresses sdk0) good view base left (clIngresses sdk)"
  "lossy_kind (clStatefulSets sdk0) good view base left (clStatefulSets sdk)"
  "lossy_kind (clDeployments sdk0) good view base left (clDeployments sdk)"
  by (intro lossy_kind.intro lossy_kind_axioms.intro apis cms.kind_store_axioms svcs.kind_store_axioms pvcs.kind_store_axioms
      pdbs.kind_store_axioms hpas.kind_store_axioms ings.kind_store_axioms stss.kind_store_axioms deps.kind_store_axioms)+

lemma typed_sdk: "typed_client sdk" "kinded_client sdk"
  using typed kinded apis [THEN lossyApiD(1)] by (simp_all add: typed_client_def kinded_client_def wraps)

lemma other_lossy: "other_requests sdk sound seen"
proof (rule other_requests.intro, goal_cases)
  case 1
  show ?case by (rule typed_sdk)
next
  case (2 s ns ls)
  show ?case
    by (rule lossy_keeps [OF lossyApiD(4) [OF apis(5)], where Q = "\<lambda>b. good b \<and> view b = seen s"]) (use 2 pods_listed [OF 2] in simp_all)
next
  case (3 s opt p)
  show ?case
    by (rule lossy_keeps [OF lossyApiD(7) [OF apis(5)], where Q = "\<lambda>b. good b \<and> view b = seen s"]) (use 3 pod_deleted [OF 3] in simp_all)
next
  case (4 s st m)
  show ?case
    by (rule lossy_keeps [OF lossyApiD(9) [OF apis(11)], where Q = "\<lambda>b. good b \<and> view b = seen s"]) (use 4 status_patched [OF 4] in simp_all)
qed

lemma finalizers_fare: "follows sound (faring plan seen) (updateFinalizers sdk cr) always (\<lambda>m. same_core m cr) []"
proof (cases "metaFinalizers (objMeta cr) = desiredFinalizers cr")
  case True
  then show ?thesis by (simp add: updateFinalizers_def follows_def go_run same_core_def faring_def)
next
  case False
  let ?fs = "desiredFinalizers cr"
  let ?patch = "apiPatch (clDruids sdk) (JSONPatchFinalizers ?fs) (SetFinalizers ?fs cr)"
  have patch: "sound (snd (?patch s)) \<and> seen (snd (?patch s)) = seen s \<and> (\<forall>m. fst (?patch s) = Inr m \<longrightarrow> same_core m cr)"
    if g: "sound s" for s
  proof -
    obtain m' b where "apiPatch (clDruids sdk0) (JSONPatchFinalizers ?fs) (SetFinalizers ?fs cr) (base s) = (Inr m', b)"
      "good b" "view b = seen s" "same_core m' cr" using cr_patched [OF g] by blast
    note b = this
    show ?thesis using lossyApiD(8) [OF apis(11), of "JSONPatchFinalizers ?fs" "SetFinalizers ?fs cr"]
      by (cases rule: lossy_cases [where s = s]) (use g b in auto)
  qed
  then show ?thesis
    using False by (auto simp: updateFinalizers_def Let_def follows_def faring_def go_run sdk_defs split: sum.splits)
qed

lemma lossy_frame:
  assumes "coherent plan"
  shows "frame_follower sound (faring plan seen) sdk"
  using composable_faring [OF assms] typed_sdk lossy_kinds(1-6) [THEN lossy_kind.sync_fares, of alwaysTrueIsEqualsFn _ plan "clLib sdk"]
  by (simp add: frame_follower_def frame_follower_axioms_def kinded_client_def want_def typed_prepared [OF typed_sdk(1), symmetric]
      alwaysTrueIsEqualsFn_def noopUpdaterFn_def keepClusterIP_def)

lemma cleanups_fare:
  "follows sound (faring plan seen) (deleteUnusedResources (clStatefulSets sdk) m names ls) always always [Sweep StatefulSetKind (GetNamespace m) ls names]"
  "follows sound (faring plan seen) (deleteUnusedResources (clDeployments sdk) m names ls) always always [Sweep DeploymentKind (GetNamespace m) ls names]"
  "follows sound (faring plan seen) (deleteUnusedResources (clHPAs sdk) m names ls) always always [Sweep HPAKind (GetNamespace m) ls names]"
  "follows sound (faring plan seen) (deleteUnusedResources (clIngresses sdk) m names ls) always always [Sweep IngressKind (GetNamespace m) ls names]"
  "follows sound (faring plan seen) (deleteUnusedResources (clPDBs sdk) m names ls) always always [Sweep PDBKind (GetNamespace m) ls names]"
  "follows sound (faring plan seen) (deleteUnusedResources (clServices sdk) m names ls) always always [Sweep ServiceKind (GetNamespace m) ls names]"
  "follows sound (faring plan seen) (deleteUnusedResources (clConfigMaps sdk) m names ls) always always [Sweep ConfigMapKind (GetNamespace m) ls names]"
  using lossy_kinds [THEN lossy_kind.cleanup_fares, of plan m names ls] typed_sdk(2) by (simp_all add: kinded_client_def)

lemma workloads_fare:
  "follows sound (faring plan seen) (sdkCreateOrUpdateAsNeeded (clLib sdk) (clStatefulSets sdk) (ret sts) statefulSetIsEquals noopUpdaterFn m ns) always
     (\<lambda>(st, ns', x). ns' = insert (GetName sts) ns \<and> x = stamped (clLib sdk) KStatefulSet m sts) [want (clLib sdk) StatefulSetKind KStatefulSet m sts]"
  "follows sound (faring plan seen) (sdkCreateOrUpdateAsNeeded (clLib sdk) (clDeployments sdk) (ret dep) deploymentIsEquals noopUpdaterFn m ns) always
     (\<lambda>(st, ns', x). ns' = insert (GetName dep) ns \<and> x = stamped (clLib sdk) KDeployment m dep) [want (clLib sdk) DeploymentKind KDeployment m dep]"
  using lossy_kinds(7) [THEN lossy_kind.sync_fares, of statefulSetIsEquals noopUpdaterFn plan "clLib sdk" sts m ns]
    lossy_kinds(8) [THEN lossy_kind.sync_fares, of deploymentIsEquals noopUpdaterFn plan "clLib sdk" dep m ns] typed_sdk(2)
  by (simp_all add: kinded_client_def want_def typed_prepared [OF typed_sdk(1)] statefulSetIsEquals_def deploymentIsEquals_def noopUpdaterFn_def)

lemma lossy_follower:
  assumes "coherent plan"
  shows "plan_follower sound (faring plan seen) sdk cr steady"
proof (intro plan_follower.intro lossy_frame [OF assms] plan_follower_axioms.intro, goal_cases)
  case (3 m' m)
  then show ?case by (rule steady_frame)
next
  case (4 m' m)
  then show ?case by (rule steady_core)
next
  case (9 m n u)
  then show ?case by (simp add: steady_def)
next
  case (10 m)
  then show ?case by (simp add: steady_def)
next
  case 11
  show ?case by (rule finalizers_fare)
qed (auto simp: faring_def intro: workloads_fare cleanups_fare keeps_fares lossy_kinds(7,8) [THEN lossy_kind.keeps_deployed]
    other_lossy [THEN other_requests.keeps_crash_check] other_lossy [THEN other_requests.keeps_pod_names] other_lossy [THEN other_requests.keeps_status])

end

text \<open>One run, for a resource whose common ConfigMap is built from the resource alone.\<close>

locale lossy_deploy = lossy_store sdk0 good view cr base left sdk
  for sdk0 :: "'b client" and good :: "'b \<Rightarrow> bool" and view :: "'b \<Rightarrow> dstore" and cr :: druid
    and base :: "'w \<Rightarrow> 'b" and left :: "'w \<Rightarrow> nat" and sdk :: "'w client" +
  fixes cc :: configmap and acts :: "act list"
  assumes valid: "verifyDruidSpec cr = None" and live: "metaDeletionTimestamp (objMeta cr) = None" and st: "steady cr"
    and cc: "makeCommonConfigMap sdk cr (makeLabelsForDruid cr) = ret cc" and planned: "clusterPlan (clLib sdk) cr cc = Ok acts"
    and once: "distinct (wantedKeys acts)"
begin

lemmas coherent_acts = plan_coherent [OF planned once]

text \<open>
  From the common ConfigMap to the status the store makes steps of the plan, and a run that
  succeeds without rolling deployment has completed what it wants.
\<close>

lemma deploy_fares:
  assumes g: "sound s"
  shows "sound (post (deployDruidCluster sdk cr) s)" "(plan_step acts)\<^sup>*\<^sup>* (seen s) (seen (post (deployDruidCluster sdk cr) s))"
    "res (deployDruidCluster sdk cr) s = Ok m' \<Longrightarrow> \<not> crRollingDeploy (drSpec cr) \<Longrightarrow> Ensure kd key e \<in> set acts \<Longrightarrow>
       settledAct (Ensure kd key e) (seen (post (deployDruidCluster sdk cr) s))"
proof -
  let ?ls = "makeLabelsForDruid cr"
  let ?w = "want (clLib sdk) ConfigMapKind KConfigMap cr cc"
  from planned obtain sha m' nodes where hash: "getObjectHash (clLib sdk) (KConfigMap cc) = Inr sha"
    and nodes: "planNodes (clLib sdk) ?ls sha cr (getNodeSpecsByOrder cr) = Ok (m', nodes)"
    and acts: "acts = (?w # nodes) @ sweeps (GetNamespace cr) ?ls (?w # nodes)"
    by (rule clusterPlanE)
  have wrap: "apiWrap (clConfigMaps sdk) = KConfigMap" using typed_sdk by (simp add: typed_client_def)
  have "deployDruidCluster sdk cr = bindE (sdkCreateOrUpdateAsNeeded (clLib sdk) (clConfigMaps sdk) (ret cc) alwaysTrueIsEqualsFn noopUpdaterFn cr {})
      (\<lambda>(_, configMapNames, _). deployLive sdk (getNodeSpecsByOrder cr) ?ls sha configMapNames cr)"
    unfolding deployDruidCluster_def valid option.case Let_def cc wrap by (simp add: live hash)
  then have "follows sound (faring acts seen) (deployDruidCluster sdk cr) (\<lambda>_. \<not> crRollingDeploy (drSpec cr)) always acts"
    using plan_follower.deploy_follows [OF lossy_follower [OF coherent_acts] st nodes, of cc] unfolding acts by simp
  note f = followsD [OF this g]
  show "sound (post (deployDruidCluster sdk cr) s)" by (rule f(1))
  show "(plan_step acts)\<^sup>*\<^sup>* (seen s) (seen (post (deployDruidCluster sdk cr) s))"
    using f(3,4) unfolding faring_def by blast
  show "settledAct (Ensure kd key e) (seen (post (deployDruidCluster sdk cr) s))"
    if "res (deployDruidCluster sdk cr) s = Ok m'" "\<not> crRollingDeploy (drSpec cr)" "Ensure kd key e \<in> set acts" for m'
    using f(3) [OF that(1)] that(2,3) unfolding faring_def by (auto simp del: settledAct.simps)
qed

text \<open>A run in which no request fails succeeds and does all of the plan.\<close>

lemma unharmed_run:
  assumes g: "sound s" and d: "direct cr" and ok: "left (post (deployDruidCluster sdk cr) s) = left s"
  shows "\<exists>m'. res (deployDruidCluster sdk cr) s = Ok m'" and "settled acts (seen (post (deployDruidCluster sdk cr) s))"
proof -
  have "left (post (makeCommonConfigMap sdk cr (makeLabelsForDruid cr)) s) = left s" by (simp add: cc go_run)
  from mirrorsD(1) [OF mirrors_common_config this] have "res (makeCommonConfigMap sdk0 cr (makeLabelsForDruid cr)) (base s) = Ok cc"
    by (simp add: cc go_run)
  moreover have "clusterPlan (clLib sdk0) cr cc = Ok acts" using planned by (simp add: wraps)
  ultimately have "(\<exists>m'. res (deployDruidCluster sdk0 cr) (base s) = Ok m')
    \<and> view (post (deployDruidCluster sdk0 cr) (base s)) = applyActs acts (seen s)"
    using deploy_performs [OF g valid live d] by blast
  with mirrorsD [OF mirrors_deploy ok] plan_settles [OF planned once, of "seen s"]
  show "\<exists>m'. res (deployDruidCluster sdk cr) s = Ok m'" "settled acts (seen (post (deployDruidCluster sdk cr) s))" by simp_all
qed

end

text \<open>
  Many runs, each for the resource as it is read when the run starts: the node map is then in any
  order. The plans of these resources are permutations of each other, so that one plan tells what
  all of the runs do.
\<close>

definition runs :: "'w client \<Rightarrow> druid list \<Rightarrow> 'w \<Rightarrow> 'w" where
  "runs sdk ms s = fold (\<lambda>m s. post (deployDruidCluster sdk m) s) ms s"

lemma runs_simps [simp]:
  "runs sdk [] s = s" "runs sdk (m # ms) s = runs sdk ms (post (deployDruidCluster sdk m) s)"
  by (simp_all add: runs_def)

locale lossy_runs =
  fixes sdk0 :: "'b client" and good :: "'b \<Rightarrow> bool" and view :: "'b \<Rightarrow> dstore" and cr :: druid
    and base :: "'w \<Rightarrow> 'b" and left :: "'w \<Rightarrow> nat" and sdk :: "'w client" and cc :: configmap and acts :: "act list"
  assumes store: "reread cr x \<Longrightarrow> lossy_store sdk0 good view x base left sdk"
    and valid: "verifyDruidSpec cr = None" and live: "metaDeletionTimestamp (objMeta cr) = None" and st: "steady cr"
    and cc: "makeCommonConfigMap sdk cr (makeLabelsForDruid cr) = ret cc" and planned: "clusterPlan (clLib sdk) cr cc = Ok acts"
    and once: "distinct (wantedKeys acts)" and unshared: "unshared cr"
begin

abbreviation sound :: "'w \<Rightarrow> bool" where "sound s \<equiv> good (base s)"
abbreviation seen :: "'w \<Rightarrow> dstore" where "seen s \<equiv> view (base s)"

lemma each_run:
  assumes re: "reread cr x"
  obtains acts' where "lossy_deploy sdk0 good view x base left sdk cc acts'" "set acts' = set acts"
proof -
  obtain acts' where acts': "clusterPlan (clLib sdk) x cc = Ok acts'" "set acts' = set acts" "mset (wantedKeys acts') = mset (wantedKeys acts)"
    using unshared re planned by (rule reread_plan)
  have "lossy_deploy sdk0 good view x base left sdk cc acts'"
    using valid live st cc once
    by (intro lossy_deploy.intro lossy_deploy_axioms.intro store [OF re] acts'(1))
       (simp_all add: reread_valid [OF re] reread_live [OF re] reread_options [OF re] reread_common [OF re]
         mset_eq_imp_distinct_iff [OF acts'(3)])
  with acts'(2) show thesis by (rule that [rotated])
qed

lemmas coherent_acts = plan_coherent [OF planned once]

lemma run_fares:
  assumes g: "sound s" and re: "reread cr x"
  shows "sound (post (deployDruidCluster sdk x) s)" "(plan_step acts)\<^sup>*\<^sup>* (seen s) (seen (post (deployDruidCluster sdk x) s))"
    "res (deployDruidCluster sdk x) s = Ok m' \<Longrightarrow> \<not> crRollingDeploy (drSpec cr) \<Longrightarrow> Ensure kd key e \<in> set acts \<Longrightarrow>
       settledAct (Ensure kd key e) (seen (post (deployDruidCluster sdk x) s))"
proof -
  obtain acts' where ld: "lossy_deploy sdk0 good view x base left sdk cc acts'" and set: "set acts' = set acts"
    using re by (rule each_run)
  have roll: "crRollingDeploy (drSpec x) = crRollingDeploy (drSpec cr)" using re by (elim reread_spec) simp
  note f = lossy_deploy.deploy_fares [OF ld g]
  show "sound (post (deployDruidCluster sdk x) s)" by (rule f(1))
  show "(plan_step acts)\<^sup>*\<^sup>* (seen s) (seen (post (deployDruidCluster sdk x) s))"
    using f(2) plan_step_set [OF set] by simp
  show "settledAct (Ensure kd key e) (seen (post (deployDruidCluster sdk x) s))"
    if "res (deployDruidCluster sdk x) s = Ok m'" "\<not> crRollingDeploy (drSpec cr)" "Ensure kd key e \<in> set acts" for m'
    using f(3) [OF that(1)] that(2,3) roll set by simp
qed

lemma unharmed_reread:
  assumes "sound s" "reread cr x" "direct cr" "left (post (deployDruidCluster sdk x) s) = left s"
  shows "\<exists>m'. res (deployDruidCluster sdk x) s = Ok m'" "settled acts (seen (post (deployDruidCluster sdk x) s))"
proof -
  obtain acts' where ld: "lossy_deploy sdk0 good view x base left sdk cc acts'" and set: "set acts' = set acts"
    using assms(2) by (rule each_run)
  have "direct x" using assms(3) reread_options [OF assms(2)] by simp
  from lossy_deploy.unharmed_run [OF ld assms(1) this assms(4)] settled_set [OF set]
  show "\<exists>m'. res (deployDruidCluster sdk x) s = Ok m'" "settled acts (seen (post (deployDruidCluster sdk x) s))" by simp_all
qed

lemma left_decreases: "reread cr x \<Longrightarrow> left (post (deployDruidCluster sdk x) s) \<le> left s"
  by (rule mirrors_left [OF connection.mirrors_deploy [OF lossy_store.axioms(2) [OF store]]])

lemma runs_fare:
  "sound s \<Longrightarrow> list_all (reread cr) ms \<Longrightarrow> sound (runs sdk ms s) \<and> (plan_step acts)\<^sup>*\<^sup>* (seen s) (seen (runs sdk ms s))"
proof (induction ms arbitrary: s)
  case (Cons m ms)
  then have "reread cr m" by simp
  note run = run_fares(1,2) [OF Cons.prems(1) this]
  with Cons.IH [OF run(1)] Cons.prems(2) show ?case by (auto intro: rtranclp_trans)
qed simp

lemma runs_keep:
  "sound s \<Longrightarrow> list_all (reread cr) ms \<Longrightarrow> a \<in> set acts \<Longrightarrow> settledAct a (seen s) \<Longrightarrow> settledAct a (seen (runs sdk ms s))"
  using settled_steps [OF coherent_acts] runs_fare by blast

lemma some_run_succeeds:
  assumes d: "direct cr"
  shows "sound s \<Longrightarrow> list_all (reread cr) ms \<Longrightarrow> left s < length ms \<Longrightarrow>
    \<exists>j \<le> left s. \<exists>m'. res (deployDruidCluster sdk (ms ! j)) (runs sdk (take j ms) s) = Ok m'"
proof (induction ms arbitrary: s)
  case (Cons m ms)
  let ?s = "post (deployDruidCluster sdk m) s"
  have re: "reread cr m" using Cons.prems(2) by simp
  show ?case
  proof (cases "left ?s = left s")
    case True
    then show ?thesis using unharmed_reread(1) [OF Cons.prems(1) re d] by (intro exI [of _ 0]) simp
  next
    case False
    then have f: "left ?s < left s" using left_decreases [OF re, of s] by simp
    with Cons.IH [OF run_fares(1) [OF Cons.prems(1) re]] Cons.prems(2,3) obtain j m' where
      "j \<le> left ?s" "res (deployDruidCluster sdk (ms ! j)) (runs sdk (take j ms) ?s) = Ok m'" by auto
    then show ?thesis using f by (intro exI [of _ "Suc j"]) auto
  qed
qed simp

lemma runs_settle:
  assumes d: "direct cr"
  shows "sound s \<Longrightarrow> list_all (reread cr) ms \<Longrightarrow> left s < length ms \<Longrightarrow> settled acts (seen (runs sdk ms s))"
proof (induction ms arbitrary: s)
  case (Cons m ms)
  let ?s = "post (deployDruidCluster sdk m) s"
  have re: "reread cr m" "list_all (reread cr) ms" using Cons.prems(2) by simp_all
  have g: "sound ?s" by (rule run_fares(1) [OF Cons.prems(1) re(1)])
  show ?case
  proof (cases "left ?s = left s")
    case True
    from unharmed_reread(2) [OF Cons.prems(1) re(1) d this] runs_keep [OF g re(2)] show ?thesis by (simp add: settled_def list_all_iff)
  next
    case False
    then have "left ?s < length ms" using left_decreases [OF re(1), of s] Cons.prems(3) by simp
    with Cons.IH [OF g re(2)] show ?thesis by simp
  qed
qed simp

end

section \<open>The server in memory behind a faulty connection\<close>

lemma memory_connection: "connection snd faultsLeft memClient (faultyOver memClient)"
  by (intro connection.intro faultyOver_lossy)

lemma memory_lossy_store: "lossy_store memClient (memGood (objKey cr)) memView cr snd faultsLeft (faultyOver memClient)"
  by (intro lossy_store.intro memory_cluster_store memory_connection)

interpretation faulty_mem: lossy_store memClient "memGood (objKey cr)" memView cr snd faultsLeft "faultyOver memClient" for cr
  by (rule memory_lossy_store)

interpretation faulty_cms: lossy_kind "clConfigMaps memClient" "memGood (objKey cr)" memView snd faultsLeft "clConfigMaps (faultyOver memClient)"
  for cr :: druid
  by (rule faulty_mem.lossy_kinds(1))

lemma pair_faulty_common:
  "makeCommonConfigMap (faultyOver memClient) (pairDruid r b) (makeLabelsForDruid (pairDruid r b)) = ret (plainCommon r)"
  by (simp add: makeCommonConfigMap_def commonProperties_def addExtraCommonConfig_def pairDruid_def plainDruid_def sample_defs Let_def
      putIf_def plainCommon_def makeLabelsForDruid_def)

lemma faulty_lib: "clLib (faultyOver memClient) = memLib"
  by (simp add: faultyOver_def memory_apis)

definition pairPlan :: "bool \<Rightarrow> act list" where
  "pairPlan r = (case clusterPlan memLib (pairDruid r False) (plainCommon r) of Ok acts \<Rightarrow> acts | _ \<Rightarrow> [])"

lemma pair_planned:
  "clusterPlan (clLib (faultyOver memClient)) (pairDruid r False) (plainCommon r) = Ok (pairPlan r)"
  "distinct (wantedKeys (pairPlan r))" "(StatefulSetKind, ''druid-c-h'', ''ns'') \<in> set (wantedKeys (pairPlan r))"
  using pair_plan [of r] by (auto simp: pairPlan_def faulty_lib)

lemma pair_lossy_store:
  assumes "reread (pairDruid r b) x"
  shows "lossy_store memClient (memGood (''c'', ''ns'')) memView x snd faultsLeft (faultyOver memClient)"
proof -
  have "objKey x = (''c'', ''ns'')" using assms pair_facts(6) [of r b] by (simp add: reread_def)
  with memory_lossy_store [of x] show ?thesis by simp
qed

interpretation faulty_pair: lossy_runs memClient "memGood (''c'', ''ns'')" memView "pairDruid r False" snd faultsLeft
    "faultyOver memClient" "plainCommon r" "pairPlan r" for r
  by (intro lossy_runs.intro pair_facts pair_faulty_common pair_planned) (rule pair_lossy_store)

interpretation faulty_one: lossy_deploy memClient "memGood (objKey (pairDruid r False))" memView "pairDruid r False" snd faultsLeft
    "faultyOver memClient" "plainCommon r" "pairPlan r" for r
  by (intro lossy_deploy.intro memory_lossy_store lossy_deploy_axioms.intro pair_facts pair_faulty_common pair_planned)

section \<open>Properties\<close>

text \<open>
  C5 (safety). Failures do no harm: over any number of runs in which requests fail at any point,
  with or without effect and with or without rolling deployment, every object is what it was before,
  or it is a planned one with its planned digest, or it was an object of the cluster that is not
  planned and is gone. Each run is for the resource as it is read then, with the node map in any
  order. The resource is valid and not being deleted; volume expansion and the removal of orphaned
  claims are off, or it is the first generation; it names no extra ConfigMaps, so that the common
  ConfigMap is built from the resource alone; the planned objects have distinct keys; and the
  cluster level of the spec has nothing that builders write through (\<open>unshared\<close>).
\<close>

theorem failures_stay_in_plan:
  assumes "\<And>x. reread m x \<Longrightarrow> lossy_store sdk0 good view x base left sdk" and "good (base s)" and "verifyDruidSpec m = None"
    and "metaDeletionTimestamp (objMeta m) = None" and "steady m"
    and "makeCommonConfigMap sdk m (makeLabelsForDruid m) = ret cc" and plan: "clusterPlan (clLib sdk) m cc = Ok acts"
    and "distinct (wantedKeys acts)" and "unshared m" and "list_all (reread m) ms" and s': "s' = runs sdk ms s"
  shows "good (base s') \<and> (\<forall>kd key. view (base s') kd key = view (base s) kd key
    \<or> (\<exists>d. Ensure kd key d \<in> set acts \<and> view (base s') kd key = Some d)
    \<or> (view (base s') kd key = None \<and> kd \<in> set sweptKinds \<and> (kd, key) \<notin> set (wantedKeys acts) \<and> snd key = GetNamespace m
        \<and> (\<exists>d. view (base s) kd key = Some d \<and> fmsubset (makeLabelsForDruid m) (snd d))))"
proof -
  have "lossy_runs sdk0 good view m base left sdk cc acts" using assms by (intro lossy_runs.intro)
  note fare = lossy_runs.runs_fare [OF this assms(2,10), folded s']
  have "accounted acts kd key (view (base s) kd key) (view (base s') kd key)" for kd key
    using steps_accounted [OF plan_coherent [OF plan assms(8)]] fare by blast
  then show ?thesis using fare plan_accounted [OF plan] by blast
qed

text \<open>
  C18 (invariant). What a run completed lasts: after a run without rolling deployment that
  succeeded, every planned object is there with its hash, and it stays so through any number of
  further runs, whichever of their requests fail. Each run is for the resource as it is read then,
  with the node map in any order. The resource is valid and not being deleted; volume expansion and
  the removal of orphaned claims are off, or it is the first generation; it names no extra
  ConfigMaps; the planned objects have distinct keys; and the cluster level of the spec has nothing
  that builders write through (\<open>unshared\<close>).
\<close>

theorem successful_run_lasts:
  assumes "\<And>x. reread m x \<Longrightarrow> lossy_store sdk0 good view x base left sdk" and "good (base s)" and "verifyDruidSpec m = None"
    and "metaDeletionTimestamp (objMeta m) = None" and "steady m"
    and "makeCommonConfigMap sdk m (makeLabelsForDruid m) = ret cc" and "clusterPlan (clLib sdk) m cc = Ok acts"
    and "distinct (wantedKeys acts)" and "unshared m" and "\<not> crRollingDeploy (drSpec m)"
    and "reread m m1" and "res (deployDruidCluster sdk m1) s = Ok m'" and "list_all (reread m) ms" and "Ensure kd key d \<in> set acts"
  shows "\<exists>d'. view (base (runs sdk (m1 # ms) s)) kd key = Some d' \<and> fst d' = fst d"
proof -
  have lr: "lossy_runs sdk0 good view m base left sdk cc acts" using assms by (intro lossy_runs.intro)
  note run = lossy_runs.run_fares [OF lr assms(2,11)]
  from lossy_runs.runs_keep [OF lr run(1) assms(13,14) run(3) [OF assms(12,10,14)]] show ?thesis
    by (auto split: option.splits)
qed

text \<open>
  C4 (liveness). Failures are overcome: if at most \<open>left s\<close> requests still fail, then within that many
  runs and one more a run succeeds, and after any number of runs beyond that the cluster is in its
  desired state: every planned object is there with its hash, and every object of a cleaned kind
  with the labels of the cluster is a planned one. Each run is for the resource as it is read then,
  with the node map in any order. The resource is valid and not being deleted and goes straight
  through (no rolling deployment; no volume expansion and no removal of orphaned claims, or the
  first generation); it names no extra ConfigMaps; the planned objects have distinct keys; and the
  cluster level of the spec has nothing that builders write through (\<open>unshared\<close>).
\<close>

theorem failures_are_overcome:
  assumes "\<And>x. reread m x \<Longrightarrow> lossy_store sdk0 good view x base left sdk" and "good (base s)" and "verifyDruidSpec m = None"
    and "metaDeletionTimestamp (objMeta m) = None" and "direct m"
    and "makeCommonConfigMap sdk m (makeLabelsForDruid m) = ret cc" and plan: "clusterPlan (clLib sdk) m cc = Ok acts"
    and "distinct (wantedKeys acts)" and "unshared m" and "list_all (reread m) ms" and "left s < length ms" and s': "s' = runs sdk ms s"
  shows "(\<exists>j \<le> left s. \<exists>m'. res (deployDruidCluster sdk (ms ! j)) (runs sdk (take j ms) s) = Ok m')
    \<and> (\<forall>kd key d. Ensure kd key d \<in> set acts \<longrightarrow> (\<exists>d'. view (base s') kd key = Some d' \<and> fst d' = fst d))
    \<and> (\<forall>kd n d. kd \<in> set sweptKinds \<longrightarrow> view (base s') kd (n, GetNamespace m) = Some d \<longrightarrow>
          fmsubset (makeLabelsForDruid m) (snd d) \<longrightarrow> n \<in> ensuredNames kd acts)"
proof -
  have "steady m" using assms(5) by (simp add: direct_def)
  with assms have lr: "lossy_runs sdk0 good view m base left sdk cc acts" by (intro lossy_runs.intro)
  have set: "settled acts (view (base s'))"
    using lossy_runs.runs_settle [OF lr assms(5,2,10,11)] s' by simp
  have "\<exists>j \<le> left s. \<exists>m'. res (deployDruidCluster sdk (ms ! j)) (runs sdk (take j ms) s) = Ok m'"
    by (rule lossy_runs.some_run_succeeds [OF lr assms(5,2,10,11)])
  with settled_wanted [OF set] settled_swept [OF plan set] show ?thesis by blast
qed

text \<open>
  C37 (error). The extra ConfigMaps of a resource, any number of them: each is read once, in the
  order of the resource, and the common ConfigMap is the resource's own one with the data of those
  that could be read laid over it in that order, a later one over an earlier one. A read that
  fails, whatever its error is, contributes nothing, stops nothing and leaves no event: a lost
  answer takes the data of that ConfigMap out of the common configuration unnoticed.
\<close>

theorem unreadable_extra_config_is_dropped:
  assumes "refs = crExtraCommonConfig (drSpec m)"
    and "res (makeCommonConfigMap sdk (updSpec (\<lambda>sp. sp\<lparr>crExtraCommonConfig := []\<rparr>) m) ls) s = Ok own"
  shows "res (makeCommonConfigMap sdk m ls) s
      = Ok (own\<lparr>cmData := foldl (++\<^sub>f) (cmData own) (concat (map (extraData sdk refs s) [0..<length refs]))\<rparr>)
    \<and> effs (makeCommonConfigMap sdk m ls) s
      = map (\<lambda>ref. GetCall (apiKind (clConfigMaps sdk)) (orName ref) (orNamespace ref)) refs"
proof -
  let ?m = "updSpec (\<lambda>sp. sp\<lparr>crExtraCommonConfig := []\<rparr>) m"
  have props: "commonProperties (clLib sdk) ?m = commonProperties (clLib sdk) m" by (simp add: commonProperties_def Let_def split: sum.split)
  show ?thesis
    using assms(2) unfolding makeCommonConfigMap_def props
    by (auto simp: go_run Let_def addExtra_run [OF assms(1)] addExtra_no_refs makeConfigMap_def split: outcome.splits sum.splits)
qed

section \<open>Witnesses\<close>

text \<open>
  A connection that loses an answer, serves a request and refuses one, and runs that see the two
  node groups of one type in alternating order.
\<close>

definition shakyWorld :: "fault list \<times> world" where
  "shakyWorld = ([AnswerLost, Served, Refused], plainWorld False)"

definition shakyReads :: "druid list" where
  "shakyReads = [pairDruid False False, pairDruid False True, pairDruid False False]"

lemma shaky_facts: "memGood (''c'', ''ns'') (snd shakyWorld)" "faultsLeft shakyWorld = 2" "list_all (reread (pairDruid False False)) shakyReads"
  using pair_facts(7) [of False] by (simp_all add: shakyWorld_def faultsLeft_def shakyReads_def pair_reread)

lemmas shaky_run = pair_lossy_store [of False False] shaky_facts(1) pair_facts(1,2) [of False False]
lemmas shaky_plan = pair_faulty_common [of False False] pair_planned(1,2) [of False] pair_facts(5) [of False False]

lemma shaky_wanted: "\<exists>d. Ensure StatefulSetKind (''druid-c-h'', ''ns'') d \<in> set (pairPlan False)"
  using pair_planned(3) [of False] unfolding in_wantedKeys .

theorem failures_stay_in_plan_witness:
  "memView (snd (runs (faultyOver memClient) shakyReads shakyWorld)) ConfigMapKind (''old'', ''ns'') = memView (plainWorld False) ConfigMapKind (''old'', ''ns'')
    \<or> (\<exists>d. Ensure ConfigMapKind (''old'', ''ns'') d \<in> set (pairPlan False) \<and> memView (snd (runs (faultyOver memClient) shakyReads shakyWorld)) ConfigMapKind (''old'', ''ns'') = Some d)
    \<or> memView (snd (runs (faultyOver memClient) shakyReads shakyWorld)) ConfigMapKind (''old'', ''ns'') = None"
proof -
  note all = failures_stay_in_plan [where ?sdk0.0 = memClient and good = "memGood (''c'', ''ns'')" and view = memView and base = snd and left = faultsLeft
        and m = "pairDruid False False" and sdk = "faultyOver memClient" and s = shakyWorld, OF shaky_run pair_facts(3) shaky_plan shaky_facts(3) refl]
  show ?thesis
    using all [THEN conjunct2, THEN spec, THEN spec, of ConfigMapKind "(''old'', ''ns'')"] unfolding shakyWorld_def snd_conv by auto
qed

theorem failures_are_overcome_witness:
  "\<exists>d. memView (snd (runs (faultyOver memClient) shakyReads shakyWorld)) StatefulSetKind (''druid-c-h'', ''ns'') = Some d"
proof -
  have "faultsLeft shakyWorld < length shakyReads" by (simp add: shaky_facts(2) shakyReads_def)
  from failures_are_overcome [where ?sdk0.0 = memClient and good = "memGood (''c'', ''ns'')" and view = memView and base = snd and left = faultsLeft
        and m = "pairDruid False False" and sdk = "faultyOver memClient" and s = shakyWorld, OF shaky_run pair_facts(4) shaky_plan shaky_facts(3) this refl] shaky_wanted show ?thesis by blast
qed

theorem successful_run_lasts_witness:
  "\<exists>j d. memView (snd (runs (faultyOver memClient) (shakyReads ! j # shakyReads) (runs (faultyOver memClient) (take j shakyReads) shakyWorld)))
     StatefulSetKind (''druid-c-h'', ''ns'') = Some d"
proof -
  obtain d where d: "Ensure StatefulSetKind (''druid-c-h'', ''ns'') d \<in> set (pairPlan False)" using shaky_wanted ..
  have len: "faultsLeft shakyWorld < length shakyReads" by (simp add: shaky_facts(2) shakyReads_def)
  obtain j m' where j: "j \<le> faultsLeft shakyWorld"
    and ok: "res (deployDruidCluster (faultyOver memClient) (shakyReads ! j)) (runs (faultyOver memClient) (take j shakyReads) shakyWorld) = Ok m'"
    using faulty_pair.some_run_succeeds [OF pair_facts(4) shaky_facts(1,3) len] by blast
  have re: "reread (pairDruid False False) (shakyReads ! j)" "list_all (reread (pairDruid False False)) (take j shakyReads)"
    using shaky_facts(3) j len by (auto simp: list_all_length list_all_iff dest: in_set_takeD)
  have g: "memGood (''c'', ''ns'') (snd (runs (faultyOver memClient) (take j shakyReads) shakyWorld))"
    using faulty_pair.runs_fare [OF shaky_facts(1) re(2)] by blast
  have roll: "\<not> crRollingDeploy (drSpec (pairDruid False False))" using pair_facts(4) [of False] by (simp add: direct_def)
  from successful_run_lasts [where ?sdk0.0 = memClient and good = "memGood (''c'', ''ns'')" and view = memView and base = snd and left = faultsLeft
        and m = "pairDruid False False" and sdk = "faultyOver memClient" and s = "runs (faultyOver memClient) (take j shakyReads) shakyWorld", OF shaky_run(1) g shaky_run(3,4) pair_facts(3) shaky_plan roll re(1) ok shaky_facts(3) d] show ?thesis
    by (intro exI [of _ j]) auto
qed

text \<open>Two extra ConfigMaps are there, but the connection refuses the request for the first.\<close>

definition extraRefs :: "object_reference list" where
  "extraRefs = [\<lparr>orName = ''extra'', orNamespace = ''ns''\<rparr>, \<lparr>orName = ''more'', orNamespace = ''ns''\<rparr>]"

definition extraDruid :: druid where
  "extraDruid = updSpec (\<lambda>sp. sp\<lparr>crExtraCommonConfig := extraRefs\<rparr>) (plainDruid False)"

definition extraWorld :: world where
  "extraWorld = emptyWorld\<lparr>wObjs := [KConfigMap (makeConfigMap ''extra'' ''ns'' fmempty (fmupd ''a.xml'' ''b'' fmempty)),
     KConfigMap (makeConfigMap ''more'' ''ns'' fmempty (fmupd ''c.xml'' ''d'' fmempty))]\<rparr>"

definition commonFile :: "fault list \<Rightarrow> string \<Rightarrow> string option" where
  "commonFile faults name = (case res (makeCommonConfigMap (faultyOver memClient) extraDruid fmempty) (faults, extraWorld) of
     Ok cm \<Rightarrow> fmlookup (cmData cm) name | _ \<Rightarrow> None)"

theorem unreadable_extra_config_is_dropped_witness:
  "commonFile [Refused] ''a.xml'' = None \<and> commonFile [Refused] ''c.xml'' = Some ''d''
   \<and> commonFile [] ''a.xml'' = Some ''b'' \<and> commonFile [] ''c.xml'' = Some ''d''
   \<and> effs (makeCommonConfigMap (faultyOver memClient) extraDruid fmempty) ([Refused], extraWorld)
     = [GetCall ConfigMapKind ''extra'' ''ns'', GetCall ConfigMapKind ''more'' ''ns'']"
proof -
  let ?own = "makeCommonConfigMap (faultyOver memClient) (updSpec (\<lambda>sp. sp\<lparr>crExtraCommonConfig := []\<rparr>) extraDruid) fmempty"
  have refs: "crExtraCommonConfig (drSpec extraDruid) = extraRefs" by (simp add: extraDruid_def)
  obtain own where own: "res ?own ([Refused], extraWorld) = Ok own" and "fmlookup (cmData own) ''a.xml'' = None"
  proof (cases "res ?own ([Refused], extraWorld)")
    case (Ok x)
    moreover have "(case res ?own ([Refused], extraWorld) of Ok x \<Rightarrow> fmlookup (cmData x) ''a.xml'' = None | _ \<Rightarrow> False)" by code_simp
    ultimately show ?thesis using that by simp
  next
    case (Err e)
    moreover have "(case res ?own ([Refused], extraWorld) of Ok x \<Rightarrow> True | _ \<Rightarrow> False)" by code_simp
    ultimately show ?thesis by simp
  next
    case (Panic p)
    moreover have "(case res ?own ([Refused], extraWorld) of Ok x \<Rightarrow> True | _ \<Rightarrow> False)" by code_simp
    ultimately show ?thesis by simp
  qed
  moreover have "concat (map (extraData (faultyOver memClient) extraRefs ([Refused], extraWorld)) [0..<length extraRefs])
      = [fmupd ''c.xml'' ''d'' fmempty]" by code_simp
  moreover have "apiKind (clConfigMaps (faultyOver memClient)) = ConfigMapKind"
    by (simp add: faultyOver_def faultyApi_def memClient_def memApi_def)
  moreover have "commonFile [] ''a.xml'' = Some ''b''" "commonFile [] ''c.xml'' = Some ''d''" by code_simp+
  ultimately show ?thesis
    using unreadable_extra_config_is_dropped [OF refs [symmetric] own] by (simp add: commonFile_def) (simp add: extraRefs_def)
qed

end
