(* ===== verification/Orphan_Lifecycle.thy ===== *)
theory Orphan_Lifecycle
  imports Orphan_Pvc Object_Store
begin

text \<open>
  The life of one volume claim over many reconciliations. The abstract machine \<open>claim_step\<close> has
  a state per claim (unmarked, marked at a time, marked without a readable time, deleted) and
  moves with what a round observes of the claim. Proved: a claim that starts unmarked is deleted
  only after a round saw it unmounted, no round that took the claim's turn since then saw it
  mounted, and 60 seconds passed; each round of \<open>deleteOrphanPVC\<close>, whether it succeeds or fails,
  performs one step of the machine on every claim of the cluster, against any server with the
  contract \<open>claim_server\<close>, where a failed round may miss a claim; and so the same holds for any
  number of rounds, whatever happens in between to anything but the claim.
\<close>

section \<open>The machine\<close>

datatype claim_state = Unmarked | Marked int | Unreadable | Deleted

text \<open>
  What a round sees of a claim: nothing, because a pod is not ready, or whether a pod mounts it,
  and the time; or the round fails and the claim's turn does not come or has no effect.
\<close>

datatype observation = Idle | Seen bool int | Missed

inductive claim_step :: "observation \<Rightarrow> claim_state \<Rightarrow> claim_state \<Rightarrow> bool" where
  idle: "claim_step Idle c c"
| missed: "claim_step Missed c c"
| mark: "claim_step (Seen False t) Unmarked (Marked t)"
| mounted: "claim_step (Seen True t) Unmarked Unmarked"
| wait: "t - t0 < 60 \<Longrightarrow> claim_step (Seen False t) (Marked t0) (Marked t0)"
| expire: "t - t0 \<ge> 60 \<Longrightarrow> claim_step (Seen False t) (Marked t0) Deleted"
| unmark: "claim_step (Seen True t) (Marked t0) Unmarked"
| repair: "claim_step (Seen True t) Unreadable Unmarked"
| gone: "claim_step (Seen m t) Deleted Deleted"

inductive_cases claim_step_Idle [elim]: "claim_step Idle c c'"
inductive_cases claim_step_Missed [elim]: "claim_step Missed c c'"
inductive_cases claim_step_Seen [elim]: "claim_step (Seen m t) c c'"
inductive_simps claim_step_to_Deleted: "claim_step obs c Deleted"
inductive_simps claim_step_to_Marked: "claim_step obs c (Marked t)"

code_pred claim_step .

inductive claim_run :: "observation list \<Rightarrow> claim_state \<Rightarrow> claim_state \<Rightarrow> bool" where
  start: "claim_run [] c c"
| round: "claim_run obs c c' \<Longrightarrow> claim_step ob c' c'' \<Longrightarrow> claim_run (obs @ [ob]) c c''"

text \<open>The machine does at most one thing: a step is a function of state and observation.\<close>

lemma claim_step_determ: "claim_step ob c c1 \<Longrightarrow> claim_step ob c c2 \<Longrightarrow> c1 = c2"
  by (induction rule: claim_step.induct) auto

text \<open>
  The invariant of a run that starts unmarked: a marked claim was seen unmounted at the time of
  the mark and not seen mounted since; a deleted one moreover expired.
\<close>

definition unmountedSince :: "observation list \<Rightarrow> int \<Rightarrow> bool" where
  "unmountedSince obs t0 = (\<exists>pre mid. obs = pre @ Seen False t0 # mid \<and> (\<forall>t. Seen True t \<notin> set mid))"

definition expired_after :: "observation list \<Rightarrow> bool" where
  "expired_after obs = (\<exists>until t0 t rest. obs = until @ Seen False t # rest \<and> unmountedSince until t0 \<and> t - t0 \<ge> 60)"

definition justified :: "observation list \<Rightarrow> claim_state \<Rightarrow> bool" where
  "justified obs c = (case c of
     Unmarked \<Rightarrow> True
   | Unreadable \<Rightarrow> False
   | Marked t0 \<Rightarrow> unmountedSince obs t0
   | Deleted \<Rightarrow> expired_after obs)"

lemma justified_simps [simp]:
  "justified obs Unmarked" "\<not> justified obs Unreadable" "justified obs (Marked t0) = unmountedSince obs t0"
  "justified obs Deleted = expired_after obs"
  by (simp_all add: justified_def)

lemma unmountedSince_now: "unmountedSince (obs @ [Seen False t]) t"
  unfolding unmountedSince_def by (intro exI [of _ obs] exI [of _ "[]"]) simp

lemma unmountedSince_step:
  assumes "unmountedSince obs t0" "\<And>t. ob \<noteq> Seen True t"
  shows "unmountedSince (obs @ [ob]) t0"
proof -
  from assms(1) obtain pre mid where "obs = pre @ Seen False t0 # mid" "\<forall>t. Seen True t \<notin> set mid"
    unfolding unmountedSince_def by blast
  with assms(2) show ?thesis
    unfolding unmountedSince_def by (intro exI [of _ pre] exI [of _ "mid @ [ob]"]) (auto dest: sym)
qed

lemma expired_after_more: "expired_after obs \<Longrightarrow> expired_after (obs @ [ob])"
  unfolding expired_after_def by (metis append.assoc append_Cons)

lemma expired_after_now: "unmountedSince obs t0 \<Longrightarrow> t - t0 \<ge> 60 \<Longrightarrow> expired_after (obs @ [Seen False t])"
  unfolding expired_after_def by blast

lemma justified_step:
  assumes "claim_step ob c c'" "justified obs c"
  shows "justified (obs @ [ob]) c'"
  using assms
proof (induction rule: claim_step.induct)
  case (idle c)
  then show ?case by (cases c) (auto intro: unmountedSince_step expired_after_more)
next
  case (missed c)
  then show ?case by (cases c) (auto intro: unmountedSince_step expired_after_more)
qed (auto intro: unmountedSince_now unmountedSince_step expired_after_now expired_after_more)

lemma justified_run: "claim_run obs Unmarked c \<Longrightarrow> justified obs c"
proof (induction obs "Unmarked" c rule: claim_run.induct)
  case start
  show ?case by (simp add: justified_def)
next
  case (round obs c' ob c'')
  then show ?case by (blast intro: justified_step)
qed

section \<open>The state of a claim\<close>

text \<open>The labels of a claim, if it exists, give its state.\<close>

definition claimState :: "strmap option \<Rightarrow> claim_state" where
  "claimState labels = (case labels of
     None \<Rightarrow> Deleted
   | Some l \<Rightarrow>
       if fmlookup l toBeDeletedLabel = None then Unmarked
       else (case parseInt64 (mapGet l deletionTSLabel) of None \<Rightarrow> Unreadable | Some t \<Rightarrow> Marked t))"

definition claimed :: "druid \<Rightarrow> pvc \<Rightarrow> bool" where
  "claimed drd pvc \<longleftrightarrow> GetNamespace pvc = GetNamespace drd \<and> fmlookup (GetLabels pvc) ''druid_cr'' = Some (GetName drd)"

lemma claimed_labels: "claimed drd pvc \<Longrightarrow> metaLabels (objMeta pvc) = Some (GetLabels pvc)"
  by (auto simp: claimed_def GetLabels_def split: option.splits)

lemma labels_distinct:
  "toBeDeletedLabel \<noteq> ''druid_cr''" "deletionTSLabel \<noteq> ''druid_cr''" "toBeDeletedLabel \<noteq> deletionTSLabel"
  by (simp_all add: toBeDeletedLabel_def deletionTSLabel_def)

lemma claimed_SetLabels:
  assumes "claimed drd pvc"
  shows "claimed drd (SetLabels (fmupd deletionTSLabel a (fmupd toBeDeletedLabel b (GetLabels pvc))) pvc)"
    "claimed drd (SetLabels (fmdrop deletionTSLabel (fmdrop toBeDeletedLabel (GetLabels pvc))) pvc)"
  using assms labels_distinct by (simp_all add: claimed_def) (simp_all add: SetLabels_def)

lemma claimState_simps:
  "claimState None = Deleted" "fmlookup l toBeDeletedLabel = None \<Longrightarrow> claimState (Some l) = Unmarked"
  "claimState (Some (fmdrop deletionTSLabel (fmdrop toBeDeletedLabel l))) = Unmarked"
  "\<bar>t\<bar> \<le> 2 ^ 61 \<Longrightarrow> claimState (Some (fmupd deletionTSLabel (formatInt t) (fmupd toBeDeletedLabel v l))) = Marked t"
  using labels_distinct(3)
  by (simp_all add: claimState_def mapGet_def parseInt64_formatInt int64_min_def int64_max_def)

section \<open>The server and its clock\<close>

text \<open>
  The contract: \<open>claim s n\<close> are the labels of the claim \<open>n\<close> of the cluster, \<open>clock\<close> is the
  server's clock, which never runs backwards and stays within \<open>2^61\<close> seconds. A list of the claims
  shows exactly the existing ones; an update that succeeds stores the labels, a deletion that
  succeeds removes the claim, one that fails has had that effect or none, and neither touches
  another claim.
\<close>

locale claim_server =
  fixes sdk :: "'w client" and drd :: druid and good :: "'w \<Rightarrow> bool"
    and claim :: "'w \<Rightarrow> string \<Rightarrow> strmap option" and clock :: "'w \<Rightarrow> int"
  assumes time: "good s \<Longrightarrow> clNow sdk s = (clock s, s) \<and> \<bar>clock s\<bar> \<le> 2 ^ 61"
    and pods_listed: "good s \<Longrightarrow> apiList (clPods sdk) ns ls s = (r, s') \<Longrightarrow>
      good s' \<and> claim s' = claim s \<and> clock s \<le> clock s'"
    and claims_listed: "good s \<Longrightarrow>
      apiList (clPVCs sdk) (GetNamespace drd) (fmupd ''druid_cr'' (GetName drd) fmempty) s = (Inr items, s') \<Longrightarrow>
      good s' \<and> claim s' = claim s \<and> clock s \<le> clock s' \<and> distinct (map GetName items)
      \<and> (\<forall>pvc \<in> set items. claimed drd pvc \<and> claim s (GetName pvc) = Some (GetLabels pvc))
      \<and> (\<forall>n. claim s n \<noteq> None \<longrightarrow> n \<in> GetName ` set items)"
    and claims_unlisted: "good s \<Longrightarrow>
      apiList (clPVCs sdk) (GetNamespace drd) (fmupd ''druid_cr'' (GetName drd) fmempty) s = (Inl e, s') \<Longrightarrow>
      good s' \<and> claim s' = claim s \<and> clock s \<le> clock s'"
    and updated: "good s \<Longrightarrow> claimed drd x \<Longrightarrow> apiUpdate (clPVCs sdk) x s = (u, s') \<Longrightarrow>
      good s' \<and> clock s \<le> clock s' \<and> (claim s' = (claim s)(GetName x \<mapsto> GetLabels x) \<or> isl u \<and> claim s' = claim s)"
    and deleted: "good s \<Longrightarrow> claimed drd x \<Longrightarrow> apiDelete (clPVCs sdk) EmptyOptions x s = (d, s') \<Longrightarrow>
      good s' \<and> clock s \<le> clock s' \<and> (claim s' = (claim s)(GetName x := None) \<or> isl d \<and> claim s' = claim s)"
begin

text \<open>Writing the labels of a claim, or deleting it.\<close>

lemma set_labels:
  assumes "good s" "claimed drd (SetLabels l pvc)"
  shows "good (post (setPVCLabels sdk pvc l b) s)" "clock s \<le> clock (post (setPVCLabels sdk pvc l b) s)"
    "claim (post (setPVCLabels sdk pvc l b) s) = (claim s)(GetName pvc \<mapsto> l)
      \<or> res (setPVCLabels sdk pvc l b) s \<noteq> Ok () \<and> claim (post (setPVCLabels sdk pvc l b) s) = claim s"
proof -
  obtain r s' where u: "apiUpdate (clPVCs sdk) (SetLabels l pvc) s = (r, s')" by force
  have "GetName (SetLabels l pvc) = GetName pvc" "GetLabels (SetLabels l pvc) = l" by (simp_all add: SetLabels_def GetLabels_def)
  with u assms updated [OF assms(1,2) u] show "good (post (setPVCLabels sdk pvc l b) s)"
    "clock s \<le> clock (post (setPVCLabels sdk pvc l b) s)"
    "claim (post (setPVCLabels sdk pvc l b) s) = (claim s)(GetName pvc \<mapsto> l)
      \<or> res (setPVCLabels sdk pvc l b) s \<noteq> Ok () \<and> claim (post (setPVCLabels sdk pvc l b) s) = claim s"
    by (auto simp: setPVCLabels_def go_run api_results api_posts split: sum.splits)
qed

lemma check_delete:
  assumes "good s" "claimed drd pvc" and t0: "parseInt64 (mapGet (GetLabels pvc) deletionTSLabel) = Some t0"
  shows "good (post (checkPVCLabelsAndDelete sdk pvc) s)" "clock s \<le> clock (post (checkPVCLabelsAndDelete sdk pvc) s)"
    "claim (post (checkPVCLabelsAndDelete sdk pvc) s) =
        (if timeDifference t0 (clock s) \<ge> 60 then (claim s)(GetName pvc := None) else claim s)
      \<or> res (checkPVCLabelsAndDelete sdk pvc) s \<noteq> Ok () \<and> claim (post (checkPVCLabelsAndDelete sdk pvc) s) = claim s"
proof -
  obtain r s' where d: "apiDelete (clPVCs sdk) EmptyOptions pvc s = (r, s')" by force
  with t0 time [OF assms(1)] assms(1) deleted [OF assms(1,2) d]
  show "good (post (checkPVCLabelsAndDelete sdk pvc) s)" "clock s \<le> clock (post (checkPVCLabelsAndDelete sdk pvc) s)"
    "claim (post (checkPVCLabelsAndDelete sdk pvc) s) =
        (if timeDifference t0 (clock s) \<ge> 60 then (claim s)(GetName pvc := None) else claim s)
      \<or> res (checkPVCLabelsAndDelete sdk pvc) s \<noteq> Ok () \<and> claim (post (checkPVCLabelsAndDelete sdk pvc) s) = claim s"
    by (auto simp: checkPVCLabelsAndDelete_def go_run api_results api_posts Let_def split: sum.splits)
qed

text \<open>
  What the machine allows for the claim \<open>n\<close>: a step for what was seen of it at a time within the
  code's run, or, if the code failed, nothing.
\<close>

abbreviation sane :: "strmap option \<Rightarrow> bool" where
  "sane l \<equiv> (\<forall>t0. claimState l = Marked t0 \<longrightarrow> \<bar>t0\<bar> \<le> 2 ^ 61)"

definition moved :: "bool \<Rightarrow> string \<Rightarrow> unit outcome \<Rightarrow> 'w \<Rightarrow> 'w \<Rightarrow> bool" where
  "moved mounted n r s s' \<longleftrightarrow> (sane (claim s n) \<longrightarrow>
     (\<exists>t. clock s \<le> t \<and> t \<le> clock s' \<and> claim_step (Seen mounted t) (claimState (claim s n)) (claimState (claim s' n)))
     \<or> r \<noteq> Ok () \<and> claim s' n = claim s n)"

lemma moved_now:
  "clock s \<le> clock s' \<Longrightarrow> (sane (claim s n) \<Longrightarrow> claim_step (Seen mounted (clock s)) (claimState (claim s n)) (claimState (claim s' n))) \<Longrightarrow>
   moved mounted n r s s'"
  unfolding moved_def by blast

lemma moved_fail: "r \<noteq> Ok () \<Longrightarrow> claim s' n = claim s n \<Longrightarrow> moved mounted n r s s'"
  by (simp add: moved_def)

text \<open>One claim's turn in a round is one step of the machine, and leaves the other claims alone.\<close>

lemma mounted_turn:
  assumes g: "good s" and c: "claimed drd pvc" and here: "claim s (GetName pvc) = Some (GetLabels pvc)"
    and m: "GetName pvc \<in> set mounted"
  defines "s' \<equiv> post (orphan_step sdk mounted pvc) s"
  shows "good s' \<and> clock s \<le> clock s' \<and> (\<forall>n. n \<noteq> GetName pvc \<longrightarrow> claim s' n = claim s n)
    \<and> moved True (GetName pvc) (res (orphan_step sdk mounted pvc) s) s s'"
proof (cases "fmlookup (GetLabels pvc) toBeDeletedLabel")
  case None
  then have "s' = s" using m by (simp add: s'_def orphan_step_def go_run)
  then show ?thesis using None g here by (auto simp: claimState_simps intro!: moved_now claim_step.mounted)
next
  case (Some v)
  let ?l' = "fmdrop deletionTSLabel (fmdrop toBeDeletedLabel (GetLabels pvc))"
  have run: "orphan_step sdk mounted pvc = setPVCLabels sdk pvc ?l' False" using m Some by (simp add: orphan_step_def)
  have "claim_step (Seen True t) (claimState (Some (GetLabels pvc))) Unmarked" for t
    using Some by (auto simp: claimState_def split: option.split intro: claim_step.intros)
  with set_labels [OF g claimed_SetLabels(2) [OF c], of False] here show ?thesis
    unfolding s'_def run by (auto simp: claimState_simps intro: moved_now moved_fail)
qed

lemma unmounted_turn:
  assumes g: "good s" and c: "claimed drd pvc" and here: "claim s (GetName pvc) = Some (GetLabels pvc)"
    and m: "GetName pvc \<notin> set mounted"
  defines "s' \<equiv> post (orphan_step sdk mounted pvc) s"
  shows "good s' \<and> clock s \<le> clock s' \<and> (\<forall>n. n \<noteq> GetName pvc \<longrightarrow> claim s' n = claim s n)
    \<and> moved False (GetName pvc) (res (orphan_step sdk mounted pvc) s) s s'"
proof -
  let ?l = "GetLabels pvc"
  note now = time [OF g]
  show ?thesis
  proof (cases "fmlookup ?l toBeDeletedLabel")
    case None
    let ?l' = "fmupd deletionTSLabel (formatInt (clock s)) (fmupd toBeDeletedLabel ''yes'' ?l)"
    have run: "res (orphan_step sdk mounted pvc) s = res (setPVCLabels sdk pvc ?l' True) s" "s' = post (setPVCLabels sdk pvc ?l' True) s"
      using m None claimed_labels [OF c] now by (simp_all add: s'_def orphan_step_def go_run)
    with set_labels [OF g claimed_SetLabels(1) [OF c], of "formatInt (clock s)" "''yes''" True] here None now show ?thesis
      by (auto simp: claimState_simps claim_step.mark intro: moved_now moved_fail)
  next
    case (Some v)
    then have run: "orphan_step sdk mounted pvc = checkPVCLabelsAndDelete sdk pvc" using m by (simp add: orphan_step_def)
    show ?thesis
    proof (cases "parseInt64 (mapGet ?l deletionTSLabel)")
      case None
      then have "s' = s" "res (orphan_step sdk mounted pvc) s \<noteq> Ok ()"
        unfolding s'_def run by (simp_all add: checkPVCLabelsAndDelete_def go_run Let_def)
      then show ?thesis using g by (simp add: moved_fail)
    next
      case (Some t0)
      then have st: "claimState (Some ?l) = Marked t0" using \<open>fmlookup ?l toBeDeletedLabel = Some v\<close> by (simp add: claimState_def)
      have "claim_step (Seen False (clock s)) (Marked t0) (if timeDifference t0 (clock s) \<ge> 60 then Deleted else Marked t0)"
        if "\<bar>t0\<bar> \<le> 2 ^ 61"
        using timeDifference_ge [OF that, of "clock s"] now by (auto intro: claim_step.intros)
      note step = this and del = check_delete [OF g c Some]
      from del(3) have "moved False (GetName pvc) (res (checkPVCLabelsAndDelete sdk pvc) s) s (post (checkPVCLabelsAndDelete sdk pvc) s)"
      proof
        assume "claim (post (checkPVCLabelsAndDelete sdk pvc) s)
          = (if timeDifference t0 (clock s) \<ge> 60 then (claim s)(GetName pvc := None) else claim s)"
        with step del(2) here st show ?thesis by (intro moved_now) (auto simp: claimState_simps split: if_splits)
      qed (simp add: moved_fail)
      with del show ?thesis unfolding s'_def run by (auto split: if_splits)
    qed
  qed
qed

lemma turn_simulates:
  assumes "good s" "claimed drd pvc" "claim s (GetName pvc) = Some (GetLabels pvc)"
  shows "good (post (orphan_step sdk mounted pvc) s)" "clock s \<le> clock (post (orphan_step sdk mounted pvc) s)"
    "n \<noteq> GetName pvc \<Longrightarrow> claim (post (orphan_step sdk mounted pvc) s) n = claim s n"
    "moved (GetName pvc \<in> set mounted) (GetName pvc) (res (orphan_step sdk mounted pvc) s) s (post (orphan_step sdk mounted pvc) s)"
  using mounted_turn [OF assms, of mounted] unmounted_turn [OF assms, of mounted]
  by (cases "GetName pvc \<in> set mounted"; simp)+

text \<open>The loop over the claims: a claim in the list is moved, every other stays.\<close>

lemma loop_simulates:
  assumes "good s" and "distinct (map GetName items)"
    and "\<And>pvc. pvc \<in> set items \<Longrightarrow> claimed drd pvc \<and> claim s (GetName pvc) = Some (GetLabels pvc)"
  shows "good (post (forE (orphan_step sdk mounted) items) s) \<and> clock s \<le> clock (post (forE (orphan_step sdk mounted) items) s)
    \<and> (if n \<in> GetName ` set items
       then moved (n \<in> set mounted) n (res (forE (orphan_step sdk mounted) items) s) s (post (forE (orphan_step sdk mounted) items) s)
       else claim (post (forE (orphan_step sdk mounted) items) s) n = claim s n)"
  using assms
proof (induction items arbitrary: s)
  case Nil
  then show ?case by (simp add: go_run)
next
  case (Cons pvc items)
  let ?t = "orphan_step sdk mounted pvc" and ?s1 = "post (orphan_step sdk mounted pvc) s"
  let ?L = "forE (orphan_step sdk mounted) items" and ?all = "forE (orphan_step sdk mounted) (pvc # items)"
  have c: "claimed drd pvc" "claim s (GetName pvc) = Some (GetLabels pvc)" using Cons.prems(3) [of pvc] by simp_all
  note turn = turn_simulates [OF Cons.prems(1) c, where mounted = mounted]
  have fresh: "GetName pvc \<notin> GetName ` set items" using Cons.prems(2) by simp
  show ?case
  proof (cases "res ?t s = Ok ()")
    case True
    then have run: "post ?all s = post ?L ?s1" "res ?all s = res ?L ?s1" by (simp_all add: go_run)
    have "claimed drd q \<and> claim ?s1 (GetName q) = Some (GetLabels q)" if "q \<in> set items" for q
      using Cons.prems(3) [of q] turn(3) [of "GetName q"] that fresh by (metis image_eqI list.set_intros(2))
    note rest = Cons.IH [OF turn(1) _ this]
    show ?thesis
    proof (cases "n = GetName pvc")
      case n: True
      obtain t where "sane (claim s n) \<Longrightarrow> clock s \<le> t \<and> t \<le> clock ?s1
          \<and> claim_step (Seen (n \<in> set mounted) t) (claimState (claim s n)) (claimState (claim ?s1 n))"
        using turn(4) True n unfolding moved_def by blast
      with rest fresh Cons.prems(2) turn(2) n show ?thesis unfolding run moved_def by (auto split: if_splits intro!: exI [of _ t])
    next
      case False
      then have same: "claim ?s1 n = claim s n" by (rule turn(3))
      with False rest Cons.prems(2) turn(2) show ?thesis
        unfolding run moved_def by (auto split: if_splits)
    qed
  next
    case False
    then have run: "post ?all s = ?s1" "res ?all s \<noteq> Ok ()" by (auto simp: go_run split: outcome.splits)
    show ?thesis
    proof (cases "n = GetName pvc")
      case n: True
      then show ?thesis using turn(1,2,4) run unfolding moved_def by auto
    next
      case n: False
      then show ?thesis using turn(1,2) turn(3) [OF n] run by (auto intro: moved_fail)
    qed
  qed
qed

end

text \<open>
  What a round that starts in \<open>s\<close> sees of the claim \<open>n\<close>. Only a round that fails misses a claim.
\<close>

definition observed :: "'w client \<Rightarrow> druid \<Rightarrow> ('w \<Rightarrow> int) \<Rightarrow> string \<Rightarrow> 'w \<Rightarrow> observation \<Rightarrow> bool" where
  "observed sdk drd clock n s ob \<longleftrightarrow>
     (case ob of
        Missed \<Rightarrow> res (deleteOrphanPVC sdk drd) s \<noteq> Ok ()
      | Idle \<Rightarrow> (\<exists>pods s1. apiList (clPods sdk) (GetNamespace drd) (makeLabelsForDruid drd) s = (Inr pods, s1)
          \<and> list_ex podNotReady pods)
      | Seen m t \<Rightarrow> (\<exists>pods s1. apiList (clPods sdk) (GetNamespace drd) (makeLabelsForDruid drd) s = (Inr pods, s1)
          \<and> \<not> list_ex podNotReady pods \<and> m = (\<exists>p \<in> set pods. n \<in> claimsOf p)
          \<and> clock s \<le> t \<and> t \<le> clock (post (deleteOrphanPVC sdk drd) s)))"

context claim_server
begin

text \<open>A round whose lists were answered.\<close>

lemma listed_round:
  assumes g: "good s" and n: "n \<noteq> []" and sane: "sane (claim s n)"
    and pods: "apiList (clPods sdk) (GetNamespace drd) (makeLabelsForDruid drd) s = (Inr pods, s1)"
    and items: "apiList (clPVCs sdk) (GetNamespace drd) (fmupd ''druid_cr'' (GetName drd) fmempty) s1 = (Inr items, s2)"
  shows "good (post (deleteOrphanPVC sdk drd) s) \<and> clock s \<le> clock (post (deleteOrphanPVC sdk drd) s)
    \<and> (\<exists>ob. observed sdk drd clock n s ob
      \<and> claim_step ob (claimState (claim s n)) (claimState (claim (post (deleteOrphanPVC sdk drd) s) n)))"
proof -
  note p = pods_listed [OF g pods]
  note i = claims_listed [OF p [THEN conjunct1] items]
  have same: "claim s2 = claim s" and le: "clock s \<le> clock s2" and g2: "good s2" using p i by auto
  show ?thesis
  proof (cases "list_ex podNotReady pods")
    case True
    then have "post (deleteOrphanPVC sdk drd) s = s2"
      using pods items by (simp add: deleteOrphanPVC_def go_run api_results api_posts)
    moreover have "observed sdk drd clock n s Idle" using pods True by (simp add: observed_def)
    ultimately show ?thesis using same g2 le by (auto intro: claim_step.idle)
  next
    case False
    let ?mounted = "mountPods pods (replicate (length pods) [])"
    let ?loop = "forE (orphan_step sdk ?mounted) items"
    have run: "res (deleteOrphanPVC sdk drd) s = res ?loop s2" "post (deleteOrphanPVC sdk drd) s = post ?loop s2"
      using pods items False by (simp_all add: deleteOrphanPVC_def go_run api_results api_posts)
    have dist: "distinct (map GetName items)" using i by blast
    have listed: "claimed drd pvc \<and> claim s2 (GetName pvc) = Some (GetLabels pvc)" if "pvc \<in> set items" for pvc
      using i that by metis
    note loop = loop_simulates [OF g2 dist listed, of ?mounted n]
    have mounted: "n \<in> set ?mounted \<longleftrightarrow> (\<exists>p \<in> set pods. n \<in> claimsOf p)"
      using mounted_ready [OF False, of "length pods"] n by (auto split: if_splits)
    have obs: "observed sdk drd clock n s (Seen (n \<in> set ?mounted) t)" if "clock s2 \<le> t" "t \<le> clock (post ?loop s2)" for t
      using pods False mounted that le run(2) by (auto simp: observed_def)
    show ?thesis
    proof (cases "n \<in> GetName ` set items")
      case True
      then have m: "moved (n \<in> set ?mounted) n (res ?loop s2) s2 (post ?loop s2)" using loop by simp
      have "\<exists>ob. observed sdk drd clock n s ob \<and> claim_step ob (claimState (claim s n)) (claimState (claim (post ?loop s2) n))"
      proof (cases "\<exists>t. clock s2 \<le> t \<and> t \<le> clock (post ?loop s2)
          \<and> claim_step (Seen (n \<in> set ?mounted) t) (claimState (claim s n)) (claimState (claim (post ?loop s2) n))")
        case True
        then show ?thesis using obs by blast
      next
        case False
        then have "res ?loop s2 \<noteq> Ok ()" "claim (post ?loop s2) n = claim s n"
          using m sane unfolding moved_def same by blast+
        then show ?thesis using run(1) by (intro exI [of _ Missed]) (simp add: observed_def claim_step.missed)
      qed
      then show ?thesis using loop le run(2) by simp
    next
      case False
      then have "claim s n = None" using i p by auto
      with loop False same have gone: "claimState (claim s n) = Deleted" "claimState (claim (post ?loop s2) n) = Deleted"
        by (simp_all add: claimState_simps)
      have "clock s2 \<le> clock (post ?loop s2)" using loop by simp
      then show ?thesis using obs [OF order_refl] loop le run(2) gone claim_step.gone by (metis order_trans)
    qed
  qed
qed

text \<open>A round, whether it succeeds or fails, is one step of the machine on every claim.\<close>

lemma round_simulates:
  assumes g: "good s" and n: "n \<noteq> []" and sane: "sane (claim s n)"
  shows "good (post (deleteOrphanPVC sdk drd) s) \<and> clock s \<le> clock (post (deleteOrphanPVC sdk drd) s)
    \<and> (\<exists>ob. observed sdk drd clock n s ob
      \<and> claim_step ob (claimState (claim s n)) (claimState (claim (post (deleteOrphanPVC sdk drd) s) n)))"
proof -
  let ?sel = "fmupd ''druid_cr'' (GetName drd) fmempty"
  obtain r s1 where pods: "apiList (clPods sdk) (GetNamespace drd) (makeLabelsForDruid drd) s = (r, s1)" by force
  note p = pods_listed [OF g pods]
  obtain q s2 where items: "apiList (clPVCs sdk) (GetNamespace drd) ?sel s1 = (q, s2)" by force
  have missed: "?thesis" if "res (deleteOrphanPVC sdk drd) s \<noteq> Ok ()" "post (deleteOrphanPVC sdk drd) s = w"
      "good w" "claim w = claim s" "clock s \<le> clock w" for w
    using that by (auto simp: observed_def intro!: exI [of _ Missed] claim_step.missed)
  show ?thesis
  proof (cases r)
    case (Inl e)
    then show ?thesis using p pods by (intro missed [of s1]) (simp_all add: deleteOrphanPVC_def go_run api_results api_posts)
  next
    case (Inr ps)
    show ?thesis
    proof (cases q)
      case (Inl e)
      with claims_unlisted [OF p [THEN conjunct1]] items p pods \<open>r = Inr ps\<close> show ?thesis
        by (intro missed [of s2]) (auto simp: deleteOrphanPVC_def go_run api_results api_posts)
    qed (use listed_round [OF g n sane] pods items Inr in blast)
  qed
qed

end

text \<open>
  Rounds one after the other, successful or not, with the states in which they start. Between two
  rounds anything may happen but to the claim: pods come and go, time passes.
\<close>

inductive orphan_rounds :: "'w client \<Rightarrow> druid \<Rightarrow> ('w \<Rightarrow> bool) \<Rightarrow> ('w \<Rightarrow> strmap option) \<Rightarrow> 'w list \<Rightarrow> 'w \<Rightarrow> 'w \<Rightarrow> bool"
  for sdk drd good labels where
  none: "orphan_rounds sdk drd good labels [] s s"
| another: "orphan_rounds sdk drd good labels starts s0 s \<Longrightarrow>
    good s' \<Longrightarrow> labels s' = labels (post (deleteOrphanPVC sdk drd) s) \<Longrightarrow>
    orphan_rounds sdk drd good labels (starts @ [s]) s0 s'"

context claim_server
begin

lemma sane_step:
  assumes "claim_step ob c (Marked t0)" "observed sdk drd clock n s ob" "good s" "good (post (deleteOrphanPVC sdk drd) s)"
    and "\<And>t. c = Marked t \<Longrightarrow> \<bar>t\<bar> \<le> 2 ^ 61"
  shows "\<bar>t0\<bar> \<le> 2 ^ 61"
  using assms time [OF assms(3)] time [OF assms(4)]
  by (auto simp: claim_step_to_Marked observed_def)

lemma rounds_simulate:
  assumes "orphan_rounds sdk drd good (\<lambda>s. claim s n) starts s0 s" "good s0" "n \<noteq> []" "claimState (claim s0 n) = Unmarked"
  shows "good s \<and> sane (claim s n)
    \<and> (\<exists>obs. list_all2 (observed sdk drd clock n) starts obs \<and> claim_run obs Unmarked (claimState (claim s n)))"
  using assms
proof (induction rule: orphan_rounds.induct)
  case (none s)
  then show ?case by (auto intro: claim_run.start)
next
  case (another starts s0 s s')
  then obtain obs where obs: "list_all2 (observed sdk drd clock n) starts obs" "claim_run obs Unmarked (claimState (claim s n))"
    and s: "good s" "sane (claim s n)" by blast
  from round_simulates [OF s(1) another.prems(2) s(2)] obtain ob where
    ob: "good (post (deleteOrphanPVC sdk drd) s)" "observed sdk drd clock n s ob"
      "claim_step ob (claimState (claim s n)) (claimState (claim s' n))"
    unfolding another.hyps(3) by blast
  have "sane (claim s' n)" using sane_step [OF _ ob(2) s(1) ob(1)] ob(3) s(2) by metis
  with another.hyps(2) obs ob(2,3) show ?case
    by (intro conjI exI [of _ "obs @ [ob]"]) (auto intro: claim_run.round list_all2_appendI)
qed

end

section \<open>The server in memory\<close>

definition memClaim :: "druid \<Rightarrow> world \<Rightarrow> string \<Rightarrow> strmap option" where
  "memClaim drd w n = (case memView w PVCKind (n, GetNamespace drd) of
     None \<Rightarrow> None
   | Some d \<Rightarrow> if fmlookup (snd d) ''druid_cr'' = Some (GetName drd) then Some (snd d) else None)"

definition memTimed :: "druid \<Rightarrow> world \<Rightarrow> bool" where
  "memTimed drd w \<longleftrightarrow> memGood (objKey drd) w \<and> \<bar>wClock w\<bar> \<le> 2 ^ 61"

lemma snd_digest [simp]: "snd (digestOf x) = GetLabels x"
  by (simp add: metaDigest_def GetLabels_def)

lemma select_cr: "fmsubset (fmupd k v fmempty) l \<longleftrightarrow> fmlookup l k = Some v"
  by (auto simp: fmsubset_alt_def fmpred_iff split: if_splits)

lemma managed_pvc: "managed PVCKind"
  by (simp add: managed_def)

lemma memory_claims:
  "memReplace KPVC x w = (Inr x', w') \<Longrightarrow> claimed drd x \<Longrightarrow>
     memClaim drd w' = (memClaim drd w)(GetName x \<mapsto> GetLabels x)"
  "memDelete KPVC x w = (Inr (), w') \<Longrightarrow> claimed drd x \<Longrightarrow>
     memClaim drd w' = (memClaim drd w)(GetName x := None)"
  using memory_replace(1) [OF wraps_kinds(5) managed_pvc, of x w x' w'] memory_delete(1) [OF wraps_kinds(5) managed_pvc, of x w w']
  by (auto simp: memClaim_def fun_eq_iff putObj_def dropObj_def claimed_def)

lemma memory_clock:
  "memReplace wrap x w = (r, w') \<Longrightarrow> wClock w' = wClock w" "memDelete wrap x w = (r2, w') \<Longrightarrow> wClock w' = wClock w"
  by (auto simp: memReplace_def memDelete_def Let_def split: if_splits)

lemma memory_claims_listed:
  assumes g: "memTimed drd s"
    and l: "memList PVCKind unPVC (GetNamespace drd) (fmupd ''druid_cr'' (GetName drd) fmempty) s = (Inr items, s')"
  shows "distinct (map GetName items)"
    "pvc \<in> set items \<Longrightarrow> claimed drd pvc \<and> memClaim drd s (GetName pvc) = Some (GetLabels pvc)"
    "memClaim drd s n \<noteq> None \<Longrightarrow> n \<in> GetName ` set items"
proof -
  let ?sel = "fmupd ''druid_cr'' (GetName drd) fmempty"
  have good: "memGood (objKey drd) s" using g by (simp add: memTimed_def)
  note items = memory_list [OF wraps_kinds(5) managed_pvc good l]
  have c: "claimed drd pvc \<and> memClaim drd s (GetName pvc) = Some (GetLabels pvc)" if "pvc \<in> set items" for pvc
  proof -
    have "objKey pvc \<in> objKey ` set items" using that by (rule imageI)
    then obtain d where "memView s PVCKind (objKey pvc) = Some d" "GetNamespace pvc = GetNamespace drd" "fmsubset ?sel (snd d)"
      unfolding items(3) by auto
    moreover have "memView s PVCKind (objKey pvc) = Some (digestOf pvc)" using items(2) that by blast
    ultimately show ?thesis by (simp add: claimed_def select_cr memClaim_def)
  qed
  then show "pvc \<in> set items \<Longrightarrow> claimed drd pvc \<and> memClaim drd s (GetName pvc) = Some (GetLabels pvc)" .
  have "map objKey items = map (\<lambda>n. (n, GetNamespace drd)) (map GetName items)" using c by (simp add: claimed_def)
  then show "distinct (map GetName items)" using items(1) by (metis distinct_map)
  assume "memClaim drd s n \<noteq> None"
  then have "(n, GetNamespace drd) \<in> objKey ` set items"
    unfolding items(3) by (auto simp: memClaim_def select_cr split: option.splits if_splits)
  then show "n \<in> GetName ` set items" by auto
qed

lemma memory_claim_server: "claim_server memClient drd (memTimed drd) (memClaim drd) wClock"
proof
  fix s assume "memTimed drd s"
  then show "clNow memClient s = (wClock s, s) \<and> \<bar>wClock s\<bar> \<le> 2 ^ 61" by (simp add: memTimed_def memClient_def)
next
  fix s ns ls r s' assume "memTimed drd s" "apiList (clPods memClient) ns ls s = (r, s')"
  then show "memTimed drd s' \<and> memClaim drd s' = memClaim drd s \<and> wClock s \<le> wClock s'"
    by (auto simp: memClient_def memApi_def memList_def)
next
  fix s e s' assume "memTimed drd s"
    "apiList (clPVCs memClient) (GetNamespace drd) (fmupd ''druid_cr'' (GetName drd) fmempty) s = (Inl e, s')"
  then show "memTimed drd s' \<and> memClaim drd s' = memClaim drd s \<and> wClock s \<le> wClock s'"
    by (simp add: memClient_def memApi_def memList_def)
next
  fix s x u s' assume g: "memTimed drd s" and c: "claimed drd x" and up: "apiUpdate (clPVCs memClient) x s = (u, s')"
  show "memTimed drd s' \<and> wClock s \<le> wClock s' \<and> (memClaim drd s' = (memClaim drd s)(GetName x \<mapsto> GetLabels x)
      \<or> isl u \<and> memClaim drd s' = memClaim drd s)"
  proof (cases u)
    case (Inl e)
    then have "s' = s" using up by (auto simp: memClient_def memApi_def memReplace_def Let_def split: if_splits)
    then show ?thesis using g Inl by simp
  next
    case (Inr x')
    then show ?thesis
      using up g c memory_replace(2) [OF wraps_kinds(5) managed_pvc, of x s x' s'] memory_clock(1) [of KPVC x s "Inr x'" s'] memory_claims(1)
      by (simp add: memClient_def memApi_def memTimed_def)
  qed
next
  fix s x d s' assume g: "memTimed drd s" and c: "claimed drd x" and del: "apiDelete (clPVCs memClient) EmptyOptions x s = (d, s')"
  show "memTimed drd s' \<and> wClock s \<le> wClock s' \<and> (memClaim drd s' = (memClaim drd s)(GetName x := None)
      \<or> isl d \<and> memClaim drd s' = memClaim drd s)"
  proof (cases d)
    case (Inl e)
    then have "s' = s" using del by (auto simp: memClient_def memApi_def memDelete_def Let_def split: if_splits)
    then show ?thesis using g Inl by simp
  next
    case (Inr y)
    then show ?thesis
      using del g c memory_delete(2) [OF wraps_kinds(5) managed_pvc, of x s s'] memory_clock(2) [of KPVC x s "Inr ()" s'] memory_claims(2)
      by (simp add: memClient_def memApi_def memTimed_def)
  qed
next
  fix s items s'
  assume g: "memTimed drd s"
    and l: "apiList (clPVCs memClient) (GetNamespace drd) (fmupd ''druid_cr'' (GetName drd) fmempty) s = (Inr items, s')"
  from l have mem: "memList PVCKind unPVC (GetNamespace drd) (fmupd ''druid_cr'' (GetName drd) fmempty) s = (Inr items, s')"
    by (simp add: memClient_def memApi_def)
  then have "s' = s" by (simp add: memList_def)
  then show "memTimed drd s' \<and> memClaim drd s' = memClaim drd s \<and> wClock s \<le> wClock s' \<and> distinct (map GetName items)
      \<and> (\<forall>pvc \<in> set items. claimed drd pvc \<and> memClaim drd s (GetName pvc) = Some (GetLabels pvc))
      \<and> (\<forall>n. memClaim drd s n \<noteq> None \<longrightarrow> n \<in> GetName ` set items)"
    using g memory_claims_listed [OF g mem] by simp
qed

interpretation mem_claims: claim_server memClient drd "memTimed drd" "memClaim drd" wClock for drd
  by (rule memory_claim_server)

section \<open>Properties\<close>

text \<open>
  C12 (refinement). A round of the orphan cleanup, whether it succeeds or fails, performs on every
  claim of the cluster exactly one step of the life cycle, for what the round observes of the
  claim: whether the listed pods are all ready, whether one of them mounts it, and the time. A
  round that fails may miss a claim, which then stays as it is; one that succeeds misses none. It
  holds for any server that keeps the contract, whose requests may fail with or without effect and
  whose clock stays within \<open>2^61\<close> seconds, in any state in which the claim's mark, if it has a
  readable one, lies within that range too.
\<close>

theorem orphan_round_refines:
  assumes "claim_server sdk drd good claim clock" and "good s" and "n \<noteq> []"
    and "\<And>t0. claimState (claim s n) = Marked t0 \<Longrightarrow> \<bar>t0\<bar> \<le> 2 ^ 61"
  shows "\<exists>ob. observed sdk drd clock n s ob \<and> (res (deleteOrphanPVC sdk drd) s = Ok () \<longrightarrow> ob \<noteq> Missed)
    \<and> claim_step ob (claimState (claim s n)) (claimState (claim (post (deleteOrphanPVC sdk drd) s) n))"
proof -
  have "ob \<noteq> Missed" if "observed sdk drd clock n s ob" "res (deleteOrphanPVC sdk drd) s = Ok ()" for ob
    using that by (auto simp: observed_def)
  then show ?thesis using claim_server.round_simulates [OF assms(1-3)] assms(4) by blast
qed

text \<open>
  C11 (safety). Over any number of rounds, successful or not: a claim that was there without a mark
  and is gone at the end was deleted by a round that saw all pods ready and none of them mounting
  the claim, at least 60 seconds after an earlier round saw the same and marked it, and in between
  no round saw the claim mounted, apart from rounds that failed. It holds
  for any server that keeps the contract, whose requests may fail with or without effect and whose
  clock stays within \<open>2^61\<close> seconds, if nothing else writes to the claim.
\<close>

theorem orphan_deleted_after_grace_period:
  assumes "claim_server sdk drd good claim clock" and "orphan_rounds sdk drd good (\<lambda>s. claim s n) starts s0 s"
    and "good s0" and "n \<noteq> []" and "claim s0 n = Some l" and "fmlookup l toBeDeletedLabel = None" and "claim s n = None"
  shows "\<exists>obs until t0 t rest. list_all2 (observed sdk drd clock n) starts obs
    \<and> obs = until @ Seen False t # rest \<and> t - t0 \<ge> 60
    \<and> (\<exists>pre mid. until = pre @ Seen False t0 # mid \<and> (\<forall>t'. Seen True t' \<notin> set mid))"
proof -
  have "claimState (claim s0 n) = Unmarked" using assms(5,6) by (simp add: claimState_simps)
  from claim_server.rounds_simulate [OF assms(1-4) this] obtain obs where
    obs: "list_all2 (observed sdk drd clock n) starts obs" and "claim_run obs Unmarked (claimState (claim s n))" by blast
  then have "expired_after obs" using justified_run [of obs Deleted] assms(7) by (simp add: claimState_simps)
  with obs show ?thesis unfolding expired_after_def unmountedSince_def by blast
qed

section \<open>Witnesses\<close>

text \<open>One running pod that mounts nothing; the claim is marked at time 0 and deleted at time 100.\<close>

definition lifeWorld :: "pvc list \<Rightarrow> int \<Rightarrow> world" where
  "lifeWorld pvcs t = \<lparr>wObjs = [KDruid sampleDruid, KPod (samplePod ''p0'' PodRunning [])] @ map KPVC pvcs, wClock = t, wHttp = []\<rparr>"

lemma life_good: "\<bar>t\<bar> \<le> 2 ^ 61 \<Longrightarrow> memTimed sampleDruid (lifeWorld [] t)"
  "\<bar>t\<bar> \<le> 2 ^ 61 \<Longrightarrow> memTimed sampleDruid (lifeWorld [pvc] t)"
  by (simp_all add: memTimed_def memGood_def lifeWorld_def kobjKey_def samplePod_def)

lemma life_lists:
  assumes "fmlookup (GetLabels pvc) ''druid_cr'' = Some ''c''" "GetNamespace pvc = ''ns''"
  shows "apiList (clPods memClient) (GetNamespace sampleDruid) (makeLabelsForDruid sampleDruid) (lifeWorld [pvc] t)
     = (Inr [samplePod ''p0'' PodRunning []], lifeWorld [pvc] t)"
    "apiList (clPVCs memClient) (GetNamespace sampleDruid) (fmupd ''druid_cr'' (GetName sampleDruid) fmempty) (lifeWorld [pvc] t)
     = (Inr [pvc], lifeWorld [pvc] t)"
  using assms
  by (simp_all add: lifeWorld_def mem_defs sample_defs makeLabelsForDruid_def fmsubset_alt_def fmpred_iff GetLabels_def
      split: option.splits)

lemma life_round:
  assumes "fmlookup (GetLabels pvc) ''druid_cr'' = Some ''c''" "GetNamespace pvc = ''ns''"
  shows "res (deleteOrphanPVC memClient sampleDruid) (lifeWorld [pvc] t) = res (orphan_step memClient [[]] pvc) (lifeWorld [pvc] t)"
    "post (deleteOrphanPVC memClient sampleDruid) (lifeWorld [pvc] t) = post (orphan_step memClient [[]] pvc) (lifeWorld [pvc] t)"
proof -
  have ready: "\<not> list_ex podNotReady [samplePod ''p0'' PodRunning []]" by (simp add: podNotReady_def samplePod_def)
  have mounted: "mountPods [samplePod ''p0'' PodRunning []] (replicate (length [samplePod ''p0'' PodRunning []]) []) = [[]]"
    by (simp add: samplePod_def)
  show "res (deleteOrphanPVC memClient sampleDruid) (lifeWorld [pvc] t) = res (orphan_step memClient [[]] pvc) (lifeWorld [pvc] t)"
    "post (deleteOrphanPVC memClient sampleDruid) (lifeWorld [pvc] t) = post (orphan_step memClient [[]] pvc) (lifeWorld [pvc] t)"
    using ready unfolding deleteOrphanPVC_def
    by (simp_all add: go_run api_results api_posts life_lists [OF assms] mounted [simplified] split: outcome.split)
qed

definition lifePvc :: pvc where
  "lifePvc = SetLabels (fmupd deletionTSLabel (formatInt 0) (fmupd toBeDeletedLabel ''yes'' crLabels)) (samplePvc ''p'')"

lemma life_claims:
  "fmlookup (GetLabels (samplePvc ''p'')) ''druid_cr'' = Some ''c''" "GetNamespace (samplePvc ''p'') = ''ns''"
  "fmlookup (GetLabels lifePvc) ''druid_cr'' = Some ''c''" "GetNamespace lifePvc = ''ns''"
  "GetName (samplePvc ''p'') = ''p''" "GetName lifePvc = ''p''" "metaLabels (objMeta (samplePvc ''p'')) = Some crLabels"
  by (simp_all add: lifePvc_def SetLabels_def GetLabels_def samplePvc_def metaOf_def crLabels_def toBeDeletedLabel_def deletionTSLabel_def)

lemma life_first:
  "res (deleteOrphanPVC memClient sampleDruid) (lifeWorld [samplePvc ''p''] 0) = Ok ()"
  "post (deleteOrphanPVC memClient sampleDruid) (lifeWorld [samplePvc ''p''] 0) = lifeWorld [lifePvc] 0"
proof -
  let ?w = "lifeWorld [samplePvc ''p''] 0"
  have un: "fmlookup (GetLabels (samplePvc ''p'')) toBeDeletedLabel = None"
    by (simp add: samplePvc_def GetLabels_def metaOf_def crLabels_def toBeDeletedLabel_def)
  have now: "clNow memClient ?w = (0, ?w)" by (simp add: memClient_def lifeWorld_def)
  have upd: "apiUpdate (clPVCs memClient) lifePvc ?w = (Inr lifePvc, lifeWorld [lifePvc] 0)"
    by (simp add: memClient_def memApi_def memReplace_def Let_def sameKey_kobjKey kobjKey_def lifeWorld_def life_claims
       list_ex_iff)
  have "res (setPVCLabels memClient (samplePvc ''p'') (fmupd deletionTSLabel (formatInt 0) (fmupd toBeDeletedLabel ''yes'' crLabels)) True) ?w = Ok ()"
    "post (setPVCLabels memClient (samplePvc ''p'') (fmupd deletionTSLabel (formatInt 0) (fmupd toBeDeletedLabel ''yes'' crLabels)) True) ?w = lifeWorld [lifePvc] 0"
    using upd by (simp_all add: setPVCLabels_def go_run api_results api_posts lifePvc_def [symmetric])
  then show "res (deleteOrphanPVC memClient sampleDruid) ?w = Ok ()" "post (deleteOrphanPVC memClient sampleDruid) ?w = lifeWorld [lifePvc] 0"
    using un now by (simp_all add: life_round life_claims orphan_step_def go_run)
qed

lemma life_second:
  "res (deleteOrphanPVC memClient sampleDruid) (lifeWorld [lifePvc] 100) = Ok ()"
  "post (deleteOrphanPVC memClient sampleDruid) (lifeWorld [lifePvc] 100) = lifeWorld [] 100"
proof -
  let ?w = "lifeWorld [lifePvc] 100"
  have now: "clNow memClient ?w = (100, ?w)" by (simp add: memClient_def lifeWorld_def)
  have del: "apiDelete (clPVCs memClient) EmptyOptions lifePvc ?w = (Inr (), lifeWorld [] 100)"
    by (simp add: memClient_def memApi_def memDelete_def Let_def sameKey_kobjKey kobjKey_def lifeWorld_def life_claims samplePod_def)
  have marked: "fmlookup (GetLabels lifePvc) toBeDeletedLabel \<noteq> None"
    by (simp add: lifePvc_def toBeDeletedLabel_def deletionTSLabel_def)
  have ts: "parseInt64 (mapGet (GetLabels lifePvc) deletionTSLabel) = Some 0"
    by (simp add: lifePvc_def mapGet_def parseInt64_formatInt int64_min_def int64_max_def)
  have old: "timeDifference 0 100 \<ge> 60" using timeDifference_ge [of 0 100] by simp
  show "res (deleteOrphanPVC memClient sampleDruid) ?w = Ok ()" "post (deleteOrphanPVC memClient sampleDruid) ?w = lifeWorld [] 100"
    using now del marked ts old
    by (simp_all add: life_round life_claims orphan_step_def checkPVCLabelsAndDelete_def Let_def go_run api_results api_posts)
qed

lemma life_claim: "memClaim sampleDruid (lifeWorld [samplePvc ''p''] 0) ''p'' = Some crLabels"
  "memClaim sampleDruid (lifeWorld [] t) ''p'' = None"
  "memClaim sampleDruid (lifeWorld [pvc] t) n = memClaim sampleDruid (lifeWorld [pvc] t') n"
  by (simp_all add: memClaim_def memView_def managed_def lifeWorld_def kobjKey_def samplePvc_def samplePod_def metaOf_def
      metaDigest_def sampleDruid_def crLabels_def)

lemma life_rounds:
  "orphan_rounds memClient sampleDruid (memTimed sampleDruid) (\<lambda>s. memClaim sampleDruid s ''p'')
     [lifeWorld [samplePvc ''p''] 0, lifeWorld [lifePvc] 100] (lifeWorld [samplePvc ''p''] 0) (lifeWorld [] 100)"
proof -
  have "orphan_rounds memClient sampleDruid (memTimed sampleDruid) (\<lambda>s. memClaim sampleDruid s ''p'')
      ([] @ [lifeWorld [samplePvc ''p''] 0]) (lifeWorld [samplePvc ''p''] 0) (lifeWorld [lifePvc] 100)"
    by (rule orphan_rounds.another [OF orphan_rounds.none])
       (simp_all add: life_good life_first life_claim(3) [of lifePvc 100 _ 0])
  from orphan_rounds.another [OF this, of "lifeWorld [] 100"] show ?thesis
    by (simp add: life_good life_second)
qed

theorem orphan_deleted_after_grace_period_witness:
  "\<exists>obs until t0 t rest. list_all2 (observed memClient sampleDruid wClock ''p'')
      [lifeWorld [samplePvc ''p''] 0, lifeWorld [lifePvc] 100] obs
    \<and> obs = until @ Seen False t # rest \<and> t - t0 \<ge> 60
    \<and> (\<exists>pre mid. until = pre @ Seen False t0 # mid \<and> (\<forall>t'. Seen True t' \<notin> set mid))"
proof -
  have "fmlookup crLabels toBeDeletedLabel = None" by (simp add: crLabels_def toBeDeletedLabel_def)
  with life_claim show ?thesis
    by (intro orphan_deleted_after_grace_period [OF memory_claim_server life_rounds life_good(2)]) simp_all
qed

theorem orphan_round_refines_witness:
  "\<exists>ob. observed memClient sampleDruid wClock ''p'' (lifeWorld [samplePvc ''p''] 0) ob
    \<and> claim_step ob Unmarked (claimState (memClaim sampleDruid (lifeWorld [lifePvc] 0) ''p''))"
proof -
  have st: "claimState (memClaim sampleDruid (lifeWorld [samplePvc ''p''] 0) ''p'') = Unmarked"
    unfolding life_claim(1) by (simp add: claimState_simps crLabels_def toBeDeletedLabel_def)
  have "\<exists>ob. observed memClient sampleDruid wClock ''p'' (lifeWorld [samplePvc ''p''] 0) ob
      \<and> claim_step ob (claimState (memClaim sampleDruid (lifeWorld [samplePvc ''p''] 0) ''p''))
          (claimState (memClaim sampleDruid (post (deleteOrphanPVC memClient sampleDruid) (lifeWorld [samplePvc ''p''] 0)) ''p''))"
    using orphan_round_refines [OF memory_claim_server life_good(2), of 0 "''p''" "samplePvc ''p''"] by (auto simp: st)
  then show ?thesis unfolding life_first(2) st .
qed

end
