(* ===== verification/Druid_Api.thy ===== *)
theory Druid_Api
  imports Memory_Client Util_Funcs
begin

text \<open>
  \<^verbatim>\<open>pkg/druidapi/druidapi.go\<close> and \<^verbatim>\<open>pkg/http/http.go\<close>: the credentials for the Druid API, the URL of
  the router, the paths of the API, and the HTTP client. \<^verbatim>\<open>path.Join\<close> is modelled by the rules of
  \<^verbatim>\<open>path.Clean\<close>; parsing and printing of a URL is a parameter.
\<close>

section \<open>path.Join\<close>

text \<open>
  \<^verbatim>\<open>path.Clean\<close> works on the components: empty ones and dots are dropped, a double dot drops the
  component before it, or stays if there is none and the path is not rooted.
\<close>

definition cleanStep :: "bool \<Rightarrow> string list \<Rightarrow> string \<Rightarrow> string list" where
  "cleanStep rooted out c =
     (if c = [] \<or> c = ''.'' then out
      else if c = ''..'' then
        (if out \<noteq> [] \<and> last out \<noteq> ''..'' then butlast out
         else if rooted then out else out @ [c])
      else out @ [c])"

definition pathClean :: "string \<Rightarrow> string" where
  "pathClean p =
     (if p = [] then ''.''
      else let rooted = (hd p = CHR ''/'');
               body = joinStr ''/'' (foldl (cleanStep rooted) [] (Split p ''/''))
           in if rooted then CHR ''/'' # body else if body = [] then ''.'' else body)"

definition pathJoin :: "string list \<Rightarrow> string" where
  "pathJoin elem =
     (let elem = filter (\<lambda>e. e \<noteq> []) elem in if elem = [] then [] else pathClean (joinStr ''/'' elem))"

section \<open>Operations\<close>

abbreviation DruidRouterPort :: string where "DruidRouterPort \<equiv> ''8088''"
abbreviation OperatorUserName :: string where "OperatorUserName \<equiv> ''OperatorUserName''"
abbreviation OperatorPassword :: string where "OperatorPassword \<equiv> ''OperatorPassword''"
abbreviation MethodGet :: string where "MethodGet \<equiv> ''GET''"
abbreviation MethodPost :: string where "MethodPost \<equiv> ''POST''"

record basic_auth =
  baUserName :: string
  baPassword :: string

definition noAuth :: basic_auth where "noAuth = \<lparr>baUserName = [], baPassword = []\<rparr>"

definition GetAuthCreds :: "'w client \<Rightarrow> druid_auth \<Rightarrow> ('w, basic_auth) io" where
  "GetAuthCreds c auth =
     (let userNameKey = (if authUsernameKey auth \<noteq> [] then authUsernameKey auth else OperatorUserName);
          passwordKey = (if authPasswordKey auth \<noteq> [] then authPasswordKey auth else OperatorPassword);
          ref = authSecretRef auth;
          missing = (\<lambda>what key. GoErr (what @ '' key '' @ libQuote (clLib c) key @ '' not found in secret ''
             @ refNamespace ref @ ''/'' @ refName ref))
      in if auth \<noteq> zeroAuth then
           bindE (sdkGet (clSecrets c) (refName ref) (refNamespace ref)) (\<lambda>secret.
             case fmlookup (secData secret) userNameKey of
               None \<Rightarrow> throw (missing ''username'' userNameKey)
             | Some user \<Rightarrow>
                 (case fmlookup (secData secret) passwordKey of
                    None \<Rightarrow> throw (missing ''password'' passwordKey)
                  | Some pass \<Rightarrow> ret \<lparr>baUserName = user, baPassword = pass\<rparr>))
         else ret noAuth)"

definition MakePath :: "golib \<Rightarrow> string \<Rightarrow> string \<Rightarrow> string \<Rightarrow> string list \<Rightarrow> string" where
  "MakePath lib baseURL componentType apiType additionalPaths =
     (case libParseURL lib baseURL of
        Some err \<Rightarrow> []
      | None \<Rightarrow>
          (let path = pathJoin [''druid'', componentType, ''v1'', apiType];
               path = foldl (\<lambda>path p. pathJoin [path, p]) path additionalPaths
           in libURLString lib baseURL path))"

definition GetRouterSvcUrl :: "string \<Rightarrow> string \<Rightarrow> 'w client \<Rightarrow> ('w, string) io" where
  "GetRouterSvcUrl namespace druidClusterName c =
     bindE (sdkList (clServices c) namespace
             (fmupd ''component'' ''router'' (fmupd ''druid_cr'' druidClusterName fmempty))) (\<lambda>svcList.
       let svcName = (case svcList of [] \<Rightarrow> [] | svc # _ \<Rightarrow> GetName svc)
       in if svcName = [] then throw (GoErr ''router svc discovery fail'')
          else ret (''http://'' @ svcName @ ''.'' @ namespace @ '':'' @ DruidRouterPort))"

text \<open>
  \<^verbatim>\<open>http.NewRequest\<close> fails when the URL does not parse, before anything is sent. The answer of the
  transport covers both sending the request and reading the body.
\<close>

definition reqOf :: "basic_auth \<Rightarrow> string \<Rightarrow> string \<Rightarrow> string \<Rightarrow> http_request" where
  "reqOf auth method url body = \<lparr>rqMethod = method, rqURL = url, rqBody = body,
     rqBasicAuth = (if auth \<noteq> noAuth then Some (baUserName auth, baPassword auth) else None)\<rparr>"

definition httpDo :: "'w client \<Rightarrow> basic_auth \<Rightarrow> string \<Rightarrow> string \<Rightarrow> string \<Rightarrow> ('w, http_response) io" where
  "httpDo c auth method url body =
     (case libParseURL (clLib c) url of
        Some err \<Rightarrow> throw err
      | None \<Rightarrow> ask (HttpCall (reqOf auth method url body)) (clHttp c (reqOf auth method url body)))"

section \<open>Lemmas\<close>

definition plain :: "string \<Rightarrow> bool" where
  "plain c \<longleftrightarrow> c \<noteq> [] \<and> c \<noteq> ''.'' \<and> c \<noteq> ''..'' \<and> CHR ''/'' \<notin> set c"

lemma splitGo_piece: "c \<notin> set x \<Longrightarrow> splitGo [c] acc (x @ c # r) = (rev acc @ x) # splitGo [c] [] r"
  by (induction x arbitrary: acc) auto

lemma splitGo_last: "c \<notin> set x \<Longrightarrow> splitGo [c] acc x = [rev acc @ x]"
  by (induction x arbitrary: acc) auto

lemma Split_joinStr:
  assumes "xs \<noteq> []" "\<forall>x \<in> set xs. c \<notin> set x"
  shows "Split (joinStr [c] xs) [c] = xs"
proof -
  have "splitGo [c] [] (joinStr [c] xs) = xs"
    using assms by (induction "[c]" xs rule: joinStr.induct) (auto simp: splitGo_last splitGo_piece)
  then show ?thesis by (simp add: Split_def)
qed

lemma cleanStep_plain: "list_all plain cs \<Longrightarrow> foldl (cleanStep b) out cs = out @ cs"
  by (induction cs arbitrary: out) (auto simp: cleanStep_def plain_def)

lemma joinStr_append: "xs \<noteq> [] \<Longrightarrow> ys \<noteq> [] \<Longrightarrow> joinStr sep (xs @ ys) = joinStr sep xs @ sep @ joinStr sep ys"
  by (induction sep xs rule: joinStr.induct) (auto simp: joinStr_Cons)

lemma joinStr_plain_hd: "list_all plain cs \<Longrightarrow> cs \<noteq> [] \<Longrightarrow> joinStr sep cs \<noteq> [] \<and> hd (joinStr sep cs) \<noteq> CHR ''/''"
proof (induction sep cs rule: joinStr.induct)
  case (2 sep x)
  then show ?case by (cases x) (auto simp: plain_def)
next
  case (3 sep x y ys)
  then show ?case by (cases x) (auto simp: plain_def)
qed simp

lemma pathClean_plain: "list_all plain cs \<Longrightarrow> cs \<noteq> [] \<Longrightarrow> pathClean (joinStr ''/'' cs) = joinStr ''/'' cs"
  using joinStr_plain_hd [of cs "''/''"] Split_joinStr [of cs "CHR ''/''"] cleanStep_plain [of cs]
  by (auto simp: pathClean_def Let_def list_all_iff plain_def)

text \<open>Joining a joined path with a plain component adds that component.\<close>

lemma pathJoin_plain: "list_all plain cs \<Longrightarrow> cs \<noteq> [] \<Longrightarrow> pathJoin cs = joinStr ''/'' cs"
  by (subgoal_tac "filter (\<lambda>e. e \<noteq> []) cs = cs")
    (auto simp: pathJoin_def pathClean_plain list_all_iff plain_def filter_id_conv)

lemma pathJoin_extend:
  assumes "list_all plain cs" "cs \<noteq> []" "plain c"
  shows "pathJoin [joinStr ''/'' cs, c] = joinStr ''/'' (cs @ [c])"
proof -
  have "joinStr ''/'' [joinStr ''/'' cs, c] = joinStr ''/'' (cs @ [c])" using assms(2) by (simp add: joinStr_append)
  moreover have "joinStr ''/'' cs \<noteq> []" "c \<noteq> []" using assms joinStr_plain_hd [of cs "''/''"] by (auto simp: plain_def)
  ultimately show ?thesis
    using pathClean_plain [of "cs @ [c]"] assms by (simp add: pathJoin_def Let_def)
qed

lemma pathJoin_fold:
  "list_all plain cs \<Longrightarrow> cs \<noteq> [] \<Longrightarrow> list_all plain ps \<Longrightarrow>
   foldl (\<lambda>path p. pathJoin [path, p]) (joinStr ''/'' cs) ps = joinStr ''/'' (cs @ ps)"
  by (induction ps arbitrary: cs) (simp_all add: pathJoin_extend)

lemma reqOf_simps [simp]:
  "rqMethod (reqOf a mt url body) = mt" "rqURL (reqOf a mt url body) = url" "rqBody (reqOf a mt url body) = body"
  "(reqOf a mt url body)\<lparr>rqMethod := mt', rqBody := body'\<rparr> = reqOf a mt' url body'"
  by (simp_all add: reqOf_def)

lemma httpDo_run:
  "effs (httpDo c a mt url body) s = (case libParseURL (clLib c) url of Some err \<Rightarrow> []
     | None \<Rightarrow> [HttpCall (reqOf a mt url body)])"
  "res (httpDo c a mt url body) s = (case libParseURL (clLib c) url of Some err \<Rightarrow> Err err
     | None \<Rightarrow> (case fst (clHttp c (reqOf a mt url body) s) of Inl err \<Rightarrow> Err err | Inr r \<Rightarrow> Ok r))"
  "post (httpDo c a mt url body) s = (case libParseURL (clLib c) url of Some err \<Rightarrow> s
     | None \<Rightarrow> snd (clHttp c (reqOf a mt url body) s))"
  by (simp_all add: httpDo_def go_run split: option.split)

section \<open>Properties\<close>

text \<open>
  Paths of the Druid API: when the base URL parses and every component is a
  plain name (not empty, no slash, no dot or double dot), the path is exactly the components
  joined by slashes, behind \<^verbatim>\<open>druid\<close> and with \<^verbatim>\<open>v1\<close> after the component type.
\<close>

theorem make_path_plain:
  assumes "libParseURL lib base = None" and "plain componentType" and "plain apiType" and "list_all plain ps"
  shows "MakePath lib base componentType apiType ps =
    libURLString lib base (joinStr ''/'' ([''druid'', componentType, ''v1'', apiType] @ ps))"
proof -
  have "plain ''druid''" "plain ''v1''" by (simp_all add: plain_def)
  with assms have p: "list_all plain [''druid'', componentType, ''v1'', apiType]" by simp
  have "pathJoin [''druid'', componentType, ''v1'', apiType] = joinStr ''/'' [''druid'', componentType, ''v1'', apiType]"
    by (rule pathJoin_plain [OF p]) simp
  then show ?thesis
    unfolding MakePath_def assms(1) option.case Let_def by (simp only: pathJoin_fold [OF p _ assms(4)] list.distinct simp_thms)
qed

theorem make_path_witness:
  "MakePath memLib ''http://r.ns:8088'' ''indexer'' ''task'' [''t1'', ''shutdown''] =
     ''http://r.ns:8088/druid/indexer/v1/task/t1/shutdown''"
  using make_path_plain [of memLib "''http://r.ns:8088''" "''indexer''" "''task''" "[''t1'', ''shutdown'']"]
  by (simp add: memLib_def plain_def)

text \<open>
  Credentials: without an authentication section no request is made and no
  credentials are used. Otherwise the named secret is read once, and credentials are returned
  exactly when it has both keys, the given ones or the defaults; they are the values stored there.
\<close>

theorem auth_creds_exact:
  "if auth = zeroAuth then GetAuthCreds c auth = ret noAuth
   else effs (GetAuthCreds c auth) s = [GetCall (apiKind (clSecrets c)) (refName (authSecretRef auth)) (refNamespace (authSecretRef auth))]
      \<and> (res (GetAuthCreds c auth) s = Ok cred) =
         (\<exists>sec. fst (apiGet (clSecrets c) (refName (authSecretRef auth)) (refNamespace (authSecretRef auth)) s) = Inr sec
           \<and> fmlookup (secData sec) (firstNonEmptyStr (authUsernameKey auth) OperatorUserName) = Some (baUserName cred)
           \<and> fmlookup (secData sec) (firstNonEmptyStr (authPasswordKey auth) OperatorPassword) = Some (baPassword cred))"
  by (cases "auth = zeroAuth"; cases cred)
    (auto simp: GetAuthCreds_def Let_def go_run sdk_defs firstNonEmptyStr_def split: sum.splits option.splits)

end
