(* ===== verification/Ingestion.thy ===== *)
theory Ingestion
  imports Druid_Api
begin

text \<open>
  The ingestion controller, \<^verbatim>\<open>controllers/ingestion/reconciler.go\<close> and
  \<^verbatim>\<open>controllers/ingestion/ingestion_controller.go\<close>: it submits the declared task or supervisor to
  Druid, keeps compaction settings and retention rules up to date, and records in the status what
  it did. A status patch reads the custom resource again into the object the whole
  reconciliation works on, so the operations return the custom resource they leave behind.
\<close>

section \<open>Decoding the spec\<close>

text \<open>\<^verbatim>\<open>json.Unmarshal\<close> into a map variable that was nil; \<open>None\<close> is the nil map.\<close>

definition unmarshalObject :: "golib \<Rightarrow> string \<Rightarrow> goerr + json_map option" where
  "unmarshalObject lib s = (case libUnmarshalJson lib s of
      Inl e \<Rightarrow> Inl e
    | Inr (JObj m) \<Rightarrow> Inr (Some m)
    | Inr JNull \<Rightarrow> Inr None
    | Inr v \<Rightarrow> Inl (GoErr (''json: cannot unmarshal '' @ jsonKind v @ '' into Go value of type map[string]interface {}'')))"

fun mapJson :: "json_map option \<Rightarrow> json" where
  "mapJson None = JNull"
| "mapJson (Some m) = JObj m"

abbreviation ingestionOf :: "druid_ingestion \<Rightarrow> ingestion_spec" where
  "ingestionOf di \<equiv> diIngestion (diSpec di)"

definition getSpec :: "golib \<Rightarrow> druid_ingestion \<Rightarrow> goerr + json_map option" where
  "getSpec lib di =
     (case inNativeSpec (ingestionOf di) of
        Some raw \<Rightarrow>
          (case unmarshalObject lib raw of
             Inl err \<Rightarrow> Inl (GoErr (''error unmarshalling nativeSpec: '' @ errString err))
           | Inr nativeSpecMap \<Rightarrow> Inr nativeSpecMap)
      | None \<Rightarrow>
          if inSpec (ingestionOf di) \<noteq> [] then
            (case unmarshalObject lib (inSpec (ingestionOf di)) of
               Inl err \<Rightarrow> Inl (GoErr (''error unmarshalling Spec: '' @ errString err))
             | Inr spec \<Rightarrow> Inr spec)
          else Inl (GoErr ''no valid ingestion spec provided''))"

definition getSpecJson :: "golib \<Rightarrow> druid_ingestion \<Rightarrow> goerr + string" where
  "getSpecJson lib di =
     (case getSpec lib di of Inl err \<Rightarrow> Inl err | Inr specData \<Rightarrow> ToJsonString (libMarshalJson lib) (mapJson specData))"

text \<open>The length of a slice; nil has length 0.\<close>

definition rulesOf :: "druid_ingestion \<Rightarrow> raw_extension list" where
  "rulesOf di = (case inRules (ingestionOf di) of None \<Rightarrow> [] | Some l \<Rightarrow> l)"

fun getRules_loop :: "golib \<Rightarrow> json_map option list \<Rightarrow> raw_extension list \<Rightarrow> goerr + json_map option list" where
  "getRules_loop lib rules [] = Inr rules"
| "getRules_loop lib rules (rule # rest) =
     (case unmarshalObject lib (case rule of None \<Rightarrow> [] | Some raw \<Rightarrow> raw) of
        Inl err \<Rightarrow> Inl (GoErr (''error unmarshalling rule: '' @ errString err))
      | Inr ruleMap \<Rightarrow> getRules_loop lib (rules @ [ruleMap]) rest)"

text \<open>\<open>None\<close> is the nil slice.\<close>

definition getRules :: "golib \<Rightarrow> druid_ingestion \<Rightarrow> goerr + json_map option list option" where
  "getRules lib di =
     (if rulesOf di = [] then Inr None
      else case getRules_loop lib [] (rulesOf di) of Inl err \<Rightarrow> Inl err | Inr rules \<Rightarrow> Inr (Some rules))"

definition getRulesJson :: "golib \<Rightarrow> druid_ingestion \<Rightarrow> goerr + string" where
  "getRulesJson lib di =
     (case getRules lib di of
        Inl err \<Rightarrow> Inl err
      | Inr rules \<Rightarrow> ToJsonString (libMarshalJson lib)
          (case rules of None \<Rightarrow> JNull | Some l \<Rightarrow> JArr (map mapJson l)))"

definition getDataSource :: "golib \<Rightarrow> druid_ingestion \<Rightarrow> goerr + string" where
  "getDataSource lib di =
     (let notFound = Inl (GoErr ''dataSource not found in spec'')
      in case getSpec lib di of
           Inl err \<Rightarrow> Inl err
         | Inr None \<Rightarrow> notFound
         | Inr (Some spec) \<Rightarrow>
             (case fmlookup spec ''spec'' of
                Some (JObj specSection) \<Rightarrow>
                  (case fmlookup specSection ''dataSchema'' of
                     Some (JObj dataSchema) \<Rightarrow>
                       (case fmlookup dataSchema ''dataSource'' of
                          Some (JStr dataSource) \<Rightarrow> Inr dataSource
                        | _ \<Rightarrow> notFound)
                   | _ \<Rightarrow> notFound)
              | _ \<Rightarrow> notFound))"

text \<open>A JSON null makes the map nil, and writing to it panics.\<close>

definition getCompaction :: "golib \<Rightarrow> druid_ingestion \<Rightarrow> json_map outcome" where
  "getCompaction lib di =
     (let raw = (case inCompaction (ingestionOf di) of None \<Rightarrow> [] | Some raw \<Rightarrow> raw)
      in if raw = [] then Ok fmempty
         else case unmarshalObject lib raw of
                Inl err \<Rightarrow> Err (GoErr (''error unmarshalling compaction: '' @ errString err))
              | Inr compactionMap \<Rightarrow>
                  (case getDataSource lib di of
                     Inl err \<Rightarrow> Err (GoErr (''error getting dataSource: '' @ errString err))
                   | Inr dataSource \<Rightarrow>
                       (case compactionMap of
                          None \<Rightarrow> Panic ''assignment to entry in nil map''
                        | Some m \<Rightarrow> Ok (fmupd ''dataSource'' (JStr dataSource) m))))"

definition getCompactionJson :: "golib \<Rightarrow> druid_ingestion \<Rightarrow> string outcome" where
  "getCompactionJson lib di =
     (case getCompaction lib di of
        Ok compaction \<Rightarrow>
          (case ToJsonString (libMarshalJson lib) (JObj compaction) of Inl err \<Rightarrow> Err err | Inr t \<Rightarrow> Ok t)
      | Err err \<Rightarrow> Err err
      | Panic p \<Rightarrow> Panic p)"

definition getTaskIdFromResponse :: "golib \<Rightarrow> string \<Rightarrow> goerr + string" where
  "getTaskIdFromResponse lib resp =
     (case libUnmarshalTask lib resp of
        Inl err \<Rightarrow> Inl err
      | Inr (task, tid) \<Rightarrow>
          if task \<noteq> [] then Inr task
          else if tid \<noteq> [] then Inr tid
          else Inl (GoErr ''task id not found''))"

section \<open>Requests to Druid\<close>

definition getPath :: "golib \<Rightarrow> druid_ingestion_method \<Rightarrow> string \<Rightarrow> string \<Rightarrow> string \<Rightarrow> bool \<Rightarrow> string" where
  "getPath lib ingestionType svcName httpMethod taskId shutDownTask =
     (let pathFor = (\<lambda>what.
            if httpMethod = MethodGet then MakePath lib svcName ''indexer'' what [taskId]
            else if httpMethod = MethodPost \<and> \<not> shutDownTask then MakePath lib svcName ''indexer'' what []
            else if shutDownTask then MakePath lib svcName ''indexer'' what [taskId, ''shutdown'']
            else [])
      in case ingestionType of
           NativeBatchIndexParallel \<Rightarrow> pathFor ''task''
         | HadoopIndexHadoop \<Rightarrow> []
         | Kafka \<Rightarrow> pathFor ''supervisor''
         | Kinesis \<Rightarrow> []
         | QueryControllerSQL \<Rightarrow> []
         | OtherMethod t \<Rightarrow> [])"

definition UpdateCompaction :: "'w client \<Rightarrow> druid_ingestion \<Rightarrow> string \<Rightarrow> basic_auth \<Rightarrow> ('w, bool) io" where
  "UpdateCompaction c di svcName auth =
     (let lib = clLib c in
      if inCompaction (ingestionOf di) = None then ret False
      else
        bindE (liftE (getDataSource lib di)) (\<lambda>dataSource.
        bindE (httpDo c auth MethodGet (MakePath lib svcName ''coordinator'' ''config'' [''compaction'', dataSource]) [])
          (\<lambda>currentResp.
        bindE (if rsStatusCode currentResp = 200 then ret (rsBody currentResp)
               else if rsStatusCode currentResp = 404 then ret ''{}''
               else throw (GoErr (''failed to retrieve current compaction settings, status code: ''
                      @ formatInt (rsStatusCode currentResp)))) (\<lambda>currentCompactionJson.
        bindE (liftO (getCompactionJson lib di)) (\<lambda>desiredCompactionJson.
        bindE (liftE (IncludesJson (libUnmarshalJson lib) currentCompactionJson desiredCompactionJson)) (\<lambda>areEqual.
          if areEqual then ret False
          else
            bindE (httpDo c auth MethodPost (MakePath lib svcName ''coordinator'' ''config'' [''compaction''])
                     desiredCompactionJson) (\<lambda>respUpdateCompaction.
              if rsStatusCode respUpdateCompaction = 200 then ret True
              else throw (GoErr (''failed to update compaction, status code: ''
                     @ formatInt (rsStatusCode respUpdateCompaction) @ '', response body: ''
                     @ rsBody respUpdateCompaction)))))))))"

definition UpdateRules :: "'w client \<Rightarrow> druid_ingestion \<Rightarrow> string \<Rightarrow> basic_auth \<Rightarrow> ('w, bool) io" where
  "UpdateRules c di svcName auth =
     (let lib = clLib c in
      if rulesOf di = [] then ret True
      else
        bindE (liftE (getRulesJson lib di)) (\<lambda>rulesData.
        bindE (liftE (getDataSource lib di)) (\<lambda>dataSource.
        bindE (httpDo c auth MethodPost (MakePath lib svcName ''coordinator'' ''rules'' [dataSource]) rulesData)
          (\<lambda>respUpdateRules.
            if rsStatusCode respUpdateRules = 200 then ret True
            else throw (GoErr (''failed to update rules, status code: ''
                   @ formatInt (rsStatusCode respUpdateRules) @ '', response body: '' @ rsBody respUpdateRules))))))"

section \<open>Status\<close>

abbreviation CreateSuccess :: string where "CreateSuccess \<equiv> ''DruidIngestionControllerCreateSuccess''"
abbreviation CreateFail :: string where "CreateFail \<equiv> ''DruidIngestionControllerCreateFail''"
abbreviation UpdateSuccess :: string where "UpdateSuccess \<equiv> ''DruidIngestionControllerUpdateSuccess''"
abbreviation PatchStatusSuccess :: string where "PatchStatusSuccess \<equiv> ''DruidIngestionControllerPatchStatusSuccess''"
abbreviation ShutDownSuccess :: string where "ShutDownSuccess \<equiv> ''DruidIngestionControllerShutDownSuccess''"
abbreviation ShutDownFail :: string where "ShutDownFail \<equiv> ''DruidIngestionControllerShutDownFail''"
definition DruidIngestionControllerFinalizer :: string where
  "DruidIngestionControllerFinalizer = ''druidingestion.datainfra.io/finalizer''"

datatype operation_result =
  OperationResultNone | OperationResultCreated | OperationResultUpdated | OperationResultUpdatedStatusOnly

text \<open>
  \<open>transform\<close> is given the time, which the source reads inside it. The object that is passed in
  is overwritten by the \<^verbatim>\<open>Get\<close>; the patch works on a copy of it.
\<close>

definition patchStatus ::
  "'w client \<Rightarrow> druid_ingestion \<Rightarrow> (druid_ingestion \<Rightarrow> int \<Rightarrow> druid_ingestion) \<Rightarrow> ('w, druid_ingestion) io" where
  "patchStatus c obj transform =
     bindE (sdkGet (clDruidIngestions c) (GetName obj) (GetNamespace obj)) (\<lambda>obj.
     bindE (timeNow c) (\<lambda>now.
     bindE (sdkStatusPatch (clDruidIngestions c) (MergeFrom (apiWrap (clDruidIngestions c) obj)) (transform obj now))
       (\<lambda>_. ret obj)))"

definition recordedStatus ::
  "string \<Rightarrow> string \<Rightarrow> string \<Rightarrow> string \<Rightarrow> string \<Rightarrow> string \<Rightarrow> druid_ingestion \<Rightarrow> int \<Rightarrow> druid_ingestion" where
  "recordedStatus spec taskId msg reason status type di now =
     di\<lparr>diStatus := (diStatus di)\<lparr>istCurrentIngestionSpec := spec, istCurrentRules := inRules (ingestionOf di),
       istTaskId := taskId, istLastUpdateTime := now, istMessage := msg, istReason := reason,
       istStatus := status, istType := type\<rparr>\<rparr>"

definition makePatchDruidIngestionStatus ::
  "'w client \<Rightarrow> druid_ingestion \<Rightarrow> string \<Rightarrow> string \<Rightarrow> string \<Rightarrow> string \<Rightarrow> string
   \<Rightarrow> ('w, operation_result \<times> druid_ingestion) io" where
  "makePatchDruidIngestionStatus c di taskId msg reason status diConditionType =
     bindE (liftE (getSpecJson (clLib c) di)) (\<lambda>ingestionSpec.
     bindE (patchStatus c di (recordedStatus ingestionSpec taskId msg reason status diConditionType))
       (\<lambda>di'. ret (OperationResultUpdatedStatusOnly, di')))"

section \<open>Reconciliation\<close>

text \<open>The branch for a custom resource without a recorded task.\<close>

definition createTask ::
  "'w client \<Rightarrow> druid_ingestion \<Rightarrow> string \<Rightarrow> basic_auth \<Rightarrow> string \<Rightarrow> ('w, operation_result \<times> druid_ingestion) io" where
  "createTask c di svcName auth specJson =
     (let lib = clLib c in
      bindE (httpDo c auth MethodPost (getPath lib (inType (ingestionOf di)) svcName MethodPost [] False) specJson)
        (\<lambda>respCreateTask.
      bindE (UpdateCompaction c di svcName auth) (\<lambda>compactionOk.
      bindE (UpdateRules c di svcName auth) (\<lambda>rulesOk.
      let body = rsBody respCreateTask in
      if rsStatusCode respCreateTask = 200 \<and> compactionOk \<and> rulesOk then
        bindE (liftE (getTaskIdFromResponse lib body)) (\<lambda>taskId.
        bindE (makePatchDruidIngestionStatus c di taskId CreateSuccess body ''True'' CreateSuccess) (\<lambda>(result, di).
        bindE (Event EventTypeNormal (''Resp ['' @ body @ '']'') CreateSuccess) (\<lambda>_.
        bindE (Event EventTypeNormal (''Resp ['' @ body @ ''], Result [updatedStatusOnly]'') PatchStatusSuccess) (\<lambda>_.
          ret (OperationResultCreated, di)))))
      else
        bindE (liftE (getTaskIdFromResponse lib body)) (\<lambda>taskId.
        bindE (makePatchDruidIngestionStatus c di taskId CreateFail body ''True'' CreateFail) (\<lambda>(_, di).
        bindE (Event EventTypeWarning (''Resp ['' @ body @ ''], Status'') CreateFail) (\<lambda>_.
          ret (OperationResultCreated, di))))))))"

text \<open>Submitting a changed spec; a status other than 200 is passed over.\<close>

definition submitSpec ::
  "'w client \<Rightarrow> druid_ingestion \<Rightarrow> string \<Rightarrow> basic_auth \<Rightarrow> string \<Rightarrow> ('w, druid_ingestion) io" where
  "submitSpec c di svcName auth specJson =
     (let lib = clLib c in
      bindE (httpDo c auth MethodPost (getPath lib (inType (ingestionOf di)) svcName MethodPost [] False) specJson)
        (\<lambda>respUpdateSpec.
          let body = rsBody respUpdateSpec in
          if rsStatusCode respUpdateSpec = 200 then
            bindE (liftE (getTaskIdFromResponse lib body)) (\<lambda>taskId.
            bindE (makePatchDruidIngestionStatus c di taskId UpdateSuccess body ''True'' UpdateSuccess) (\<lambda>(result, di).
            bindE (Event EventTypeNormal (''Resp ['' @ body @ '']'') UpdateSuccess) (\<lambda>_.
            bindE (Event EventTypeNormal (''Resp ['' @ body @ ''], Result [updatedStatusOnly]'') PatchStatusSuccess) (\<lambda>_.
              ret di))))
          else ret di))"

text \<open>Recording that compaction settings or rules were updated.\<close>

definition recordUpdate :: "'w client \<Rightarrow> druid_ingestion \<Rightarrow> string \<Rightarrow> ('w, druid_ingestion) io" where
  "recordUpdate c di reason =
     bindE (makePatchDruidIngestionStatus c di (istTaskId (diStatus di)) UpdateSuccess reason ''True'' UpdateSuccess)
       (\<lambda>(_, di).
     bindE (Event EventTypeNormal reason UpdateSuccess) (\<lambda>_. ret di))"

definition updateTask ::
  "'w client \<Rightarrow> druid_ingestion \<Rightarrow> string \<Rightarrow> basic_auth \<Rightarrow> string \<Rightarrow> ('w, operation_result \<times> druid_ingestion) io" where
  "updateTask c di svcName auth specJson =
     (let lib = clLib c in
      bindE (liftE (getSpecJson lib di)) (\<lambda>currentIngestionSpec.
      bindE (liftE (IsEqualJson (libUnmarshalJson lib) (istCurrentIngestionSpec (diStatus di)) currentIngestionSpec)) (\<lambda>ok.
      bindE (if \<not> ok then submitSpec c di svcName auth specJson else ret di) (\<lambda>di.
      bindE (UpdateCompaction c di svcName auth) (\<lambda>compactionOk.
      bindE (if compactionOk then recordUpdate c di ''compaction updated'' else ret di) (\<lambda>di.
      bindE (if istCurrentRules (diStatus di) \<noteq> inRules (ingestionOf di) then
               bindE (UpdateRules c di svcName auth) (\<lambda>rulesOk.
                 if rulesOk then recordUpdate c di ''rules updated'' else ret di)
             else ret di) (\<lambda>di.
        ret (OperationResultUpdated, di))))))))"

definition CreateOrUpdate ::
  "'w client \<Rightarrow> druid_ingestion \<Rightarrow> string \<Rightarrow> basic_auth \<Rightarrow> ('w, operation_result \<times> druid_ingestion) io" where
  "CreateOrUpdate c di svcName auth =
     bindE (liftE (getSpecJson (clLib c) di)) (\<lambda>specJson.
       if istTaskId (diStatus di) = [] \<and> istCurrentIngestionSpec (diStatus di) = []
       then createTask c di svcName auth specJson
       else updateTask c di svcName auth specJson)"

text \<open>\<^verbatim>\<open>controllerutil\<close>: adding appends unless present, removing drops every occurrence.\<close>

definition ContainsFinalizer :: "druid_ingestion \<Rightarrow> string \<Rightarrow> bool" where
  "ContainsFinalizer di f = (f \<in> set (metaFinalizers (objMeta di)))"

definition AddFinalizer :: "string \<Rightarrow> druid_ingestion \<Rightarrow> druid_ingestion" where
  "AddFinalizer f di = (if ContainsFinalizer di f then di else SetFinalizers (metaFinalizers (objMeta di) @ [f]) di)"

definition RemoveFinalizer :: "string \<Rightarrow> druid_ingestion \<Rightarrow> druid_ingestion" where
  "RemoveFinalizer f di = SetFinalizers (filter (\<lambda>g. g \<noteq> f) (metaFinalizers (objMeta di))) di"

text \<open>A failed update of the finalizers is not reported.\<close>

definition updateFinalizersOf :: "'w client \<Rightarrow> druid_ingestion \<Rightarrow> ('w, unit) io" where
  "updateFinalizersOf c di = handleE (sdkUpdate (clDruidIngestions c) di) (\<lambda>_. ret ()) (\<lambda>_. ret ())"

definition routerOf :: "'w client \<Rightarrow> druid_ingestion \<Rightarrow> ('w, string) io" where
  "routerOf c di = GetRouterSvcUrl (GetNamespace di) (diDruidClusterName (diSpec di)) c"

text \<open>The second half of \<^verbatim>\<open>do\<close>: register the finalizer, or stop the task and give the finalizer up.\<close>

definition syncFinalizer :: "'w client \<Rightarrow> basic_auth \<Rightarrow> druid_ingestion \<Rightarrow> ('w, unit) io" where
  "syncFinalizer c basicAuth di =
     (if metaDeletionTimestamp (objMeta di) = None then
        (if \<not> ContainsFinalizer di DruidIngestionControllerFinalizer
         then updateFinalizersOf c (AddFinalizer DruidIngestionControllerFinalizer di)
         else ret ())
      else if ContainsFinalizer di DruidIngestionControllerFinalizer then
        bindE (routerOf c di) (\<lambda>svcName.
        bindE (httpDo c basicAuth MethodPost
                 (getPath (clLib c) (inType (ingestionOf di)) svcName MethodPost (istTaskId (diStatus di)) True) [])
          (\<lambda>respShutDownTask.
        let text = ''Resp ['' @ rsBody respShutDownTask @ ''], StatusCode [''
              @ formatInt (rsStatusCode respShutDownTask) @ '']''
        in bindE (if rsStatusCode respShutDownTask \<noteq> 200 then Event EventTypeWarning text ShutDownFail
                  else Event EventTypeNormal text ShutDownSuccess) (\<lambda>_.
             updateFinalizersOf c (RemoveFinalizer DruidIngestionControllerFinalizer di))))
      else ret ())"

definition ingestion_do :: "'w client \<Rightarrow> druid_ingestion \<Rightarrow> ('w, unit) io" where
  "ingestion_do c di =
     bindE (GetAuthCreds c (diAuth (diSpec di))) (\<lambda>basicAuth.
     bindE (routerOf c di) (\<lambda>svcName.
     bindE (CreateOrUpdate c di svcName basicAuth) (\<lambda>(_, di).
       syncFinalizer c basicAuth di)))"

definition ingestion_LookupReconcileTime :: "golib \<Rightarrow> (string \<Rightarrow> string option) \<Rightarrow> int option" where
  "ingestion_LookupReconcileTime lib env =
     (case env ''RECONCILE_WAIT'' of
        None \<Rightarrow> Some (10 ^ 9 * 10)
      | Some val \<Rightarrow> (case libParseDuration lib val of Inl err \<Rightarrow> None | Inr v \<Rightarrow> Some v))"

text \<open>The result is the time after which the request is repeated, 0 for never.\<close>

definition ingestion_Reconcile ::
  "'w client \<Rightarrow> (string \<Rightarrow> string option) \<Rightarrow> string \<Rightarrow> string \<Rightarrow> ('w, int) io" where
  "ingestion_Reconcile c env name ns =
     handleE (sdkGet (clDruidIngestions c) name ns)
       (\<lambda>err. if isNotFound err then ret 0 else throw err)
       (\<lambda>druidIngestionCR.
          bindE (ingestion_do c druidIngestionCR) (\<lambda>_.
            case ingestion_LookupReconcileTime (clLib c) env of
              None \<Rightarrow> panic ''os.Exit(1)''
            | Some t \<Rightarrow> ret t))"


section \<open>Lemmas\<close>

text \<open>\<open>patches P\<close>: if the effect is a status patch of an ingestion, its new object satisfies \<open>P\<close>.\<close>

fun patches :: "(druid_ingestion \<Rightarrow> bool) \<Rightarrow> effect \<Rightarrow> bool" where
  "patches P (StatusPatchCall (KDruidIngestion x) p) = P x"
| "patches P (UpdateCall k) = False"
| "patches P _ = True"

lemma only_requests [only_intro]:
  "only (patches P) (httpDo c a mt url body)" "only (patches P) (Event t r msg)"
  "only (patches P) (sdkGet api n ns)"
  by (auto simp: only_def httpDo_run Event_def sdk_defs go_run split: option.split)

lemma only_druid [only_intro]:
  "only (patches P) (UpdateCompaction c di svc a)" "only (patches P) (UpdateRules c di svc a)"
  unfolding UpdateCompaction_def UpdateRules_def Let_def by (intro only_intro)+

lemma only_makePatch:
  assumes "apiWrap (clDruidIngestions c) = KDruidIngestion"
    and "\<And>spec now di'. P (recordedStatus spec t msg reason st ty di' now)"
  shows "only (patches P) (makePatchDruidIngestionStatus c di t msg reason st ty)"
  unfolding makePatchDruidIngestionStatus_def patchStatus_def
  by (intro only_intro) (auto simp: only_def sdk_defs go_run assms)

lemma recorded_fields:
  "istCurrentRules (diStatus (recordedStatus spec t msg reason st ty di now)) = inRules (ingestionOf (recordedStatus spec t msg reason st ty di now))"
  "istTaskId (diStatus (recordedStatus spec t msg reason st ty di now)) = t"
  "istMessage (diStatus (recordedStatus spec t msg reason st ty di now)) = msg"
  "istType (diStatus (recordedStatus spec t msg reason st ty di now)) = ty"
  by (simp_all add: recordedStatus_def)

lemma only_rules_recorded:
  assumes "apiWrap (clDruidIngestions c) = KDruidIngestion"
  shows "only (patches (\<lambda>x. istCurrentRules (diStatus x) = inRules (ingestionOf x))) (CreateOrUpdate c di svc a)"
  unfolding CreateOrUpdate_def createTask_def updateTask_def submitSpec_def recordUpdate_def Let_def
  by (intro only_intro only_makePatch assms recorded_fields)

lemma patchesD: "only (patches P) m \<Longrightarrow> StatusPatchCall (KDruidIngestion x) p \<in> set (effs m s) \<Longrightarrow> P x"
  by (auto dest: onlyD)

lemma in_bindE:
  "e \<in> set (effs (bindE m f) s) \<longleftrightarrow> e \<in> set (effs m s) \<or> (\<exists>x. res m s = Ok x \<and> e \<in> set (effs (f x) (post m s)))"
  by (auto simp: go_run split: outcome.splits)

lemma only_lookups: "only (patches P) (GetAuthCreds c auth)" "only (patches P) (routerOf c di)"
  unfolding GetAuthCreds_def routerOf_def GetRouterSvcUrl_def Let_def
  by (intro only_intro; simp add: only_def sdk_defs go_run)+

lemma only_no_update: "only (patches P) m \<Longrightarrow> UpdateCall k \<notin> set (effs m s)"
  by (auto dest: onlyD)

lemma add_keeps: "DruidIngestionControllerFinalizer \<in> set (metaFinalizers (objMeta (AddFinalizer DruidIngestionControllerFinalizer di)))"
  by (auto simp: AddFinalizer_def ContainsFinalizer_def SetFinalizers_def)

lemma update_effs: "effs (updateFinalizersOf c di) s = [UpdateCall (apiWrap (clDruidIngestions c) di)]"
  by (simp add: updateFinalizersOf_def go_run sdk_defs split: outcome.split)

text \<open>
  The steps of a reconciliation before the finalizer is looked at, and the request that stops the
  task.
\<close>

definition beforeFinalizer :: "'w client \<Rightarrow> druid_ingestion \<Rightarrow> ('w, basic_auth \<times> druid_ingestion) io" where
  "beforeFinalizer c di =
     bindE (GetAuthCreds c (diAuth (diSpec di))) (\<lambda>basicAuth.
     bindE (routerOf c di) (\<lambda>svcName.
     bindE (CreateOrUpdate c di svcName basicAuth) (\<lambda>(_, di'). ret (basicAuth, di'))))"

definition shutdownRequest :: "'w client \<Rightarrow> basic_auth \<Rightarrow> string \<Rightarrow> druid_ingestion \<Rightarrow> http_request" where
  "shutdownRequest c basicAuth svcName di =
     reqOf basicAuth MethodPost
       (getPath (clLib c) (inType (ingestionOf di)) svcName MethodPost (istTaskId (diStatus di)) True) []"

lemma ingestion_do_alt: "ingestion_do c di = bindE (beforeFinalizer c di) (\<lambda>(a, di'). syncFinalizer c a di')"
  by (simp add: ingestion_do_def beforeFinalizer_def bindE_assoc case_prod_unfold)

lemma syncFinalizer_release:
  assumes "apiWrap (clDruidIngestions c) = KDruidIngestion"
    and "UpdateCall (KDruidIngestion x) \<in> set (effs (syncFinalizer c a di) s)"
    and "DruidIngestionControllerFinalizer \<notin> set (metaFinalizers (objMeta x))"
  shows "\<exists>svc r t. x = RemoveFinalizer DruidIngestionControllerFinalizer di \<and> res (routerOf c di) s = Ok svc
    \<and> fst (clHttp c (shutdownRequest c a svc di) (post (routerOf c di) s)) = Inr r
    \<and> effs (syncFinalizer c a di) s = effs (routerOf c di) s @ [HttpCall (shutdownRequest c a svc di),
        if rsStatusCode r = 200 then EventEff EventTypeNormal t ShutDownSuccess else EventEff EventTypeWarning t ShutDownFail,
        UpdateCall (KDruidIngestion x)]"
proof -
  have "\<not> metaDeletionTimestamp (objMeta di) = None" "ContainsFinalizer di DruidIngestionControllerFinalizer"
    using assms add_keeps [of di] by (auto simp: syncFinalizer_def update_effs go_run split: if_splits)
  moreover have "UpdateCall (KDruidIngestion x) \<notin> set (effs (routerOf c di) s)"
    using only_no_update [OF only_lookups(2)] .
  ultimately show ?thesis
    using assms(1,2)
    by (auto simp: syncFinalizer_def shutdownRequest_def go_run httpDo_run update_effs Event_def Let_def
        split: outcome.splits option.splits sum.splits if_splits)
qed

lemma createOrUpdate_settled:
  assumes "istTaskId (diStatus di) \<noteq> [] \<or> istCurrentIngestionSpec (diStatus di) \<noteq> []"
    and "getSpecJson (clLib c) di = Inr spec"
    and "IsEqualJson (libUnmarshalJson (clLib c)) (istCurrentIngestionSpec (diStatus di)) spec = Inr True"
    and "inCompaction (ingestionOf di) = None" and "istCurrentRules (diStatus di) = inRules (ingestionOf di)"
  shows "CreateOrUpdate c di svc a = ret (OperationResultUpdated, di)"
  using assms by (auto simp: CreateOrUpdate_def updateTask_def liftE_def UpdateCompaction_def Let_def)

section \<open>Properties\<close>

text \<open>
  A settled ingestion is left alone: if a task is recorded, the recorded spec is
  equal to the declared one as JSON, no compaction is declared and the recorded rules are the
  declared ones, then the reconciliation of the task issues no request at all and changes nothing.
\<close>

theorem ingestion_settles:
  assumes "istTaskId (diStatus di) \<noteq> [] \<or> istCurrentIngestionSpec (diStatus di) \<noteq> []"
    and "getSpecJson (clLib c) di = Inr spec"
    and "IsEqualJson (libUnmarshalJson (clLib c)) (istCurrentIngestionSpec (diStatus di)) spec = Inr True"
    and "inCompaction (ingestionOf di) = None" and "istCurrentRules (diStatus di) = inRules (ingestionOf di)"
  shows "CreateOrUpdate c di svc a = ret (OperationResultUpdated, di)"
  using assms by (rule createOrUpdate_settled)

text \<open>
  Every status the controller writes records the declared rules as the current ones,
  also a status written because the spec or the compaction changed, before or without the rules
  being sent to Druid. A later comparison of recorded and declared rules then finds no difference.
\<close>

theorem every_patch_records_rules:
  assumes "apiWrap (clDruidIngestions c) = KDruidIngestion"
    and "StatusPatchCall (KDruidIngestion x) p \<in> set (effs (CreateOrUpdate c di svc a) s)"
  shows "istCurrentRules (diStatus x) = inRules (ingestionOf x)"
  using patchesD [OF only_rules_recorded [OF assms(1)] assms(2)] .

text \<open>
  When a changed spec was submitted, the status patch that follows for compaction or
  rules writes the task id the status had before the submission, not the id Druid has just answered:
  the object at hand is the one read before the first patch.
\<close>

theorem later_patch_restores_old_task_id:
  assumes wrap: "apiWrap (clDruidIngestions c) = KDruidIngestion"
    and "res (submitSpec c di svc a spec) s = Ok di1"
    and "StatusPatchCall (KDruidIngestion x) p \<in> set (effs (submitSpec c di svc a spec) s)"
    and "StatusPatchCall (KDruidIngestion x') p' \<in> set (effs (recordUpdate c di1 reason) s')"
  shows "p = MergeFrom (KDruidIngestion di1) \<and> (\<exists>body. getTaskIdFromResponse (clLib c) body = Inr (istTaskId (diStatus x)))
    \<and> istTaskId (diStatus x') = istTaskId (diStatus di1)"
proof -
  have "only (patches (\<lambda>x'. istTaskId (diStatus x') = istTaskId (diStatus di1))) (recordUpdate c di1 reason)"
    unfolding recordUpdate_def by (intro only_intro only_makePatch wrap) (simp add: recorded_fields)
  from patchesD [OF this assms(4)] have "istTaskId (diStatus x') = istTaskId (diStatus di1)" .
  moreover have "p = MergeFrom (KDruidIngestion di1) \<and> (\<exists>body. getTaskIdFromResponse (clLib c) body = Inr (istTaskId (diStatus x)))"
    using assms(2,3)
    by (auto simp: submitSpec_def Let_def in_bindE httpDo_run go_run Event_def makePatchDruidIngestionStatus_def patchStatus_def
        sdk_defs wrap recorded_fields split: outcome.splits if_splits sum.splits option.splits)
  ultimately show ?thesis by blast
qed

text \<open>
  Without compaction settings a new task is always recorded as failed, whatever Druid
  answered: \<^verbatim>\<open>UpdateCompaction\<close> then returns false, which the caller takes for a failure.
\<close>

theorem create_without_compaction_recorded_as_failure:
  assumes "apiWrap (clDruidIngestions c) = KDruidIngestion" and "inCompaction (ingestionOf di) = None"
    and "StatusPatchCall (KDruidIngestion x) p \<in> set (effs (createTask c di svc a spec) s)"
  shows "istMessage (diStatus x) = CreateFail \<and> istType (diStatus x) = CreateFail"
proof -
  have "UpdateCompaction c di svc a = ret False" using assms(2) by (simp add: UpdateCompaction_def)
  then have "only (patches (\<lambda>x. istMessage (diStatus x) = CreateFail \<and> istType (diStatus x) = CreateFail)) (createTask c di svc a spec)"
    unfolding createTask_def Let_def
    by (auto intro!: only_intro only_makePatch assms(1) simp: recorded_fields)
  from patchesD [OF this assms(3)] show ?thesis .
qed

text \<open>
  C24 (safety). The finalizer is given up only after Druid answered the request to stop the task.
  If a reconciliation updates the custom resource to one without the operator's finalizer, then
  the steps before it and the lookup of the router returned without error, the request that
  follows is the post to the shutdown path of the recorded task, it was answered without error
  in the state those steps left (with whatever status code), and behind it come exactly one event
  about that status code and, as the last effect, the update. The resource in the update is the
  one those steps returned with the finalizer taken away.
\<close>

theorem finalizer_released_after_shutdown:
  assumes "apiWrap (clDruidIngestions c) = KDruidIngestion"
    and "UpdateCall (KDruidIngestion x) \<in> set (effs (ingestion_do c di) s)"
    and "DruidIngestionControllerFinalizer \<notin> set (metaFinalizers (objMeta x))"
    and "w = post (beforeFinalizer c di) s"
  shows "\<exists>a di' svc r t. res (beforeFinalizer c di) s = Ok (a, di') \<and> res (routerOf c di') w = Ok svc
    \<and> x = RemoveFinalizer DruidIngestionControllerFinalizer di'
    \<and> fst (clHttp c (shutdownRequest c a svc di') (post (routerOf c di') w)) = Inr r
    \<and> effs (ingestion_do c di) s = effs (beforeFinalizer c di) s @ effs (routerOf c di') w
        @ [HttpCall (shutdownRequest c a svc di'),
           if rsStatusCode r = 200 then EventEff EventTypeNormal t ShutDownSuccess else EventEff EventTypeWarning t ShutDownFail,
           UpdateCall (KDruidIngestion x)]"
proof -
  have "only (patches (\<lambda>x. istCurrentRules (diStatus x) = inRules (ingestionOf x))) (beforeFinalizer c di)"
    unfolding beforeFinalizer_def
    by (intro only_bindE only_lookups only_rules_recorded [OF assms(1)]) (auto intro: only_intro split: prod.split)
  then have "UpdateCall (KDruidIngestion x) \<notin> set (effs (beforeFinalizer c di) s)" by (rule only_no_update)
  then obtain p where p: "res (beforeFinalizer c di) s = Ok p"
      "UpdateCall (KDruidIngestion x) \<in> set (effs (syncFinalizer c (fst p) (snd p)) w)"
    using assms(2,4) unfolding ingestion_do_alt in_bindE case_prod_unfold by blast
  from syncFinalizer_release [OF assms(1) this(2) assms(3)] show ?thesis
    using p(1) assms(4)
    by (cases p) (fastforce simp: ingestion_do_alt go_run)
qed

section \<open>Witnesses\<close>

text \<open>
  A spec text with a data source, a server that holds one custom resource and answers each
  request to Druid with a given status and the text of a new task id.
\<close>

definition ingJson :: "string \<Rightarrow> goerr + json" where
  "ingJson s =
     (if s = ''{}'' then Inr (JObj fmempty)
      else if s = ''S'' then Inr (JObj (fmupd ''spec'' (JObj (fmupd ''dataSchema'' (JObj (fmupd ''dataSource'' (JStr ''wiki'') fmempty)) fmempty)) fmempty))
      else if s = ''C'' then Inr (JObj (fmupd ''skip'' (JNum 1) fmempty))
      else Inl (GoErr ''invalid character''))"

definition ingLib :: golib where
  "ingLib = memLib\<lparr>libUnmarshalJson := ingJson, libMarshalJson := (\<lambda>j. Inr (if ingJson ''S'' = Inr j then ''S'' else ''C''))\<rparr>"

definition sampleIngestion :: druid_ingestion where
  "sampleIngestion = \<lparr>tmAPIVersion = ''druid.apache.org/v1alpha1'', tmKind = ''DruidIngestion'', objMeta = metaOf ''i'' None,
     diSpec = \<lparr>diSuspend = False, diDruidClusterName = ''c'',
       diIngestion = \<lparr>inType = Kafka, inSpec = ''S'', inNativeSpec = None, inCompaction = None, inRules = None\<rparr>,
       diAuth = zeroAuth\<rparr>,
     diStatus = \<lparr>istTaskId = [], istType = [], istStatus = [], istReason = [], istMessage = [],
       istLastUpdateTime = 0, istCurrentIngestionSpec = [], istCurrentRules = None\<rparr>\<rparr>"

definition withStatus :: "string \<Rightarrow> string \<Rightarrow> druid_ingestion \<Rightarrow> druid_ingestion" where
  "withStatus tid spec di = di\<lparr>diStatus := (diStatus di)\<lparr>istTaskId := tid, istCurrentIngestionSpec := spec\<rparr>\<rparr>"

definition ingestionServer :: "druid_ingestion \<Rightarrow> unit client" where
  "ingestionServer di = (stubClient (sampleSts ''x''))\<lparr>
     clServices := (stubApi ServiceKind KService None)\<lparr>apiList := (\<lambda>_ _ w. (Inr [\<lparr>tmAPIVersion = ''v1'', tmKind = ''Service'',
       objMeta = metaOf ''r'' (Some crLabels), svcSelector = None, svcPorts = None, svcClusterIP = [], svcRest = []\<rparr>], w))\<rparr>,
     clDruidIngestions := stubApi DruidIngestionKind KDruidIngestion (Some di),
     clHttp := (\<lambda>_ w. (Inr \<lparr>rsBody = ''t2'', rsStatusCode = 200\<rparr>, w)), clLib := ingLib\<rparr>"

lemma server_simps [simp]:
  "clLib (ingestionServer di) = ingLib" "clDruidIngestions (ingestionServer di) = stubApi DruidIngestionKind KDruidIngestion (Some di)"
  "apiWrap (stubApi kd wr st) = wr" "clHttp (ingestionServer di) rq w = (Inr \<lparr>rsBody = ''t2'', rsStatusCode = 200\<rparr>, w)"
  "clNow (ingestionServer di) w = (0, w)" "apiKind (stubApi kd wr st) = kd" "apiGet (stubApi kd wr (Some x)) n ns w = (Inr x, w)"
  "apiStatusPatch (stubApi kd wr st) p x w = (Inr x, w)"
  "libParseURL ingLib url = None" "getTaskIdFromResponse ingLib ''t2'' = Inr ''t2''"
  by (simp_all add: ingestionServer_def stubClient_def stubApi_def ingLib_def memLib_def getTaskIdFromResponse_def)

lemma server_wrap: "apiWrap (clDruidIngestions (ingestionServer di)) = KDruidIngestion"
  by simp

lemma sample_spec: "inNativeSpec (ingestionOf di) = None \<Longrightarrow> inSpec (ingestionOf di) = ''S'' \<Longrightarrow> getSpecJson ingLib di = Inr ''S''"
  by (simp add: getSpecJson_def getSpec_def unmarshalObject_def ToJsonString_def ingLib_def ingJson_def)

lemma sample_fields [simp]:
  "inNativeSpec (ingestionOf sampleIngestion) = None" "inSpec (ingestionOf sampleIngestion) = ''S''"
  "inCompaction (ingestionOf sampleIngestion) = None" "inRules (ingestionOf sampleIngestion) = None"
  "istCurrentRules (diStatus sampleIngestion) = None" "rulesOf sampleIngestion = []"
  "istTaskId (diStatus sampleIngestion) = []" "istCurrentIngestionSpec (diStatus sampleIngestion) = []"
  "diSpec (withStatus t sp di) = diSpec di" "istTaskId (diStatus (withStatus t sp di)) = t"
  "istCurrentIngestionSpec (diStatus (withStatus t sp di)) = sp"
  "istCurrentRules (diStatus (withStatus t sp di)) = istCurrentRules (diStatus di)"
  by (simp_all add: sampleIngestion_def rulesOf_def withStatus_def)

lemma sample_equal: "IsEqualJson (libUnmarshalJson ingLib) ''S'' ''S'' = Inr True"
  by (simp add: IsEqualJson_def ingLib_def ingJson_def)

theorem ingestion_settles_witness:
  "CreateOrUpdate (ingestionServer sampleIngestion) (withStatus ''t1'' ''S'' sampleIngestion) ''http://r'' noAuth =
     ret (OperationResultUpdated, withStatus ''t1'' ''S'' sampleIngestion)"
  by (rule ingestion_settles [where spec = "''S''"]) (simp_all add: sample_spec sample_equal)

text \<open>A status patch of the sample server, with the time 0.\<close>

lemma sample_patch:
  assumes "getSpecJson ingLib di = Inr spec"
  shows "effs (makePatchDruidIngestionStatus (ingestionServer d0) di t msg reason st ty) s =
      [GetCall DruidIngestionKind (GetName di) (GetNamespace di),
       StatusPatchCall (KDruidIngestion (recordedStatus spec t msg reason st ty d0 0)) (MergeFrom (KDruidIngestion d0))]"
    "res (makePatchDruidIngestionStatus (ingestionServer d0) di t msg reason st ty) s = Ok (OperationResultUpdatedStatusOnly, d0)"
  by (simp_all add: makePatchDruidIngestionStatus_def patchStatus_def go_run assms sdk_defs)

lemma sample_create:
  "StatusPatchCall (KDruidIngestion (recordedStatus ''S'' ''t2'' CreateFail ''t2'' ''True'' CreateFail sampleIngestion 0))
     (MergeFrom (KDruidIngestion sampleIngestion))
   \<in> set (effs (createTask (ingestionServer sampleIngestion) sampleIngestion ''http://r'' noAuth ''S'') ())"
  by (simp add: createTask_def Let_def in_bindE httpDo_run go_run UpdateCompaction_def UpdateRules_def
      sample_patch [OF sample_spec])

theorem create_without_compaction_witness:
  "\<exists>x p. StatusPatchCall (KDruidIngestion x) p
      \<in> set (effs (createTask (ingestionServer sampleIngestion) sampleIngestion ''http://r'' noAuth ''S'') ())
    \<and> istTaskId (diStatus x) = ''t2'' \<and> istMessage (diStatus x) = CreateFail \<and> istType (diStatus x) = CreateFail"
  using create_without_compaction_recorded_as_failure [OF _ _ sample_create] sample_create
  by (intro exI conjI) (auto simp: recorded_fields)

lemma sample_submit:
  "res (submitSpec (ingestionServer (withStatus ''t1'' sp sampleIngestion)) (withStatus ''t1'' sp sampleIngestion) ''http://r'' noAuth ''S'') ()
     = Ok (withStatus ''t1'' sp sampleIngestion)"
  "StatusPatchCall (KDruidIngestion (recordedStatus ''S'' ''t2'' UpdateSuccess ''t2'' ''True'' UpdateSuccess (withStatus ''t1'' sp sampleIngestion) 0))
     (MergeFrom (KDruidIngestion (withStatus ''t1'' sp sampleIngestion)))
   \<in> set (effs (submitSpec (ingestionServer (withStatus ''t1'' sp sampleIngestion)) (withStatus ''t1'' sp sampleIngestion) ''http://r'' noAuth ''S'') ())"
  by (simp_all add: submitSpec_def Let_def in_bindE httpDo_run go_run Event_def sample_patch [OF sample_spec])

lemma sample_record:
  "StatusPatchCall (KDruidIngestion (recordedStatus ''S'' ''t1'' UpdateSuccess ''rules updated'' ''True'' UpdateSuccess (withStatus ''t1'' sp sampleIngestion) 0))
     (MergeFrom (KDruidIngestion (withStatus ''t1'' sp sampleIngestion)))
   \<in> set (effs (recordUpdate (ingestionServer (withStatus ''t1'' sp sampleIngestion)) (withStatus ''t1'' sp sampleIngestion) ''rules updated'') ())"
  by (simp add: recordUpdate_def in_bindE sample_patch [OF sample_spec])

theorem later_patch_witness:
  "\<exists>di x x' p p'. StatusPatchCall (KDruidIngestion x) p \<in> set (effs (submitSpec (ingestionServer di) di ''http://r'' noAuth ''S'') ())
    \<and> StatusPatchCall (KDruidIngestion x') p' \<in> set (effs (recordUpdate (ingestionServer di) di ''rules updated'') ())
    \<and> istTaskId (diStatus x) = ''t2'' \<and> istTaskId (diStatus x') = ''t1''"
  using later_patch_restores_old_task_id [OF _ sample_submit(1) sample_submit(2) sample_record, of "[]"]
    sample_submit(2) [of "[]"] sample_record [of "[]"]
  by (intro exI conjI) (auto simp: recorded_fields)

theorem every_patch_records_rules_witness:
  "\<exists>x p. StatusPatchCall (KDruidIngestion x) p
      \<in> set (effs (CreateOrUpdate (ingestionServer sampleIngestion) sampleIngestion ''http://r'' noAuth) ())
    \<and> istCurrentRules (diStatus x) = inRules (ingestionOf x)"
proof -
  have "StatusPatchCall (KDruidIngestion (recordedStatus ''S'' ''t2'' CreateFail ''t2'' ''True'' CreateFail sampleIngestion 0))
     (MergeFrom (KDruidIngestion sampleIngestion))
    \<in> set (effs (CreateOrUpdate (ingestionServer sampleIngestion) sampleIngestion ''http://r'' noAuth) ())"
    using sample_create by (simp add: CreateOrUpdate_def sample_spec liftE_def)
  with every_patch_records_rules [OF _ this] show ?thesis by (intro exI conjI) auto
qed

definition deletedIngestion :: druid_ingestion where
  "deletedIngestion = (withStatus ''t1'' ''S'' sampleIngestion)\<lparr>objMeta := (metaOf ''i'' None)\<lparr>
     metaDeletionTimestamp := Some ''now'', metaFinalizers := [DruidIngestionControllerFinalizer]\<rparr>\<rparr>"

theorem finalizer_released_shutdown_witness:
  "\<exists>es rq ev x. effs (ingestion_do (ingestionServer deletedIngestion) deletedIngestion) () =
      es @ [HttpCall rq, ev, UpdateCall (KDruidIngestion x)] \<and> is_event ev \<and> rqMethod rq = MethodPost
    \<and> fst (clHttp (ingestionServer deletedIngestion) rq ()) = Inr \<lparr>rsBody = ''t2'', rsStatusCode = 200\<rparr>"
proof -
  let ?c = "ingestionServer deletedIngestion"
  have d: "diSpec deletedIngestion = diSpec sampleIngestion"
    "istTaskId (diStatus deletedIngestion) = ''t1''" "istCurrentIngestionSpec (diStatus deletedIngestion) = ''S''"
    "istCurrentRules (diStatus deletedIngestion) = None" "metaDeletionTimestamp (objMeta deletedIngestion) = Some ''now''"
    "ContainsFinalizer deletedIngestion DruidIngestionControllerFinalizer"
    by (simp_all add: deletedIngestion_def ContainsFinalizer_def)
  have settled: "CreateOrUpdate ?c deletedIngestion u a = ret (OperationResultUpdated, deletedIngestion)" for u a
    by (rule createOrUpdate_settled [where spec = "''S''"]) (simp_all add: d sample_spec sample_equal)
  have auth: "GetAuthCreds ?c (diAuth (diSpec sampleIngestion)) = ret noAuth"
    by (simp add: d GetAuthCreds_def sampleIngestion_def)
  have router: "\<exists>url. res (routerOf ?c deletedIngestion) w = Ok url" for w
    by (simp add: routerOf_def GetRouterSvcUrl_def go_run sdk_defs ingestionServer_def stubApi_def metaOf_def)
  obtain url where "res (routerOf ?c deletedIngestion) () = Ok url" using router by blast
  then have upd: "UpdateCall (KDruidIngestion (RemoveFinalizer DruidIngestionControllerFinalizer deletedIngestion))
      \<in> set (effs (ingestion_do ?c deletedIngestion) ())"
    using d by (simp add: ingestion_do_def auth settled syncFinalizer_def in_bindE go_run httpDo_run update_effs Let_def Event_def)
  have fin: "DruidIngestionControllerFinalizer
      \<notin> set (metaFinalizers (objMeta (RemoveFinalizer DruidIngestionControllerFinalizer deletedIngestion)))"
    by (simp add: RemoveFinalizer_def SetFinalizers_def)
  from finalizer_released_after_shutdown [OF server_wrap upd fin refl]
  obtain a di' svc t and r :: http_response where
    "effs (ingestion_do ?c deletedIngestion) () = effs (beforeFinalizer ?c deletedIngestion) ()
        @ effs (routerOf ?c di') (post (beforeFinalizer ?c deletedIngestion) ())
        @ [HttpCall (shutdownRequest ?c a svc di'),
           if rsStatusCode r = 200 then EventEff EventTypeNormal t ShutDownSuccess else EventEff EventTypeWarning t ShutDownFail,
           UpdateCall (KDruidIngestion (RemoveFinalizer DruidIngestionControllerFinalizer deletedIngestion))]"
    by blast
  then show ?thesis
    unfolding append_assoc [symmetric] by (intro exI conjI, assumption) (auto simp: shutdownRequest_def reqOf_def)
qed

end
