(* ===== verification/Round_Logic.thy ===== *)
theory Round_Logic
  imports Client_Interface
begin

text \<open>
  A small program logic for the rounds of a controller, which may end early at any request:
  triples with a postcondition for results and one for errors, and properties that a piece of
  code keeps whatever it returns. The theories on the lives of ingestions and of volumes use it.
\<close>

section \<open>Triples\<close>

text \<open>
  \<open>triple P m Q E\<close>: from a state with \<open>P\<close>, a result \<open>x\<close> of \<open>m\<close> comes with \<open>Q x\<close>, an error or a panic
  with \<open>E\<close>.
\<close>

definition triple :: "('w \<Rightarrow> bool) \<Rightarrow> ('w, 'a) io \<Rightarrow> ('a \<Rightarrow> 'w \<Rightarrow> bool) \<Rightarrow> ('w \<Rightarrow> bool) \<Rightarrow> bool" where
  "triple P m Q E \<longleftrightarrow> (\<forall>w. P w \<longrightarrow> (case res m w of Ok x \<Rightarrow> Q x (post m w) | _ \<Rightarrow> E (post m w)))"

named_theorems triple_intro

lemma tripleD:
  assumes "triple P m Q E" "P w"
  shows "res m w = Ok x \<Longrightarrow> Q x (post m w)" "(\<And>x. res m w \<noteq> Ok x) \<Longrightarrow> E (post m w)"
  using assms unfolding triple_def by (cases "res m w"; fastforce)+

lemma tripleI:
  assumes "\<And>w x. P w \<Longrightarrow> res m w = Ok x \<Longrightarrow> Q x (post m w)" "\<And>w. P w \<Longrightarrow> E (post m w)"
  shows "triple P m Q E"
  using assms by (simp add: triple_def split: outcome.split)

lemma triple_any:
  assumes "triple P m (\<lambda>x w. C x \<and> A w) A" "P w"
  shows "A (post m w)"
  using tripleD [OF assms] by (cases "res m w") auto

lemma triple_bindE:
  assumes "triple P m R E" "\<And>x. triple (R x) (f x) Q E"
  shows "triple P (bindE m f) Q E"
  unfolding triple_def
proof (intro allI impI)
  fix w assume w: "P w"
  show "case res (bindE m f) w of Ok x \<Rightarrow> Q x (post (bindE m f) w) | _ \<Rightarrow> E (post (bindE m f) w)"
  proof (cases "res m w")
    case (Ok x)
    with tripleD(1) [OF assms(1) w] have "R x (post m w)" by simp
    then have "case res (f x) (post m w) of Ok x' \<Rightarrow> Q x' (post (f x) (post m w)) | _ \<Rightarrow> E (post (f x) (post m w))"
      using assms(2) [of x] by (simp add: triple_def)
    moreover have "res (bindE m f) w = res (f x) (post m w)" "post (bindE m f) w = post (f x) (post m w)"
      using Ok by (simp_all add: go_run)
    ultimately show ?thesis by (simp only:)
  qed (use tripleD(2) [OF assms(1) w] in \<open>auto simp: go_run\<close>)
qed

lemma triple_weaken:
  "triple P m Q E \<Longrightarrow> (\<And>w. P' w \<Longrightarrow> P w) \<Longrightarrow> (\<And>x w. Q x w \<Longrightarrow> Q' x w) \<Longrightarrow> (\<And>w. E w \<Longrightarrow> E' w) \<Longrightarrow> triple P' m Q' E'"
  unfolding triple_def by (simp split: outcome.splits) blast

lemma triple_ret [triple_intro]: "(\<And>w. P w \<Longrightarrow> Q x w) \<Longrightarrow> triple P (ret x) Q E"
  by (simp add: triple_def go_run)

lemma triple_throw [triple_intro]: "(\<And>w. P w \<Longrightarrow> E w) \<Longrightarrow> triple P (throw e) Q E"
  by (simp add: triple_def go_run)

lemma triple_liftE [triple_intro]:
  "(\<And>w x. r = Inr x \<Longrightarrow> P w \<Longrightarrow> Q x w) \<Longrightarrow> (\<And>w. P w \<Longrightarrow> E w) \<Longrightarrow> triple P (liftE r) Q E"
  by (simp add: triple_def go_run split: sum.split)

lemma triple_liftO [triple_intro]:
  "(\<And>w x. r = Ok x \<Longrightarrow> P w \<Longrightarrow> Q x w) \<Longrightarrow> (\<And>w. P w \<Longrightarrow> E w) \<Longrightarrow> triple P (liftO r) Q E"
  by (simp add: triple_def go_run split: outcome.split)

lemma triple_Event [triple_intro]: "(\<And>w. P w \<Longrightarrow> Q () w) \<Longrightarrow> triple P (Event t r m) Q E"
  by (simp add: triple_def go_run Event_def)

lemma triple_if [triple_intro]:
  "(b \<Longrightarrow> triple P m Q E) \<Longrightarrow> (\<not> b \<Longrightarrow> triple P n Q E) \<Longrightarrow> triple P (if b then m else n) Q E"
  by simp

text \<open>Code that keeps a property of the state, whatever it returns.\<close>

definition stable :: "('w \<Rightarrow> bool) \<Rightarrow> ('w, 'a) io \<Rightarrow> bool" where
  "stable P m \<longleftrightarrow> (\<forall>w. P w \<longrightarrow> P (post m w))"

named_theorems stable_intro

lemma stable_triple: "stable P m \<Longrightarrow> triple P m (\<lambda>_. P) P"
  by (simp add: stable_def triple_def split: outcome.split)

lemma stable_bindE [stable_intro]: "stable P m \<Longrightarrow> (\<And>x. stable P (f x)) \<Longrightarrow> stable P (bindE m f)"
  by (simp add: stable_def go_run split: outcome.split)

lemma stable_handleE [stable_intro]:
  "stable P m \<Longrightarrow> (\<And>e. stable P (h e)) \<Longrightarrow> (\<And>x. stable P (f x)) \<Longrightarrow> stable P (handleE m h f)"
  by (simp add: stable_def go_run split: outcome.split)

lemma stable_pure [stable_intro]:
  "stable P (ret x)" "stable P (throw e)" "stable P (liftE r)" "stable P (liftO q)" "stable P (Event t r' m)"
  by (simp_all add: stable_def go_run Event_def)

lemma stable_if [stable_intro]: "stable P m \<Longrightarrow> stable P n \<Longrightarrow> stable P (if b then m else n)"
  by simp

lemma stable_case_option [stable_intro]:
  "stable P m \<Longrightarrow> (\<And>x. stable P (f x)) \<Longrightarrow> stable P (case v of None \<Rightarrow> m | Some x \<Rightarrow> f x)"
  by (simp split: option.split)

lemma triple_then [triple_intro]:
  "stable P m \<Longrightarrow> (\<And>x. triple P (f x) Q P) \<Longrightarrow> triple P (bindE m f) Q P"
  by (rule triple_bindE [OF stable_triple])

lemma triple_Event_then: "triple P (f ()) Q E \<Longrightarrow> triple P (bindE (Event t r m) f) Q E"
  by (rule triple_bindE [where R = "\<lambda>_. P"]) (auto intro: triple_Event)

lemma stable_foldE [stable_intro]: "(\<And>a x. stable P (f a x)) \<Longrightarrow> stable P (foldE f a xs)"
  by (induction xs arbitrary: a) (auto intro!: stable_intro)

lemma stable_forE [stable_intro]: "(\<And>x. stable P (f x)) \<Longrightarrow> stable P (forE f xs)"
  by (simp add: forE_def stable_foldE)

lemma stable_loopE [stable_intro]: "(\<And>a x. stable P (f a x)) \<Longrightarrow> stable P (loopE f a xs)"
  by (induction xs arbitrary: a) (auto intro!: stable_intro split: flow.split)

lemma stable_case_prod [stable_intro]: "(\<And>a b. stable P (f a b)) \<Longrightarrow> stable P (case p of (a, b) \<Rightarrow> f a b)"
  by (cases p) simp

lemma stable_case_flow [stable_intro]:
  "(\<And>x. stable P (f x)) \<Longrightarrow> (\<And>y. stable P (g y)) \<Longrightarrow> stable P (case r of Next x \<Rightarrow> f x | Return y \<Rightarrow> g y)"
  by (cases r) simp_all

text \<open>Two pieces of code in a row, in one state.\<close>

lemma bindE_ok: "res (bindE m f) w = Ok y \<longleftrightarrow> (\<exists>x. res m w = Ok x \<and> res (f x) (post m w) = Ok y)"
  by (simp add: go_run split: outcome.split)

lemma bindE_stops: "(\<And>x. res m w \<noteq> Ok x) \<Longrightarrow> post (bindE m f) w = post m w"
  by (simp add: go_run split: outcome.split)

lemma bindE_goes_on: "res m w = Ok x \<Longrightarrow> post (bindE m f) w = post (f x) (post m w)"
  by (simp add: go_run)

end
