(* ===== verification/Ingestion_Lifecycle.thy ===== *)
theory Ingestion_Lifecycle
  imports Ingestion Round_Logic
begin

text \<open>
  The life of one ingestion over many reconciliations. The abstract machine \<open>ing_step\<close> has three
  states (nothing recorded, an old spec recorded, the declared spec recorded) and moves with what
  a round did with the spec and whether the round succeeded. Proved: each round of the controller
  is one step of the machine, against any server with the contract \<open>ingestion_server\<close>, whichever
  of its requests fail; once Druid accepted a spec and the round succeeded, later rounds send
  nothing but compaction settings and rules; a task whose round failed after the submission is
  submitted again; and a spec that Druid refused is recorded as the current one by an update of
  compaction or rules in the same round.
\<close>

section \<open>The machine\<close>

datatype phase = Fresh | Outdated | Current

text \<open>What became of the declared spec in a round: not sent, sent without an answer, or answered with a status code.\<close>

datatype submission = NotSent | NoAnswer | Answered int

inductive ing_step :: "submission \<Rightarrow> bool \<Rightarrow> phase \<Rightarrow> phase \<Rightarrow> bool" where
  settled: "ing_step NotSent ok Current Current"
| early: "ing_step NotSent False p p"
| unanswered: "p \<noteq> Current \<Longrightarrow> ing_step NoAnswer False p p"
| created: "ing_step (Answered code) True Fresh Current"
| forgotten: "ing_step (Answered code) False Fresh Fresh"
| updated: "ing_step (Answered code) ok Outdated Current"
| pending: "ok \<longrightarrow> code \<noteq> 200 \<Longrightarrow> ing_step (Answered code) ok Outdated Outdated"

inductive_cases ing_step_Current [elim]: "ing_step l ok Current p"
inductive_cases ing_step_Answered [elim]: "ing_step (Answered code) ok p p'"
inductive_simps ing_step_accepted: "ing_step (Answered 200) True p p'"
inductive_simps ing_step_from_Fresh: "ing_step l ok Fresh p"

code_pred ing_step .

section \<open>The state of an ingestion\<close>

abbreviation unrecorded :: "druid_ingestion_status \<Rightarrow> bool" where
  "unrecorded st \<equiv> istTaskId st = [] \<and> istCurrentIngestionSpec st = []"

definition phaseOf :: "golib \<Rightarrow> druid_ingestion \<Rightarrow> phase" where
  "phaseOf lib di =
     (if unrecorded (diStatus di) then Fresh
      else case getSpecJson lib di of
             Inl _ \<Rightarrow> Outdated
           | Inr spec \<Rightarrow>
               if IsEqualJson (libUnmarshalJson lib) (istCurrentIngestionSpec (diStatus di)) spec = Inr True
               then Current else Outdated)"

text \<open>Whether a round gets to send the spec.\<close>

definition sends :: "golib \<Rightarrow> druid_ingestion \<Rightarrow> bool" where
  "sends lib di = (case getSpecJson lib di of
       Inl _ \<Rightarrow> False
     | Inr spec \<Rightarrow> unrecorded (diStatus di)
         \<or> IsEqualJson (libUnmarshalJson lib) (istCurrentIngestionSpec (diStatus di)) spec = Inr False)"

definition sendSpec :: "'w client \<Rightarrow> druid_ingestion \<Rightarrow> string \<Rightarrow> basic_auth \<Rightarrow> string \<Rightarrow> ('w, http_response) io" where
  "sendSpec c di svc auth spec =
     httpDo c auth MethodPost (getPath (clLib c) (inType (ingestionOf di)) svc MethodPost [] False) spec"

definition submission :: "'w client \<Rightarrow> druid_ingestion \<Rightarrow> string \<Rightarrow> basic_auth \<Rightarrow> 'w \<Rightarrow> submission" where
  "submission c di svc auth w =
     (if sends (clLib c) di then
        (case getSpecJson (clLib c) di of
           Inl _ \<Rightarrow> NotSent
         | Inr spec \<Rightarrow> (case res (sendSpec c di svc auth spec) w of Ok r \<Rightarrow> Answered (rsStatusCode r) | _ \<Rightarrow> NoAnswer))
      else NotSent)"

lemma getSpec_cong: "diSpec x = diSpec y \<Longrightarrow> getSpecJson lib x = getSpecJson lib y"
  unfolding getSpecJson_def getSpec_def by (erule ssubst) (rule refl)

lemma phase_cong: "diSpec x = diSpec y \<Longrightarrow> diStatus x = diStatus y \<Longrightarrow> phaseOf lib x = phaseOf lib y"
  using getSpec_cong [of x y lib] by (simp add: phaseOf_def split: sum.split)

text \<open>The part of an update after the spec: compaction settings and rules.\<close>

definition configureRules :: "'w client \<Rightarrow> druid_ingestion \<Rightarrow> string \<Rightarrow> basic_auth \<Rightarrow> ('w, operation_result \<times> druid_ingestion) io" where
  "configureRules c di svcName auth =
     bindE (if istCurrentRules (diStatus di) \<noteq> inRules (ingestionOf di) then
              bindE (UpdateRules c di svcName auth) (\<lambda>rulesOk.
                if rulesOk then recordUpdate c di ''rules updated'' else ret di)
            else ret di) (\<lambda>di.
       ret (OperationResultUpdated, di))"

definition configure :: "'w client \<Rightarrow> druid_ingestion \<Rightarrow> string \<Rightarrow> basic_auth \<Rightarrow> ('w, operation_result \<times> druid_ingestion) io" where
  "configure c di svcName auth =
     bindE (UpdateCompaction c di svcName auth) (\<lambda>compactionOk.
     bindE (if compactionOk then recordUpdate c di ''compaction updated'' else ret di) (\<lambda>di.
       configureRules c di svcName auth))"

lemmas configure_defs = configure_def configureRules_def

lemma CreateOrUpdate_cases:
  "getSpecJson (clLib c) di = Inl e \<Longrightarrow> CreateOrUpdate c di svc a = throw e"
  "getSpecJson (clLib c) di = Inr spec \<Longrightarrow> unrecorded (diStatus di) \<Longrightarrow>
     CreateOrUpdate c di svc a = createTask c di svc a spec"
  "getSpecJson (clLib c) di = Inr spec \<Longrightarrow> \<not> unrecorded (diStatus di) \<Longrightarrow>
     IsEqualJson (libUnmarshalJson (clLib c)) (istCurrentIngestionSpec (diStatus di)) spec = Inl e \<Longrightarrow>
     CreateOrUpdate c di svc a = throw e"
  "getSpecJson (clLib c) di = Inr spec \<Longrightarrow> \<not> unrecorded (diStatus di) \<Longrightarrow>
     IsEqualJson (libUnmarshalJson (clLib c)) (istCurrentIngestionSpec (diStatus di)) spec = Inr True \<Longrightarrow>
     CreateOrUpdate c di svc a = configure c di svc a"
  "getSpecJson (clLib c) di = Inr spec \<Longrightarrow> \<not> unrecorded (diStatus di) \<Longrightarrow>
     IsEqualJson (libUnmarshalJson (clLib c)) (istCurrentIngestionSpec (diStatus di)) spec = Inr False \<Longrightarrow>
     CreateOrUpdate c di svc a = bindE (submitSpec c di svc a spec) (\<lambda>di. configure c di svc a)"
  by (auto simp: CreateOrUpdate_def updateTask_def configure_defs liftE_def Let_def)

lemma post_timeNow: "post (timeNow c) w = snd (clNow c w)"
  by (simp add: timeNow_def post_def split: prod.split)

section \<open>The server\<close>

text \<open>
  The contract: \<open>stored\<close> is the custom resource, which the server holds under the given name. A
  request to the API server for something else, to Druid, or for the time does not touch it. A
  status patch, when it succeeds, stores the status and nothing else; an update does not store
  the status. Every request may fail. Text that \<^verbatim>\<open>json.Marshal\<close> produced is not empty and can be
  decoded again.
\<close>

locale ingestion_server =
  fixes c :: "'w client" and name ns :: string and good :: "'w \<Rightarrow> bool" and stored :: "'w \<Rightarrow> druid_ingestion"
  assumes wraps: "apiWrap (clDruidIngestions c) = KDruidIngestion"
    and named: "good w \<Longrightarrow> GetName (stored w) = name \<and> GetNamespace (stored w) = ns
      \<and> metaDeletionTimestamp (objMeta (stored w)) = None"
    and reads: "good w \<Longrightarrow> apiGet (clDruidIngestions c) name ns w = (r, w') \<Longrightarrow>
      good w' \<and> stored w' = stored w \<and> (\<forall>x. r = Inr x \<longrightarrow> x = stored w)"
    and patched: "good w \<Longrightarrow> apiStatusPatch (clDruidIngestions c) (MergeFrom (KDruidIngestion (stored w))) x w = (r, w') \<Longrightarrow>
      diSpec x = diSpec (stored w) \<Longrightarrow> objMeta x = objMeta (stored w) \<Longrightarrow>
      good w' \<and> diSpec (stored w') = diSpec (stored w)
      \<and> diStatus (stored w') = (case r of Inl _ \<Rightarrow> diStatus (stored w) | Inr _ \<Rightarrow> diStatus x)"
    and updates: "good w \<Longrightarrow> apiUpdate (clDruidIngestions c) x w = (r, w') \<Longrightarrow>
      diSpec x = diSpec (stored w) \<Longrightarrow> GetName x = name \<Longrightarrow> GetNamespace x = ns \<Longrightarrow>
      metaDeletionTimestamp (objMeta x) = None \<Longrightarrow>
      good w' \<and> diSpec (stored w') = diSpec (stored w) \<and> diStatus (stored w') = diStatus (stored w)"
    and elsewhere: "good w \<Longrightarrow> good (snd (clHttp c rq w)) \<and> stored (snd (clHttp c rq w)) = stored w"
      "good w \<Longrightarrow> good (snd (clNow c w)) \<and> stored (snd (clNow c w)) = stored w"
      "good w \<Longrightarrow> good (snd (apiGet (clSecrets c) n m w)) \<and> stored (snd (apiGet (clSecrets c) n m w)) = stored w"
      "good w \<Longrightarrow> good (snd (apiList (clServices c) m ls w)) \<and> stored (snd (apiList (clServices c) m ls w)) = stored w"
    and printed: "libMarshalJson (clLib c) v = Inr t \<Longrightarrow> t \<noteq> [] \<and> (\<exists>v'. libUnmarshalJson (clLib c) t = Inr v')"
begin

text \<open>\<open>inState sp S\<close>: the resource has the spec \<open>sp\<close> and a status in \<open>S\<close>.\<close>

definition inState :: "druid_ingestion_spec \<Rightarrow> (druid_ingestion_status \<Rightarrow> bool) \<Rightarrow> 'w \<Rightarrow> bool" where
  "inState sp S w \<longleftrightarrow> good w \<and> diSpec (stored w) = sp \<and> S (diStatus (stored w))"

text \<open>The object a round works on: the resource with the spec \<open>sp\<close>, as it was read at some time.\<close>

definition copyOf :: "druid_ingestion_spec \<Rightarrow> druid_ingestion \<Rightarrow> bool" where
  "copyOf sp x \<longleftrightarrow> diSpec x = sp \<and> GetName x = name \<and> GetNamespace x = ns \<and> metaDeletionTimestamp (objMeta x) = None"

lemma inState_copy: "inState sp S w \<Longrightarrow> copyOf sp (stored w)"
  using named by (auto simp: inState_def copyOf_def)

lemma stable_elsewhere [stable_intro]:
  "stable (inState sp S) (httpDo c a m url body)" "stable (inState sp S) (timeNow c)"
  "stable (inState sp S) (sdkGet (clSecrets c) n k)" "stable (inState sp S) (sdkList (clServices c) k ls)"
  by (simp_all add: stable_def inState_def httpDo_run go_run sdk_defs post_timeNow elsewhere split: option.split)

lemma stable_druid [stable_intro]:
  "stable (inState sp S) (UpdateCompaction c di svc a)" "stable (inState sp S) (UpdateRules c di svc a)"
  "stable (inState sp S) (GetAuthCreds c auth)" "stable (inState sp S) (routerOf c di)"
  unfolding UpdateCompaction_def UpdateRules_def GetAuthCreds_def routerOf_def GetRouterSvcUrl_def Let_def
  by (intro stable_intro)+

lemma triple_read:
  "triple (inState sp S) (sdkGet (clDruidIngestions c) name ns) (\<lambda>x w. inState sp S w \<and> stored w = x) (inState sp S)"
proof (rule tripleI)
  fix w x assume "inState sp S w" "res (sdkGet (clDruidIngestions c) name ns) w = Ok x"
  then show "inState sp S (post (sdkGet (clDruidIngestions c) name ns) w) \<and> stored (post (sdkGet (clDruidIngestions c) name ns) w) = x"
    using reads [of w "fst (apiGet (clDruidIngestions c) name ns w)"]
    by (auto simp: inState_def sdk_defs go_run prod_eq_iff split: sum.splits)
next
  fix w assume "inState sp S w"
  then show "inState sp S (post (sdkGet (clDruidIngestions c) name ns) w)"
    using reads [of w "fst (apiGet (clDruidIngestions c) name ns w)"]
    by (auto simp: inState_def sdk_defs go_run prod_eq_iff)
qed

text \<open>A status patch that succeeds records the declared spec and the given task; one that fails changes nothing.\<close>

lemma triple_clock:
  "triple (\<lambda>w. inState sp S w \<and> stored w = x) (timeNow c) (\<lambda>_ w. inState sp S w \<and> stored w = x) (inState sp S)"
  by (rule tripleI) (auto simp: inState_def post_timeNow elsewhere)

lemma triple_write:
  assumes "diSpec y = diSpec x" "objMeta y = objMeta x"
  shows "triple (\<lambda>w. inState sp S w \<and> stored w = x) (sdkStatusPatch (clDruidIngestions c) (MergeFrom (KDruidIngestion x)) y)
    (\<lambda>_. inState sp (\<lambda>st. st = diStatus y)) (inState sp S)"
proof -
  have r: "good w' \<and> diSpec (stored w') = diSpec (stored w) \<and>
      diStatus (stored w') = (case r of Inl _ \<Rightarrow> diStatus (stored w) | Inr _ \<Rightarrow> diStatus y)"
    if "inState sp S w" "stored w = x" "apiStatusPatch (clDruidIngestions c) (MergeFrom (KDruidIngestion x)) y w = (r, w')" for w r w'
    using patched [of w y r w'] assms that by (simp add: inState_def)
  have case_of: "case r of Inl _ \<Rightarrow> inState sp S w' | Inr _ \<Rightarrow> inState sp (\<lambda>st. st = diStatus y) w'"
    if "inState sp S w" "stored w = x" "apiStatusPatch (clDruidIngestions c) (MergeFrom (KDruidIngestion x)) y w = (r, w')" for w r w'
    using r [OF that] that(1) by (auto simp: inState_def split: sum.splits)
  show ?thesis
    unfolding triple_def
  proof (intro allI impI)
    fix w assume w: "inState sp S w \<and> stored w = x"
    obtain r w' where u: "apiStatusPatch (clDruidIngestions c) (MergeFrom (KDruidIngestion x)) y w = (r, w')" by fastforce
    with case_of [OF conjunct1 [OF w] conjunct2 [OF w] u]
    show "case res (sdkStatusPatch (clDruidIngestions c) (MergeFrom (KDruidIngestion x)) y) w of
        Ok _ \<Rightarrow> inState sp (\<lambda>st. st = diStatus y) (post (sdkStatusPatch (clDruidIngestions c) (MergeFrom (KDruidIngestion x)) y) w)
      | _ \<Rightarrow> inState sp S (post (sdkStatusPatch (clDruidIngestions c) (MergeFrom (KDruidIngestion x)) y) w)"
      by (simp add: sdk_defs go_run split: sum.splits)
  qed
qed

definition recorded :: "string \<Rightarrow> druid_ingestion_status \<Rightarrow> bool" where
  "recorded spec st \<longleftrightarrow> istCurrentIngestionSpec st = spec"

lemma triple_patch:
  assumes "copyOf sp di" "getSpecJson (clLib c) di = Inr spec"
  shows "triple (inState sp S) (makePatchDruidIngestionStatus c di t msg reason st ty)
    (\<lambda>rx w. copyOf sp (snd rx) \<and> inState sp (recorded spec) w) (inState sp S)"
proof -
  have k: "GetName di = name" "GetNamespace di = ns" using assms(1) by (simp_all add: copyOf_def)
  have r: "diSpec (recordedStatus spec t msg reason st ty x now) = diSpec x"
    "objMeta (recordedStatus spec t msg reason st ty x now) = objMeta x"
    "recorded spec (diStatus (recordedStatus spec t msg reason st ty x now))" for x now
    by (simp_all add: recordedStatus_def recorded_def)
  have w: "triple (\<lambda>w. inState sp S w \<and> stored w = x)
      (bindE (sdkStatusPatch (clDruidIngestions c) (MergeFrom (KDruidIngestion x)) (recordedStatus spec t msg reason st ty x now)) (\<lambda>_. ret x))
      (\<lambda>y w. y = x \<and> inState sp (recorded spec) w) (inState sp S)" for x now
    using r(3) by (intro triple_bindE [OF triple_write [OF r(1,2)]] triple_ret) (auto simp: inState_def)
  have p: "triple (inState sp S) (patchStatus c di (recordedStatus spec t msg reason st ty))
      (\<lambda>x w. copyOf sp x \<and> inState sp (recorded spec) w) (inState sp S)"
    unfolding patchStatus_def k wraps
  proof (rule triple_bindE [OF triple_read])
    fix x
    show "triple (\<lambda>w. inState sp S w \<and> stored w = x) (bindE (timeNow c) (\<lambda>now. bindE (sdkStatusPatch (clDruidIngestions c)
        (MergeFrom (KDruidIngestion x)) (recordedStatus spec t msg reason st ty x now)) (\<lambda>_. ret x)))
      (\<lambda>x w. copyOf sp x \<and> inState sp (recorded spec) w) (inState sp S)"
    proof (cases "copyOf sp x")
      case True
      then show ?thesis
        by (intro triple_bindE [OF triple_clock] triple_weaken [OF w]) auto
    next
      case False
      then show ?thesis using inState_copy by (auto simp: triple_def)
    qed
  qed
  have "makePatchDruidIngestionStatus c di t msg reason st ty =
      bindE (patchStatus c di (recordedStatus spec t msg reason st ty)) (\<lambda>x. ret (OperationResultUpdatedStatusOnly, x))"
    by (simp add: makePatchDruidIngestionStatus_def assms(2) liftE_def)
  then show ?thesis by (auto intro!: triple_bindE [OF p] triple_ret)
qed

lemma triple_recording:
  assumes "copyOf sp di" "getSpecJson (clLib c) di = Inr spec"
    and "\<And>x w. copyOf sp x \<Longrightarrow> inState sp (recorded spec) w \<Longrightarrow> Q (g x) w"
  shows "triple (inState sp S) (bindE (makePatchDruidIngestionStatus c di t msg reason st ty)
      (\<lambda>(r, x). bindE (Event t1 r1 m1) (\<lambda>_. ret (g x)))) Q (inState sp S)"
    "triple (inState sp S) (bindE (makePatchDruidIngestionStatus c di t msg reason st ty)
      (\<lambda>(r, x). bindE (Event t1 r1 m1) (\<lambda>_. bindE (Event t2 r2 m2) (\<lambda>_. ret (g x))))) Q (inState sp S)"
  using assms(3)
  by (auto intro!: triple_bindE [OF triple_patch [OF assms(1,2)]] triple_Event_then triple_ret split: prod.split)

lemma triple_create:
  assumes "copyOf sp di" "getSpecJson (clLib c) di = Inr spec"
  shows "triple (inState sp S) (createTask c di svc a s)
    (\<lambda>rx w. copyOf sp (snd rx) \<and> inState sp (recorded spec) w) (inState sp S)"
  unfolding createTask_def Let_def
  by (intro triple_intro stable_intro triple_recording [OF assms]) simp_all

lemma triple_submit_any:
  assumes "copyOf sp di" "getSpecJson (clLib c) di = Inr spec" "\<And>st. recorded spec st \<Longrightarrow> S st"
  shows "triple (inState sp S) (submitSpec c di svc a s) (\<lambda>x w. copyOf sp x \<and> inState sp S w) (inState sp S)"
  unfolding submitSpec_def Let_def
  by (intro triple_intro stable_intro triple_recording [OF assms(1,2)]) (use assms(1,3) in \<open>auto simp: inState_def\<close>)

lemma triple_submit_accepted:
  assumes "copyOf sp di" "getSpecJson (clLib c) di = Inr spec" "rsStatusCode r = 200"
  shows "triple (\<lambda>w. inState sp S w \<and> res (sendSpec c di svc a s) w = Ok r) (submitSpec c di svc a s)
    (\<lambda>x w. copyOf sp x \<and> inState sp (recorded spec) w) (inState sp S)"
proof -
  have send: "triple (\<lambda>w. inState sp S w \<and> res (sendSpec c di svc a s) w = Ok r) (sendSpec c di svc a s)
      (\<lambda>x w. inState sp S w \<and> x = r) (inState sp S)"
    using stable_elsewhere(1) by (auto intro!: tripleI simp: stable_def sendSpec_def)
  have gate: "triple (\<lambda>w. inState sp S w \<and> x = r) (if rsStatusCode x = 200 then m else n) Q (inState sp S)"
    if "triple (inState sp S) m Q (inState sp S)" for x m n Q
    using that assms(3) by (auto simp: triple_def)
  show ?thesis
    unfolding submitSpec_def sendSpec_def Let_def
    by (rule triple_bindE [OF send [unfolded sendSpec_def]], rule gate)
      (intro triple_intro stable_intro triple_recording [OF assms(1,2)]; simp)
qed

lemma triple_recordUpdate:
  assumes "copyOf sp di" "getSpecJson (clLib c) di = Inr spec"
  shows "triple (inState sp S) (recordUpdate c di reason) (\<lambda>x w. copyOf sp x \<and> inState sp (recorded spec) w) (inState sp S)"
  unfolding recordUpdate_def by (rule triple_recording [OF assms]) simp

lemma spec_of: "copyOf sp x \<Longrightarrow> copyOf sp y \<Longrightarrow> getSpecJson (clLib c) x = Inr spec \<Longrightarrow> getSpecJson (clLib c) y = Inr spec"
  using getSpec_cong [of x y] by (simp add: copyOf_def)

lemma triple_when:
  assumes "triple P m (\<lambda>x w. C x \<and> P w) P" "\<And>x. C x \<Longrightarrow> triple P (f x) Q P"
  shows "triple P (bindE m f) Q P"
  by (rule triple_bindE [OF assms(1)]) (use assms(2) in \<open>auto simp: triple_def\<close>)

lemma triple_recordUpdate_in:
  assumes "copyOf sp di" "getSpecJson (clLib c) di = Inr spec" "\<And>st. recorded spec st \<Longrightarrow> S st" "copyOf sp x"
  shows "triple (inState sp S) (recordUpdate c x reason) (\<lambda>x w. copyOf sp x \<and> inState sp S w) (inState sp S)"
  using assms(3)
  by (intro triple_weaken [OF triple_recordUpdate [OF assms(4) spec_of [OF assms(1,4,2)]]]) (auto simp: inState_def)

lemma triple_configureRules:
  assumes "copyOf sp di" "getSpecJson (clLib c) di = Inr spec" "\<And>st. recorded spec st \<Longrightarrow> S st" "copyOf sp x"
  shows "triple (inState sp S) (configureRules c x svc a) (\<lambda>rx w. copyOf sp (snd rx) \<and> inState sp S w) (inState sp S)"
  unfolding configureRules_def using assms(4)
  by (intro triple_when [where C = "copyOf sp"] triple_intro stable_intro triple_recordUpdate_in [OF assms(1-3)]) simp_all

lemma triple_configure:
  assumes "copyOf sp di" "getSpecJson (clLib c) di = Inr spec" "\<And>st. recorded spec st \<Longrightarrow> S st"
  shows "triple (inState sp S) (configure c di svc a) (\<lambda>rx w. copyOf sp (snd rx) \<and> inState sp S w) (inState sp S)"
  unfolding configure_def using assms(1)
  by (intro triple_then [OF stable_druid(1)] triple_when [where C = "copyOf sp"] triple_if triple_ret
      triple_recordUpdate_in [OF assms] triple_configureRules [OF assms]) simp_all

text \<open>The phase after a round that recorded nothing, and after one that recorded the spec.\<close>

lemma phase_kept: "copyOf sp di \<Longrightarrow> inState sp (\<lambda>st. st = diStatus di) w \<Longrightarrow> phaseOf lib (stored w) = phaseOf lib di"
  by (rule phase_cong) (simp_all add: copyOf_def inState_def)

lemma phase_recorded:
  assumes "copyOf sp di" "getSpecJson (clLib c) di = Inr spec" "inState sp (recorded spec) w"
  shows "phaseOf (clLib c) (stored w) = Current"
proof -
  have g: "getSpecJson (clLib c) (stored w) = Inr spec" by (rule spec_of [OF assms(1) inState_copy [OF assms(3)] assms(2)])
  obtain v where "libMarshalJson (clLib c) v = Inr spec"
    using assms(2) by (auto simp: getSpecJson_def ToJsonString_def split: sum.splits)
  from printed [OF this] g assms(3) show ?thesis
    by (auto simp: phaseOf_def inState_def recorded_def IsEqualJson_def)
qed

lemma send_first:
  assumes "\<And>r. res (sendSpec c di svc a spec) w \<noteq> Ok r"
  shows "\<not> (\<exists>x. res (createTask c di svc a spec) w = Ok x)"
    "\<not> (\<exists>x. res (bindE (submitSpec c di svc a spec) f) w = Ok x)"
    "post (bindE (submitSpec c di svc a spec) f) w = post (sendSpec c di svc a spec) w"
  using assms
  by (cases "res (sendSpec c di svc a spec) w"; simp add: createTask_def submitSpec_def Let_def go_run sendSpec_def [symmetric])+

definition stepped :: "druid_ingestion \<Rightarrow> submission \<Rightarrow> bool \<Rightarrow> 'w \<Rightarrow> bool" where
  "stepped di l ok w' \<longleftrightarrow> good w' \<and> diSpec (stored w') = diSpec di \<and> ing_step l ok (phaseOf (clLib c) di) (phaseOf (clLib c) (stored w'))"

text \<open>A round that leaves the recorded status alone, and a round that leaves it alone or records the spec.\<close>

lemma stepped_kept:
  assumes "copyOf sp di" "inState sp (\<lambda>st. st = diStatus di) w'" "ing_step l ok (phaseOf (clLib c) di) (phaseOf (clLib c) di)"
  shows "stepped di l ok w'"
  using assms phase_kept [OF assms(1,2)] by (simp add: stepped_def inState_def copyOf_def)

lemma stepped_recorded:
  assumes "copyOf sp di" "getSpecJson (clLib c) di = Inr spec" "inState sp (recorded spec) w'"
    "ing_step l ok (phaseOf (clLib c) di) Current"
  shows "stepped di l ok w'"
  using assms phase_recorded [OF assms(1-3)] by (simp add: stepped_def inState_def copyOf_def)

lemma create_step:
  assumes d: "copyOf sp di" "getSpecJson (clLib c) di = Inr spec" "unrecorded (diStatus di)"
    and w: "inState sp (\<lambda>st. st = diStatus di) w"
  shows "stepped di (submission c di svc a w) (\<exists>x. res (createTask c di svc a spec) w = Ok x) (post (createTask c di svc a spec) w)"
proof -
  have f: "phaseOf (clLib c) di = Fresh" "sends (clLib c) di" using d by (simp_all add: phaseOf_def sends_def)
  note t = triple_create [OF d(1,2), of "\<lambda>st. st = diStatus di" svc a spec]
  have l: "submission c di svc a w =
      (case res (sendSpec c di svc a spec) w of Ok r \<Rightarrow> Answered (rsStatusCode r) | _ \<Rightarrow> NoAnswer)"
    using f d(2) by (simp add: submission_def)
  show ?thesis
  proof (cases "\<exists>x. res (createTask c di svc a spec) w = Ok x")
    case True
    then obtain x r where x: "res (createTask c di svc a spec) w = Ok x" "res (sendSpec c di svc a spec) w = Ok r"
      using send_first(1) by blast
    have "ing_step (submission c di svc a w) True Fresh Current" by (simp add: l x(2) ing_step.created)
    then show ?thesis using tripleD(1) [OF t w x(1)] True f(1) by (auto intro: stepped_recorded [OF d(1,2)])
  next
    case False
    have "ing_step (submission c di svc a w) False Fresh Fresh"
      by (auto simp: l split: outcome.split intro: ing_step.intros)
    then show ?thesis using tripleD(2) [OF t w] False f(1) by (auto intro: stepped_kept [OF d(1)])
  qed
qed

lemma triple_both:
  assumes "triple P m (\<lambda>x w. C x \<and> A w) E" "\<And>x. C x \<Longrightarrow> triple A (f x) (\<lambda>y w. D y \<and> B w) B" "\<And>w. E w \<Longrightarrow> E' w" "\<And>w. B w \<Longrightarrow> E' w"
    "\<And>w. B w \<Longrightarrow> B' w"
  shows "triple P (bindE m f) (\<lambda>y w. D y \<and> B' w) E'"
proof (rule triple_bindE)
  show "triple P m (\<lambda>x w. C x \<and> A w) E'" using assms(3) by (auto intro: triple_weaken [OF assms(1)])
  show "triple (\<lambda>w. C x \<and> A w) (f x) (\<lambda>y w. D y \<and> B' w) E'" for x
    using assms(2) [of x] assms(4,5) by (cases "C x") (auto simp: triple_def split: outcome.splits)
qed

lemma update_lost:
  fixes svc and a :: basic_auth
  assumes d: "copyOf sp di" and f: "phaseOf (clLib c) di = Outdated"
    and w: "inState sp (\<lambda>st. st = diStatus di) w" and no: "\<And>r. res (sendSpec c di svc a spec) w \<noteq> Ok r"
  defines "m \<equiv> bindE (submitSpec c di svc a spec) (\<lambda>di. configure c di svc a)"
  shows "stepped di NoAnswer (\<exists>x. res m w = Ok x) (post m w)"
proof -
  have "stable (inState sp (\<lambda>st. st = diStatus di)) (sendSpec c di svc a spec)"
    unfolding sendSpec_def by (intro stable_intro)
  then have "inState sp (\<lambda>st. st = diStatus di) (post m w)"
    using w by (simp add: m_def send_first(3) [OF no] stable_def)
  moreover have "\<not> (\<exists>x. res m w = Ok x)" unfolding m_def by (rule send_first(2) [OF no])
  ultimately show ?thesis using f by (auto intro!: stepped_kept [OF d] ing_step.unanswered)
qed

lemma update_step:
  fixes svc and a :: basic_auth
  assumes d: "copyOf sp di" "getSpecJson (clLib c) di = Inr spec" "\<not> unrecorded (diStatus di)"
    and old: "IsEqualJson (libUnmarshalJson (clLib c)) (istCurrentIngestionSpec (diStatus di)) spec = Inr False"
    and w: "inState sp (\<lambda>st. st = diStatus di) w"
  defines "m \<equiv> bindE (submitSpec c di svc a spec) (\<lambda>di. configure c di svc a)"
  shows "stepped di (submission c di svc a w) (\<exists>x. res m w = Ok x) (post m w)"
proof -
  let ?K = "\<lambda>st. st = diStatus di \<or> recorded spec st"
  have f: "phaseOf (clLib c) di = Outdated" "sends (clLib c) di" using d old by (auto simp: phaseOf_def sends_def)
  have l: "submission c di svc a w =
      (case res (sendSpec c di svc a spec) w of Ok r \<Rightarrow> Answered (rsStatusCode r) | _ \<Rightarrow> NoAnswer)"
    using f d(2) by (simp add: submission_def)
  have conf: "triple (inState sp S) (configure c x svc a) (\<lambda>rx w. copyOf sp (snd rx) \<and> inState sp S w) (inState sp S)"
    if "copyOf sp x" "\<And>st. recorded spec st \<Longrightarrow> S st" for x S
    by (rule triple_configure [OF that(1) spec_of [OF d(1) that(1) d(2)] that(2)])
  have K: "inState sp ?K w" using w by (simp add: inState_def)
  have split: "stepped di l ok w'" if "inState sp ?K w'" "ing_step l ok Outdated Outdated" "ing_step l ok Outdated Current" for l ok w'
  proof (cases "inState sp (recorded spec) w'")
    case True
    then show ?thesis using that f(1) by (auto intro: stepped_recorded [OF d(1,2)])
  next
    case False
    then have "inState sp (\<lambda>st. st = diStatus di) w'" using that(1) by (auto simp: inState_def)
    then show ?thesis using that f(1) by (auto intro: stepped_kept [OF d(1)])
  qed
  show ?thesis
  proof (cases "res (sendSpec c di svc a spec) w")
    case (Ok r)
    show ?thesis
    proof (cases "rsStatusCode r = 200 \<and> (\<exists>x. res m w = Ok x)")
      case True
      have "triple (\<lambda>w. inState sp ?K w \<and> res (sendSpec c di svc a spec) w = Ok r) m
          (\<lambda>y w. copyOf sp (snd y) \<and> inState sp (recorded spec) w) (inState sp ?K)"
        unfolding m_def
        by (rule triple_both [OF triple_submit_accepted [OF d(1,2)] conf]) (use True in \<open>auto simp: inState_def\<close>)
      with True Ok K have "inState sp (recorded spec) (post m w)" by (auto dest: tripleD(1))
      from stepped_recorded [OF d(1,2) this] show ?thesis
        using True f(1) by (auto simp: l Ok ing_step.updated)
    next
      case False
      have "triple (inState sp ?K) m (\<lambda>y w. copyOf sp (snd y) \<and> inState sp ?K w) (inState sp ?K)"
        unfolding m_def by (rule triple_both [OF triple_submit_any [OF d(1,2)] conf]) auto
      then have "inState sp ?K (post m w)" using K by (rule triple_any)
      then show ?thesis using False by (auto simp: l Ok intro!: split ing_step.updated ing_step.pending)
    qed
  qed (simp_all add: l m_def update_lost [OF d(1) f(1) w] del: split_paired_Ex)
qed

text \<open>Creating or updating is one step of the machine, and gives back a copy of the resource.\<close>

lemma createOrUpdate_step:
  assumes d: "copyOf sp di" and w: "inState sp (\<lambda>st. st = diStatus di) w"
  shows "stepped di (submission c di svc a w) (\<exists>x. res (CreateOrUpdate c di svc a) w = Ok x) (post (CreateOrUpdate c di svc a) w)"
proof (cases "getSpecJson (clLib c) di")
  case (Inl e)
  then show ?thesis
    using w by (auto simp: CreateOrUpdate_cases(1) go_run submission_def sends_def intro!: stepped_kept [OF d] ing_step.early)
next
  case (Inr spec)
  show ?thesis
  proof (cases "unrecorded (diStatus di)")
    case True
    show ?thesis unfolding CreateOrUpdate_cases(2) [OF Inr True] by (rule create_step [OF d Inr True w])
  next
    case False
    consider e where "IsEqualJson (libUnmarshalJson (clLib c)) (istCurrentIngestionSpec (diStatus di)) spec = Inl e"
      | "IsEqualJson (libUnmarshalJson (clLib c)) (istCurrentIngestionSpec (diStatus di)) spec = Inr True"
      | "IsEqualJson (libUnmarshalJson (clLib c)) (istCurrentIngestionSpec (diStatus di)) spec = Inr False"
      by (cases "IsEqualJson (libUnmarshalJson (clLib c)) (istCurrentIngestionSpec (diStatus di)) spec") auto
    then show ?thesis
    proof cases
      case 1
      then show ?thesis using w False
        by (auto simp: CreateOrUpdate_cases(3) [OF Inr False 1] go_run submission_def sends_def Inr
            intro!: stepped_kept [OF d] ing_step.early)
    next
      case 2
      let ?K = "\<lambda>st. st = diStatus di \<or> recorded spec st"
      have p: "phaseOf (clLib c) di = Current" "submission c di svc a w = NotSent"
        using Inr False 2 by (auto simp: phaseOf_def submission_def sends_def)
      have "inState sp ?K w" using w by (simp add: inState_def)
      from triple_any [OF triple_configure [OF d Inr] this]
      have "inState sp ?K (post (CreateOrUpdate c di svc a) w)"
        by (simp add: CreateOrUpdate_cases(4) [OF Inr False 2])
      then consider "inState sp (\<lambda>st. st = diStatus di) (post (CreateOrUpdate c di svc a) w)"
        | "inState sp (recorded spec) (post (CreateOrUpdate c di svc a) w)" by (auto simp: inState_def)
      then show ?thesis
        by cases (simp_all add: p stepped_kept [OF d] stepped_recorded [OF d Inr] ing_step.settled del: split_paired_Ex)
    next
      case 3
      show ?thesis unfolding CreateOrUpdate_cases(5) [OF Inr False 3] by (rule update_step [OF d Inr False 3 w])
    qed
  qed
qed

lemma createOrUpdate_copy:
  assumes d: "copyOf sp di"
  shows "triple (inState sp (\<lambda>_. True)) (CreateOrUpdate c di svc a)
    (\<lambda>rx w. copyOf sp (snd rx) \<and> inState sp (\<lambda>_. True) w) (inState sp (\<lambda>_. True))"
proof -
  have w: "inState sp (recorded spec) w \<Longrightarrow> inState sp (\<lambda>_. True) w" for spec w by (simp add: inState_def)
  have conf: "triple (inState sp (\<lambda>_. True)) (configure c x svc a) (\<lambda>rx w. copyOf sp (snd rx) \<and> inState sp (\<lambda>_. True) w) (inState sp (\<lambda>_. True))"
    if "copyOf sp x" "getSpecJson (clLib c) di = Inr spec" for x spec
    by (rule triple_configure [OF that(1) spec_of [OF d that(1,2)]]) simp
  show ?thesis
    unfolding CreateOrUpdate_def
  proof (intro triple_bindE [OF triple_liftE, of "getSpecJson (clLib c) di" _ "\<lambda>x w. getSpecJson (clLib c) di = Inr x \<and> inState sp (\<lambda>_. True) w"])
    fix spec
    have "triple (inState sp (\<lambda>_. True)) (if unrecorded (diStatus di) then createTask c di svc a spec else updateTask c di svc a spec)
      (\<lambda>rx w. copyOf sp (snd rx) \<and> inState sp (\<lambda>_. True) w) (inState sp (\<lambda>_. True))" if g: "getSpecJson (clLib c) di = Inr spec"
    proof (cases "unrecorded (diStatus di)")
      case True
      show ?thesis using True by (auto intro!: triple_weaken [OF triple_create [OF d g]] intro: w)
    next
      case False
      have "updateTask c di svc a spec = bindE (liftE (IsEqualJson (libUnmarshalJson (clLib c)) (istCurrentIngestionSpec (diStatus di)) spec))
          (\<lambda>ok. bindE (if \<not> ok then submitSpec c di svc a spec else ret di) (\<lambda>x. configure c x svc a))"
        by (simp add: updateTask_def g liftE_def configure_defs Let_def)
      then show ?thesis using False d
        by (auto intro!: triple_then stable_intro triple_when [where C = "copyOf sp"] triple_if triple_submit_any [OF d g] triple_ret conf [OF _ g])
    qed
    then show "triple (\<lambda>w. getSpecJson (clLib c) di = Inr spec \<and> inState sp (\<lambda>_. True) w)
        (if unrecorded (diStatus di) then createTask c di svc a spec else updateTask c di svc a spec)
        (\<lambda>rx w. copyOf sp (snd rx) \<and> inState sp (\<lambda>_. True) w) (inState sp (\<lambda>_. True))"
      by (auto simp: triple_def)
  qed auto
qed

lemma sync_stable:
  assumes "copyOf sp di"
  shows "stable (inState sp S) (syncFinalizer c a di)"
proof -
  let ?x = "AddFinalizer DruidIngestionControllerFinalizer di"
  have x: "diSpec ?x = sp" "GetName ?x = name" "GetNamespace ?x = ns" "metaDeletionTimestamp (objMeta ?x) = None"
    using assms by (simp_all add: copyOf_def AddFinalizer_def SetFinalizers_def)
  have "inState sp S (post (updateFinalizersOf c ?x) w)" if "inState sp S w" for w
  proof -
    obtain r w' where u: "apiUpdate (clDruidIngestions c) ?x w = (r, w')" by fastforce
    from updates [OF _ u] that x show ?thesis
      by (auto simp: inState_def updateFinalizersOf_def sdk_defs go_run u split: outcome.split)
  qed
  then show ?thesis
    using assms by (simp add: stable_def syncFinalizer_def copyOf_def go_run)
qed

lemma sync_ok:
  assumes "copyOf sp di"
  shows "\<exists>u. res (syncFinalizer c a di) w = Ok u"
  using assms by (simp add: syncFinalizer_def copyOf_def updateFinalizersOf_def go_run sdk_defs split: outcome.split sum.split)

end

section \<open>Rounds\<close>

text \<open>
  What a reconciliation does with the spec: the answer to the submission, in the state that the
  reading of the resource, of the credentials and of the address of the router left behind; and
  whether the reconciliation of the ingestion succeeded.
\<close>

definition preparing :: "'w client \<Rightarrow> druid_ingestion \<Rightarrow> ('w, basic_auth \<times> string) io" where
  "preparing c di = bindE (GetAuthCreds c (diAuth (diSpec di))) (\<lambda>a. bindE (routerOf c di) (\<lambda>svc. ret (a, svc)))"

abbreviation reading :: "'w client \<Rightarrow> string \<Rightarrow> string \<Rightarrow> ('w, druid_ingestion) io" where
  "reading c name ns \<equiv> sdkGet (clDruidIngestions c) name ns"

definition roundSubmission :: "'w client \<Rightarrow> string \<Rightarrow> string \<Rightarrow> 'w \<Rightarrow> submission" where
  "roundSubmission c name ns w =
     (case res (reading c name ns) w of
        Ok di \<Rightarrow>
          (let w1 = post (reading c name ns) w
           in case res (preparing c di) w1 of
                Ok (a, svc) \<Rightarrow> submission c di svc a (post (preparing c di) w1)
              | _ \<Rightarrow> NotSent)
      | _ \<Rightarrow> NotSent)"

definition roundSucceeds :: "'w client \<Rightarrow> string \<Rightarrow> string \<Rightarrow> 'w \<Rightarrow> bool" where
  "roundSucceeds c name ns w =
     (case res (reading c name ns) w of
        Ok di \<Rightarrow> (case res (ingestion_do c di) (post (reading c name ns) w) of Ok _ \<Rightarrow> True | _ \<Rightarrow> False)
      | _ \<Rightarrow> False)"

lemma ingestion_do_preparing:
  "ingestion_do c di = bindE (preparing c di) (\<lambda>(a, svc). bindE (CreateOrUpdate c di svc a) (\<lambda>(_, x). syncFinalizer c a x))"
  by (simp add: ingestion_do_def preparing_def bindE_assoc)

lemma post_Reconcile:
  "post (ingestion_Reconcile c env name ns) w =
     (case res (reading c name ns) w of Ok di \<Rightarrow> post (ingestion_do c di) (post (reading c name ns) w)
      | _ \<Rightarrow> post (reading c name ns) w)"
  by (auto simp: ingestion_Reconcile_def go_run split: outcome.split option.split)

context ingestion_server
begin

lemma preparing_stable: "stable (inState sp S) (preparing c di)"
  unfolding preparing_def by (intro stable_intro)

text \<open>The reconciliation of the resource as it was read.\<close>

lemma do_step:
  assumes d: "copyOf sp di" and w: "inState sp (\<lambda>st. st = diStatus di) w"
  shows "stepped di (case res (preparing c di) w of Ok (a, svc) \<Rightarrow> submission c di svc a (post (preparing c di) w) | _ \<Rightarrow> NotSent)
    (\<exists>u. res (ingestion_do c di) w = Ok u) (post (ingestion_do c di) w)"
proof (cases "\<exists>q. res (preparing c di) w = Ok q")
  case False
  then have "post (ingestion_do c di) w = post (preparing c di) w" "\<not> (\<exists>u. res (ingestion_do c di) w = Ok u)"
    by (cases "res (preparing c di) w"; simp add: ingestion_do_preparing go_run)+
  moreover have "inState sp (\<lambda>st. st = diStatus di) (post (preparing c di) w)" using preparing_stable w by (auto simp: stable_def)
  ultimately show ?thesis using False
    by (cases "res (preparing c di) w") (auto intro!: stepped_kept [OF d] ing_step.early)
next
  case True
  then obtain a svc where q: "res (preparing c di) w = Ok (a, svc)" by auto
  let ?w1 = "post (preparing c di) w" and ?m = "CreateOrUpdate c di svc a"
  have w1: "inState sp (\<lambda>st. st = diStatus di) ?w1" using preparing_stable w by (auto simp: stable_def)
  note step = createOrUpdate_step [OF d w1, of svc a]
  show ?thesis
  proof (cases "res ?m ?w1")
    case (Ok rx)
    have T: "inState sp (\<lambda>_. True) ?w1" using w1 by (simp add: inState_def)
    have x: "copyOf sp (snd rx)" using tripleD(1) [OF createOrUpdate_copy [OF d] T Ok] by simp
    obtain u where u: "res (syncFinalizer c a (snd rx)) (post ?m ?w1) = Ok u" using sync_ok [OF x] by blast
    have r: "res (ingestion_do c di) w = Ok u" "post (ingestion_do c di) w = post (syncFinalizer c a (snd rx)) (post ?m ?w1)"
      using q Ok u by (cases rx; simp add: ingestion_do_preparing go_run)+
    have s: "inState sp (\<lambda>st. st = diStatus (stored (post ?m ?w1))) (post ?m ?w1)"
      using step d by (simp add: stepped_def inState_def copyOf_def)
    then have "inState sp (\<lambda>st. st = diStatus (stored (post ?m ?w1))) (post (ingestion_do c di) w)"
      using sync_stable [OF x] by (simp add: r(2) stable_def)
    then have "phaseOf (clLib c) (stored (post (ingestion_do c di) w)) = phaseOf (clLib c) (stored (post ?m ?w1))"
      using s by (intro phase_cong) (simp_all add: inState_def)
    then show ?thesis using step Ok r(1) q d \<open>inState sp _ (post (ingestion_do c di) w)\<close>
      by (simp add: stepped_def inState_def copyOf_def)
  next
    case (Err e)
    then show ?thesis using step q by (simp add: ingestion_do_preparing go_run)
  next
    case (Panic e)
    then show ?thesis using step q by (simp add: ingestion_do_preparing go_run)
  qed
qed

lemma round_simulates:
  fixes env
  assumes "good w"
  defines "w' \<equiv> post (ingestion_Reconcile c env name ns) w"
  shows "good w' \<and> diSpec (stored w') = diSpec (stored w)
    \<and> ing_step (roundSubmission c name ns w) (roundSucceeds c name ns w) (phaseOf (clLib c) (stored w)) (phaseOf (clLib c) (stored w'))"
proof -
  let ?sp = "diSpec (stored w)" and ?S = "\<lambda>st. st = diStatus (stored w)" and ?w1 = "post (reading c name ns) w"
  have w: "inState ?sp ?S w" using assms(1) by (simp add: inState_def)
  note rd = tripleD [OF triple_read w]
  show ?thesis
  proof (cases "\<exists>di. res (reading c name ns) w = Ok di")
    case True
    then obtain di where di: "res (reading c name ns) w = Ok di" by blast
    from rd(1) [OF this] have w1: "inState ?sp ?S ?w1" "stored ?w1 = di" by simp_all
    then have d: "copyOf ?sp di" "inState ?sp (\<lambda>st. st = diStatus di) ?w1" "diStatus di = diStatus (stored w)"
      using inState_copy [OF w1(1)] by (auto simp: inState_def)
    have p: "phaseOf (clLib c) di = phaseOf (clLib c) (stored w)" using d by (intro phase_cong) (simp_all add: copyOf_def)
    show ?thesis
      using do_step [OF d(1,2)] d(1) p
      by (auto simp: w'_def post_Reconcile di roundSubmission_def roundSucceeds_def stepped_def copyOf_def Let_def
          split: outcome.splits)
  next
    case False
    then have "w' = ?w1" "roundSubmission c name ns w = NotSent" "\<not> roundSucceeds c name ns w"
      by (auto simp: w'_def post_Reconcile roundSubmission_def roundSucceeds_def split: outcome.split)
    moreover have i: "inState ?sp ?S ?w1" using rd(2) False by blast
    moreover have "phaseOf (clLib c) (stored ?w1) = phaseOf (clLib c) (stored w)" using i by (intro phase_cong) (simp_all add: inState_def)
    ultimately show ?thesis by (simp add: inState_def ing_step.early)
  qed
qed

end

text \<open>Requests to Druid that concern compaction settings or rules.\<close>

fun configCall :: "golib \<Rightarrow> effect \<Rightarrow> bool" where
  "configCall lib (HttpCall rq) = (\<exists>svc ds. rqURL rq \<in>
     {MakePath lib svc ''coordinator'' ''config'' [''compaction'', ds], MakePath lib svc ''coordinator'' ''config'' [''compaction''],
      MakePath lib svc ''coordinator'' ''rules'' [ds]})"
| "configCall lib _ = True"

lemma only_config_api [only_intro]:
  "only (configCall lib) (sdkGet api n ns)" "only (configCall lib) (sdkList api ns ls)"
  "only (configCall lib) (sdkUpdate api x)" "only (configCall lib) (sdkStatusPatch api p x)"
  "only (configCall lib) (Event t r m)"
  by (simp_all add: only_def sdk_defs go_run Event_def)

lemma only_config_http:
  "(\<exists>svc ds. url \<in> {MakePath (clLib c) svc ''coordinator'' ''config'' [''compaction'', ds],
      MakePath (clLib c) svc ''coordinator'' ''config'' [''compaction''], MakePath (clLib c) svc ''coordinator'' ''rules'' [ds]}) \<Longrightarrow>
   only (configCall (clLib c)) (httpDo c a mt url body)"
  by (auto simp: only_def httpDo_run reqOf_def split: option.split)

lemma only_config [only_intro]:
  "only (configCall (clLib c)) (UpdateCompaction c di svc a)" "only (configCall (clLib c)) (UpdateRules c di svc a)"
  "only (configCall (clLib c)) (makePatchDruidIngestionStatus c di t msg reason st ty)"
  "only (configCall (clLib c)) (GetAuthCreds c auth)" "only (configCall (clLib c)) (routerOf c di)"
  unfolding UpdateCompaction_def UpdateRules_def makePatchDruidIngestionStatus_def patchStatus_def GetAuthCreds_def
    routerOf_def GetRouterSvcUrl_def Let_def
  by (intro only_intro only_config_http; auto)+

lemma only_configure: "only (configCall (clLib c)) (configure c di svc a)" "only (configCall (clLib c)) (preparing c di)"
  unfolding configure_defs recordUpdate_def preparing_def by (intro only_intro)+

lemma not_sent_config:
  assumes "submission c di svc a w = NotSent"
  shows "only (configCall (clLib c)) (CreateOrUpdate c di svc a)"
proof -
  have "\<not> sends (clLib c) di"
    using assms by (auto simp: submission_def sends_def split: if_splits sum.splits outcome.splits)
  show ?thesis
  proof (cases "getSpecJson (clLib c) di")
    case (Inl e)
    then show ?thesis by (simp add: CreateOrUpdate_cases(1) only_throw)
  next
    case (Inr spec)
    with \<open>\<not> sends (clLib c) di\<close> have n: "\<not> unrecorded (diStatus di)" by (auto simp: sends_def)
    show ?thesis
    proof (cases "IsEqualJson (libUnmarshalJson (clLib c)) (istCurrentIngestionSpec (diStatus di)) spec")
      case e: (Inl e)
      show ?thesis unfolding CreateOrUpdate_cases(3) [OF Inr n e] by (rule only_throw)
    next
      case e: (Inr b)
      with \<open>\<not> sends (clLib c) di\<close> Inr have "b" by (cases b) (auto simp: sends_def)
      with e show ?thesis by (simp add: CreateOrUpdate_cases(4) [OF Inr n] only_configure)
    qed
  qed
qed

context ingestion_server
begin

lemma quiet_round:
  assumes "good w" "roundSubmission c name ns w = NotSent"
  shows "list_all (configCall (clLib c)) (effs (ingestion_Reconcile c env name ns) w)"
proof (cases "res (reading c name ns) w")
  case (Ok di)
  let ?w1 = "post (reading c name ns) w" and ?P = "configCall (clLib c)"
  have "inState (diSpec (stored w)) (\<lambda>_. True) w" using assms(1) by (simp add: inState_def)
  from tripleD(1) [OF triple_read this Ok] have d: "copyOf (diSpec (stored w)) di" "inState (diSpec (stored w)) (\<lambda>_. True) ?w1"
    using inState_copy by auto
  have sync: "list_all ?P (effs (syncFinalizer c a x) v)" if "copyOf (diSpec (stored w)) x" for a x v
    using that by (auto simp: syncFinalizer_def copyOf_def update_effs wraps go_run)
  have "list_all ?P (effs (ingestion_do c di) ?w1)"
  proof (cases "\<exists>q. res (preparing c di) ?w1 = Ok q")
    case True
    then obtain a svc where q: "res (preparing c di) ?w1 = Ok (a, svc)" by auto
    let ?w2 = "post (preparing c di) ?w1"
    have "inState (diSpec (stored w)) (\<lambda>_. True) ?w2" using preparing_stable d(2) by (auto simp: stable_def)
    note cu = tripleD(1) [OF createOrUpdate_copy [OF d(1)] this]
    have "submission c di svc a ?w2 = NotSent" using assms(2) Ok q by (simp add: roundSubmission_def)
    then have "list_all ?P (effs (CreateOrUpdate c di svc a) ?w2)"
      by (rule not_sent_config [unfolded only_def, THEN spec])
    moreover have "list_all ?P (effs (preparing c di) ?w1)" using only_configure(2) [of c di] by (simp add: only_def)
    ultimately show ?thesis using q cu sync
      by (cases "res (CreateOrUpdate c di svc a) ?w2") (auto simp: ingestion_do_preparing go_run split: prod.splits)
  next
    case False
    then show ?thesis using only_configure(2) [of c di]
      by (cases "res (preparing c di) ?w1") (auto simp: ingestion_do_preparing go_run only_def)
  qed
  then show ?thesis using Ok
    by (auto simp: ingestion_Reconcile_def go_run sdk_defs split: outcome.splits option.splits)
qed (auto simp: ingestion_Reconcile_def go_run sdk_defs split: if_splits)

end

section \<open>Any number of rounds\<close>

text \<open>
  A run: rounds of the controller, and in between whatever \<open>env\<close> allows. Of each round it keeps
  what became of the spec, whether the round succeeded, and its requests.
\<close>

inductive ing_rounds :: "'w client \<Rightarrow> (string \<Rightarrow> string option) \<Rightarrow> string \<Rightarrow> string \<Rightarrow> ('w \<Rightarrow> 'w \<Rightarrow> bool)
    \<Rightarrow> 'w \<Rightarrow> (submission \<times> bool \<times> effect list) list \<Rightarrow> 'w \<Rightarrow> bool"
  for c env name ns alike w where
  begin_rounds: "ing_rounds c env name ns alike w [] w"
| one_round: "ing_rounds c env name ns alike w rs w1 \<Longrightarrow> alike w1 w2 \<Longrightarrow>
    ing_rounds c env name ns alike w
      (rs @ [(roundSubmission c name ns w2, roundSucceeds c name ns w2, effs (ingestion_Reconcile c env name ns) w2)])
      (post (ingestion_Reconcile c env name ns) w2)"

text \<open>Between two rounds anything may change but the spec and the recorded status of the resource.\<close>

definition leavesAlone :: "('w \<Rightarrow> bool) \<Rightarrow> ('w \<Rightarrow> druid_ingestion) \<Rightarrow> 'w \<Rightarrow> 'w \<Rightarrow> bool" where
  "leavesAlone good stored w w' \<longleftrightarrow> good w' \<and> diSpec (stored w') = diSpec (stored w) \<and> diStatus (stored w') = diStatus (stored w)"

fun accepted :: "submission \<times> bool \<times> effect list \<Rightarrow> bool" where
  "accepted (l, ok, es) = (l = Answered 200 \<and> ok)"

fun quiet :: "golib \<Rightarrow> submission \<times> bool \<times> effect list \<Rightarrow> bool" where
  "quiet lib (l, ok, es) = (l = NotSent \<and> list_all (configCall lib) es)"

context ingestion_server
begin

text \<open>Once a round has been accepted the declared spec is the recorded one, and every later round is quiet.\<close>

lemma run_settles:
  assumes "ing_rounds c env name ns (leavesAlone good stored) w rs w'" "good w"
  shows "good w' \<and> ((\<exists>r \<in> set rs. accepted r) \<longrightarrow> phaseOf (clLib c) (stored w') = Current)
    \<and> (\<forall>pre r later. rs = pre @ r # later \<longrightarrow> accepted r \<longrightarrow> list_all (quiet (clLib c)) later)"
  using assms
proof (induction rule: ing_rounds.induct)
  case (one_round rs w1 w2)
  let ?w' = "post (ingestion_Reconcile c env name ns) w2"
  let ?r = "(roundSubmission c name ns w2, roundSucceeds c name ns w2, effs (ingestion_Reconcile c env name ns) w2)"
  have ih: "(\<exists>r \<in> set rs. accepted r) \<Longrightarrow> phaseOf (clLib c) (stored w1) = Current"
    "\<And>pre r later. rs = pre @ r # later \<Longrightarrow> accepted r \<Longrightarrow> list_all (quiet (clLib c)) later"
    using one_round by blast+
  have g: "good w2" and p: "phaseOf (clLib c) (stored w2) = phaseOf (clLib c) (stored w1)"
    using one_round.hyps(2) by (auto simp: leavesAlone_def intro: phase_cong)
  note st = round_simulates [OF g, of env]
  have later: "quiet (clLib c) ?r \<and> phaseOf (clLib c) (stored ?w') = Current" if "\<exists>r \<in> set rs. accepted r"
  proof -
    from st ih(1) [OF that] p have "ing_step (roundSubmission c name ns w2) (roundSucceeds c name ns w2) Current (phaseOf (clLib c) (stored ?w'))"
      by simp
    then show ?thesis using quiet_round [OF g, of env] by auto
  qed
  have now: "phaseOf (clLib c) (stored ?w') = Current" if "accepted ?r"
    using st that by (auto simp: ing_step_accepted)
  have "list_all (quiet (clLib c)) l" if "rs @ [?r] = pre @ r # l" "accepted r" for pre r l
  proof (cases l rule: rev_cases)
    case (snoc l' x)
    with that have "rs = pre @ r # l'" "x = ?r" by auto
    with ih(2) [of pre r l'] later that(2) snoc show ?thesis by auto
  qed simp
  then show ?case using st later now by auto
qed simp

text \<open>As long as every round fails, a resource without a record stays without one.\<close>

lemma run_forgets:
  assumes "ing_rounds c env name ns (leavesAlone good stored) w rs w'" "good w"
    and "phaseOf (clLib c) (stored w) = Fresh" "\<forall>(l, ok, es) \<in> set rs. \<not> ok"
  shows "good w' \<and> diSpec (stored w') = diSpec (stored w) \<and> phaseOf (clLib c) (stored w') = Fresh"
  using assms
proof (induction rule: ing_rounds.induct)
  case (one_round rs w1 w2)
  have g: "good w2" and s: "diSpec (stored w2) = diSpec (stored w1)" and p: "phaseOf (clLib c) (stored w2) = phaseOf (clLib c) (stored w1)"
    using one_round.hyps(2) by (auto simp: leavesAlone_def intro: phase_cong)
  have "\<not> roundSucceeds c name ns w2" using one_round.prems by auto
  with round_simulates [OF g, of env] one_round s p show ?case by (auto simp: ing_step_from_Fresh)
qed simp

lemma fresh_unrecorded: "phaseOf lib di = Fresh \<Longrightarrow> unrecorded (diStatus di)"
  by (auto simp: phaseOf_def split: if_splits sum.splits)

lemma fresh_round_posts:
  assumes "good w" "phaseOf (clLib c) (stored w) = Fresh" "getSpecJson (clLib c) (stored w) = Inr spec"
    and "res (reading c name ns) w = Ok di" "res (preparing c di) (post (reading c name ns) w) = Ok (a, svc)"
    and "libParseURL (clLib c) (getPath (clLib c) (inType (ingestionOf (stored w))) svc MethodPost [] False) = None"
  shows "HttpCall (reqOf a MethodPost (getPath (clLib c) (inType (ingestionOf (stored w))) svc MethodPost [] False) spec)
    \<in> set (effs (ingestion_Reconcile c env name ns) w)"
proof -
  have "inState (diSpec (stored w)) (\<lambda>st. st = diStatus (stored w)) w" using assms(1) by (simp add: inState_def)
  from tripleD(1) [OF triple_read this assms(4)] have d: "diSpec di = diSpec (stored w)" "diStatus di = diStatus (stored w)"
    by (auto simp: inState_def)
  have "CreateOrUpdate c di svc a = createTask c di svc a spec"
    using fresh_unrecorded [OF assms(2)] getSpec_cong [OF d(1)] assms(3) d(2) by (intro CreateOrUpdate_cases(2)) simp_all
  then have "HttpCall (reqOf a MethodPost (getPath (clLib c) (inType (ingestionOf di)) svc MethodPost [] False) spec)
      \<in> set (effs (CreateOrUpdate c di svc a) v)" for v
    using assms(6) d(1) by (simp add: createTask_def Let_def in_bindE httpDo_run)
  then show ?thesis
    using assms(4,5) d(1) by (auto simp: ingestion_Reconcile_def ingestion_do_preparing go_run sdk_defs split: outcome.splits prod.splits)
qed

text \<open>A refused spec is recorded as current when the compaction settings are updated in the same round.\<close>

lemma refused_recorded:
  assumes "good w" "getSpecJson (clLib c) (stored w) = Inr spec" "\<not> unrecorded (diStatus (stored w))"
    and "IsEqualJson (libUnmarshalJson (clLib c)) (istCurrentIngestionSpec (diStatus (stored w))) spec = Inr False"
    and "res (sendSpec c (stored w) svc a spec) w = Ok r" "rsStatusCode r \<noteq> 200"
    and "res (UpdateCompaction c (stored w) svc a) (post (sendSpec c (stored w) svc a spec) w) = Ok True"
    and "res (CreateOrUpdate c (stored w) svc a) w = Ok x"
  shows "phaseOf (clLib c) (stored (post (CreateOrUpdate c (stored w) svc a) w)) = Current"
proof -
  let ?di = "stored w" and ?sp = "diSpec (stored w)" and ?w1 = "post (sendSpec c (stored w) svc a spec) w"
  let ?rest = "bindE (recordUpdate c (stored w) ''compaction updated'') (\<lambda>x. configureRules c x svc a)"
  have s: "res (submitSpec c ?di svc a spec) w = Ok ?di" "post (submitSpec c ?di svc a spec) w = ?w1"
    using assms(5,6) by (simp_all add: submitSpec_def sendSpec_def go_run Let_def)
  let ?w2 = "post (UpdateCompaction c ?di svc a) ?w1"
  have m: "res (CreateOrUpdate c ?di svc a) w = res ?rest ?w2" "post (CreateOrUpdate c ?di svc a) w = post ?rest ?w2"
    unfolding CreateOrUpdate_cases(5) [OF assms(2-4)] configure_def using s assms(7) by (simp_all add: go_run)
  have d: "copyOf ?sp ?di" using assms(1) by (auto simp: inState_def intro: inState_copy [of _ "\<lambda>_. True"])
  have w2: "inState ?sp (\<lambda>_. True) ?w2"
    using assms(1) stable_elsewhere(1) stable_druid(1) by (auto simp: sendSpec_def stable_def inState_def)
  have "triple (inState ?sp (\<lambda>_. True)) ?rest (\<lambda>rx w. copyOf ?sp (snd rx) \<and> inState ?sp (recorded spec) w) (inState ?sp (\<lambda>_. True))"
    by (rule triple_both [OF triple_recordUpdate [OF d assms(2)] triple_configureRules [OF d assms(2)]])
      (auto simp: inState_def)
  from tripleD(1) [OF this w2] assms(8) m show ?thesis using phase_recorded [OF d assms(2)] by simp
qed

end

section \<open>A server in memory\<close>

text \<open>
  The state is the resource itself; Druid answers by the request. Its services are one router,
  and nothing else is there.
\<close>

definition idleApi :: "kind \<Rightarrow> ('o \<Rightarrow> kobj) \<Rightarrow> ('w, 'o) resource_api" where
  "idleApi kd wrap = \<lparr>apiKind = kd, apiWrap = wrap, apiGet = (\<lambda>_ _ w. (Inl (NotFoundErr ''not found''), w)),
     apiList = (\<lambda>_ _ w. (Inr [], w)), apiCreate = (\<lambda>x w. (Inr x, w)), apiUpdate = (\<lambda>x w. (Inr x, w)),
     apiDelete = (\<lambda>_ _ w. (Inr (), w)), apiPatch = (\<lambda>_ x w. (Inr x, w)), apiStatusPatch = (\<lambda>_ x w. (Inr x, w))\<rparr>"

definition oneIngestion :: "(druid_ingestion, druid_ingestion) resource_api" where
  "oneIngestion = (idleApi DruidIngestionKind KDruidIngestion)\<lparr>apiGet := (\<lambda>_ _ w. (Inr w, w)),
     apiUpdate := (\<lambda>x w. (Inr x, w\<lparr>objMeta := objMeta x\<rparr>)),
     apiStatusPatch := (\<lambda>_ x w. (Inr x, w\<lparr>diStatus := diStatus x\<rparr>))\<rparr>"

definition aRouter :: service where
  "aRouter = \<lparr>tmAPIVersion = ''v1'', tmKind = ''Service'', objMeta = metaOf ''r'' (Some crLabels),
     svcSelector = None, svcPorts = None, svcClusterIP = [], svcRest = []\<rparr>"

definition ingestionClient :: "(http_request \<Rightarrow> http_response) \<Rightarrow> druid_ingestion client" where
  "ingestionClient answer = \<lparr>clConfigMaps = idleApi ConfigMapKind KConfigMap,
     clServices = (idleApi ServiceKind KService)\<lparr>apiList := (\<lambda>_ _ w. (Inr [aRouter], w))\<rparr>,
     clStatefulSets = idleApi StatefulSetKind KStatefulSet, clDeployments = idleApi DeploymentKind KDeployment,
     clPods = idleApi PodKind KPod, clPVCs = idleApi PVCKind KPVC, clPDBs = idleApi PDBKind KPDB,
     clHPAs = idleApi HPAKind KHPA, clIngresses = idleApi IngressKind KIngress,
     clStorageClasses = idleApi StorageClassKind KStorageClass, clSecrets = idleApi SecretKind KSecret,
     clDruids = idleApi DruidKind KDruid, clDruidIngestions = oneIngestion,
     clHttp = (\<lambda>rq w. (Inr (answer rq), w)), clNow = (\<lambda>w. (0, w)), clLib = ingLib\<rparr>"

definition present :: "druid_ingestion \<Rightarrow> bool" where
  "present di \<longleftrightarrow> GetName di = ''i'' \<and> GetNamespace di = ''ns'' \<and> metaDeletionTimestamp (objMeta di) = None"

interpretation memory: ingestion_server "ingestionClient answer" "''i''" "''ns''" present "\<lambda>di. di" for answer
proof
  show "libMarshalJson (clLib (ingestionClient answer)) v = Inr t \<Longrightarrow>
      t \<noteq> [] \<and> (\<exists>v'. libUnmarshalJson (clLib (ingestionClient answer)) t = Inr v')" for v t
    by (auto simp: ingestionClient_def ingLib_def ingJson_def split: if_splits)
qed (auto simp: ingestionClient_def idleApi_def oneIngestion_def present_def)

text \<open>Druid answers: the spec with one status, a question for compaction with another, the rest with 200.\<close>

definition answers :: "int \<Rightarrow> int \<Rightarrow> http_request \<Rightarrow> http_response" where
  "answers onSpec onGet rq = \<lparr>rsBody = ''t2'',
     rsStatusCode = (if rqBody rq = ''S'' then onSpec else if rqMethod rq = MethodGet then onGet else 200)\<rparr>"

definition compacting :: "druid_ingestion \<Rightarrow> druid_ingestion" where
  "compacting di = di\<lparr>diSpec := (diSpec di)\<lparr>diIngestion := (ingestionOf di)\<lparr>inCompaction := Some ''C''\<rparr>\<rparr>\<rparr>"

section \<open>Properties\<close>

text \<open>
  C19 (refinement). A reconciliation of an ingestion is one step of the machine, whichever of its
  requests fail: from a resource without a record, a round that succeeds has sent the spec and
  recorded it, and a round that fails has recorded nothing; a recorded spec that is not the
  declared one is replaced only after the declared one was sent and answered, and is always
  replaced by a successful round with the answer 200; once the declared spec is the recorded one,
  it is not sent any more.
\<close>

theorem ingestion_round_refines:
  assumes "ingestion_server c name ns good stored" "good w"
  shows "good (post (ingestion_Reconcile c env name ns) w)
    \<and> diSpec (stored (post (ingestion_Reconcile c env name ns) w)) = diSpec (stored w)
    \<and> ing_step (roundSubmission c name ns w) (roundSucceeds c name ns w)
        (phaseOf (clLib c) (stored w)) (phaseOf (clLib c) (stored (post (ingestion_Reconcile c env name ns) w)))"
  by (rule ingestion_server.round_simulates [OF assms])

theorem ingestion_round_refines_witness:
  "ing_step (Answered 200) True Fresh (phaseOf ingLib
     (post (ingestion_Reconcile (ingestionClient (answers 200 404)) (\<lambda>_. None) ''i'' ''ns'') sampleIngestion))"
proof -
  have "present sampleIngestion" by code_simp
  moreover have "roundSubmission (ingestionClient (answers 200 404)) ''i'' ''ns'' sampleIngestion = Answered 200"
    "roundSucceeds (ingestionClient (answers 200 404)) ''i'' ''ns'' sampleIngestion"
    "phaseOf (clLib (ingestionClient (answers 200 404))) sampleIngestion = Fresh"
    by code_simp+
  ultimately show ?thesis
    using ingestion_round_refines [OF memory.ingestion_server_axioms, of sampleIngestion "answers 200 404" "\<lambda>_. None"]
    by (simp add: ingestionClient_def)
qed

text \<open>
  C20 (liveness). In any run of the controller, after a round in which Druid answered the submission
  with 200 and which succeeded, no later round sends the spec again: its requests to Druid concern
  compaction settings and rules only. Rounds may fail at any request, and anything but the spec
  and the recorded status may change between them.
\<close>

theorem accepted_spec_not_sent_again:
  assumes "ingestion_server c name ns good stored" "good w"
    and "ing_rounds c env name ns (leavesAlone good stored) w (before @ r # later) w'" "accepted r"
  shows "list_all (quiet (clLib c)) later \<and> phaseOf (clLib c) (stored w') = Current"
proof -
  note k = ingestion_server.run_settles [OF assms(1,3,2)]
  have "\<exists>x \<in> set (before @ r # later). accepted x" using assms(4) by simp
  with k assms(4) show ?thesis by blast
qed

theorem accepted_spec_not_sent_again_witness:
  "let c = ingestionClient (answers 200 404); w1 = post (ingestion_Reconcile c (\<lambda>_. None) ''i'' ''ns'') sampleIngestion
   in roundSubmission c ''i'' ''ns'' sampleIngestion = Answered 200 \<and>
     quiet ingLib (roundSubmission c ''i'' ''ns'' w1, roundSucceeds c ''i'' ''ns'' w1,
       effs (ingestion_Reconcile c (\<lambda>_. None) ''i'' ''ns'') w1)"
proof -
  let ?c = "ingestionClient (answers 200 404)" and ?w1 = "post (ingestion_Reconcile (ingestionClient (answers 200 404)) (\<lambda>_. None) ''i'' ''ns'') sampleIngestion"
  let ?r = "\<lambda>w. (roundSubmission ?c ''i'' ''ns'' w, roundSucceeds ?c ''i'' ''ns'' w, effs (ingestion_Reconcile ?c (\<lambda>_. None) ''i'' ''ns'') w)"
  have p: "present sampleIngestion" "present ?w1" by code_simp+
  have a: "roundSubmission ?c ''i'' ''ns'' sampleIngestion = Answered 200" "roundSucceeds ?c ''i'' ''ns'' sampleIngestion"
    by code_simp+
  have "ing_rounds ?c (\<lambda>_. None) ''i'' ''ns'' (leavesAlone present (\<lambda>di. di)) sampleIngestion (([] @ [?r sampleIngestion]) @ [?r ?w1])
      (post (ingestion_Reconcile ?c (\<lambda>_. None) ''i'' ''ns'') ?w1)"
    using p by (intro ing_rounds.one_round [OF ing_rounds.one_round [OF ing_rounds.begin_rounds]]) (simp_all add: leavesAlone_def)
  then have run: "ing_rounds ?c (\<lambda>_. None) ''i'' ''ns'' (leavesAlone present (\<lambda>di. di)) sampleIngestion ([] @ ?r sampleIngestion # [?r ?w1])
      (post (ingestion_Reconcile ?c (\<lambda>_. None) ''i'' ''ns'') ?w1)" by simp
  have "clLib ?c = ingLib" by (simp add: ingestionClient_def)
  then show ?thesis
    using accepted_spec_not_sent_again [OF memory.ingestion_server_axioms p(1) run] a by simp
qed

text \<open>
  C33 (safety). As long as nothing has been recorded of an ingestion, that is on the path of its
  first submission, a round that fails after Druid accepted the task, for example because the
  compaction settings could not be read, records nothing: after any number of rounds that all
  failed, the next round that reads the resource, its credentials and the router, and whose URL can
  be parsed, posts the same spec to Druid again. (Once a task is recorded, an accepted update is
  patched into the status at once.)
\<close>

theorem failed_rounds_submit_again:
  assumes "ingestion_server c name ns good stored" "good w"
    and "phaseOf (clLib c) (stored w) = Fresh" "getSpecJson (clLib c) (stored w) = Inr spec"
    and "ing_rounds c env name ns (leavesAlone good stored) w rs w'" "\<forall>(l, ok, es) \<in> set rs. \<not> ok"
    and "res (reading c name ns) w' = Ok di" "res (preparing c di) (post (reading c name ns) w') = Ok (a, svc)"
    and "libParseURL (clLib c) (getPath (clLib c) (inType (ingestionOf (stored w))) svc MethodPost [] False) = None"
  shows "HttpCall (reqOf a MethodPost (getPath (clLib c) (inType (ingestionOf (stored w))) svc MethodPost [] False) spec)
    \<in> set (effs (ingestion_Reconcile c env name ns) w')"
proof -
  have f: "good w'" "diSpec (stored w') = diSpec (stored w)" "phaseOf (clLib c) (stored w') = Fresh"
    using ingestion_server.run_forgets [OF assms(1,5,2,3,6)] by simp_all
  show ?thesis
    using ingestion_server.fresh_round_posts [OF assms(1) f(1,3) _ assms(7,8), of spec env] f(2) assms(4,9)
      getSpec_cong [OF f(2)] by simp
qed

theorem failed_rounds_submit_again_witness:
  "let c = ingestionClient (answers 200 500); di = compacting sampleIngestion;
       w1 = post (ingestion_Reconcile c (\<lambda>_. None) ''i'' ''ns'') di
   in roundSubmission c ''i'' ''ns'' di = Answered 200 \<and> \<not> roundSucceeds c ''i'' ''ns'' di
     \<and> (\<exists>rq. HttpCall rq \<in> set (effs (ingestion_Reconcile c (\<lambda>_. None) ''i'' ''ns'') w1) \<and> rqBody rq = ''S'')"
proof -
  let ?c = "ingestionClient (answers 200 500)" and ?di = "compacting sampleIngestion"
  let ?w1 = "post (ingestion_Reconcile (ingestionClient (answers 200 500)) (\<lambda>_. None) ''i'' ''ns'') (compacting sampleIngestion)"
  let ?r = "(roundSubmission ?c ''i'' ''ns'' ?di, roundSucceeds ?c ''i'' ''ns'' ?di, effs (ingestion_Reconcile ?c (\<lambda>_. None) ''i'' ''ns'') ?di)"
  have p: "present ?di" "roundSubmission ?c ''i'' ''ns'' ?di = Answered 200" "\<not> roundSucceeds ?c ''i'' ''ns'' ?di"
    "phaseOf (clLib ?c) ?di = Fresh" "getSpecJson (clLib ?c) ?di = Inr ''S''"
    "res (reading ?c ''i'' ''ns'') ?w1 = Ok ?w1"
    "res (preparing ?c ?w1) (post (reading ?c ''i'' ''ns'') ?w1) = Ok (noAuth, ''http://r.ns:8088'')"
    by code_simp+
  have run: "ing_rounds ?c (\<lambda>_. None) ''i'' ''ns'' (leavesAlone present (\<lambda>di. di)) ?di ([] @ [?r]) ?w1"
    using p(1) by (intro ing_rounds.one_round [OF ing_rounds.begin_rounds]) (simp add: leavesAlone_def)
  have "\<forall>(l, ok, es) \<in> set ([] @ [?r]). \<not> ok" using p(3) by simp
  from failed_rounds_submit_again [OF memory.ingestion_server_axioms p(1,4,5) run this p(6,7)] p(2,3) show ?thesis
    by (auto simp: Let_def ingestionClient_def reqOf_def intro!: exI)
qed

text \<open>
  C34 (safety). A changed spec that Druid refused, which the controller passes over, is recorded as
  the current spec when the compaction settings are updated in the same round; by the refinement
  it is then never sent again.
\<close>

theorem refused_spec_recorded_as_current:
  assumes "ingestion_server c name ns good stored" "good w" "getSpecJson (clLib c) (stored w) = Inr spec"
    and "\<not> unrecorded (diStatus (stored w))"
    and "IsEqualJson (libUnmarshalJson (clLib c)) (istCurrentIngestionSpec (diStatus (stored w))) spec = Inr False"
    and "res (sendSpec c (stored w) svc a spec) w = Ok r" "rsStatusCode r \<noteq> 200"
    and "res (UpdateCompaction c (stored w) svc a) (post (sendSpec c (stored w) svc a spec) w) = Ok True"
    and "res (CreateOrUpdate c (stored w) svc a) w = Ok x"
  shows "phaseOf (clLib c) (stored (post (CreateOrUpdate c (stored w) svc a) w)) = Current"
  by (rule ingestion_server.refused_recorded [OF assms])

theorem refused_spec_recorded_as_current_witness:
  "phaseOf ingLib (post (CreateOrUpdate (ingestionClient (answers 400 404)) (compacting (withStatus ''t1'' ''{}'' sampleIngestion))
     ''http://r'' noAuth) (compacting (withStatus ''t1'' ''{}'' sampleIngestion))) = Current"
proof -
  let ?c = "ingestionClient (answers 400 404)" and ?di = "compacting (withStatus ''t1'' ''{}'' sampleIngestion)"
  have p: "present ?di" "getSpecJson (clLib ?c) ?di = Inr ''S''" "\<not> unrecorded (diStatus ?di)"
    "IsEqualJson (libUnmarshalJson (clLib ?c)) (istCurrentIngestionSpec (diStatus ?di)) ''S'' = Inr False"
    "res (sendSpec ?c ?di ''http://r'' noAuth ''S'') ?di = Ok \<lparr>rsBody = ''t2'', rsStatusCode = 400\<rparr>"
    "res (UpdateCompaction ?c ?di ''http://r'' noAuth) (post (sendSpec ?c ?di ''http://r'' noAuth ''S'') ?di) = Ok True"
    by code_simp+
  have "case res (CreateOrUpdate ?c ?di ''http://r'' noAuth) ?di of Ok _ \<Rightarrow> True | _ \<Rightarrow> False" by code_simp
  then obtain x where "res (CreateOrUpdate ?c ?di ''http://r'' noAuth) ?di = Ok x" by (auto split: outcome.splits)
  from refused_spec_recorded_as_current [OF memory.ingestion_server_axioms p(1-5) _ p(6) this] show ?thesis
    by (simp add: ingestionClient_def)
qed

end
