(* ===== verification/Volume_Lifecycle.thy ===== *)
theory Volume_Lifecycle
  imports Cluster_Deploy Object_Store Round_Logic Faulty_Connection
begin

text \<open>
  The life of the volumes of one node group with one claim template, over many reconciliations.
  The abstract state is the template size of the StatefulSet, if there is one, and the size of
  every claim of the group; the machine \<open>vol_step\<close> moves it with whether a round got to compare
  the sizes and whether the round succeeded. Proved: each run of \<^verbatim>\<open>node_statefulset\<close> (volume
  expansion, then the synchronisation of the StatefulSet, then the checks) is one step of the
  machine, against any server with the contract \<open>volume_server\<close>, whichever of its requests fail
  and whether or not a failed request took effect; a claim is never given another size than the
  declared one; and once a round that compared the sizes succeeded, the StatefulSet and every
  claim have the declared size for good.
\<close>

section \<open>The machine\<close>

type_synonym volumes = "quantity option \<times> (string \<rightharpoonup> quantity)"

text \<open>Some of the claims have got the size \<open>q\<close>; all of them have.\<close>

definition grows :: "quantity \<Rightarrow> (string \<rightharpoonup> quantity) \<Rightarrow> (string \<rightharpoonup> quantity) \<Rightarrow> bool" where
  "grows q cl cl' \<longleftrightarrow> (\<forall>x. cl' x = cl x \<or> cl x \<noteq> None \<and> cl' x = Some q)"

definition resized :: "quantity \<Rightarrow> (string \<rightharpoonup> quantity) \<Rightarrow> (string \<rightharpoonup> quantity)" where
  "resized q cl = (\<lambda>x. map_option (\<lambda>_. q) (cl x))"

inductive vol_step :: "quantity \<Rightarrow> bool \<Rightarrow> bool \<Rightarrow> volumes \<Rightarrow> volumes \<Rightarrow> bool" for q where
  blind: "sz' = sz \<or> sz = None \<and> sz' = Some q \<Longrightarrow> ok \<longrightarrow> sz' = Some q \<Longrightarrow> vol_step q False ok (sz, cl) (sz', cl)"
| refused: "q < c \<Longrightarrow> vol_step q True False (Some c, cl) (Some c, cl)"
| grown: "c \<le> q \<Longrightarrow> vol_step q True True (Some c, cl) (Some q, resized q cl)"
| partly: "c \<le> q \<Longrightarrow> sz' = Some c \<or> c < q \<and> (sz' = None \<or> sz' = Some q) \<Longrightarrow> grows q cl cl' \<Longrightarrow>
    vol_step q True False (Some c, cl) (sz', cl')"

inductive_cases vol_step_looked [elim]: "vol_step q True True v v'"
inductive_cases vol_step_any [elim]: "vol_step q l ok v v'"

lemma grows_refl [simp, intro]: "grows q cl cl"
  by (simp add: grows_def)

lemma grows_trans: "grows q cl cl' \<Longrightarrow> grows q cl' cl'' \<Longrightarrow> grows q cl cl''"
  unfolding grows_def by metis

lemma grows_resized [simp, intro]: "grows q cl (resized q cl)"
  by (auto simp: grows_def resized_def)

lemma grows_upd: "cl x \<noteq> None \<Longrightarrow> grows q cl (cl(x \<mapsto> q))"
  by (simp add: grows_def)

lemma growsD: "grows q cl cl' \<Longrightarrow> cl' x = cl x \<or> cl x \<noteq> None \<and> cl' x = Some q"
  by (simp add: grows_def)

lemma grows_keeps: "grows q cl cl' \<Longrightarrow> cl x = Some q \<Longrightarrow> cl' x = Some q"
  using growsD [of q cl cl' x] by auto

lemma resized_iff:
  assumes "grows q cl cl'"
  shows "cl' = resized q cl \<longleftrightarrow> (\<forall>x. cl x \<noteq> None \<longrightarrow> cl' x = Some q)"
proof -
  have "cl' x = resized q cl x \<longleftrightarrow> (cl x \<noteq> None \<longrightarrow> cl' x = Some q)" for x
    using growsD [OF assms, of x] by (cases "cl x") (auto simp: resized_def)
  then show ?thesis unfolding fun_eq_iff by simp
qed

lemma resized_grows: "grows q cl cl' \<Longrightarrow> resized q cl' = resized q cl" "grows q (resized q cl) cl' \<Longrightarrow> cl' = resized q cl"
  by (auto simp: grows_def resized_def fun_eq_iff map_option_case split: option.splits) (metis not_None_eq option.sel)+

text \<open>Volumes that have the declared size stay so; claims never get another one.\<close>

lemma vol_step_settled: "vol_step q l ok (Some q, resized q cl) v \<Longrightarrow> v = (Some q, resized q cl)"
  by (auto dest: resized_grows(2) simp: resized_grows(1) [OF grows_resized])

lemma vol_step_grows: "vol_step q l ok (sz, cl) (sz', cl') \<Longrightarrow> grows q cl cl' \<and> (sz' = None \<or> sz' = sz \<or> sz' = Some q)"
  by (erule vol_step.cases) auto

text \<open>The first half of a step: an expansion that compared the sizes.\<close>

definition expanded :: "quantity \<Rightarrow> volumes \<Rightarrow> bool \<Rightarrow> volumes \<Rightarrow> bool" where
  "expanded q v ok v' \<longleftrightarrow> (\<exists>c. fst v = Some c
     \<and> (if q < c then v' = v \<and> \<not> ok
        else (fst v' = Some c \<or> c < q \<and> fst v' = None) \<and> grows q (snd v) (snd v') \<and> (ok \<longrightarrow> snd v' = resized q (snd v))))"

lemma expanded_step:
  assumes "expanded q v ok v'" and "snd v'' = snd v'" and "fst v'' = fst v' \<or> ok \<and> fst v' = None \<and> fst v'' = Some q"
    and "ok' \<longrightarrow> ok \<and> fst v'' = Some q"
  shows "vol_step q True ok' v v''"
proof -
  obtain c where c: "fst v = Some c" using assms(1) by (auto simp: expanded_def)
  obtain cl where v: "v = (Some c, cl)" using c by (cases v) simp
  show ?thesis
  proof (cases "q < c")
    case True
    then have "v' = v" "\<not> ok" using assms(1) by (auto simp: expanded_def v)
    then have "v'' = v" "\<not> ok'" using assms(2-4) by (auto simp: prod_eq_iff)
    then show ?thesis using vol_step.refused [OF True] by (simp add: v)
  next
    case False
    then have e: "fst v' = Some c \<or> c < q \<and> fst v' = None" "grows q cl (snd v')" "ok \<longrightarrow> snd v' = resized q cl"
      using assms(1) by (auto simp: expanded_def v)
    show ?thesis
    proof (cases ok')
      case True
      then have "v'' = (Some q, resized q cl)" using assms(2,4) e by (cases v'') simp
      then show ?thesis using vol_step.grown [of c q cl] False True by (simp add: v)
    next
      case fail: False
      have "vol_step q True False (Some c, cl) (fst v'', snd v'')"
        by (rule vol_step.partly) (use False assms(2,3) e in auto)
      then show ?thesis using fail by (simp add: v)
    qed
  qed
qed

section \<open>What a round sees\<close>

text \<open>A round compares the sizes if all its reads before that were answered and let it go on.\<close>

definition looks :: "'w client \<Rightarrow> druid_node_spec \<Rightarrow> string \<Rightarrow> druid \<Rightarrow> 'w \<Rightarrow> bool" where
  "looks sdk n u m w \<longleftrightarrow> res (isVolumeExpansionEnabled sdk m n) w = Ok True
     \<and> (\<exists>sts pvcs w'. scaleReads sdk u m (post (isVolumeExpansionEnabled sdk m n) w) sts pvcs w'
          \<and> length (ndVolumeClaimTemplates n) \<le> length pvcs)"

text \<open>The reads, one after the other.\<close>

definition readsAnswered :: "'w client \<Rightarrow> nat \<Rightarrow> string \<Rightarrow> druid \<Rightarrow> 'w \<Rightarrow> bool" where
  "readsAnswered sdk templates u m w =
     (case apiList (clStatefulSets sdk) (GetNamespace m) (makeLabelsForDruid m) w of
        (Inl _, _) \<Rightarrow> False
      | (Inr stss, w1) \<Rightarrow> \<not> list_ex (\<lambda>sts. stReplicas (stsStatus sts) \<noteq> stReadyReplicas (stsStatus sts)) stss
          \<and> (case apiGet (clStatefulSets sdk) u (GetNamespace m) w1 of
                (Inl _, _) \<Rightarrow> False
              | (Inr sts, w2) \<Rightarrow> (case apiList (clPVCs sdk) (GetNamespace m) (fmupd ''nodeSpecUniqueStr'' u fmempty) w2 of
                    (Inl _, _) \<Rightarrow> False
                  | (Inr pvcs, _) \<Rightarrow> templates \<le> length pvcs)))"

lemma looks_code [code]:
  "looks sdk n u m w \<longleftrightarrow> (case res (isVolumeExpansionEnabled sdk m n) w of
      Ok b \<Rightarrow> b \<and> readsAnswered sdk (length (ndVolumeClaimTemplates n)) u m (post (isVolumeExpansionEnabled sdk m n) w) | _ \<Rightarrow> False)"
  by (auto simp: looks_def readsAnswered_def scaleReads_def split: outcome.splits prod.splits sum.splits)

text \<open>The StatefulSet a round sends, and the node groups the machine is about.\<close>

definition wantedSet ::
  "'w client \<Rightarrow> druid_node_spec \<Rightarrow> strmap \<Rightarrow> string \<Rightarrow> string \<Rightarrow> string \<Rightarrow> druid \<Rightarrow> statefulset" where
  "wantedSet sdk n lm u sha first m =
     (let (obj, m1) = makeStatefulSet n m lm u sha first in prepared (clLib sdk) (clStatefulSets sdk) m1 obj)"

definition ofGroup :: "string \<Rightarrow> string \<Rightarrow> pvc \<Rightarrow> bool" where
  "ofGroup ns u p \<longleftrightarrow> GetNamespace p = ns \<and> pvcRequests p \<noteq> None \<and> fmsubset (fmupd ''nodeSpecUniqueStr'' u fmempty) (GetLabels p)"

definition scales :: "druid_node_spec \<Rightarrow> druid \<Rightarrow> pvc \<Rightarrow> bool" where
  "scales n m vct \<longleftrightarrow> metaGeneration (objMeta m) > 1 \<and> crScalePvcSts (drSpec m)
     \<and> crVolumeClaimTemplates (drSpec m) = [] \<and> ndVolumeClaimTemplates n = [vct]"

lemma scale_loop_post:
  assumes "scaleReads sdk u drd s sts pvcs s'" "length (ndVolumeClaimTemplates n) \<le> length pvcs"
  shows "post (scalePVCForSts sdk n u drd) s =
      post (foldE (scale_step sdk sts (map storageRequest (stsVolumeClaimTemplates (stsSpec sts))) (map storageRequest pvcs))
        pvcs (enumerate 0 (map storageRequest (ndVolumeClaimTemplates n)))) s'"
  using assms
  by (auto simp: scalePVCForSts_def scaleReads_def go_run api_results api_posts
      getVolumeClaimTemplateSizes_def Let_def split: outcome.split)

section \<open>The server\<close>

text \<open>
  The contract, for the node group \<open>u\<close> in the namespace \<open>ns\<close>, whose StatefulSet is to be \<open>new\<close>
  with the one claim template \<open>vct\<close>. Reads, and requests for pods and storage classes, change
  nothing. A StatefulSet that is read has one template; one with the hash of \<open>new\<close> has its size.
  The claims of the group are listed completely, by their label, and each has a storage
  request, as the API server demands. A deletion that leaves the pods may take its time. The templates of a
  StatefulSet are immutable: an update succeeds only with the size it has. A creation fails if
  there is a StatefulSet. Every request may fail, and one that is answered with an error may
  have taken effect all the same.
\<close>

locale volume_server =
  fixes sdk :: "'w client" and ns u :: string and new :: statefulset and vct :: pvc
    and good :: "'w \<Rightarrow> bool" and vols :: "'w \<Rightarrow> volumes"
  assumes named: "GetName new = u" "GetNamespace new = ns" "stsVolumeClaimTemplates (stsSpec new) = [vct]"
    and reads:
      "good w \<Longrightarrow> good (snd (apiGet (clStatefulSets sdk) x k w)) \<and> vols (snd (apiGet (clStatefulSets sdk) x k w)) = vols w"
      "good w \<Longrightarrow> good (snd (apiList (clStatefulSets sdk) k ls w)) \<and> vols (snd (apiList (clStatefulSets sdk) k ls w)) = vols w"
      "good w \<Longrightarrow> good (snd (apiList (clPVCs sdk) k ls w)) \<and> vols (snd (apiList (clPVCs sdk) k ls w)) = vols w"
      "good w \<Longrightarrow> good (snd (apiGet (clStorageClasses sdk) x k w)) \<and> vols (snd (apiGet (clStorageClasses sdk) x k w)) = vols w"
    and pods:
      "good w \<Longrightarrow> good (snd (apiList (clPods sdk) k ls w)) \<and> vols (snd (apiList (clPods sdk) k ls w)) = vols w"
      "good w \<Longrightarrow> good (snd (apiDelete (clPods sdk) opt pod w)) \<and> vols (snd (apiDelete (clPods sdk) opt pod w)) = vols w"
    and set_read: "good w \<Longrightarrow> apiGet (clStatefulSets sdk) u ns w = (Inr sts, w') \<Longrightarrow>
      GetName sts = u \<and> GetNamespace sts = ns
      \<and> (\<exists>t. stsVolumeClaimTemplates (stsSpec sts) = [t] \<and> fst (vols w) = Some (storageRequest t))
      \<and> (hashOf sts = hashOf new \<longrightarrow> fst (vols w) = Some (storageRequest vct))"
    and set_absent: "good w \<Longrightarrow> apiGet (clStatefulSets sdk) u ns w = (Inl e, w') \<Longrightarrow> isNotFound e \<Longrightarrow> fst (vols w) = None"
    and claims_read: "good w \<Longrightarrow> apiList (clPVCs sdk) ns (fmupd ''nodeSpecUniqueStr'' u fmempty) w = (Inr pvcs, w') \<Longrightarrow>
      snd (vols w) = map_of (map (\<lambda>p. (GetName p, storageRequest p)) pvcs) \<and> distinct (map GetName pvcs)
      \<and> (\<forall>p \<in> set pvcs. ofGroup ns u p)"
    and set_deleted: "good w \<Longrightarrow> GetName sts = u \<Longrightarrow> GetNamespace sts = ns \<Longrightarrow>
      apiDelete (clStatefulSets sdk) PropagationOrphan sts w = (gone, w') \<Longrightarrow>
      good w' \<and> snd (vols w') = snd (vols w) \<and> (fst (vols w') = fst (vols w) \<or> fst (vols w') = None)"
    and claim_patched: "good w \<Longrightarrow> snd (vols w) (GetName p) \<noteq> None \<Longrightarrow> ofGroup ns u p \<Longrightarrow> pvcRequests p = Some rs \<Longrightarrow>
      apiPatch (clPVCs sdk) (MergeFrom (apiWrap (clPVCs sdk) p)) (p\<lparr>pvcRequests := Some (fmupd ''storage'' d rs)\<rparr>) w = (answer, w') \<Longrightarrow>
      good w' \<and> fst (vols w') = fst (vols w)
      \<and> (snd (vols w') = (snd (vols w))(GetName p \<mapsto> d) \<or> (\<exists>e. answer = Inl e) \<and> snd (vols w') = snd (vols w))"
    and set_created: "good w \<Longrightarrow> apiCreate (clStatefulSets sdk) new w = (r, w') \<Longrightarrow>
      good w' \<and> snd (vols w') = snd (vols w)
      \<and> (fst (vols w) = None \<and> fst (vols w') = Some (storageRequest vct) \<or> (\<exists>e. r = Inl e) \<and> fst (vols w') = fst (vols w))"
    and set_updated: "good w \<Longrightarrow> apiUpdate (clStatefulSets sdk) (SetResourceVersion v new) w = (r, w') \<Longrightarrow>
      good w' \<and> vols w' = vols w \<and> (fst (vols w) = Some (storageRequest vct) \<or> (\<exists>e. r = Inl e))"
begin

abbreviation size :: quantity where "size \<equiv> storageRequest vct"

definition inVols :: "(volumes \<Rightarrow> bool) \<Rightarrow> 'w \<Rightarrow> bool" where
  "inVols S w \<longleftrightarrow> good w \<and> S (vols w)"

lemma stable_reads [stable_intro]:
  "stable (inVols S) (reader_Get (clStatefulSets sdk) x d)" "stable (inVols S) (reader_List (clStatefulSets sdk) ls d)"
  "stable (inVols S) (reader_List (clPVCs sdk) ls d)" "stable (inVols S) (reader_Get (clStorageClasses sdk) x d)"
  "stable (inVols S) (reader_List (clPods sdk) ls d)" "stable (inVols S) (writer_Delete (clPods sdk) opt p)"
  by (simp_all add: stable_def inVols_def api_posts reads pods)

lemma stable_enabled [stable_intro]: "stable (inVols S) (isVolumeExpansionEnabled sdk m n)"
  unfolding isVolumeExpansionEnabled_def expansion_step_def by (intro stable_intro)

lemma stable_checks [stable_intro]:
  "stable (inVols S) (execCheckCrashStatus sdk n m x)" "stable (inVols S) (rollout_gate (clStatefulSets sdk) x m names)"
proof -
  have "stable (inVols S) (case k of KStatefulSet sts \<Rightarrow> ret (statefulSetDeployed (stsStatus sts))
      | KDeployment dep \<Rightarrow> liftE (deploymentConditions (depStatus dep) (dsConditions (depStatus dep)))
      | _ \<Rightarrow> ret False)" for k by (cases k) (simp_all add: stable_pure)
  then show "stable (inVols S) (execCheckCrashStatus sdk n m x)" "stable (inVols S) (rollout_gate (clStatefulSets sdk) x m names)"
    unfolding execCheckCrashStatus_def checkCrashStatus_def crash_step_def crash_containers_def rollout_gate_def isObjFullyDeployed_def
    by (intro stable_intro; assumption)+
qed

lemma stable_vols:
  assumes "\<And>S. stable (inVols S) m" "good w"
  shows "good (post m w)" "vols (post m w) = vols w"
  using assms(1) [of "\<lambda>v. v = vols w"] assms(2) by (auto simp: stable_def inVols_def)

subsection \<open>The claims\<close>

lemma resize_turn:
  assumes "good w" "grows size cl (snd (vols w))" "cl (GetName (l ! i)) = Some (sizes ! i)"
    "ofGroup ns u (l ! i)"
  defines "w' \<equiv> post (resize_step sdk size sizes l i) w"
  shows "good w' \<and> fst (vols w') = fst (vols w) \<and> grows size (snd (vols w)) (snd (vols w'))
    \<and> (\<forall>l'. res (resize_step sdk size sizes l i) w = Ok l' \<longrightarrow>
        snd (vols w') (GetName (l ! i)) = Some size \<and> (\<forall>j. j \<noteq> i \<longrightarrow> l' ! j = l ! j))"
proof (cases "sizes ! i = size")
  case True
  then show ?thesis
    using assms(1,3) grows_keeps [OF assms(2), of "GetName (l ! i)"] by (simp add: w'_def resize_step_def go_run)
next
  case False
  obtain rs where rs: "pvcRequests (l ! i) = Some rs" using assms(4) by (auto simp: ofGroup_def)
  let ?call = "apiPatch (clPVCs sdk) (MergeFrom (apiWrap (clPVCs sdk) (l ! i))) ((l ! i)\<lparr>pvcRequests := Some (fmupd ''storage'' size rs)\<rparr>) w"
  have here: "snd (vols w) (GetName (l ! i)) \<noteq> None" using growsD [OF assms(2), of "GetName (l ! i)"] assms(3) by auto
  obtain r v where c: "?call = (r, v)" by fastforce
  note p = claim_patched [OF assms(1) here assms(4) rs c]
  have "w' = v" using False rs c by (simp add: w'_def resize_step_def go_run api_posts split: outcome.split)
  moreover have "res (resize_step sdk size sizes l i) w = (case r of Inl e \<Rightarrow> Err e | Inr x \<Rightarrow> Ok (l[i := x]))"
    using False rs c by (simp add: resize_step_def go_run api_results split: sum.split)
  ultimately show ?thesis
    using p grows_upd [of "snd (vols w)" "GetName (l ! i)" size] here by (auto split: sum.splits)
qed

lemma resize_loop:
  assumes "good w" "grows size cl (snd (vols w))" "distinct is"
    "\<And>i. i \<in> set is \<Longrightarrow> cl (GetName (l ! i)) = Some (sizes ! i) \<and> ofGroup ns u (l ! i)"
  shows "good (post (foldE (resize_step sdk size sizes) l is) w)
    \<and> fst (vols (post (foldE (resize_step sdk size sizes) l is) w)) = fst (vols w)
    \<and> grows size (snd (vols w)) (snd (vols (post (foldE (resize_step sdk size sizes) l is) w)))
    \<and> ((\<exists>l'. res (foldE (resize_step sdk size sizes) l is) w = Ok l') \<longrightarrow>
        (\<forall>i \<in> set is. snd (vols (post (foldE (resize_step sdk size sizes) l is) w)) (GetName (l ! i)) = Some size))"
  using assms
proof (induction "is" arbitrary: w l)
  case Nil
  then show ?case by (simp add: go_run)
next
  case (Cons i "is")
  let ?w = "post (resize_step sdk size sizes l i) w"
  note i = Cons.prems(4) [OF list.set_intros(1)]
  note turn = resize_turn [OF Cons.prems(1,2) conjunct1 [OF i] conjunct2 [OF i]]
  show ?case
  proof (cases "res (resize_step sdk size sizes l i) w")
    case (Ok l')
    have same: "l' ! j = l ! j" if "j \<in> set is" for j using turn Ok Cons.prems(3) that by auto
    have g: "good ?w" "grows size cl (snd (vols ?w))" "snd (vols ?w) (GetName (l ! i)) = Some size"
      using turn Ok grows_trans [OF Cons.prems(2)] by auto
    have rest: "cl (GetName (l' ! j)) = Some (sizes ! j) \<and> ofGroup ns u (l' ! j)"
      if "j \<in> set is" for j using Cons.prems(4) [of j] same [OF that] that by simp
    have d: "distinct is" using Cons.prems(3) by simp
    note IH = Cons.IH [OF g(1,2) d rest]
    have run: "post (foldE (resize_step sdk size sizes) l (i # is)) w = post (foldE (resize_step sdk size sizes) l' is) ?w"
      "res (foldE (resize_step sdk size sizes) l (i # is)) w = res (foldE (resize_step sdk size sizes) l' is) ?w"
      using Ok by (simp_all add: go_run)
    show ?thesis
      unfolding run using IH turn same g(3) grows_keeps [of size "snd (vols ?w)"] grows_trans by auto
  qed (use turn in \<open>auto simp: go_run\<close>)
qed

lemma set_dropped:
  assumes "good w" "GetName sts = u" "GetNamespace sts = ns" "fst (vols w) = Some c" and "c < size"
  defines "m \<equiv> writer_Delete (clStatefulSets sdk) PropagationOrphan sts"
  shows "good (post m w) \<and> snd (vols (post m w)) = snd (vols w) \<and> (fst (vols (post m w)) = Some c \<or> fst (vols (post m w)) = None)"
proof -
  obtain r w' where "apiDelete (clStatefulSets sdk) PropagationOrphan sts w = (r, w')" by fastforce
  from set_deleted [OF assms(1-3) this] this show ?thesis using assms(4) by (simp add: m_def api_posts)
qed

text \<open>What the reads of a round say of the volumes.\<close>

lemma reads_answered:
  assumes "good w" "GetNamespace m = ns" "scaleReads sdk u m w sts pvcs w1"
  shows "good w1" "vols w1 = vols w" "GetName sts = u" "GetNamespace sts = ns"
    "\<exists>t. stsVolumeClaimTemplates (stsSpec sts) = [t] \<and> fst (vols w) = Some (storageRequest t)"
    "snd (vols w) = map_of (map (\<lambda>p. (GetName p, storageRequest p)) pvcs)" "distinct (map GetName pvcs)"
    "\<forall>p \<in> set pvcs. ofGroup ns u p"
proof -
  obtain stss s1 s2 where r: "apiList (clStatefulSets sdk) ns (makeLabelsForDruid m) w = (Inr stss, s1)"
    "apiGet (clStatefulSets sdk) u ns s1 = (Inr sts, s2)"
    "apiList (clPVCs sdk) ns (fmupd ''nodeSpecUniqueStr'' u fmempty) s2 = (Inr pvcs, w1)"
    using assms(2,3) by (auto simp: scaleReads_def)
  have s1: "good s1" "vols s1 = vols w" using reads(2) [OF assms(1), of ns "makeLabelsForDruid m"] r(1) by simp_all
  have s2: "good s2" "vols s2 = vols w" using reads(1) [OF s1(1), of u ns] r(2) s1(2) by simp_all
  show "good w1" "vols w1 = vols w" using reads(3) [OF s2(1), of ns "fmupd ''nodeSpecUniqueStr'' u fmempty"] r(3) s2(2) by simp_all
  show "GetName sts = u" "GetNamespace sts = ns"
    "\<exists>t. stsVolumeClaimTemplates (stsSpec sts) = [t] \<and> fst (vols w) = Some (storageRequest t)"
    using set_read [OF s1(1) r(2)] s1(2) by simp_all
  show "snd (vols w) = map_of (map (\<lambda>p. (GetName p, storageRequest p)) pvcs)" "distinct (map GetName pvcs)"
    "\<forall>p \<in> set pvcs. ofGroup ns u p"
    using claims_read [OF s2(1) r(3)] s2(2) by simp_all
qed

lemma claims_loop:
  assumes "good w" "snd (vols w) = map_of (map (\<lambda>p. (GetName p, storageRequest p)) pvcs)" "distinct (map GetName pvcs)"
    "\<forall>p \<in> set pvcs. ofGroup ns u p"
  defines "m \<equiv> foldE (resize_step sdk size (map storageRequest pvcs)) pvcs [0..<length pvcs]"
  shows "good (post m w)" "fst (vols (post m w)) = fst (vols w)" "grows size (snd (vols w)) (snd (vols (post m w)))"
    "res m w = Ok l \<Longrightarrow> snd (vols (post m w)) = resized size (snd (vols w))"
proof -
  let ?cl = "snd (vols w)"
  have at: "?cl (GetName (pvcs ! i)) = Some (map storageRequest pvcs ! i) \<and> ofGroup ns u (pvcs ! i)"
    if "i \<in> set [0..<length pvcs]" for i
    using that assms(2,3,4) by (auto simp: comp_def intro!: map_of_is_SomeI)
  note loop = resize_loop [OF assms(1) grows_refl distinct_upt [of 0 "length pvcs"] at, folded m_def]
  then show "good (post m w)" "fst (vols (post m w)) = fst (vols w)" and g: "grows size ?cl (snd (vols (post m w)))" by simp_all
  have dom: "\<exists>i < length pvcs. x = GetName (pvcs ! i)" if "?cl x \<noteq> None" for x
  proof -
    have "x \<in> GetName ` set pvcs" using that unfolding assms(2) by (auto simp: map_of_eq_None_iff image_image)
    then show ?thesis by (auto simp: in_set_conv_nth)
  qed
  show "snd (vols (post m w)) = resized size ?cl" if "res m w = Ok l"
    unfolding resized_iff [OF g] using loop that dom by (metis atLeastLessThan_upt atLeastLessThan_iff le0)
qed

lemma scale_looked:
  assumes "good w" "GetNamespace m = ns" "ndVolumeClaimTemplates n = [vct]" "scaleReads sdk u m w sts pvcs w1" "pvcs \<noteq> []"
  defines "k \<equiv> scalePVCForSts sdk n u m"
  shows "good (post k w) \<and> expanded size (vols w) (res k w = Ok ()) (vols (post k w))"
proof -
  note r = reads_answered [OF assms(1,2,4)]
  obtain t where t: "stsVolumeClaimTemplates (stsSpec sts) = [t]" "fst (vols w) = Some (storageRequest t)" using r(5) by blast
  let ?c = "storageRequest t" and ?sz = "map storageRequest pvcs"
  let ?del = "writer_Delete (clStatefulSets sdk) PropagationOrphan sts"
  let ?loop = "foldE (resize_step sdk size ?sz) pvcs [0..<length pvcs]"
  have len: "length (ndVolumeClaimTemplates n) \<le> length pvcs" using assms(3,5) by (cases pvcs) auto
  have run: "post k w = post (scale_step sdk sts [?c] ?sz pvcs (0, size)) w1"
    "res k w = Ok () \<longleftrightarrow> (\<exists>l. res (scale_step sdk sts [?c] ?sz pvcs (0, size)) w1 = Ok l)"
    using scale_loop_post [OF assms(4) len] scale_after_reads(2) [OF assms(4) len] assms(3) t(1)
    by (simp_all add: k_def go_run split: outcome.splits)
  have same: "snd (vols w1) = map_of (map (\<lambda>p. (GetName p, storageRequest p)) pvcs)" using r(2,6) by simp
  consider "size < ?c" | "size = ?c" | "?c < size" by linarith
  then show ?thesis
  proof cases
    case 1
    then obtain e where "scale_step sdk sts [?c] ?sz pvcs (0, size) = throw e" using scale_step_shrink [of 0 "[?c]" size sdk sts ?sz pvcs] by auto
    then show ?thesis using 1 run r(1,2) t(2) by (simp add: go_run expanded_def)
  next
    case 2
    then have "scale_step sdk sts [?c] ?sz pvcs (0, size) = ?loop" by (simp add: scale_step_def)
    then show ?thesis using 2 run claims_loop [OF r(1) same r(7,8)] r(2) t(2) by (auto simp: expanded_def)
  next
    case 3
    have d: "good (post ?del w1)" "snd (vols (post ?del w1)) = snd (vols w)"
      "fst (vols (post ?del w1)) = Some ?c \<or> fst (vols (post ?del w1)) = None"
      using set_dropped [OF r(1,3,4) _ 3] r(2) t(2) by auto
    have same': "snd (vols (post ?del w1)) = map_of (map (\<lambda>p. (GetName p, storageRequest p)) pvcs)" using d(2) r(6) by simp
    note loop = claims_loop [OF d(1) same' r(7,8)]
    show ?thesis
    proof (cases "res ?del w1")
      case (Ok x)
      then have "post k w = post ?loop (post ?del w1)" "res k w = Ok () \<longleftrightarrow> (\<exists>l. res ?loop (post ?del w1) = Ok l)"
        using 3 by (simp_all add: run scale_step_def Let_def go_run EmitEventGeneric_def)
      then show ?thesis using 3 loop d t(2) by (auto simp: expanded_def)
    next
      case (Err e)
      then have "post k w = post ?del w1" "res k w \<noteq> Ok ()"
        using 3 by (simp_all add: run scale_step_def Let_def go_run EmitEventGeneric_def)
      then show ?thesis using 3 d t(2) by (auto simp: expanded_def)
    next
      case (Panic p)
      then show ?thesis by (simp add: wr_delete.not_panic)
    qed
  qed
qed

subsection \<open>The StatefulSet\<close>

lemma sync_step:
  fixes names :: "string set"
  assumes "good w" and obj: "prepared (clLib sdk) (clStatefulSets sdk) m1 obj = new"
  defines "k \<equiv> sdkCreateOrUpdateAsNeeded (clLib sdk) (clStatefulSets sdk) (ret obj) statefulSetIsEquals noopUpdaterFn m1 names"
  shows "good (post k w) \<and> snd (vols (post k w)) = snd (vols w)
    \<and> (fst (vols (post k w)) = fst (vols w) \<or> fst (vols w) = None \<and> fst (vols (post k w)) = Some size)
    \<and> ((\<exists>x. res k w = Ok x) \<longrightarrow> fst (vols (post k w)) = Some size)"
proof -
  have key: "GetName obj = u" "GetNamespace obj = ns" using named prepared_meta(1,2) [of "clLib sdk" "clStatefulSets sdk" m1 obj] obj by simp_all
  obtain r w1 where get: "apiGet (clStatefulSets sdk) u ns w = (r, w1)" by fastforce
  have w1: "good w1" "vols w1 = vols w" using reads(1) [OF assms(1), of u ns] get by simp_all
  note unfolds = k_def sync_unfold Let_def go_run sdk_defs key obj get api_results api_posts
  show ?thesis
  proof (cases r)
    case (Inl e)
    show ?thesis
    proof (cases "isNotFound e")
      case True
      then have none: "fst (vols w) = None" using set_absent [OF assms(1)] get Inl by simp
      obtain r' w2 where create: "apiCreate (clStatefulSets sdk) new w1 = (r', w2)" by fastforce
      show ?thesis using set_created [OF w1(1) create] True none Inl w1(2) create
        by (auto simp: unfolds split: sum.splits)
    qed (use Inl w1 in \<open>simp add: unfolds EmitEventGeneric_def\<close>)
  next
    case (Inr prev)
    then have hash: "hashOf new = hashOf prev \<Longrightarrow> fst (vols w) = Some size" using set_read [OF assms(1)] get by simp
    obtain r' w2 where update: "apiUpdate (clStatefulSets sdk) (SetResourceVersion (GetResourceVersion prev) new) w1 = (r', w2)" by fastforce
    show ?thesis using set_updated [OF w1(1) update] hash Inr w1 update
      by (auto simp: unfolds statefulSetIsEquals_def noopUpdaterFn_def split: sum.splits)
  qed
qed

subsection \<open>A round\<close>

lemma scale_blind:
  assumes "good w" "GetNamespace m = ns"
    and no: "\<And>sts pvcs w'. scaleReads sdk u m w sts pvcs w' \<Longrightarrow> length pvcs < length (ndVolumeClaimTemplates n)"
  shows "good (post (scalePVCForSts sdk n u m) w)" "vols (post (scalePVCForSts sdk n u m) w) = vols w"
proof -
  let ?sel = "fmupd ''nodeSpecUniqueStr'' u fmempty"
  obtain r1 w1 where r1: "apiList (clStatefulSets sdk) ns (makeLabelsForDruid m) w = (r1, w1)" by fastforce
  obtain r2 w2 where r2: "apiGet (clStatefulSets sdk) u ns w1 = (r2, w2)" by fastforce
  obtain r3 w3 where r3: "apiList (clPVCs sdk) ns ?sel w2 = (r3, w3)" by fastforce
  have g1: "good w1" "vols w1 = vols w" using reads(2) [OF assms(1), of ns "makeLabelsForDruid m"] r1 by simp_all
  have g2: "good w2" "vols w2 = vols w" using reads(1) [OF g1(1), of u ns] r2 g1(2) by simp_all
  have g3: "good w3" "vols w3 = vols w" using reads(3) [OF g2(1), of ns ?sel] r3 g2(2) by simp_all
  have few: "length pvcs < length (ndVolumeClaimTemplates n)"
    if "r1 = Inr stss" "r2 = Inr sts" "r3 = Inr pvcs"
      "\<not> list_ex (\<lambda>sts. stReplicas (stsStatus sts) \<noteq> stReadyReplicas (stsStatus sts)) stss" for stss sts pvcs
    by (rule no [of sts pvcs w3]) (use that r1 r2 r3 assms(2) in \<open>auto simp: scaleReads_def\<close>)
  have "post (scalePVCForSts sdk n u m) w \<in> {w1, w2, w3}"
    using r1 r2 r3 few
    by (cases r1; cases r2; cases r3)
      (auto simp: scalePVCForSts_def go_run api_results api_posts assms(2) getVolumeClaimTemplateSizes_def Let_def)
  then show "good (post (scalePVCForSts sdk n u m) w)" "vols (post (scalePVCForSts sdk n u m) w) = vols w"
    using g1 g2 g3 by auto
qed

lemma expansion_blind:
  assumes "good w" "GetNamespace m = ns" "\<not> looks sdk n u m w"
  shows "good (post (expandStatefulSetVolumes sdk m n u) w)" "vols (post (expandStatefulSetVolumes sdk m n u) w) = vols w"
proof -
  let ?w = "post (isVolumeExpansionEnabled sdk m n) w"
  have g: "good ?w" "vols ?w = vols w" using stable_vols [OF stable_enabled assms(1)] .
  have "good (post (expandStatefulSetVolumes sdk m n u) w) \<and> vols (post (expandStatefulSetVolumes sdk m n u) w) = vols w"
  proof (cases "res (isVolumeExpansionEnabled sdk m n) w = Ok True")
    case True
    then have "length pvcs < length (ndVolumeClaimTemplates n)" if "scaleReads sdk u m ?w sts pvcs w'" for sts pvcs w'
      using assms(3) that by (auto simp: looks_def not_le)
    with scale_blind [OF g(1) assms(2), of n] g(2) True show ?thesis by (simp add: expandStatefulSetVolumes_def go_run)
  next
    case False
    then have "post (expandStatefulSetVolumes sdk m n u) w = ?w"
      by (auto simp: expandStatefulSetVolumes_def go_run split: outcome.split)
    then show ?thesis using g by simp
  qed
  then show "good (post (expandStatefulSetVolumes sdk m n u) w)" "vols (post (expandStatefulSetVolumes sdk m n u) w) = vols w" by simp_all
qed

lemma expansion_looked:
  assumes "good w" "GetNamespace m = ns" "ndVolumeClaimTemplates n = [vct]" "looks sdk n u m w"
  defines "k \<equiv> expandStatefulSetVolumes sdk m n u"
  shows "good (post k w) \<and> expanded size (vols w) (res k w = Ok ()) (vols (post k w))"
proof -
  let ?w = "post (isVolumeExpansionEnabled sdk m n) w"
  obtain sts pvcs w' where l: "res (isVolumeExpansionEnabled sdk m n) w = Ok True"
    "scaleReads sdk u m ?w sts pvcs w'" "length (ndVolumeClaimTemplates n) \<le> length pvcs"
    using assms(4) by (auto simp: looks_def)
  have "pvcs \<noteq> []" using l(3) assms(3) by auto
  have g: "good ?w" "vols ?w = vols w" using stable_vols [OF stable_enabled assms(1)] .
  have "post k w = post (scalePVCForSts sdk n u m) ?w" "res k w = res (scalePVCForSts sdk n u m) ?w"
    using l(1) by (simp_all add: k_def expandStatefulSetVolumes_def go_run)
  then show ?thesis using scale_looked [OF g(1) assms(2,3) l(2) \<open>pvcs \<noteq> []\<close>] g(2) by simp
qed

lemma node_statefulset_parts:
  fixes names :: wanted
  assumes "scales n m vct" and "wantedSet sdk n lm u sha first m = new"
  shows "\<exists>obj m1 rest. prepared (clLib sdk) (clStatefulSets sdk) m1 obj = new \<and> (\<forall>r S. stable (inVols S) (rest r))
    \<and> node_statefulset sdk n lm u sha first m names =
      bindE (expandStatefulSetVolumes sdk m n u) (\<lambda>_.
        bindE (sdkCreateOrUpdateAsNeeded (clLib sdk) (clStatefulSets sdk) (ret obj) statefulSetIsEquals noopUpdaterFn m1
          (wnStatefulSets names)) rest)"
proof -
  obtain obj m1 where o: "makeStatefulSet n m lm u sha first = (obj, m1)" by fastforce
  show ?thesis
    unfolding node_statefulset_def o Let_def prod.case
    by (intro exI [of _ obj] exI [of _ m1] exI conjI refl)
      (use assms o in \<open>auto simp: wantedSet_def scales_def intro!: stable_intro\<close>)
qed

lemma tail_step:
  fixes names :: "string set"
  assumes "good w" and "prepared (clLib sdk) (clStatefulSets sdk) m1 obj = new" and "\<And>r S. stable (inVols S) (rest r)"
  defines "t \<equiv> bindE (sdkCreateOrUpdateAsNeeded (clLib sdk) (clStatefulSets sdk) (ret obj) statefulSetIsEquals noopUpdaterFn m1 names) rest"
  shows "good (post t w) \<and> snd (vols (post t w)) = snd (vols w)
    \<and> (fst (vols (post t w)) = fst (vols w) \<or> fst (vols w) = None \<and> fst (vols (post t w)) = Some size)
    \<and> ((\<exists>x. res t w = Ok x) \<longrightarrow> fst (vols (post t w)) = Some size)"
proof -
  define sy where "sy = sdkCreateOrUpdateAsNeeded (clLib sdk) (clStatefulSets sdk) (ret obj) statefulSetIsEquals noopUpdaterFn m1 names"
  note sync = sync_step [OF assms(1,2), of names, folded sy_def]
  note stay = stable_vols [OF assms(3) conjunct1 [OF sync]]
  have t: "t = bindE sy rest" by (simp add: t_def sy_def)
  have "good (post t w) \<and> vols (post t w) = vols (post sy w)"
    using sync stay by (cases "res sy w") (simp_all add: t go_run)
  moreover have "(\<exists>x. res t w = Ok x) \<longrightarrow> (\<exists>x. res sy w = Ok x)"
    unfolding t bindE_ok by blast
  ultimately show ?thesis using sync by (simp del: split_paired_Ex)
qed

lemma after_expansion:
  fixes names :: "string set" and ex :: "('w, unit) io"
  assumes "good (post ex w)" and "prepared (clLib sdk) (clStatefulSets sdk) m1 obj = new" and "\<And>r S. stable (inVols S) (rest r)"
    and k: "k = bindE ex (\<lambda>_. bindE (sdkCreateOrUpdateAsNeeded (clLib sdk) (clStatefulSets sdk) (ret obj) statefulSetIsEquals
      noopUpdaterFn m1 names) rest)"
  shows "good (post k w)" and "snd (vols (post k w)) = snd (vols (post ex w))"
    and "fst (vols (post k w)) = fst (vols (post ex w))
      \<or> res ex w = Ok () \<and> fst (vols (post ex w)) = None \<and> fst (vols (post k w)) = Some size"
    and "(\<exists>x. res k w = Ok x) \<longrightarrow> res ex w = Ok () \<and> fst (vols (post k w)) = Some size"
proof -
  define tl where "tl = bindE (sdkCreateOrUpdateAsNeeded (clLib sdk) (clStatefulSets sdk) (ret obj) statefulSetIsEquals noopUpdaterFn m1 names) rest"
  have tail: "good (post tl (post ex w)) \<and> snd (vols (post tl (post ex w))) = snd (vols (post ex w))
    \<and> (fst (vols (post tl (post ex w))) = fst (vols (post ex w))
      \<or> fst (vols (post ex w)) = None \<and> fst (vols (post tl (post ex w))) = Some size)
    \<and> ((\<exists>x. res tl (post ex w) = Ok x) \<longrightarrow> fst (vols (post tl (post ex w))) = Some size)"
    unfolding tl_def by (rule tail_step [OF assms(1-3)])
  have fin: "good (post k w) \<and> snd (vols (post k w)) = snd (vols (post ex w))
    \<and> (fst (vols (post k w)) = fst (vols (post ex w))
      \<or> res ex w = Ok () \<and> fst (vols (post ex w)) = None \<and> fst (vols (post k w)) = Some size)
    \<and> ((\<exists>x. res k w = Ok x) \<longrightarrow> res ex w = Ok () \<and> fst (vols (post k w)) = Some size)"
  proof (cases "res ex w = Ok ()")
    case True
    then have run: "post k w = post tl (post ex w)" "res k w = res tl (post ex w)" by (simp_all add: k tl_def go_run)
    show ?thesis unfolding run using tail True by blast
  next
    case False
    then have run: "post k w = post ex w" "\<not> (\<exists>x. res k w = Ok x)" by (cases "res ex w"; simp add: k go_run)+
    show ?thesis unfolding run(1) using assms(1) run(2) by blast
  qed
  from fin show "good (post k w)" "snd (vols (post k w)) = snd (vols (post ex w))" by simp_all
  from fin show "fst (vols (post k w)) = fst (vols (post ex w))
      \<or> res ex w = Ok () \<and> fst (vols (post ex w)) = None \<and> fst (vols (post k w)) = Some size" by blast
  from fin show "(\<exists>x. res k w = Ok x) \<longrightarrow> res ex w = Ok () \<and> fst (vols (post k w)) = Some size" by blast
qed

lemma round_step:
  fixes names :: wanted
  assumes "good w" "GetNamespace m = ns" "scales n m vct" "wantedSet sdk n lm u sha first m = new"
  defines "k \<equiv> node_statefulset sdk n lm u sha first m names"
  shows "good (post k w) \<and> vol_step size (looks sdk n u m w) (\<exists>x. res k w = Ok x) (vols w) (vols (post k w))"
proof -
  let ?ok = "\<exists>x. res k w = Ok x"
  define ex where "ex = expandStatefulSetVolumes sdk m n u"
  obtain obj m1 rest where p: "prepared (clLib sdk) (clStatefulSets sdk) m1 obj = new" "\<And>r S. stable (inVols S) (rest r)"
    "k = bindE ex (\<lambda>_. bindE (sdkCreateOrUpdateAsNeeded (clLib sdk) (clStatefulSets sdk) (ret obj) statefulSetIsEquals noopUpdaterFn m1
          (wnStatefulSets names)) rest)"
    using node_statefulset_parts [OF assms(3,4), of names] unfolding k_def ex_def by blast
  have vct: "ndVolumeClaimTemplates n = [vct]" using assms(3) by (simp add: scales_def)
  have blind: "good (post ex w) \<and> vols (post ex w) = vols w" if "\<not> looks sdk n u m w"
    unfolding ex_def using expansion_blind [OF assms(1,2) that] by simp
  have looked: "good (post ex w) \<and> expanded size (vols w) (res ex w = Ok ()) (vols (post ex w))" if "looks sdk n u m w"
    unfolding ex_def by (rule expansion_looked [OF assms(1,2) vct that])
  have g: "good (post ex w)" using blind looked by blast
  note fin = after_expansion [OF g p]
  show ?thesis
  proof (cases "looks sdk n u m w")
    case True
    have "vol_step size True ?ok (vols w) (vols (post k w))"
      by (rule expanded_step [OF conjunct2 [OF looked [OF True]] fin(2-4)])
    then show ?thesis using fin(1) True by simp
  next
    case False
    have "vols (post k w) = (fst (vols (post k w)), snd (vols w))" using fin(2) blind [OF False] by (simp add: prod_eq_iff)
    moreover have "vol_step size False ?ok (fst (vols w), snd (vols w)) (fst (vols (post k w)), snd (vols w))"
      by (rule vol_step.blind) (use fin blind [OF False] in auto)
    ultimately have "vol_step size False ?ok (vols w) (vols (post k w))" by simp
    then show ?thesis using fin(1) False by simp
  qed
qed

end

section \<open>Many rounds\<close>

text \<open>
  From one state to another by rounds \<open>k\<close> of the operator and whatever else happens on the
  server in between, as long as nobody else changes the volumes: pods start, statuses change.
\<close>

inductive vol_run :: "('w \<Rightarrow> bool) \<Rightarrow> ('w \<Rightarrow> volumes) \<Rightarrow> ('w, 'a) io \<Rightarrow> 'w \<Rightarrow> 'w \<Rightarrow> bool" for good vols k where
  start: "vol_run good vols k w w"
| round: "vol_run good vols k w w' \<Longrightarrow> vol_run good vols k w (post k w')"
| between: "vol_run good vols k w w' \<Longrightarrow> good w'' \<Longrightarrow> vols w'' = vols w' \<Longrightarrow> vol_run good vols k w w''"

context volume_server
begin

lemma run_grows:
  fixes names :: wanted
  assumes "vol_run good vols k w w'" "good w" "GetNamespace m = ns" "scales n m vct" "wantedSet sdk n lm u sha first m = new"
    and k: "k = node_statefulset sdk n lm u sha first m names"
  shows "good w' \<and> grows size (snd (vols w)) (snd (vols w')) \<and> (fst (vols w') = None \<or> fst (vols w') = fst (vols w) \<or> fst (vols w') = Some size)"
  using assms(1,2)
proof (induction rule: vol_run.induct)
  case (round w w')
  then have IH: "good w'" "grows size (snd (vols w)) (snd (vols w'))"
    "fst (vols w') = None \<or> fst (vols w') = fst (vols w) \<or> fst (vols w') = Some size" by auto
  note r = round_step [OF IH(1) assms(3-5), of names, folded k]
  have "grows size (snd (vols w')) (snd (vols (post k w')))
      \<and> (fst (vols (post k w')) = None \<or> fst (vols (post k w')) = fst (vols w') \<or> fst (vols (post k w')) = Some size)"
    by (rule vol_step_grows [where l = "looks sdk n u m w'" and ok = "\<exists>x. res k w' = Ok x"]) (use r in simp)
  then show ?case using r IH grows_trans [OF IH(2)] by auto
qed auto

lemma run_settled:
  fixes names :: wanted
  assumes "vol_run good vols k w w'" "good w" "vols w = (Some size, resized size cl)"
    and "GetNamespace m = ns" "scales n m vct" "wantedSet sdk n lm u sha first m = new"
    and k: "k = node_statefulset sdk n lm u sha first m names"
  shows "good w' \<and> vols w' = (Some size, resized size cl)"
  using assms(1-3)
proof (induction rule: vol_run.induct)
  case (round w w')
  then have IH: "good w'" "vols w' = (Some size, resized size cl)" by auto
  note r = round_step [OF IH(1) assms(4-6), of names, folded k]
  then show ?case using vol_step_settled [of size _ _ cl] IH(2) by (simp del: split_paired_Ex) blast
qed auto

lemma run_reaches:
  fixes names :: wanted
  assumes "vol_run good vols k w w1" "good w" "GetNamespace m = ns" "scales n m vct" "wantedSet sdk n lm u sha first m = new"
    and k: "k = node_statefulset sdk n lm u sha first m names"
    and "looks sdk n u m w1" "res k w1 = Ok x" "vol_run good vols k (post k w1) w2"
  shows "vols w2 = (Some size, resized size (snd (vols w)))"
proof -
  have g: "good w1" "grows size (snd (vols w)) (snd (vols w1))" using run_grows [OF assms(1-6)] by simp_all
  have ok: "\<exists>x. res k w1 = Ok x" using assms(8) by blast
  have r: "good (post k w1)" "vol_step size True True (vols w1) (vols (post k w1))"
    using round_step [OF g(1) assms(3-5), of names, folded k] assms(7) ok by simp_all
  from r(2) have "vols (post k w1) = (Some size, resized size (snd (vols w)))"
    by (cases rule: vol_step_looked) (use resized_grows(1) [OF g(2)] in auto)
  from run_settled [OF assms(9) r(1) this assms(3-6)] show ?thesis by simp
qed

end

section \<open>A server that fails\<close>

text \<open>
  The server in memory behind a faulty connection. StatefulSets keep the sizes of their claim
  templates.
\<close>

type_synonym faulty_world = "fault list \<times> world"

definition templateSizes :: "statefulset \<Rightarrow> quantity list" where
  "templateSizes sts = map storageRequest (stsVolumeClaimTemplates (stsSpec sts))"

definition updateSet :: "statefulset \<Rightarrow> world \<Rightarrow> (goerr + statefulset) \<times> world" where
  "updateSet x w =
     (case filter (sameKey StatefulSetKind (GetName x) (GetNamespace x)) (wObjs w) of
        [] \<Rightarrow> (Inl (NotFoundErr ''not found''), w)
      | k # _ \<Rightarrow> if templateSizes (unStatefulSet k) = templateSizes x then memReplace KStatefulSet x w
          else (Inl (GoErr ''Forbidden: updates to statefulset spec''), w))"

definition faultyClient :: "faulty_world client" where
  "faultyClient = faultyOver (memClient\<lparr>clStatefulSets := (clStatefulSets memClient)\<lparr>apiUpdate := updateSet\<rparr>\<rparr>)"

text \<open>The StatefulSet and the claims of a node group in memory.\<close>

definition setObjs :: "string \<Rightarrow> string \<Rightarrow> world \<Rightarrow> kobj list" where
  "setObjs ns u w = filter (sameKey StatefulSetKind u ns) (wObjs w)"

definition claimObjs :: "string \<Rightarrow> string \<Rightarrow> world \<Rightarrow> kobj list" where
  "claimObjs ns u w = filter (\<lambda>k. kindOf k = PVCKind \<and> metaNamespace (kobjMeta k) = ns
     \<and> hasLabels (fmupd ''nodeSpecUniqueStr'' u fmempty) k) (wObjs w)"

definition heldVols :: "string \<Rightarrow> string \<Rightarrow> world \<Rightarrow> volumes" where
  "heldVols ns u w =
     (case setObjs ns u w of [] \<Rightarrow> None | k # _ \<Rightarrow> Some (hd (templateSizes (unStatefulSet k))),
      map_of (map (\<lambda>k. (metaName (kobjMeta k), storageRequest (unPVC k))) (claimObjs ns u w)))"

definition heldGood :: "string \<Rightarrow> string \<Rightarrow> statefulset \<Rightarrow> pvc \<Rightarrow> world \<Rightarrow> bool" where
  "heldGood ns u new vct w \<longleftrightarrow> distinct (map kobjKey (wObjs w))
     \<and> list_all (\<lambda>k. length (templateSizes (unStatefulSet k)) = 1
         \<and> (hashOf (unStatefulSet k) = hashOf new \<longrightarrow> templateSizes (unStatefulSet k) = [storageRequest vct])) (setObjs ns u w)
     \<and> list_all (\<lambda>k. pvcRequests (unPVC k) \<noteq> None) (claimObjs ns u w)"

lemma find_filter: "find P xs = (case filter P xs of [] \<Rightarrow> None | x # _ \<Rightarrow> Some x)"
  by (induction xs) auto

lemma filter_map_same: "(\<And>x. P (f x) = P x) \<Longrightarrow> (\<And>x. P x \<Longrightarrow> f x = x) \<Longrightarrow> filter P (map f xs) = filter P xs"
  by (induction xs) auto

lemma filter_map_in: "(\<And>x. x \<in> set xs \<Longrightarrow> P (f x) = P x) \<Longrightarrow> filter P (map f xs) = map f (filter P xs)"
  by (induction xs) auto

lemma filter_absorb: "(\<And>x. P x \<Longrightarrow> Q x) \<Longrightarrow> filter P (filter Q xs) = filter P xs"
  by (induction xs) auto

lemma kind_meta: "kindOf k = StatefulSetKind \<Longrightarrow> kobjMeta k = objMeta (unStatefulSet k)" "kindOf k = PVCKind \<Longrightarrow> kobjMeta k = objMeta (unPVC k)"
  by (cases k; simp)+

text \<open>Worlds with the same StatefulSet and claims.\<close>

lemma same_objects:
  assumes "setObjs ns u w' = setObjs ns u w" "claimObjs ns u w' = claimObjs ns u w"
    "distinct (map kobjKey (wObjs w))  \<Longrightarrow> distinct (map kobjKey (wObjs w'))" "heldGood ns u new vct w"
  shows "heldGood ns u new vct w' \<and> heldVols ns u w' = heldVols ns u w"
  using assms by (simp add: heldGood_def heldVols_def)

text \<open>Reading.\<close>

lemma mem_reads:
  "memGet kd un x k w = (r, w') \<Longrightarrow> w' = w" "memList kd un k ls w = (r', w') \<Longrightarrow> w' = w"
  by (simp_all add: memGet_def memList_def)

lemma mem_set_read:
  assumes "heldGood ns u new vct w" "memGet StatefulSetKind unStatefulSet u ns w = (Inr sts, w')"
  shows "GetName sts = u \<and> GetNamespace sts = ns
    \<and> (\<exists>t. stsVolumeClaimTemplates (stsSpec sts) = [t] \<and> fst (heldVols ns u w) = Some (storageRequest t))
    \<and> (hashOf sts = hashOf new \<longrightarrow> fst (heldVols ns u w) = Some (storageRequest vct))"
proof -
  obtain k ks where k: "setObjs ns u w = k # ks" "sts = unStatefulSet k"
    using assms(2) by (auto simp: memGet_def find_filter setObjs_def [symmetric] split: list.splits)
  then have "sameKey StatefulSetKind u ns k" by (metis setObjs_def filter_eq_ConsD)
  then have w: "GetName sts = u" "GetNamespace sts = ns" using kind_meta(1) [of k] k(2) by (auto simp: sameKey_def)
  have l: "length (templateSizes sts) = 1" "hashOf sts = hashOf new \<longrightarrow> templateSizes sts = [storageRequest vct]"
    using assms(1) k by (simp_all add: heldGood_def)
  then obtain t where "stsVolumeClaimTemplates (stsSpec sts) = [t]" by (auto simp: templateSizes_def length_Suc_conv)
  then show ?thesis using w l k by (auto simp: heldVols_def templateSizes_def)
qed

lemma claims_distinct:
  assumes "heldGood ns u new vct w"
  shows "distinct (map (\<lambda>k. metaName (kobjMeta k)) (claimObjs ns u w))"
proof -
  have "distinct (map kobjKey (claimObjs ns u w))" using assms by (simp add: heldGood_def claimObjs_def distinct_map_filter)
  moreover have "map kobjKey (claimObjs ns u w) = map (\<lambda>n. (PVCKind, n, ns)) (map (\<lambda>k. metaName (kobjMeta k)) (claimObjs ns u w))"
    unfolding map_map by (intro map_cong refl) (auto simp: claimObjs_def kobjKey_def)
  ultimately show ?thesis by (metis distinct_map)
qed

lemma mem_claims_read:
  assumes "heldGood ns u new vct w"
    "memList PVCKind unPVC ns (fmupd ''nodeSpecUniqueStr'' u fmempty) w = (Inr pvcs, w')"
  shows "snd (heldVols ns u w) = map_of (map (\<lambda>p. (GetName p, storageRequest p)) pvcs)
    \<and> distinct (map GetName pvcs) \<and> (\<forall>p \<in> set pvcs. ofGroup ns u p)"
proof -
  let ?ks = "claimObjs ns u w"
  have pvcs: "pvcs = map unPVC ?ks" using assms(2) by (auto simp: memList_def claimObjs_def)
  have meta: "kobjMeta k = objMeta (unPVC k)" if "k \<in> set ?ks" for k using that kind_meta(2) by (simp add: claimObjs_def)
  have "map GetName pvcs = map (\<lambda>k. metaName (kobjMeta k)) ?ks" unfolding pvcs map_map using meta by (intro map_cong refl) auto
  then have dist: "distinct (map GetName pvcs)" using claims_distinct [OF assms(1)] by simp
  have group: "ofGroup ns u (unPVC k)" if "k \<in> set ?ks" for k
    using assms(1) that meta [OF that] by (simp add: ofGroup_def heldGood_def list_all_iff claimObjs_def hasLabels_def GetLabels_def)
  have "\<forall>p \<in> set pvcs. ofGroup ns u p" using group by (simp add: pvcs)
  moreover have "map (\<lambda>k. (metaName (kobjMeta k), storageRequest (unPVC k))) ?ks = map (\<lambda>p. (GetName p, storageRequest p)) pvcs"
    unfolding pvcs map_map using meta by (intro map_cong refl) auto
  ultimately show ?thesis using dist by (simp add: heldVols_def)
qed

text \<open>Writing.\<close>

lemma faulty_apis:
  "clStatefulSets faultyClient = faultyApi ((memApi StatefulSetKind KStatefulSet unStatefulSet)\<lparr>apiUpdate := updateSet\<rparr>)"
  "clPVCs faultyClient = faultyApi (memApi PVCKind KPVC unPVC)" "clPods faultyClient = faultyApi (memApi PodKind KPod unPod)"
  "clStorageClasses faultyClient = faultyApi (memApi StorageClassKind KStorageClass unStorageClass)"
  by (simp_all add: faultyClient_def faultyOver_def memClient_def)

lemmas faulty_ops = faulty_apis faultyApi_def memApi_def

lemma mem_pod_deleted:
  assumes "heldGood ns u new vct w" "memDelete KPod p w = (r, w')"
  shows "heldGood ns u new vct w' \<and> heldVols ns u w' = heldVols ns u w"
proof -
  have w': "wObjs w' = wObjs w \<or> wObjs w' = filter (\<lambda>k. \<not> sameKey PodKind (GetName p) (GetNamespace p) k) (wObjs w)"
    using assms(2) by (auto simp: memDelete_def Let_def split: if_splits)
  have "setObjs ns u w' = setObjs ns u w" "claimObjs ns u w' = claimObjs ns u w"
    using w' by (auto simp: setObjs_def claimObjs_def simp del: filter_filter intro!: filter_absorb) (auto simp: sameKey_def)
  moreover have "distinct (map kobjKey (wObjs w')) " if "distinct (map kobjKey (wObjs w))"
    using w' that by (auto simp: distinct_map_filter)
  ultimately show ?thesis using assms(1) by (intro same_objects)
qed

lemma mem_set_deleted:
  assumes "heldGood ns u new vct w" "GetName sts = u" "GetNamespace sts = ns" "memDelete KStatefulSet sts w = (r, w')"
  shows "heldGood ns u new vct w' \<and> snd (heldVols ns u w') = snd (heldVols ns u w)
    \<and> (fst (heldVols ns u w') = fst (heldVols ns u w) \<or> fst (heldVols ns u w') = None)"
proof (cases "list_ex (sameKey StatefulSetKind u ns) (wObjs w)")
  case True
  then have w': "wObjs w' = filter (\<lambda>k. \<not> sameKey StatefulSetKind u ns k) (wObjs w)"
    using assms(2-4) by (auto simp: memDelete_def Let_def)
  have "setObjs ns u w' = []" "claimObjs ns u w' = claimObjs ns u w"
    using w' by (auto simp: setObjs_def claimObjs_def simp del: filter_filter intro!: filter_absorb) (auto simp: sameKey_def)
  then show ?thesis using assms(1) w' by (simp add: heldGood_def heldVols_def distinct_map_filter)
next
  case False
  then have "w' = w" using assms(2-4) by (simp add: memDelete_def Let_def)
  then show ?thesis using assms(1) by (simp add: heldGood_def heldVols_def)
qed

lemma mem_set_created:
  assumes "heldGood ns u new vct w" "memCreate KStatefulSet new w = (r, w')"
    "GetName new = u" "GetNamespace new = ns" "templateSizes new = [storageRequest vct]"
  shows "heldGood ns u new vct w' \<and> snd (heldVols ns u w') = snd (heldVols ns u w)
    \<and> (fst (heldVols ns u w) = None \<and> fst (heldVols ns u w') = Some (storageRequest vct)
      \<or> (\<exists>e. r = Inl e) \<and> fst (heldVols ns u w') = fst (heldVols ns u w))"
proof (cases "list_ex (sameKey StatefulSetKind u ns) (wObjs w)")
  case True
  then have "w' = w" "\<exists>e. r = Inl e" using assms(2-4) by (auto simp: memCreate_def Let_def)
  then show ?thesis using assms(1) by (simp add: heldGood_def heldVols_def)
next
  case False
  then have w': "wObjs w' = wObjs w @ [KStatefulSet new]" using assms(2-4) by (auto simp: memCreate_def Let_def)
  have none: "setObjs ns u w = []" using False by (auto simp: setObjs_def list_ex_iff filter_empty_conv)
  have "setObjs ns u w' = [KStatefulSet new]" "claimObjs ns u w' = claimObjs ns u w"
    using w' none assms(3,4) by (simp_all add: setObjs_def claimObjs_def sameKey_def)
  moreover have "distinct (map kobjKey (wObjs w'))"
    using assms(1,3,4) w' False by (auto simp: heldGood_def list_ex_iff sameKey_kobjKey kobjKey_def)
  ultimately show ?thesis using assms(1,5) none by (simp add: heldGood_def heldVols_def)
qed

lemma map_of_replace:
  "distinct (map g ks) \<Longrightarrow> map_of (map (\<lambda>k. (g k, if g k = x then d else h k)) ks) =
     (if x \<in> g ` set ks then (map_of (map (\<lambda>k. (g k, h k)) ks))(x \<mapsto> d) else map_of (map (\<lambda>k. (g k, h k)) ks))"
  by (induction ks) (auto simp: fun_eq_iff)

text \<open>Replacing a claim of the group by one with the same key and labels.\<close>

lemma mem_claim_replaced:
  assumes g: "heldGood ns u new vct w" and here: "snd (heldVols ns u w) (GetName p) \<noteq> None"
    and p: "ofGroup ns u p" "storageRequest p = d" and r: "memReplace KPVC p w = (r, w')"
  shows "heldGood ns u new vct w' \<and> fst (heldVols ns u w') = fst (heldVols ns u w)
    \<and> snd (heldVols ns u w') = (snd (heldVols ns u w))(GetName p \<mapsto> d)"
proof -
  let ?same = "sameKey PVCKind (GetName p) ns" and ?f = "\<lambda>k. if sameKey PVCKind (GetName p) ns k then KPVC p else k"
  let ?P = "\<lambda>k. kindOf k = PVCKind \<and> metaNamespace (kobjMeta k) = ns \<and> hasLabels (fmupd ''nodeSpecUniqueStr'' u fmempty) k"
  let ?name = "\<lambda>k. metaName (kobjMeta k)"
  have P: "?P (KPVC p)" using p(1) by (simp add: ofGroup_def hasLabels_def GetLabels_def)
  obtain k0 where k0: "k0 \<in> set (claimObjs ns u w)" "?name k0 = GetName p"
    using here by (auto simp: heldVols_def map_of_eq_None_iff)
  have uniq: "k = k0" if "k \<in> set (wObjs w)" "?same k" for k
  proof -
    have "kobjKey k = kobjKey k0" using that(2) k0 by (simp add: sameKey_kobjKey kobjKey_def claimObjs_def)
    then show ?thesis using g that(1) k0(1) by (auto simp: heldGood_def claimObjs_def distinct_map dest: inj_onD)
  qed
  have "list_ex ?same (wObjs w)" using k0 by (auto simp: list_ex_iff claimObjs_def sameKey_def)
  then have w': "wObjs w' = map ?f (wObjs w)" using r p(1) by (auto simp: memReplace_def Let_def ofGroup_def)
  have keys: "map kobjKey (wObjs w') = map kobjKey (wObjs w)"
    using p(1) by (auto simp: w' kobjKey_def sameKey_def ofGroup_def)
  have sets: "setObjs ns u w' = setObjs ns u w"
    unfolding setObjs_def w' by (rule filter_map_same) (auto simp: sameKey_def)
  have "?P (?f k) = ?P k" if "k \<in> set (wObjs w)" for k
    using P uniq [OF that] k0 by (auto simp: claimObjs_def)
  then have claims: "claimObjs ns u w' = map ?f (claimObjs ns u w)" unfolding claimObjs_def w' by (rule filter_map_in)
  have "map (\<lambda>k. (?name k, storageRequest (unPVC k))) (claimObjs ns u w')
      = map (\<lambda>k. (?name k, if ?name k = GetName p then d else storageRequest (unPVC k))) (claimObjs ns u w)"
    unfolding claims map_map using p(2) by (intro map_cong refl) (auto simp: claimObjs_def sameKey_def)
  moreover have "distinct (map ?name (claimObjs ns u w))" by (rule claims_distinct [OF g])
  moreover have "GetName p \<in> ?name ` set (claimObjs ns u w)" using k0 by force
  ultimately have "snd (heldVols ns u w') = (snd (heldVols ns u w))(GetName p \<mapsto> d)"
    using map_of_replace [of ?name "claimObjs ns u w" "GetName p" d "\<lambda>k. storageRequest (unPVC k)"] by (simp add: heldVols_def)
  moreover have "heldGood ns u new vct w'"
    using g p(1) unfolding heldGood_def keys sets claims by (auto simp: list_all_iff ofGroup_def)
  moreover have "fst (heldVols ns u w') = fst (heldVols ns u w)" by (simp add: heldVols_def sets)
  ultimately show ?thesis by simp
qed

lemma mem_set_updated:
  assumes g: "heldGood ns u new vct w" and r: "updateSet (SetResourceVersion v new) w = (r, w')"
    and new: "GetName new = u" "GetNamespace new = ns" "templateSizes new = [storageRequest vct]"
  shows "heldGood ns u new vct w' \<and> heldVols ns u w' = heldVols ns u w
    \<and> (fst (heldVols ns u w) = Some (storageRequest vct) \<or> (\<exists>e. r = Inl e))"
proof (cases "w' = w \<and> (\<exists>e. r = Inl e)")
  case False
  let ?x = "SetResourceVersion v new"
  let ?f = "\<lambda>k. if sameKey StatefulSetKind u ns k then KStatefulSet ?x else k"
  have x: "GetName ?x = u" "GetNamespace ?x = ns" "templateSizes ?x = [storageRequest vct]" "hashOf ?x = hashOf new"
    using new by (simp_all add: SetResourceVersion_def templateSizes_def hashOf_def GetAnnotations_def)
  obtain k ks where k: "setObjs ns u w = k # ks" "templateSizes (unStatefulSet k) = [storageRequest vct]"
    and rep: "memReplace KStatefulSet ?x w = (r, w')"
    using r False x by (auto simp: updateSet_def setObjs_def split: list.splits if_splits)
  have "k \<in> set (setObjs ns u w)" using k(1) by simp
  then have "list_ex (sameKey StatefulSetKind u ns) (wObjs w)" by (auto simp: setObjs_def list_ex_iff)
  then have w': "wObjs w' = map ?f (wObjs w)" using rep x(1,2) by (auto simp: memReplace_def Let_def)
  have keys: "map kobjKey (wObjs w') = map kobjKey (wObjs w)" using x(1,2) by (auto simp: w' kobjKey_def sameKey_def)
  have claims: "claimObjs ns u w' = claimObjs ns u w"
    unfolding claimObjs_def w' by (rule filter_map_same) (auto simp: sameKey_def)
  have "setObjs ns u w' = map ?f (setObjs ns u w)"
    unfolding setObjs_def w' by (rule filter_map_in) (use x(1,2) in \<open>auto simp: sameKey_def\<close>)
  also have "\<dots> = map (\<lambda>_. KStatefulSet ?x) (setObjs ns u w)" by (rule map_cong) (auto simp: setObjs_def)
  finally have sets: "setObjs ns u w' = map (\<lambda>_. KStatefulSet ?x) (setObjs ns u w)" .
  have "heldGood ns u new vct w'"
    using g unfolding heldGood_def keys claims sets by (simp add: x list_all_iff)
  moreover have "heldVols ns u w' = heldVols ns u w" "fst (heldVols ns u w) = Some (storageRequest vct)"
    using k by (simp_all add: heldVols_def claims sets x)
  ultimately show ?thesis by simp
qed (use g in auto)

lemma faulty_volume_server:
  assumes "GetName new = u" "GetNamespace new = ns" "stsVolumeClaimTemplates (stsSpec new) = [vct]"
  shows "volume_server faultyClient ns u new vct (\<lambda>v. heldGood ns u new vct (snd v)) (\<lambda>v. heldVols ns u (snd v))"
proof (unfold_locales, goal_cases)
  case (4 w x k)
  show ?case by (simp add: faulty_ops) (rule faulty_keeps, use 4 in \<open>auto dest: mem_reads\<close>)
next
  case (5 w k ls)
  show ?case by (simp add: faulty_ops) (rule faulty_keeps, use 5 in \<open>auto dest: mem_reads\<close>)
next
  case (6 w k ls)
  show ?case by (simp add: faulty_ops) (rule faulty_keeps, use 6 in \<open>auto dest: mem_reads\<close>)
next
  case (7 w x k)
  show ?case by (simp add: faulty_ops) (rule faulty_keeps, use 7 in \<open>auto dest: mem_reads\<close>)
next
  case (8 w k ls)
  show ?case by (simp add: faulty_ops) (rule faulty_keeps, use 8 in \<open>auto dest: mem_reads\<close>)
next
  case (9 w opt pod)
  show ?case by (simp add: faulty_ops) (rule faulty_keeps, use 9 in \<open>auto dest: mem_pod_deleted [OF 9]\<close>)
next
  case (10 w sts w')
  then show ?case by (auto simp: faulty_ops dest!: faulty_answers(1) mem_set_read)
next
  case (11 w e w')
  then have "memGet StatefulSetKind unStatefulSet u ns (snd w) = (Inl e, snd w')"
    by (intro faulty_answers(2)) (simp_all add: faulty_ops)
  then show ?case by (auto simp: memGet_def find_filter setObjs_def heldVols_def split: list.splits)
next
  case (12 w pvcs w')
  then have "memList PVCKind unPVC ns (fmupd ''nodeSpecUniqueStr'' u fmempty) (snd w) = (Inr pvcs, snd w')"
    by (intro faulty_answers(1)) (simp_all add: faulty_ops)
  then show ?case using mem_claims_read [OF 12(1)] by simp
next
  case (13 w sts gone w')
  then have "faulty (memDelete KStatefulSet sts) w = (gone, w')" by (simp add: faulty_ops)
  then show ?case using 13(1) mem_set_deleted [OF 13(1-3)] by (cases rule: faulty_cases) auto
next
  case (14 w p rs d answer w')
  then have "faulty (memReplace KPVC (p\<lparr>pvcRequests := Some (fmupd ''storage'' d rs)\<rparr>)) w = (answer, w')" by (simp add: faulty_ops)
  then show ?case
    using 14(1-3) mem_claim_replaced [OF 14(1), of "p\<lparr>pvcRequests := Some (fmupd ''storage'' d rs)\<rparr>" d]
    by (cases rule: faulty_cases) (auto simp: ofGroup_def storageRequest_def GetLabels_def)
next
  case (15 w r w')
  then have "faulty (memCreate KStatefulSet new) w = (r, w')" by (simp add: faulty_ops)
  then show ?case using 15(1) mem_set_created [OF 15(1) _ assms(1,2)] assms(3)
    by (cases rule: faulty_cases) (auto simp: templateSizes_def)
next
  case (16 w v r w')
  then have "faulty (updateSet (SetResourceVersion v new)) w = (r, w')" by (simp add: faulty_ops)
  then show ?case using 16(1) mem_set_updated [OF 16(1) _ assms(1,2)] assms(3)
    by (cases rule: faulty_cases) (auto simp: templateSizes_def)
qed (use assms in simp_all)

text \<open>The contract holds for every StatefulSet with one claim template.\<close>

interpretation faulty: volume_server faultyClient "GetNamespace sts" "GetName sts"
  "sts\<lparr>stsSpec := (stsSpec sts)\<lparr>stsVolumeClaimTemplates := [vct]\<rparr>\<rparr>" vct
  "\<lambda>v. heldGood (GetNamespace sts) (GetName sts) (sts\<lparr>stsSpec := (stsSpec sts)\<lparr>stsVolumeClaimTemplates := [vct]\<rparr>\<rparr>) vct (snd v)"
  "\<lambda>v. heldVols (GetNamespace sts) (GetName sts) (snd v)" for sts vct
  by (rule faulty_volume_server) simp_all

section \<open>Properties\<close>

text \<open>
  C21 (refinement). A round of volume expansion implements the machine: for a node group with one
  claim template and none at the level of the cluster, whatever requests fail, the run of
  \<^verbatim>\<open>node_statefulset\<close> moves the volumes by one step. In particular a round that compared the sizes
  and succeeded leaves the StatefulSet and every claim with the declared size, a smaller declared
  size changes nothing and fails, and a round that could not compare them touches no claim.
\<close>

theorem volume_round_refines:
  assumes "volume_server sdk (GetNamespace m) u (wantedSet sdk n lm u sha first m) vct good vols"
    and "good w" and "scales n m vct"
  shows "good (post (node_statefulset sdk n lm u sha first m names) w)
    \<and> vol_step (storageRequest vct) (looks sdk n u m w) (\<exists>x. res (node_statefulset sdk n lm u sha first m names) w = Ok x)
        (vols w) (vols (post (node_statefulset sdk n lm u sha first m names) w))"
  by (rule volume_server.round_step [OF assms(1,2) refl assms(3) refl])

text \<open>
  C22 (liveness). For a node group with one claim template and volume expansion on, against any
  server that keeps the contract: after any number of rounds of \<open>node_statefulset\<close> on the
  same arguments, with any requests failing in them and anything happening in between that leaves the volumes alone, every
  claim there was has its first size or the declared one, and there is no other claim; and after a
  successful round that compared the sizes, the StatefulSet and all claims have the declared size
  and keep it in all later rounds, whatever fails in them.
\<close>

theorem volumes_reach_declared_size:
  assumes "volume_server sdk (GetNamespace m) u (wantedSet sdk n lm u sha first m) vct good vols"
    and "good w" and "scales n m vct" and "k = node_statefulset sdk n lm u sha first m names"
  shows "(\<forall>w1. vol_run good vols k w w1 \<longrightarrow> (\<forall>c. snd (vols w1) c = snd (vols w) c
        \<or> snd (vols w) c \<noteq> None \<and> snd (vols w1) c = Some (storageRequest vct)))
    \<and> (\<forall>w1 x w2. vol_run good vols k w w1 \<longrightarrow> looks sdk n u m w1 \<longrightarrow> res k w1 = Ok x \<longrightarrow> vol_run good vols k (post k w1) w2 \<longrightarrow>
        vols w2 = (Some (storageRequest vct), resized (storageRequest vct) (snd (vols w))))"
proof (intro conjI allI impI)
  fix w1 c assume "vol_run good vols k w w1"
  then have "grows (storageRequest vct) (snd (vols w)) (snd (vols w1))"
    using volume_server.run_grows [OF assms(1) _ assms(2) refl assms(3) refl assms(4)] by simp
  then show "snd (vols w1) c = snd (vols w) c \<or> snd (vols w) c \<noteq> None \<and> snd (vols w1) c = Some (storageRequest vct)"
    by (rule growsD)
next
  fix w1 x w2 assume "vol_run good vols k w w1" "looks sdk n u m w1" "res k w1 = Ok x" "vol_run good vols k (post k w1) w2"
  then show "vols w2 = (Some (storageRequest vct), resized (storageRequest vct) (snd (vols w)))"
    using volume_server.run_reaches [OF assms(1) _ assms(2) refl assms(3) refl assms(4)] by simp
qed

section \<open>Witnesses\<close>

text \<open>
  A node group that is to grow from 10 to 20, on a connection that refuses the request for the
  second claim after the StatefulSet is gone and the first claim has grown.
\<close>

definition growingNode :: druid_node_spec where
  "growingNode = historicalNode\<lparr>ndVolumeClaimTemplates := [sized 20]\<rparr>"

definition growingDruid :: druid where
  "growingDruid = sampleDruid\<lparr>drSpec := (drSpec sampleDruid)\<lparr>crScalePvcSts := True\<rparr>\<rparr>"

definition growingWorld :: faulty_world where
  "growingWorld = (replicate 6 Served @ [Refused], (scaledWorld [10] 10 10)\<lparr>wObjs := wObjs (scaledWorld [10] 10 10) @
     [KStorageClass \<lparr>tmAPIVersion = [], tmKind = [], objMeta = metaOf ''ssd'' None, scAllowVolumeExpansion = Some True\<rparr>]\<rparr>)"

definition growingRound :: "(faulty_world, (node_state, druid) flow) io" where
  "growingRound = node_statefulset faultyClient growingNode crLabels ''h'' ''sha'' ''h'' growingDruid noneWanted"

definition growingSet :: statefulset where
  "growingSet = wantedSet faultyClient growingNode crLabels ''h'' ''sha'' ''h'' growingDruid"

lemma growing_facts:
  "GetName growingSet = ''h''" "GetNamespace growingSet = ''ns''" "stsVolumeClaimTemplates (stsSpec growingSet) = [sized 20]"
  "scales growingNode growingDruid (sized 20)" "GetNamespace growingDruid = ''ns''"
  by code_simp+

lemma growing_good: "heldGood ''ns'' ''h'' growingSet (sized 20) (snd growingWorld)"
  by code_simp

lemma growing_looks: "looks faultyClient growingNode ''h'' growingDruid (post growingRound (post growingRound growingWorld))"
  by code_simp

lemma growing_ok: "case res growingRound (post growingRound (post growingRound growingWorld)) of Ok _ \<Rightarrow> True | _ \<Rightarrow> False"
  by code_simp

lemma growing_start: "snd (heldVols ''ns'' ''h'' (snd growingWorld)) ''b'' = Some 10"
  by code_simp

lemmas growing_server = faulty_volume_server [OF growing_facts(1-3)]

theorem volume_round_refines_witness:
  "vol_step 20 (looks faultyClient growingNode ''h'' growingDruid growingWorld) (\<exists>x. res growingRound growingWorld = Ok x)
     (heldVols ''ns'' ''h'' (snd growingWorld)) (heldVols ''ns'' ''h'' (snd (post growingRound growingWorld)))"
  unfolding growingRound_def
  using volume_round_refines [of faultyClient growingDruid "''h''" growingNode crLabels "''sha''" "''h''" "sized 20"
      "\<lambda>v. heldGood ''ns'' ''h'' growingSet (sized 20) (snd v)" "\<lambda>v. heldVols ''ns'' ''h'' (snd v)" growingWorld noneWanted]
    growing_server growing_good growing_facts(4,5)
  by (simp add: growingSet_def del: split_paired_Ex)

theorem volumes_reach_declared_size_witness:
  "fst (heldVols ''ns'' ''h'' (snd (post growingRound (post growingRound (post growingRound growingWorld))))) = Some 20
   \<and> snd (heldVols ''ns'' ''h'' (snd (post growingRound (post growingRound (post growingRound growingWorld))))) ''b'' = Some 20"
proof -
  obtain x where x: "res growingRound (post growingRound (post growingRound growingWorld)) = Ok x"
    using growing_ok by (auto split: outcome.splits)
  have server: "volume_server faultyClient (GetNamespace growingDruid) ''h''
      (wantedSet faultyClient growingNode crLabels ''h'' ''sha'' ''h'' growingDruid) (sized 20)
      (\<lambda>v. heldGood ''ns'' ''h'' growingSet (sized 20) (snd v)) (\<lambda>v. heldVols ''ns'' ''h'' (snd v))"
    using growing_server by (simp add: growing_facts(5) growingSet_def)
  note reached = volumes_reach_declared_size [OF server growing_good growing_facts(4) growingRound_def,
      THEN conjunct2, rule_format, OF _ growing_looks x vol_run.start]
  have "heldVols ''ns'' ''h'' (snd (post growingRound (post growingRound (post growingRound growingWorld))))
      = (Some (storageRequest (sized 20)), resized (storageRequest (sized 20)) (snd (heldVols ''ns'' ''h'' (snd growingWorld))))"
    by (rule reached) (rule vol_run.round [OF vol_run.round [OF vol_run.start]])
  then show ?thesis using growing_start by (simp add: resized_def)
qed

end
