(* ===== verification/Go_Memory.thy ===== *)
theory Go_Memory
  imports Prelude "HOL-Library.AList"
begin

text \<open>
  The part of Go's memory that decides whether two values share state: structs are stored in
  place, while a pointer, a slice and a map refer to a cell of the store. The theory gives the
  store and its operations (\<^verbatim>\<open>new\<close>, \<^verbatim>\<open>make\<close>, indexing, assignment), Go types with the relation
  that a value has a type, the tree a value stands for (what \<^verbatim>\<open>reflect.DeepEqual\<close> compares) and
  the cells it reaches, the statements that generated deep copy functions are made of, and the
  contract of a deep copy with one lemma per statement that the statement keeps it.
\<close>

section \<open>Values, cells and the store\<close>

text \<open>
  A slice value is the address of its backing array with an offset and a length; its capacity
  is not looked at. A struct is the list of its fields in declaration order. A map cell lists
  its entries; no operation depends on their order.
\<close>

type_synonym addr = nat

datatype gval =
    VStr string
  | VInt int
  | VBool bool
  | VNil
  | VPtr addr
  | VSlice addr nat nat
  | VMap addr
  | VStruct "(string \<times> gval) list"

datatype cell = CBox gval | CArr "gval list" | CMap "(string \<times> gval) list"

text \<open>The cells in the order of their allocation; an address is a position.\<close>

type_synonym store = "cell list"

definition cellAt :: "store \<Rightarrow> addr \<Rightarrow> cell option" where
  "cellAt s a = (if a < length s then Some (s ! a) else None)"

definition alloc :: "cell \<Rightarrow> store \<Rightarrow> addr \<times> store" where
  "alloc c s = (length s, s @ [c])"

definition boxOf :: "store \<Rightarrow> addr \<Rightarrow> gval" where
  "boxOf s a = (case cellAt s a of Some (CBox v) \<Rightarrow> v | _ \<Rightarrow> VNil)"

definition elemsOf :: "store \<Rightarrow> addr \<Rightarrow> nat \<Rightarrow> nat \<Rightarrow> gval list" where
  "elemsOf s a i n = (case cellAt s a of Some (CArr vs) \<Rightarrow> take n (drop i vs) | _ \<Rightarrow> [])"

definition entriesOf :: "store \<Rightarrow> addr \<Rightarrow> (string \<times> gval) list" where
  "entriesOf s a = (case cellAt s a of Some (CMap m) \<Rightarrow> m | _ \<Rightarrow> [])"

definition fieldOf :: "(string \<times> gval) list \<Rightarrow> string \<Rightarrow> gval" where
  "fieldOf gs n = (case map_of gs n of Some v \<Rightarrow> v | None \<Rightarrow> VNil)"

text \<open>\<^verbatim>\<open>(*out)[i] = w\<close> for a slice that starts its array, and \<^verbatim>\<open>(*out)[key] = w\<close> for a map.\<close>

definition setElem :: "addr \<Rightarrow> nat \<Rightarrow> gval \<Rightarrow> store \<Rightarrow> store" where
  "setElem b i w s = (case cellAt s b of Some (CArr vs) \<Rightarrow> s[b := CArr (vs[i := w])] | _ \<Rightarrow> s)"

definition setEntry :: "addr \<Rightarrow> string \<Rightarrow> gval \<Rightarrow> store \<Rightarrow> store" where
  "setEntry b k w s = s[b := CMap (AList.update k w (entriesOf s b))]"

section \<open>Types\<close>

datatype gotype =
    TStr
  | TInt
  | TBool
  | TPtr gotype
  | TSlice gotype
  | TMap gotype
  | TStruct "(string \<times> gotype) list"

text \<open>The zero value of a type.\<close>

fun zero :: "gotype \<Rightarrow> gval" where
  "zero TStr = VStr []"
| "zero TInt = VInt 0"
| "zero TBool = VBool False"
| "zero (TPtr t) = VNil"
| "zero (TSlice t) = VNil"
| "zero (TMap t) = VNil"
| "zero (TStruct fs) = VStruct (map (\<lambda>(n, t). (n, zero t)) fs)"

text \<open>A type whose values reach no cell: assigning such a value copies all of it.\<close>

fun flat :: "gotype \<Rightarrow> bool" where
  "flat TStr = True"
| "flat TInt = True"
| "flat TBool = True"
| "flat (TPtr t) = False"
| "flat (TSlice t) = False"
| "flat (TMap t) = False"
| "flat (TStruct fs) = list_all (\<lambda>(n, t). flat t) fs"

text \<open>That a value has a type, every cell it reaches included.\<close>

fun conforms :: "store \<Rightarrow> gotype \<Rightarrow> gval \<Rightarrow> bool" where
  "conforms s TStr v = (case v of VStr _ \<Rightarrow> True | _ \<Rightarrow> False)"
| "conforms s TInt v = (case v of VInt _ \<Rightarrow> True | _ \<Rightarrow> False)"
| "conforms s TBool v = (case v of VBool _ \<Rightarrow> True | _ \<Rightarrow> False)"
| "conforms s (TPtr t) v = (case v of VNil \<Rightarrow> True
     | VPtr a \<Rightarrow> (case cellAt s a of Some (CBox x) \<Rightarrow> conforms s t x | _ \<Rightarrow> False)
     | _ \<Rightarrow> False)"
| "conforms s (TSlice t) v = (case v of VNil \<Rightarrow> True
     | VSlice a i n \<Rightarrow> (case cellAt s a of
           Some (CArr vs) \<Rightarrow> i + n \<le> length vs \<and> list_all (\<lambda>x. conforms s t x) (take n (drop i vs))
         | _ \<Rightarrow> False)
     | _ \<Rightarrow> False)"
| "conforms s (TMap t) v = (case v of VNil \<Rightarrow> True
     | VMap a \<Rightarrow> (case cellAt s a of
           Some (CMap m) \<Rightarrow> distinct (map fst m) \<and> list_all (\<lambda>(k, x). conforms s t x) m
         | _ \<Rightarrow> False)
     | _ \<Rightarrow> False)"
| "conforms s (TStruct fs) v = (case v of
       VStruct gs \<Rightarrow> map fst gs = map fst fs \<and> list_all (\<lambda>(n, t). conforms s t (fieldOf gs n)) fs
     | _ \<Rightarrow> False)"

text \<open>
  The tree a value stands for. Two values are deeply equal when their trees are: a nil slice
  differs from an empty one, and addresses do not count.
\<close>

datatype gtree =
    GLeaf gval
  | GNil
  | GPtr gtree
  | GSlice "gtree list"
  | GMap "(string \<times> gtree) list"
  | GStruct "(string \<times> gtree) list"

fun treeOf :: "store \<Rightarrow> gotype \<Rightarrow> gval \<Rightarrow> gtree" where
  "treeOf s TStr v = GLeaf v"
| "treeOf s TInt v = GLeaf v"
| "treeOf s TBool v = GLeaf v"
| "treeOf s (TPtr t) v = (case v of VPtr a \<Rightarrow> GPtr (treeOf s t (boxOf s a)) | _ \<Rightarrow> GNil)"
| "treeOf s (TSlice t) v = (case v of
       VSlice a i n \<Rightarrow> GSlice (map (\<lambda>x. treeOf s t x) (elemsOf s a i n)) | _ \<Rightarrow> GNil)"
| "treeOf s (TMap t) v = (case v of
       VMap a \<Rightarrow> GMap (map (\<lambda>(k, x). (k, treeOf s t x)) (entriesOf s a)) | _ \<Rightarrow> GNil)"
| "treeOf s (TStruct fs) v = (case v of
       VStruct gs \<Rightarrow> GStruct (map (\<lambda>(n, t). (n, treeOf s t (fieldOf gs n))) fs) | _ \<Rightarrow> GNil)"

text \<open>The cells a value reaches.\<close>

fun owns :: "store \<Rightarrow> gotype \<Rightarrow> gval \<Rightarrow> addr list" where
  "owns s TStr v = []"
| "owns s TInt v = []"
| "owns s TBool v = []"
| "owns s (TPtr t) v = (case v of VPtr a \<Rightarrow> a # owns s t (boxOf s a) | _ \<Rightarrow> [])"
| "owns s (TSlice t) v = (case v of
       VSlice a i n \<Rightarrow> a # concat (map (\<lambda>x. owns s t x) (elemsOf s a i n)) | _ \<Rightarrow> [])"
| "owns s (TMap t) v = (case v of
       VMap a \<Rightarrow> a # concat (map (\<lambda>(k, x). owns s t x) (entriesOf s a)) | _ \<Rightarrow> [])"
| "owns s (TStruct fs) v = (case v of
       VStruct gs \<Rightarrow> concat (map (\<lambda>(n, t). owns s t (fieldOf gs n)) fs) | _ \<Rightarrow> [])"

section \<open>The store grows\<close>

text \<open>
  \<open>extends s s'\<close>: every cell of \<open>s\<close> is in \<open>s'\<close> with its contents. A value depends only on the
  cells it reaches (\<open>frame\<close>), so it is the same value in every extension.
\<close>

definition extends :: "store \<Rightarrow> store \<Rightarrow> bool" where
  "extends s s' = (take (length s) s' = s)"

lemma extends_refl [simp]: "extends s s"
  by (simp add: extends_def)

lemma extends_length: "extends s s' \<Longrightarrow> length s \<le> length s'"
  by (auto simp: extends_def dest: arg_cong [where f = length])

lemma extends_trans [trans]: "extends s s' \<Longrightarrow> extends s' s'' \<Longrightarrow> extends s s''"
  by (metis extends_def extends_length min.absorb1 take_take)

lemma extends_alloc [simp]: "extends s (s @ [c])"
  by (simp add: extends_def)

lemma extends_update: "extends s s' \<Longrightarrow> length s \<le> b \<Longrightarrow> extends s (s'[b := c])"
  by (simp add: extends_def)

lemma cellAt_extends: "extends s s' \<Longrightarrow> a < length s \<Longrightarrow> cellAt s' a = cellAt s a"
  by (metis cellAt_def extends_def extends_length nth_take order_less_le_trans)

lemma cellAt_update [simp]: "b \<noteq> a \<Longrightarrow> cellAt (s[b := c]) a = cellAt s a"
  by (simp add: cellAt_def)

lemma cellAt_Some: "cellAt s a = Some c \<Longrightarrow> a < length s"
  by (simp add: cellAt_def split: if_splits)

lemma cellAt_written [simp]: "b < length s \<Longrightarrow> cellAt (s[b := c]) b = Some c"
  by (simp add: cellAt_def)

lemma cellAt_alloc [simp]: "cellAt (s @ [c]) (length s) = Some c"
  by (simp add: cellAt_def)

lemmas cells = boxOf_def elemsOf_def entriesOf_def

lemma frame:
  assumes "\<forall>a \<in> set (owns s t v). cellAt s' a = cellAt s a"
  shows "treeOf s' t v = treeOf s t v" "conforms s' t v = conforms s t v" "owns s' t v = owns s t v"
proof -
  have "treeOf s' t v = treeOf s t v \<and> conforms s' t v = conforms s t v \<and> owns s' t v = owns s t v"
    using assms
  proof (induction t arbitrary: v)
    case (TPtr t)
    then show ?case by (cases v) (auto simp: cells split: option.splits cell.splits)
  next
    case (TSlice t)
    then show ?case
      by (cases v) (auto simp: cells list_all_iff split: option.splits cell.splits intro!: arg_cong [where f = concat])
  next
    case (TMap t)
    then show ?case
      by (cases v) (auto simp: cells list_all_iff split: option.splits cell.splits intro!: arg_cong [where f = concat])
  next
    case (TStruct fs)
    have *: "treeOf s' t (fieldOf gs n) = treeOf s t (fieldOf gs n)
        \<and> conforms s' t (fieldOf gs n) = conforms s t (fieldOf gs n)
        \<and> owns s' t (fieldOf gs n) = owns s t (fieldOf gs n)"
      if "v = VStruct gs" "(n, t) \<in> set fs" for gs n t
    proof (rule TStruct.IH [OF that(2)])
      show "t \<in> Basic_BNFs.snds (n, t)" by simp
      show "\<forall>a \<in> set (owns s t (fieldOf gs n)). cellAt s' a = cellAt s a"
        using TStruct.prems that by fastforce
    qed
    show ?case
    proof (cases v)
      case (VStruct gs)
      show ?thesis
        using * [OF VStruct] by (auto simp: VStruct list_all_iff intro!: arg_cong [where f = concat])
    qed simp_all
  qed simp_all
  then show "treeOf s' t v = treeOf s t v" "conforms s' t v = conforms s t v" "owns s' t v = owns s t v"
    by simp_all
qed

lemma owns_allocated: "conforms s t v \<Longrightarrow> a \<in> set (owns s t v) \<Longrightarrow> a < length s"
proof (induction t arbitrary: v)
  case (TStruct fs)
  then show ?case
    by (cases v) (fastforce simp: list_all_iff)+
qed (auto simp: cells list_all_iff dest: cellAt_Some split: gval.splits option.splits cell.splits)

lemma frame_extends:
  assumes "conforms s t v" "extends s s'"
  shows "treeOf s' t v = treeOf s t v" "conforms s' t v" "owns s' t v = owns s t v"
proof -
  have "\<forall>a \<in> set (owns s t v). cellAt s' a = cellAt s a"
    using assms by (auto dest: owns_allocated intro: cellAt_extends)
  from frame [OF this] assms(1)
  show "treeOf s' t v = treeOf s t v" "conforms s' t v" "owns s' t v = owns s t v" by simp_all
qed

lemma flat_owns: "flat t \<Longrightarrow> owns s t v = []"
proof (induction t arbitrary: v)
  case (TStruct fs)
  then show ?case by (cases v) (fastforce simp: list_all_iff)+
qed simp_all

section \<open>The statements of a deep copy function\<close>

text \<open>
  A \<open>copier\<close> takes the value at \<^verbatim>\<open>in\<close> and gives the value it leaves at \<^verbatim>\<open>out\<close>, with the store
  after it. Each definition is one form of statement that the generator emits for a field; the
  guard \<^verbatim>\<open>if in.X != nil\<close> is the case of the value, and a nil field keeps what \<^verbatim>\<open>*out = *in\<close> gave it.
\<close>

type_synonym copier = "gval \<Rightarrow> store \<Rightarrow> gval \<times> store"

text \<open>\<^verbatim>\<open>out.X = in.X\<close> and \<^verbatim>\<open>**out = **in\<close>.\<close>

definition assign :: copier where
  "assign v s = (v, s)"

text \<open>\<^verbatim>\<open>*out = make([]T, len(*in)); copy(*out, *in)\<close>.\<close>

definition copySlice :: "gval \<Rightarrow> copier" where
  "copySlice z v s = (case v of
       VSlice a i n \<Rightarrow> (case alloc (CArr (replicate n z)) s of
         (b, s1) \<Rightarrow> (VSlice b 0 n, s1[b := CArr (elemsOf s1 a i n)]))
     | _ \<Rightarrow> (v, s))"

text \<open>\<^verbatim>\<open>*out = make([]T, len(*in)); for i := range *in { (*in)[i].DeepCopyInto(&(*out)[i]) }\<close>.\<close>

definition copyElem :: "copier \<Rightarrow> addr \<Rightarrow> nat \<Rightarrow> nat \<Rightarrow> addr \<Rightarrow> nat \<Rightarrow> store \<Rightarrow> store" where
  "copyElem f a i n b k s = (case f (elemsOf s a i n ! k) s of (w, s') \<Rightarrow> setElem b k w s')"

definition copyEach :: "gval \<Rightarrow> copier \<Rightarrow> copier" where
  "copyEach z f v s = (case v of
       VSlice a i n \<Rightarrow> (case alloc (CArr (replicate n z)) s of
         (b, s1) \<Rightarrow> (VSlice b 0 n, fold (copyElem f a i n b) [0..<n] s1))
     | _ \<Rightarrow> (v, s))"

text \<open>\<^verbatim>\<open>*out = new(T); (*in).DeepCopyInto(*out)\<close>.\<close>

definition copyNew :: "gval \<Rightarrow> copier \<Rightarrow> copier" where
  "copyNew z f v s = (case v of
       VPtr a \<Rightarrow> (case alloc (CBox z) s of
         (b, s1) \<Rightarrow> (case f (boxOf s1 a) s1 of (w, s2) \<Rightarrow> (VPtr b, s2[b := CBox w])))
     | _ \<Rightarrow> (v, s))"

text \<open>\<^verbatim>\<open>*out = make(map[string]T, len(*in)); for key, val := range *in { (*out)[key] = ... }\<close>.\<close>

definition copyEntry :: "copier \<Rightarrow> addr \<Rightarrow> string \<times> gval \<Rightarrow> store \<Rightarrow> store" where
  "copyEntry f b kx s = (case f (snd kx) s of (w, s') \<Rightarrow> setEntry b (fst kx) w s')"

definition copyMap :: "copier \<Rightarrow> copier" where
  "copyMap f v s = (case v of
       VMap a \<Rightarrow> (case alloc (CMap []) s of
         (b, s1) \<Rightarrow> (VMap b, fold (copyEntry f b) (entriesOf s1 a) s1))
     | _ \<Rightarrow> (v, s))"

text \<open>\<^verbatim>\<open>*out = *in\<close> followed by one statement for each field in the list.\<close>

definition copyField :: "(string \<times> gval) list \<Rightarrow> string \<times> copier
    \<Rightarrow> (string \<times> gval) list \<times> store \<Rightarrow> (string \<times> gval) list \<times> store" where
  "copyField gs nc os = (case snd nc (fieldOf gs (fst nc)) (snd os) of
     (w, s') \<Rightarrow> (AList.update (fst nc) w (fst os), s'))"

definition copyStruct :: "(string \<times> copier) list \<Rightarrow> copier" where
  "copyStruct stmts v s = (case v of
       VStruct gs \<Rightarrow> (case fold (copyField gs) stmts (gs, s) of (out, s') \<Rightarrow> (VStruct out, s'))
     | _ \<Rightarrow> (v, s))"

text \<open>\<^verbatim>\<open>if in == nil { return nil }; out := new(T); in.DeepCopyInto(out); return out\<close>.\<close>

definition copyPtr :: "gval \<Rightarrow> copier \<Rightarrow> copier" where
  "copyPtr z f v s = (if v = VNil then (VNil, s) else copyNew z f v s)"

text \<open>
  \<^verbatim>\<open>*val.DeepCopy()\<close> on the loop variable \<^verbatim>\<open>val\<close>, which has an address of its own: the copy is
  read out of the cell that \<^verbatim>\<open>DeepCopy\<close> returned.
\<close>

definition copyDeref :: "copier \<Rightarrow> copier" where
  "copyDeref f v s = (case alloc (CBox v) s of
     (p, s1) \<Rightarrow> (case f (VPtr p) s1 of
        (VPtr q, s2) \<Rightarrow> (boxOf s2 q, s2)
      | (_, s2) \<Rightarrow> (VNil, s2)))"

section \<open>The contract of a deep copy\<close>

text \<open>
  The copy has the type, stands for the same tree and reaches only cells that were allocated
  for it; the cells there were before keep their contents.
\<close>

definition copied :: "gotype \<Rightarrow> store \<Rightarrow> gval \<Rightarrow> gval \<times> store \<Rightarrow> bool" where
  "copied t s v r = (extends s (snd r) \<and> conforms (snd r) t (fst r)
     \<and> treeOf (snd r) t (fst r) = treeOf s t v
     \<and> (\<forall>a \<in> set (owns (snd r) t (fst r)). length s \<le> a))"

definition deepCopies :: "gotype \<Rightarrow> copier \<Rightarrow> bool" where
  "deepCopies t f = (\<forall>s v. conforms s t v \<longrightarrow> copied t s v (f v s))"

text \<open>The collection \<open>copy_rules\<close> proves that a copier is a deep copy from the form of its statements.\<close>

named_theorems copy_rules

lemma deepCopiesI: "(\<And>s v. conforms s t v \<Longrightarrow> copied t s v (f v s)) \<Longrightarrow> deepCopies t f"
  by (simp add: deepCopies_def)

lemma deepCopiesD: "deepCopies t f \<Longrightarrow> conforms s t v \<Longrightarrow> copied t s v (f v s)"
  by (simp add: deepCopies_def)

lemma copiedD:
  assumes "copied t s v (w, s')"
  shows "extends s s'" "conforms s' t w" "treeOf s' t w = treeOf s t v"
    "\<forall>a \<in> set (owns s' t w). length s \<le> a"
  using assms by (simp_all add: copied_def)

lemma assign_copies [copy_rules]: "flat t \<Longrightarrow> deepCopies t assign"
  by (rule deepCopiesI) (simp add: copied_def assign_def flat_owns)

text \<open>
  \<open>fresh t s b st x w\<close>: in the store \<open>st\<close> of a loop, \<open>w\<close> is a copy of \<open>x\<close>, a value of the store \<open>s\<close>, that
  lies beyond cell \<open>b\<close>. The loop writes cell \<open>b\<close> and later ones.
\<close>

definition fresh :: "gotype \<Rightarrow> store \<Rightarrow> addr \<Rightarrow> store \<Rightarrow> gval \<Rightarrow> gval \<Rightarrow> bool" where
  "fresh t s b st x w = (conforms st t w \<and> treeOf st t w = treeOf s t x
     \<and> (\<forall>a \<in> set (owns st t w). b < a))"

lemma fresh_keep:
  assumes "fresh t s b st x w" "extends st st'"
  shows "fresh t s b (st'[b := c]) x w"
proof -
  have "\<forall>a \<in> set (owns st t w). cellAt (st'[b := c]) a = cellAt st a"
  proof
    fix a assume "a \<in> set (owns st t w)"
    then have "b \<noteq> a" "a < length st" using assms(1) by (auto simp: fresh_def dest: owns_allocated)
    then show "cellAt (st'[b := c]) a = cellAt st a" using assms(2) by (simp add: cellAt_extends)
  qed
  from frame [OF this] show ?thesis using assms(1) by (simp add: fresh_def)
qed

lemma copied_fresh:
  assumes "copied t st x (w, st')" "treeOf st t x = treeOf s t x" "b < length st"
  shows "fresh t s b (st'[b := c]) x w"
proof (rule fresh_keep)
  show "fresh t s b st' x w" using copiedD [OF assms(1)] assms(2,3) by (auto simp: fresh_def)
qed simp

text \<open>One call of a copier in a loop: its store extends, and the value it gave is fresh once cell \<open>b\<close> is written.\<close>

lemma copier_round:
  assumes "deepCopies t f" "conforms s t x" "extends s st" "length s \<le> b" "b < length st" "f x st = (w, st')"
  shows "extends st st'" "extends s (st'[b := c])" "b < length st'" "fresh t s b (st'[b := c]) x w"
proof -
  note fx = frame_extends [OF assms(2,3)]
  have c: "copied t st x (w, st')" using deepCopiesD [OF assms(1) fx(2)] assms(6) by simp
  show e: "extends st st'" by (rule copiedD(1) [OF c])
  show "extends s (st'[b := c])" using assms(3,4) e by (blast intro: extends_update extends_trans)
  show "b < length st'" using e assms(5) by (auto dest: extends_length)
  show "fresh t s b (st'[b := c]) x w" by (rule copied_fresh [OF c fx(1) assms(5)])
qed

lemma copyNew_copies [copy_rules]:
  assumes "deepCopies t f"
  shows "deepCopies (TPtr t) (copyNew z f)"
proof (rule deepCopiesI)
  fix s v assume c: "conforms s (TPtr t) v"
  then consider "v = VNil" | a x where "v = VPtr a" "cellAt s a = Some (CBox x)" "conforms s t x"
    by (auto split: gval.splits option.splits cell.splits)
  then show "copied (TPtr t) s v (copyNew z f v s)"
  proof cases
    case 1
    then show ?thesis by (simp add: copyNew_def copied_def)
  next
    case (2 a x)
    let ?s1 = "s @ [CBox z]"
    obtain w s2 where f: "f x ?s1 = (w, s2)" by fastforce
    note r = copier_round [OF assms 2(3) extends_alloc order_refl _ f, simplified]
    have "boxOf ?s1 a = x" "boxOf s a = x" using 2(2) by (auto simp: boxOf_def cellAt_def nth_append split: if_splits)
    then show ?thesis
      using r(2,4) [of "CBox w"] r(3) f by (auto simp: 2 copyNew_def alloc_def copied_def boxOf_def fresh_def)
  qed
qed

lemma list_all2_snoc: "list_all2 P xs ys \<Longrightarrow> P x y \<Longrightarrow> list_all2 P (xs @ [x]) (ys @ [y])"
  by (rule list_all2_appendI) simp_all

lemma copyElem_round:
  assumes "deepCopies t f" "extends s st" "length s \<le> b" "b < length st"
    and "\<forall>x \<in> set xs. conforms s t x" "elemsOf st a i (length xs) = xs" "k < length xs"
    and "cellAt st b = Some (CArr (ws @ replicate (length xs - k) z))"
    and "list_all2 (fresh t s b st) (take k xs) ws"
  defines "st' \<equiv> copyElem f a i (length xs) b k st"
  shows "extends s st'" "b < length st'"
    and "\<exists>ws'. cellAt st' b = Some (CArr (ws' @ replicate (length xs - Suc k) z))
        \<and> list_all2 (fresh t s b st') (take (Suc k) xs) ws'"
proof -
  have l: "length ws = k" using assms(7,9) by (auto dest: list_all2_lengthD)
  obtain w s2 where f: "f (xs ! k) st = (w, s2)" by fastforce
  have c: "conforms s t (xs ! k)" using assms(5,7) by simp
  note r = copier_round [OF assms(1) c assms(2-4) f]
  have s2: "cellAt s2 b = Some (CArr (ws @ replicate (length xs - k) z))"
    using cellAt_extends [OF r(1) assms(4)] assms(8) by simp
  have arr: "(ws @ replicate (length xs - k) z)[k := w] = (ws @ [w]) @ replicate (length xs - Suc k) z"
    using l assms(7) by (simp add: list_update_append Suc_diff_Suc [symmetric])
  have st': "st' = s2[b := CArr ((ws @ [w]) @ replicate (length xs - Suc k) z)]"
    unfolding st'_def copyElem_def using f s2 arr by (simp add: assms(6) setElem_def)
  show "extends s st'" using r(2) by (simp only: st')
  show "b < length st'" using r(3) by (simp add: st')
  have "list_all2 (fresh t s b st') (take k xs) ws"
    using assms(9) unfolding st' by (rule list_all2_mono) (rule fresh_keep [OF _ r(1)])
  from list_all2_snoc [OF this, of "xs ! k" w]
  have "list_all2 (fresh t s b st') (take (Suc k) xs) (ws @ [w])"
    using r(4) assms(7) by (simp add: st' take_Suc_conv_app_nth)
  then show "\<exists>ws'. cellAt st' b = Some (CArr (ws' @ replicate (length xs - Suc k) z))
        \<and> list_all2 (fresh t s b st') (take (Suc k) xs) ws'"
    using r(3) by (intro exI [of _ "ws @ [w]"]) (simp add: st')
qed

lemma copyElem_loop:
  fixes z :: gval
  assumes "deepCopies t f" "conforms s (TSlice t) (VSlice a i n)" "k \<le> n"
  defines "b \<equiv> length s" and "xs \<equiv> elemsOf s a i n"
  defines "st \<equiv> fold (copyElem f a i n b) [0..<k] (s @ [CArr (replicate n z)])"
  shows "extends s st \<and> b < length st
    \<and> (\<exists>ws. cellAt st b = Some (CArr (ws @ replicate (n - k) z)) \<and> list_all2 (fresh t s b st) (take k xs) ws)"
  using assms(3) unfolding st_def
proof (induction k)
  case 0
  then show ?case by (simp add: b_def)
next
  case (Suc k)
  let ?st = "fold (copyElem f a i n b) [0..<k] (s @ [CArr (replicate n z)])"
  have xs: "length xs = n" "\<forall>x \<in> set xs. conforms s t x" and a: "a < length s"
    using assms(2) by (auto simp: xs_def cells list_all_iff dest: cellAt_Some split: option.splits cell.splits)
  from Suc obtain ws where ih: "extends s ?st" "b < length ?st"
    "cellAt ?st b = Some (CArr (ws @ replicate (n - k) z))" "list_all2 (fresh t s b ?st) (take k xs) ws"
    by auto
  have "elemsOf ?st a i n = xs" using cellAt_extends [OF ih(1) a] by (simp add: xs_def elemsOf_def)
  then show ?case
    using copyElem_round [OF assms(1) ih(1) _ ih(2) xs(2), of a i k ws z] ih(3,4) Suc.prems
    by (simp add: xs(1) b_def)
qed

lemma fresh_list:
  assumes "list_all2 (fresh t s b st) xs ws"
  shows "list_all (conforms st t) ws" "map (treeOf st t) ws = map (treeOf s t) xs"
    "\<forall>w \<in> set ws. \<forall>a \<in> set (owns st t w). b < a"
  using assms by (induction rule: list_all2_induct) (auto simp: fresh_def)

lemma copied_slice:
  assumes "extends s s'" "cellAt s' (length s) = Some (CArr ws)"
    and "list_all2 (fresh t s (length s) s') (elemsOf s a i (length ws)) ws"
  shows "copied (TSlice t) s (VSlice a i (length ws)) (VSlice (length s) 0 (length ws), s')"
proof -
  have "elemsOf s' (length s) 0 (length ws) = ws" using assms(2) by (simp add: elemsOf_def)
  with fresh_list [OF assms(3)] assms(1,2) show ?thesis
    by (auto simp: copied_def less_imp_le)
qed

lemma copyEach_copies [copy_rules]:
  assumes "deepCopies t f"
  shows "deepCopies (TSlice t) (copyEach z f)"
proof (rule deepCopiesI)
  fix s v assume c: "conforms s (TSlice t) v"
  then consider "v = VNil" | a i n where "v = VSlice a i n" by (auto split: gval.splits)
  then show "copied (TSlice t) s v (copyEach z f v s)"
  proof cases
    case 1
    then show ?thesis by (simp add: copyEach_def copied_def)
  next
    case (2 a i n)
    let ?st = "fold (copyElem f a i n (length s)) [0..<n] (s @ [CArr (replicate n z)])"
    have l: "length (elemsOf s a i n) = n"
      using c 2 by (auto simp: elemsOf_def split: option.splits cell.splits)
    then obtain ws where "extends s ?st" "cellAt ?st (length s) = Some (CArr ws)"
      "list_all2 (fresh t s (length s) ?st) (elemsOf s a i n) ws"
      using copyElem_loop [OF assms, of s a i n n z] c 2 by auto
    moreover from this(3) have "n = length ws" using l by (simp add: list_all2_lengthD)
    ultimately show ?thesis using copied_slice [of s ?st ws] by (simp add: 2 copyEach_def alloc_def)
  qed
qed

lemma copySlice_copies [copy_rules]:
  assumes "flat t"
  shows "deepCopies (TSlice t) (copySlice z)"
proof (rule deepCopiesI)
  fix s v assume c: "conforms s (TSlice t) v"
  then consider "v = VNil" | a i n where "v = VSlice a i n" by (auto split: gval.splits)
  then show "copied (TSlice t) s v (copySlice z v s)"
  proof cases
    case 1
    then show ?thesis by (simp add: copySlice_def copied_def)
  next
    case (2 a i n)
    let ?xs = "elemsOf s a i n" and ?s' = "s @ [CArr (elemsOf s a i n)]"
    have x: "elemsOf (s @ [CArr (replicate n z)]) a i n = ?xs" "length ?xs = n" "list_all (conforms s t) ?xs"
      using c 2 by (auto simp: elemsOf_def cellAt_def nth_append split: option.splits cell.splits if_splits)
    have "list_all2 (fresh t s (length s) ?s') ?xs ?xs"
      using x(3) frame_extends [OF _ extends_alloc]
      by (auto simp: list_all2_same list_all_iff fresh_def flat_owns [OF assms])
    then show ?thesis
      using copied_slice [of s ?s' ?xs t a i] x by (simp add: 2 copySlice_def alloc_def)
  qed
qed

lemma update_new: "k \<notin> fst ` set m \<Longrightarrow> AList.update k w m = m @ [(k, w)]"
  by (induction m) auto

lemma copyEntry_round:
  assumes "deepCopies t f" "extends s st" "length s \<le> b" "b < length st" "conforms s t x"
    and "cellAt st b = Some (CMap (zip (map fst ps) ws))" "k \<notin> fst ` set ps"
    and "list_all2 (fresh t s b st) (map snd ps) ws"
  defines "st' \<equiv> copyEntry f b (k, x) st"
  shows "extends s st'" "b < length st'"
    and "\<exists>ws'. cellAt st' b = Some (CMap (zip (map fst (ps @ [(k, x)])) ws'))
        \<and> list_all2 (fresh t s b st') (map snd (ps @ [(k, x)])) ws'"
proof -
  have l: "length ps = length ws" using list_all2_lengthD [OF assms(8)] by simp
  obtain w s2 where f: "f x st = (w, s2)" by fastforce
  note r = copier_round [OF assms(1,5,2,3,4) f]
  have "entriesOf s2 b = zip (map fst ps) ws"
    using cellAt_extends [OF r(1) assms(4)] assms(6) by (simp add: entriesOf_def)
  moreover have "k \<notin> fst ` set (zip (map fst ps) ws)"
    using assms(7) by (auto dest: set_zip_leftD)
  ultimately have "AList.update k w (entriesOf s2 b) = zip (map fst (ps @ [(k, x)])) (ws @ [w])"
    using l by (simp add: update_new)
  then have st': "st' = s2[b := CMap (zip (map fst (ps @ [(k, x)])) (ws @ [w]))]"
    unfolding st'_def copyEntry_def using f by (simp add: setEntry_def)
  show "extends s st'" using r(2) by (simp only: st')
  show "b < length st'" using r(3) by (simp add: st')
  have "list_all2 (fresh t s b st') (map snd ps) ws"
    using assms(8) unfolding st' by (rule list_all2_mono) (rule fresh_keep [OF _ r(1)])
  from list_all2_snoc [OF this, of x w]
  have "list_all2 (fresh t s b st') (map snd (ps @ [(k, x)])) (ws @ [w])"
    using r(4) by (simp add: st')
  then show "\<exists>ws'. cellAt st' b = Some (CMap (zip (map fst (ps @ [(k, x)])) ws'))
        \<and> list_all2 (fresh t s b st') (map snd (ps @ [(k, x)])) ws'"
    using r(3) by (intro exI [of _ "ws @ [w]"]) (simp add: st')
qed

lemma copyEntry_loop:
  assumes "deepCopies t f" "length s \<le> b"
    and "extends s st" "b < length st" "list_all (\<lambda>(k, x). conforms s t x) qs" "distinct (map fst (ps @ qs))"
    and "cellAt st b = Some (CMap (zip (map fst ps) ws))" "list_all2 (fresh t s b st) (map snd ps) ws"
  defines "st' \<equiv> fold (copyEntry f b) qs st"
  shows "extends s st' \<and> b < length st' \<and> (\<exists>ws'. cellAt st' b = Some (CMap (zip (map fst (ps @ qs)) ws'))
    \<and> list_all2 (fresh t s b st') (map snd (ps @ qs)) ws')"
  using assms(3-8) unfolding st'_def
proof (induction qs arbitrary: ps st ws)
  case Nil
  then show ?case by auto
next
  case (Cons q qs)
  obtain k x where q: "q = (k, x)" by fastforce
  have "k \<notin> fst ` set ps" "conforms s t x" using Cons.prems(3,4) by (auto simp: q)
  note r = copyEntry_round [OF assms(1) Cons.prems(1) assms(2) Cons.prems(2) this(2) Cons.prems(5) this(1) Cons.prems(6)]
  from r(3) obtain ws' where ws': "cellAt (copyEntry f b q st) b = Some (CMap (zip (map fst (ps @ [q])) ws'))"
    "list_all2 (fresh t s b (copyEntry f b q st)) (map snd (ps @ [q])) ws'" unfolding q by blast
  have "extends s (copyEntry f b q st)" "b < length (copyEntry f b q st)" using r(1,2) by (simp_all add: q)
  from Cons.IH [OF this _ _ ws'] show ?case using Cons.prems(3,4) by simp
qed

lemma zip_trees:
  assumes "map g ws = map h (map snd kvs)"
  shows "map (\<lambda>(k, x). (k, g x)) (zip (map fst kvs) ws) = map (\<lambda>(k, x). (k, h x)) kvs"
proof (rule nth_equalityI)
  have l: "length ws = length kvs" using assms by (metis length_map)
  then show "length (map (\<lambda>(k, x). (k, g x)) (zip (map fst kvs) ws)) = length (map (\<lambda>(k, x). (k, h x)) kvs)"
    by simp
  fix i assume "i < length (map (\<lambda>(k, x). (k, g x)) (zip (map fst kvs) ws))"
  then have "i < length kvs" by simp
  moreover from this have "g (ws ! i) = h (snd (kvs ! i))" using arg_cong [OF assms, of "\<lambda>l. l ! i"] l by simp
  ultimately show "map (\<lambda>(k, x). (k, g x)) (zip (map fst kvs) ws) ! i = map (\<lambda>(k, x). (k, h x)) kvs ! i"
    using l by (simp add: split_beta)
qed

lemma copied_map:
  assumes "extends s s'" "cellAt s' (length s) = Some (CMap (zip (map fst m) ws))" "entriesOf s a = m"
    and "list_all2 (fresh t s (length s) s') (map snd m) ws" "distinct (map fst m)"
  shows "copied (TMap t) s (VMap a) (VMap (length s), s')"
proof -
  have l: "length ws = length m" using list_all2_lengthD [OF assms(4)] by simp
  have e: "entriesOf s' (length s) = zip (map fst m) ws" using assms(2) by (simp add: entriesOf_def)
  note f = fresh_list [OF assms(4)]
  have "list_all (\<lambda>(k, x). conforms s' t x) (zip (map fst m) ws)"
    using f(1) by (auto simp: list_all_iff dest: set_zip_rightD)
  moreover have "\<forall>(k, x) \<in> set (zip (map fst m) ws). \<forall>b \<in> set (owns s' t x). length s \<le> b"
    using f(3) by (fastforce dest: set_zip_rightD)
  ultimately show ?thesis
    using assms(1,2,5) zip_trees [OF f(2)] l by (auto simp: copied_def e assms(3))
qed

lemma copyMap_copies [copy_rules]:
  assumes "deepCopies t f"
  shows "deepCopies (TMap t) (copyMap f)"
proof (rule deepCopiesI)
  fix s v assume c: "conforms s (TMap t) v"
  then consider "v = VNil" | a m where "v = VMap a" "cellAt s a = Some (CMap m)"
      "distinct (map fst m)" "list_all (\<lambda>(k, x). conforms s t x) m"
    by (auto split: gval.splits option.splits cell.splits)
  then show "copied (TMap t) s v (copyMap f v s)"
  proof cases
    case 1
    then show ?thesis by (simp add: copyMap_def copied_def)
  next
    case (2 a m)
    let ?s1 = "s @ [CMap []]" and ?st = "fold (copyEntry f (length s)) m (s @ [CMap []])"
    have e: "entriesOf s a = m" "entriesOf ?s1 a = m"
      using 2(2) by (auto simp: entriesOf_def cellAt_def nth_append split: if_splits)
    obtain ws where "extends s ?st" "cellAt ?st (length s) = Some (CMap (zip (map fst m) ws))"
      "list_all2 (fresh t s (length s) ?st) (map snd m) ws"
      using copyEntry_loop [OF assms order_refl extends_alloc _ 2(4), of "CMap []" "[]" "[]"] 2(3) by auto
    from copied_map [OF this(1,2) e(1) this(3) 2(3)] show ?thesis
      by (simp add: 2(1) copyMap_def alloc_def e)
  qed
qed

lemma copied_extends:
  assumes "copied t s v (w, s')" "extends s' s''"
  shows "copied t s v (w, s'')"
proof -
  note c = copiedD [OF assms(1)]
  from frame_extends [OF c(2) assms(2)] show ?thesis
    using c extends_trans [OF c(1) assms(2)] by (simp add: copied_def)
qed

text \<open>What holds in a deep copy of a struct after the statements for the fields \<open>N\<close>.\<close>

definition partlyCopied :: "(string \<times> gotype) list \<Rightarrow> store \<Rightarrow> (string \<times> gval) list
    \<Rightarrow> string set \<Rightarrow> (string \<times> gval) list \<times> store \<Rightarrow> bool" where
  "partlyCopied fs s gs N os = (extends s (snd os) \<and> map fst (fst os) = map fst fs
     \<and> (\<forall>(n, t) \<in> set fs. if n \<in> N then copied t s (fieldOf gs n) (fieldOf (fst os) n, snd os)
          else fieldOf (fst os) n = fieldOf gs n))"

lemma fieldOf_update [simp]: "fieldOf (AList.update n w gs) m = (if m = n then w else fieldOf gs m)"
  by (simp add: fieldOf_def update_conv')

lemma copyField_round:
  assumes "partlyCopied fs s gs N os" "n \<in> fst ` set fs"
    and "\<forall>t. (n, t) \<in> set fs \<longrightarrow> deepCopies t c \<and> conforms s t (fieldOf gs n)"
  shows "partlyCopied fs s gs (insert n N) (copyField gs (n, c) os)"
proof -
  obtain out st where os: "os = (out, st)" by fastforce
  obtain w st' where c: "c (fieldOf gs n) st = (w, st')" by fastforce
  have e: "extends s st" and k: "map fst out = map fst fs" using assms(1) by (simp_all add: partlyCopied_def os)
  have new: "copied t s (fieldOf gs n) (w, st')" if "(n, t) \<in> set fs" for t
  proof -
    have d: "deepCopies t c" "conforms s t (fieldOf gs n)" using assms(3) that by auto
    note f = frame_extends [OF d(2) e]
    note r = copiedD [OF deepCopiesD [OF d(1) f(2), unfolded c]]
    show ?thesis
      using extends_trans [OF e r(1)] r(2-4) f(1) extends_length [OF e] by (force simp: copied_def)
  qed
  obtain t where "(n, t) \<in> set fs" using assms(2) by force
  then have st: "extends st st'"
    using assms(3) frame_extends(2) [OF _ e] by (metis c copiedD(1) deepCopiesD)
  have old: "copied u s (fieldOf gs m) (fieldOf out m, st')" if "(m, u) \<in> set fs" "m \<in> N" for m u
    using assms(1) that by (intro copied_extends [OF _ st]) (auto simp: partlyCopied_def os)
  have "map fst (AList.update n w out) = map fst fs"
    using k assms(2) by (simp add: update_keys image_iff)
  then show ?thesis
    using assms(1) new old extends_trans [OF e st]
    by (fastforce simp: partlyCopied_def os copyField_def c)
qed

lemma copyField_loop:
  assumes "partlyCopied fs s gs N os" "fst ` set stmts \<subseteq> fst ` set fs"
    and "\<forall>(n, t) \<in> set fs. conforms s t (fieldOf gs n)"
    and "\<forall>(n, c) \<in> set stmts. \<forall>t. (n, t) \<in> set fs \<longrightarrow> deepCopies t c"
  shows "partlyCopied fs s gs (N \<union> fst ` set stmts) (fold (copyField gs) stmts os)"
  using assms
proof (induction stmts arbitrary: N os)
  case (Cons q stmts)
  obtain n c where q: "q = (n, c)" by fastforce
  have "partlyCopied fs s gs (insert n N) (copyField gs q os)"
    unfolding q using Cons.prems by (intro copyField_round) (auto simp: q)
  from Cons.IH [OF this] show ?case using Cons.prems by (simp add: q)
qed simp

text \<open>
  A struct is copied deeply when the field of each statement is copied deeply by it, and each
  field with no statement has a flat type.
\<close>

definition covers :: "(string \<times> gotype) list \<Rightarrow> (string \<times> copier) list \<Rightarrow> bool" where
  "covers fs stmts = (fst ` set stmts \<subseteq> fst ` set fs
     \<and> (\<forall>(n, c) \<in> set stmts. \<forall>t. (n, t) \<in> set fs \<longrightarrow> deepCopies t c)
     \<and> (\<forall>(n, t) \<in> set fs. n \<notin> fst ` set stmts \<longrightarrow> flat t))"

lemma copyStruct_copies:
  assumes "covers fs stmts"
  shows "deepCopies (TStruct fs) (copyStruct stmts)"
proof (rule deepCopiesI)
  fix s v assume "conforms s (TStruct fs) v"
  then obtain gs where v: "v = VStruct gs" and k: "map fst gs = map fst fs"
    and c: "\<forall>(n, t) \<in> set fs. conforms s t (fieldOf gs n)"
    by (auto simp: list_all_iff split: gval.splits)
  obtain out s' where r: "fold (copyField gs) stmts (gs, s) = (out, s')" by fastforce
  have "partlyCopied fs s gs {} (gs, s)" using k by (auto simp: partlyCopied_def)
  from copyField_loop [OF this _ c, of stmts] assms
  have p: "partlyCopied fs s gs (fst ` set stmts) (out, s')" by (auto simp: covers_def r)
  have e: "extends s s'" and k': "map fst out = map fst fs" using p by (simp_all add: partlyCopied_def)
  have field: "if n \<in> fst ` set stmts then copied t s (fieldOf gs n) (fieldOf out n, s')
      else fieldOf out n = fieldOf gs n" if "(n, t) \<in> set fs" for n t
    using bspec [OF conjunct2 [OF conjunct2 [OF p [unfolded partlyCopied_def]]] that] by (simp split: if_splits)
  have "copied t s (fieldOf gs n) (fieldOf out n, s')" if "(n, t) \<in> set fs" for n t
  proof (cases "n \<in> fst ` set stmts")
    case True
    then show ?thesis using field [OF that] by simp
  next
    case False
    then have "flat t" "fieldOf out n = fieldOf gs n" using assms that field [OF that] by (auto simp: covers_def)
    moreover have "conforms s t (fieldOf gs n)" using c that by auto
    ultimately show ?thesis using e frame_extends [OF _ e] by (simp add: copied_def flat_owns)
  qed
  then show "copied (TStruct fs) s v (copyStruct stmts v s)"
    using e k' by (fastforce simp: copyStruct_def v r copied_def list_all_iff)
qed

lemma copyPtr_copies [copy_rules]: "deepCopies t f \<Longrightarrow> deepCopies (TPtr t) (copyPtr z f)"
  using copyNew_copies [of t f z] by (auto simp: deepCopies_def copyPtr_def copied_def)

lemma copyDeref_copies [copy_rules]:
  assumes "deepCopies (TPtr t) f"
  shows "deepCopies t (copyDeref f)"
proof (rule deepCopiesI)
  fix s v assume "conforms s t v"
  let ?s1 = "s @ [CBox v]"
  note v = frame_extends [OF \<open>conforms s t v\<close> extends_alloc, of "CBox v"]
  obtain r s2 where f: "f (VPtr (length s)) ?s1 = (r, s2)" by fastforce
  have "conforms ?s1 (TPtr t) (VPtr (length s))" using v(2) by simp
  note c = copiedD [OF deepCopiesD [OF assms this, unfolded f]]
  have b: "boxOf ?s1 (length s) = v" by (simp add: boxOf_def)
  from c(2,3) obtain q x where q: "r = VPtr q" "cellAt s2 q = Some (CBox x)"
    by (auto split: gval.splits option.splits cell.splits)
  then have x: "boxOf s2 q = x" by (simp add: boxOf_def)
  have "extends s s2" by (rule extends_trans [OF extends_alloc c(1)])
  moreover have "\<forall>a \<in> set (owns s2 t x). length s \<le> a" using c(4) by (force simp: q(1) x)
  ultimately show "copied t s v (copyDeref f v s)"
    using c(2,3) v(1) by (simp add: copyDeref_def alloc_def f q x b copied_def)
qed

section \<open>A type-directed deep copy\<close>

text \<open>
  The copy of a value directed by its type alone: what a generated function has to agree with,
  and a concrete function for the library types in examples.
\<close>

fun deepCopyAt :: "gotype \<Rightarrow> copier" where
  "deepCopyAt TStr = assign"
| "deepCopyAt TInt = assign"
| "deepCopyAt TBool = assign"
| "deepCopyAt (TPtr t) = copyNew (zero t) (deepCopyAt t)"
| "deepCopyAt (TSlice t) = copyEach (zero t) (deepCopyAt t)"
| "deepCopyAt (TMap t) = copyMap (deepCopyAt t)"
| "deepCopyAt (TStruct fs) = copyStruct (map (\<lambda>(n, t). (n, deepCopyAt t)) fs)"

text \<open>The field names of a struct are distinct.\<close>

fun wfType :: "gotype \<Rightarrow> bool" where
  "wfType TStr = True"
| "wfType TInt = True"
| "wfType TBool = True"
| "wfType (TPtr t) = wfType t"
| "wfType (TSlice t) = wfType t"
| "wfType (TMap t) = wfType t"
| "wfType (TStruct fs) = (distinct (map fst fs) \<and> list_all (\<lambda>(n, t). wfType t) fs)"

lemma deepCopyAt_copies: "wfType t \<Longrightarrow> deepCopies t (deepCopyAt t)"
proof (induction t)
  case (TStruct fs)
  have *: "u = t" if "(n, u) \<in> set fs" "(n, t) \<in> set fs" for n u t
    using that TStruct.prems by (auto intro: eq_key_imp_eq_value)
  have "covers fs (map (\<lambda>(n, t). (n, deepCopyAt t)) fs)"
    using TStruct.prems by (force simp: covers_def list_all_iff dest: * intro: TStruct.IH)
  then show ?case by (simp add: copyStruct_copies)
qed (simp_all add: assign_copies copyNew_copies copyEach_copies copyMap_copies)

section \<open>Clients of a deep copy\<close>

text \<open>
  What a caller may rely on: the copy is deeply equal to the original, and from then on neither
  of the two can be changed through the other. \<open>untouched A s s'\<close>: no cell of \<open>A\<close> was written.
\<close>

definition untouched :: "addr list \<Rightarrow> store \<Rightarrow> store \<Rightarrow> bool" where
  "untouched A s s' = list_all (\<lambda>a. cellAt s' a = cellAt s a) A"

locale deep_copier =
  fixes t :: gotype and f :: copier
  assumes copies: "deepCopies t f"
begin

lemma deeply_equal:
  assumes "conforms s t v" "f v s = (w, s')"
  shows "treeOf s' t w = treeOf s t v" "conforms s' t w"
  using copiedD [OF deepCopiesD [OF copies assms(1), unfolded assms(2)]] by simp_all

lemma original_kept:
  assumes "conforms s t v" "f v s = (w, s')"
  shows "treeOf s' t v = treeOf s t v" "owns s' t v = owns s t v"
  using frame_extends [OF assms(1) copiedD(1) [OF deepCopiesD [OF copies assms(1), unfolded assms(2)]]]
  by simp_all

lemma disjoint:
  assumes "conforms s t v" "f v s = (w, s')"
  shows "set (owns s' t w) \<inter> set (owns s' t v) = {}"
  using original_kept [OF assms] owns_allocated [OF assms(1)]
    copiedD(4) [OF deepCopiesD [OF copies assms(1), unfolded assms(2)]] by fastforce

lemma original_survives:
  assumes "conforms s t v" "f v s = (w, s')" "untouched (owns s t v) s' s''"
  shows "treeOf s'' t v = treeOf s t v"
  using frame(1) [of s' t v s''] original_kept [OF assms(1,2)] assms(3)
  by (simp add: untouched_def list_all_iff)

lemma copy_survives:
  assumes "conforms s t v" "f v s = (w, s')" "untouched (owns s' t w) s' s''"
  shows "treeOf s'' t w = treeOf s t v"
  using frame(1) [of s' t w s''] deeply_equal [OF assms(1,2)] assms(3)
  by (simp add: untouched_def list_all_iff)

lemma write_through_copy:
  assumes "conforms s t v" "f v s = (w, s')" "a \<in> set (owns s' t w)"
  shows "treeOf (s'[a := c]) t v = treeOf s t v"
  using disjoint [OF assms(1,2)] assms(3) original_kept [OF assms(1,2)]
  by (intro original_survives [OF assms(1,2)]) (auto simp: untouched_def list_all_iff intro!: cellAt_update)

lemma write_through_original:
  assumes "conforms s t v" "f v s = (w, s')" "a \<in> set (owns s t v)"
  shows "treeOf (s'[a := c]) t w = treeOf s t v"
  using disjoint [OF assms(1,2)] assms(3) original_kept [OF assms(1,2)]
  by (intro copy_survives [OF assms(1,2)]) (auto simp: untouched_def list_all_iff intro!: cellAt_update)

end

end
