(* ===== verification/Deep_Copy.thy ===== *)
theory Deep_Copy
  imports Go_Memory
begin

text \<open>
  The deep copy functions of the custom resources (\<^verbatim>\<open>src/apis/druid/v1alpha1/zz_generated.deepcopy.go\<close>)
  over the memory of \<open>Go_Memory\<close>. Every struct of \<^verbatim>\<open>druid_types.go\<close> and
  \<^verbatim>\<open>druidingestion_types.go\<close> is a type with its fields in declaration order, every
  \<^verbatim>\<open>DeepCopyInto\<close> the list of its statements, field by field. The theorems check the generated
  file against the declarations: a field of reference type that \<^verbatim>\<open>DeepCopyInto\<close> left out, or
  copied by assignment, would leave the copy and the original with a common cell.
\<close>

section \<open>Library types\<close>

text \<open>
  The Kubernetes API types the structs contain are not part of the repository: their layout
  \<open>ext\<close> and their own deep copy functions \<open>lib\<close> are parameters. The constructors that start with
  \<open>F\<close> are the ones the generated code copies by assignment. Named string types of the library
  (pull policies, DNS policies, condition statuses) are strings, a \<^verbatim>\<open>json.RawMessage\<close> is a slice
  of bytes. A pointer to shared immutable data (the time zone in a \<^verbatim>\<open>metav1.Time\<close>, the copy of
  which is an assignment) counts as a scalar of the layout.
\<close>

datatype libtype =
    LSecurityContext | LResourceRequirements | LVolumeMount | LEnvVar
  | LEnvFromSource | LPodDisruptionBudgetSpec | LService | LToleration
  | LAffinity | LPodSecurityContext | LStatefulSetUpdateStrategy | LProbe
  | LIngressSpec | LPersistentVolumeClaim | LLifecycle | LHorizontalPodAutoscalerSpec
  | LTopologySpreadConstraint | LVolume | LRawExtension | LPodDNSConfig
  | LObjectMeta | LListMeta | LTime | FContainerPort
  | FLocalObjectReference | FObjectReference | FTypeMeta | FSecretReference

definition byAssignment :: "libtype \<Rightarrow> bool" where
  "byAssignment n =
     (n \<in> {FContainerPort, FLocalObjectReference, FObjectReference, FTypeMeta, FSecretReference})"

declare byAssignment_def [copy_rules]

type_synonym libtypes = "libtype \<Rightarrow> gotype"
type_synonym library = "libtype \<Rightarrow> copier"

section \<open>The declared structs\<close>

definition Auth_type :: "libtypes \<Rightarrow> gotype" where
  "Auth_type ext = TStruct
    [(''Type'', TStr), (''SecretRef'', ext FSecretReference), (''UsernameKey'', TStr),
     (''PasswordKey'', TStr)]"

definition AdditionalContainer_type :: "libtypes \<Rightarrow> gotype" where
  "AdditionalContainer_type ext = TStruct
    [(''RunAsInit'', TBool), (''Image'', TStr), (''ContainerName'', TStr),
     (''Command'', TSlice TStr), (''ImagePullPolicy'', TStr), (''Args'', TSlice TStr),
     (''ContainerSecurityContext'', TPtr (ext LSecurityContext)),
     (''Resources'', ext LResourceRequirements), (''VolumeMounts'', TSlice (ext LVolumeMount)),
     (''Env'', TSlice (ext LEnvVar)), (''EnvFrom'', TSlice (ext LEnvFromSource))]"

definition DeepStorageSpec_type :: "libtypes \<Rightarrow> gotype" where
  "DeepStorageSpec_type ext = TStruct
    [(''Type'', TStr), (''Spec'', TSlice TInt)]"

definition MetadataStoreSpec_type :: "libtypes \<Rightarrow> gotype" where
  "MetadataStoreSpec_type ext = TStruct
    [(''Type'', TStr), (''Spec'', TSlice TInt)]"

definition ZookeeperSpec_type :: "libtypes \<Rightarrow> gotype" where
  "ZookeeperSpec_type ext = TStruct
    [(''Type'', TStr), (''Spec'', TSlice TInt)]"

definition DruidNodeTypeStatus_type :: "libtypes \<Rightarrow> gotype" where
  "DruidNodeTypeStatus_type ext = TStruct
    [(''DruidNode'', TStr), (''DruidNodeConditionStatus'', TStr),
     (''DruidNodeConditionType'', TStr), (''Reason'', TStr)]"

definition DruidClusterStatus_type :: "libtypes \<Rightarrow> gotype" where
  "DruidClusterStatus_type ext = TStruct
    [(''DruidNodeStatus'', DruidNodeTypeStatus_type ext), (''StatefulSets'', TSlice TStr),
     (''Deployments'', TSlice TStr), (''Services'', TSlice TStr), (''ConfigMaps'', TSlice TStr),
     (''PodDisruptionBudgets'', TSlice TStr), (''Ingress'', TSlice TStr),
     (''HPAutoScalers'', TSlice TStr), (''Pods'', TSlice TStr),
     (''PersistentVolumeClaims'', TSlice TStr)]"

definition DruidNodeSpec_type :: "libtypes \<Rightarrow> gotype" where
  "DruidNodeSpec_type ext = TStruct
    [(''NodeType'', TStr), (''DruidPort'', TInt), (''Kind'', TStr), (''Replicas'', TInt),
     (''PodLabels'', TMap TStr),
     (''PodDisruptionBudgetSpec'', TPtr (ext LPodDisruptionBudgetSpec)),
     (''PriorityClassName'', TStr), (''RuntimeProperties'', TStr), (''JvmOptions'', TStr),
     (''ExtraJvmOptions'', TStr), (''Log4jConfig'', TStr), (''NodeConfigMountPath'', TStr),
     (''Services'', TSlice (ext LService)), (''Tolerations'', TSlice (ext LToleration)),
     (''Affinity'', TPtr (ext LAffinity)), (''NodeSelector'', TMap TStr),
     (''TerminationGracePeriodSeconds'', TPtr TInt), (''Ports'', TSlice (ext FContainerPort)),
     (''Image'', TStr), (''ImagePullSecrets'', TSlice (ext FLocalObjectReference)),
     (''ImagePullPolicy'', TStr), (''Env'', TSlice (ext LEnvVar)),
     (''EnvFrom'', TSlice (ext LEnvFromSource)), (''Resources'', ext LResourceRequirements),
     (''PodSecurityContext'', TPtr (ext LPodSecurityContext)),
     (''ContainerSecurityContext'', TPtr (ext LSecurityContext)),
     (''PodAnnotations'', TMap TStr), (''PodManagementPolicy'', TStr), (''MaxSurge'', TPtr TInt),
     (''MaxUnavailable'', TPtr TInt),
     (''UpdateStrategy'', TPtr (ext LStatefulSetUpdateStrategy)),
     (''LivenessProbe'', TPtr (ext LProbe)), (''ReadinessProbe'', TPtr (ext LProbe)),
     (''StartUpProbe'', TPtr (ext LProbe)), (''IngressAnnotations'', TMap TStr),
     (''WorkloadAnnotations'', TMap TStr), (''Ingress'', TPtr (ext LIngressSpec)),
     (''PersistentVolumeClaim'', TSlice (ext LPersistentVolumeClaim)),
     (''Lifecycle'', TPtr (ext LLifecycle)),
     (''HPAutoScaler'', TPtr (ext LHorizontalPodAutoscalerSpec)),
     (''TopologySpreadConstraints'', TSlice (ext LTopologySpreadConstraint)),
     (''VolumeClaimTemplates'', TSlice (ext LPersistentVolumeClaim)),
     (''VolumeMounts'', TSlice (ext LVolumeMount)), (''Volumes'', TSlice (ext LVolume)),
     (''AdditionalContainer'', TSlice (AdditionalContainer_type ext)),
     (''ServiceAccountName'', TStr), (''DynamicConfig'', ext LRawExtension),
     (''DNSPolicy'', TStr), (''DNSConfig'', TPtr (ext LPodDNSConfig))]"

definition DruidSpec_type :: "libtypes \<Rightarrow> gotype" where
  "DruidSpec_type ext = TStruct
    [(''Ignored'', TBool), (''CommonRuntimeProperties'', TStr),
     (''ExtraCommonConfig'', TSlice (TPtr (ext FObjectReference))),
     (''ForceDeleteStsPodOnError'', TBool), (''ScalePvcSts'', TBool),
     (''CommonConfigMountPath'', TStr), (''DisablePVCDeletionFinalizer'', TBool),
     (''DeleteOrphanPvc'', TBool), (''StartScript'', TStr), (''Image'', TStr),
     (''ServiceAccount'', TStr), (''ImagePullSecrets'', TSlice (ext FLocalObjectReference)),
     (''ImagePullPolicy'', TStr), (''Env'', TSlice (ext LEnvVar)),
     (''EnvFrom'', TSlice (ext LEnvFromSource)), (''JvmOptions'', TStr), (''Log4jConfig'', TStr),
     (''PodSecurityContext'', TPtr (ext LPodSecurityContext)),
     (''ContainerSecurityContext'', TPtr (ext LSecurityContext)),
     (''VolumeClaimTemplates'', TSlice (ext LPersistentVolumeClaim)),
     (''VolumeMounts'', TSlice (ext LVolumeMount)), (''Volumes'', TSlice (ext LVolume)),
     (''PodAnnotations'', TMap TStr), (''WorkloadAnnotations'', TMap TStr),
     (''PodManagementPolicy'', TStr), (''PodLabels'', TMap TStr), (''PriorityClassName'', TStr),
     (''UpdateStrategy'', TPtr (ext LStatefulSetUpdateStrategy)),
     (''LivenessProbe'', TPtr (ext LProbe)), (''ReadinessProbe'', TPtr (ext LProbe)),
     (''StartUpProbe'', TPtr (ext LProbe)), (''Services'', TSlice (ext LService)),
     (''NodeSelector'', TMap TStr), (''Tolerations'', TSlice (ext LToleration)),
     (''Affinity'', TPtr (ext LAffinity)), (''Nodes'', TMap (DruidNodeSpec_type ext)),
     (''AdditionalContainer'', TSlice (AdditionalContainer_type ext)),
     (''RollingDeploy'', TBool), (''DefaultProbes'', TBool),
     (''Zookeeper'', TPtr (ZookeeperSpec_type ext)),
     (''MetadataStore'', TPtr (MetadataStoreSpec_type ext)),
     (''DeepStorage'', TPtr (DeepStorageSpec_type ext)), (''DimensionsMapPath'', TStr),
     (''HdfsSite'', TStr), (''CoreSite'', TStr), (''DynamicConfig'', ext LRawExtension),
     (''Auth'', Auth_type ext), (''DNSPolicy'', TStr), (''DNSConfig'', TPtr (ext LPodDNSConfig))]"

definition Druid_type :: "libtypes \<Rightarrow> gotype" where
  "Druid_type ext = TStruct
    [(''TypeMeta'', ext FTypeMeta), (''ObjectMeta'', ext LObjectMeta),
     (''Spec'', DruidSpec_type ext), (''Status'', DruidClusterStatus_type ext)]"

definition DruidList_type :: "libtypes \<Rightarrow> gotype" where
  "DruidList_type ext = TStruct
    [(''TypeMeta'', ext FTypeMeta), (''ListMeta'', ext LListMeta),
     (''Items'', TSlice (Druid_type ext))]"

definition IngestionSpec_type :: "libtypes \<Rightarrow> gotype" where
  "IngestionSpec_type ext = TStruct
    [(''Type'', TStr), (''Spec'', TStr), (''NativeSpec'', ext LRawExtension),
     (''Compaction'', ext LRawExtension), (''Rules'', TSlice (ext LRawExtension))]"

definition DruidIngestionSpec_type :: "libtypes \<Rightarrow> gotype" where
  "DruidIngestionSpec_type ext = TStruct
    [(''Suspend'', TBool), (''DruidClusterName'', TStr), (''Ingestion'', IngestionSpec_type ext),
     (''Auth'', Auth_type ext)]"

definition DruidIngestionStatus_type :: "libtypes \<Rightarrow> gotype" where
  "DruidIngestionStatus_type ext = TStruct
    [(''TaskId'', TStr), (''Type'', TStr), (''Status'', TStr), (''Reason'', TStr),
     (''Message'', TStr), (''LastUpdateTime'', ext LTime), (''CurrentIngestionSpec'', TStr),
     (''CurrentRules'', TSlice (ext LRawExtension))]"

definition DruidIngestion_type :: "libtypes \<Rightarrow> gotype" where
  "DruidIngestion_type ext = TStruct
    [(''TypeMeta'', ext FTypeMeta), (''ObjectMeta'', ext LObjectMeta),
     (''Spec'', DruidIngestionSpec_type ext), (''Status'', DruidIngestionStatus_type ext)]"

definition DruidIngestionList_type :: "libtypes \<Rightarrow> gotype" where
  "DruidIngestionList_type ext = TStruct
    [(''TypeMeta'', ext FTypeMeta), (''ListMeta'', ext LListMeta),
     (''Items'', TSlice (DruidIngestion_type ext))]"

section \<open>The generated functions\<close>

text \<open>
  A value of interface type \<^verbatim>\<open>runtime.Object\<close> holds a pointer with its dynamic type. A nil
  pointer in it would make an interface value that is not nil, so \<^verbatim>\<open>DeepCopyObject\<close> tests the
  pointer and returns a nil interface.
\<close>

datatype goiface = NoObject | Object string gval

definition copyObject :: "string \<Rightarrow> copier \<Rightarrow> gval \<Rightarrow> store \<Rightarrow> goiface \<times> store" where
  "copyObject n f v s = (case f v s of
     (c, s') \<Rightarrow> if c \<noteq> VNil then (Object n c, s') else (NoObject, s'))"

definition AdditionalContainer_DeepCopyInto :: "libtypes \<Rightarrow> library \<Rightarrow> copier" where
  "AdditionalContainer_DeepCopyInto ext lib = copyStruct
    [(''Command'', copySlice (zero TStr)), (''Args'', copySlice (zero TStr)),
     (''ContainerSecurityContext'', copyNew (zero (ext LSecurityContext)) (lib LSecurityContext)),
     (''Resources'', lib LResourceRequirements),
     (''VolumeMounts'', copyEach (zero (ext LVolumeMount)) (lib LVolumeMount)),
     (''Env'', copyEach (zero (ext LEnvVar)) (lib LEnvVar)),
     (''EnvFrom'', copyEach (zero (ext LEnvFromSource)) (lib LEnvFromSource))]"

definition AdditionalContainer_DeepCopy :: "libtypes \<Rightarrow> library \<Rightarrow> copier" where
  "AdditionalContainer_DeepCopy ext lib =
     copyPtr (zero (AdditionalContainer_type ext)) (AdditionalContainer_DeepCopyInto ext lib)"

definition DeepStorageSpec_DeepCopyInto :: "libtypes \<Rightarrow> library \<Rightarrow> copier" where
  "DeepStorageSpec_DeepCopyInto ext lib = copyStruct
    [(''Spec'', copySlice (zero TInt))]"

definition DeepStorageSpec_DeepCopy :: "libtypes \<Rightarrow> library \<Rightarrow> copier" where
  "DeepStorageSpec_DeepCopy ext lib =
     copyPtr (zero (DeepStorageSpec_type ext)) (DeepStorageSpec_DeepCopyInto ext lib)"

definition MetadataStoreSpec_DeepCopyInto :: "libtypes \<Rightarrow> library \<Rightarrow> copier" where
  "MetadataStoreSpec_DeepCopyInto ext lib = copyStruct
    [(''Spec'', copySlice (zero TInt))]"

definition MetadataStoreSpec_DeepCopy :: "libtypes \<Rightarrow> library \<Rightarrow> copier" where
  "MetadataStoreSpec_DeepCopy ext lib =
     copyPtr (zero (MetadataStoreSpec_type ext)) (MetadataStoreSpec_DeepCopyInto ext lib)"

definition ZookeeperSpec_DeepCopyInto :: "libtypes \<Rightarrow> library \<Rightarrow> copier" where
  "ZookeeperSpec_DeepCopyInto ext lib = copyStruct
    [(''Spec'', copySlice (zero TInt))]"

definition ZookeeperSpec_DeepCopy :: "libtypes \<Rightarrow> library \<Rightarrow> copier" where
  "ZookeeperSpec_DeepCopy ext lib =
     copyPtr (zero (ZookeeperSpec_type ext)) (ZookeeperSpec_DeepCopyInto ext lib)"

definition DruidNodeTypeStatus_DeepCopyInto :: "libtypes \<Rightarrow> library \<Rightarrow> copier" where
  "DruidNodeTypeStatus_DeepCopyInto ext lib = copyStruct []"

definition DruidNodeTypeStatus_DeepCopy :: "libtypes \<Rightarrow> library \<Rightarrow> copier" where
  "DruidNodeTypeStatus_DeepCopy ext lib =
     copyPtr (zero (DruidNodeTypeStatus_type ext)) (DruidNodeTypeStatus_DeepCopyInto ext lib)"

definition DruidClusterStatus_DeepCopyInto :: "libtypes \<Rightarrow> library \<Rightarrow> copier" where
  "DruidClusterStatus_DeepCopyInto ext lib = copyStruct
    [(''DruidNodeStatus'', assign), (''StatefulSets'', copySlice (zero TStr)),
     (''Deployments'', copySlice (zero TStr)), (''Services'', copySlice (zero TStr)),
     (''ConfigMaps'', copySlice (zero TStr)), (''PodDisruptionBudgets'', copySlice (zero TStr)),
     (''Ingress'', copySlice (zero TStr)), (''HPAutoScalers'', copySlice (zero TStr)),
     (''Pods'', copySlice (zero TStr)), (''PersistentVolumeClaims'', copySlice (zero TStr))]"

definition DruidClusterStatus_DeepCopy :: "libtypes \<Rightarrow> library \<Rightarrow> copier" where
  "DruidClusterStatus_DeepCopy ext lib =
     copyPtr (zero (DruidClusterStatus_type ext)) (DruidClusterStatus_DeepCopyInto ext lib)"

definition DruidNodeSpec_DeepCopyInto :: "libtypes \<Rightarrow> library \<Rightarrow> copier" where
  "DruidNodeSpec_DeepCopyInto ext lib = copyStruct
    [(''PodLabels'', copyMap assign),
     (''PodDisruptionBudgetSpec'', copyNew (zero (ext LPodDisruptionBudgetSpec)) (lib LPodDisruptionBudgetSpec)),
     (''Services'', copyEach (zero (ext LService)) (lib LService)),
     (''Tolerations'', copyEach (zero (ext LToleration)) (lib LToleration)),
     (''Affinity'', copyNew (zero (ext LAffinity)) (lib LAffinity)),
     (''NodeSelector'', copyMap assign),
     (''TerminationGracePeriodSeconds'', copyNew (zero TInt) assign),
     (''Ports'', copySlice (zero (ext FContainerPort))),
     (''ImagePullSecrets'', copySlice (zero (ext FLocalObjectReference))),
     (''Env'', copyEach (zero (ext LEnvVar)) (lib LEnvVar)),
     (''EnvFrom'', copyEach (zero (ext LEnvFromSource)) (lib LEnvFromSource)),
     (''Resources'', lib LResourceRequirements),
     (''PodSecurityContext'', copyNew (zero (ext LPodSecurityContext)) (lib LPodSecurityContext)),
     (''ContainerSecurityContext'', copyNew (zero (ext LSecurityContext)) (lib LSecurityContext)),
     (''PodAnnotations'', copyMap assign), (''MaxSurge'', copyNew (zero TInt) assign),
     (''MaxUnavailable'', copyNew (zero TInt) assign),
     (''UpdateStrategy'', copyNew (zero (ext LStatefulSetUpdateStrategy)) (lib LStatefulSetUpdateStrategy)),
     (''LivenessProbe'', copyNew (zero (ext LProbe)) (lib LProbe)),
     (''ReadinessProbe'', copyNew (zero (ext LProbe)) (lib LProbe)),
     (''StartUpProbe'', copyNew (zero (ext LProbe)) (lib LProbe)),
     (''IngressAnnotations'', copyMap assign), (''WorkloadAnnotations'', copyMap assign),
     (''Ingress'', copyNew (zero (ext LIngressSpec)) (lib LIngressSpec)),
     (''PersistentVolumeClaim'', copyEach (zero (ext LPersistentVolumeClaim)) (lib LPersistentVolumeClaim)),
     (''Lifecycle'', copyNew (zero (ext LLifecycle)) (lib LLifecycle)),
     (''HPAutoScaler'', copyNew (zero (ext LHorizontalPodAutoscalerSpec)) (lib LHorizontalPodAutoscalerSpec)),
     (''TopologySpreadConstraints'', copyEach (zero (ext LTopologySpreadConstraint)) (lib LTopologySpreadConstraint)),
     (''VolumeClaimTemplates'', copyEach (zero (ext LPersistentVolumeClaim)) (lib LPersistentVolumeClaim)),
     (''VolumeMounts'', copyEach (zero (ext LVolumeMount)) (lib LVolumeMount)),
     (''Volumes'', copyEach (zero (ext LVolume)) (lib LVolume)),
     (''AdditionalContainer'', copyEach (zero (AdditionalContainer_type ext)) (AdditionalContainer_DeepCopyInto ext lib)),
     (''DynamicConfig'', lib LRawExtension),
     (''DNSConfig'', copyNew (zero (ext LPodDNSConfig)) (lib LPodDNSConfig))]"

definition DruidNodeSpec_DeepCopy :: "libtypes \<Rightarrow> library \<Rightarrow> copier" where
  "DruidNodeSpec_DeepCopy ext lib =
     copyPtr (zero (DruidNodeSpec_type ext)) (DruidNodeSpec_DeepCopyInto ext lib)"

definition DruidSpec_DeepCopyInto :: "libtypes \<Rightarrow> library \<Rightarrow> copier" where
  "DruidSpec_DeepCopyInto ext lib = copyStruct
    [(''ExtraCommonConfig'', copyEach (zero (TPtr (ext FObjectReference))) (copyNew (zero (ext FObjectReference)) assign)),
     (''ImagePullSecrets'', copySlice (zero (ext FLocalObjectReference))),
     (''Env'', copyEach (zero (ext LEnvVar)) (lib LEnvVar)),
     (''EnvFrom'', copyEach (zero (ext LEnvFromSource)) (lib LEnvFromSource)),
     (''PodSecurityContext'', copyNew (zero (ext LPodSecurityContext)) (lib LPodSecurityContext)),
     (''ContainerSecurityContext'', copyNew (zero (ext LSecurityContext)) (lib LSecurityContext)),
     (''VolumeClaimTemplates'', copyEach (zero (ext LPersistentVolumeClaim)) (lib LPersistentVolumeClaim)),
     (''VolumeMounts'', copyEach (zero (ext LVolumeMount)) (lib LVolumeMount)),
     (''Volumes'', copyEach (zero (ext LVolume)) (lib LVolume)),
     (''PodAnnotations'', copyMap assign), (''WorkloadAnnotations'', copyMap assign),
     (''PodLabels'', copyMap assign),
     (''UpdateStrategy'', copyNew (zero (ext LStatefulSetUpdateStrategy)) (lib LStatefulSetUpdateStrategy)),
     (''LivenessProbe'', copyNew (zero (ext LProbe)) (lib LProbe)),
     (''ReadinessProbe'', copyNew (zero (ext LProbe)) (lib LProbe)),
     (''StartUpProbe'', copyNew (zero (ext LProbe)) (lib LProbe)),
     (''Services'', copyEach (zero (ext LService)) (lib LService)),
     (''NodeSelector'', copyMap assign),
     (''Tolerations'', copyEach (zero (ext LToleration)) (lib LToleration)),
     (''Affinity'', copyNew (zero (ext LAffinity)) (lib LAffinity)),
     (''Nodes'', copyMap (copyDeref (DruidNodeSpec_DeepCopy ext lib))),
     (''AdditionalContainer'', copyEach (zero (AdditionalContainer_type ext)) (AdditionalContainer_DeepCopyInto ext lib)),
     (''Zookeeper'', copyNew (zero (ZookeeperSpec_type ext)) (ZookeeperSpec_DeepCopyInto ext lib)),
     (''MetadataStore'', copyNew (zero (MetadataStoreSpec_type ext)) (MetadataStoreSpec_DeepCopyInto ext lib)),
     (''DeepStorage'', copyNew (zero (DeepStorageSpec_type ext)) (DeepStorageSpec_DeepCopyInto ext lib)),
     (''DynamicConfig'', lib LRawExtension), (''Auth'', assign),
     (''DNSConfig'', copyNew (zero (ext LPodDNSConfig)) (lib LPodDNSConfig))]"

definition DruidSpec_DeepCopy :: "libtypes \<Rightarrow> library \<Rightarrow> copier" where
  "DruidSpec_DeepCopy ext lib =
     copyPtr (zero (DruidSpec_type ext)) (DruidSpec_DeepCopyInto ext lib)"

definition Druid_DeepCopyInto :: "libtypes \<Rightarrow> library \<Rightarrow> copier" where
  "Druid_DeepCopyInto ext lib = copyStruct
    [(''TypeMeta'', assign), (''ObjectMeta'', lib LObjectMeta),
     (''Spec'', DruidSpec_DeepCopyInto ext lib),
     (''Status'', DruidClusterStatus_DeepCopyInto ext lib)]"

definition Druid_DeepCopy :: "libtypes \<Rightarrow> library \<Rightarrow> copier" where
  "Druid_DeepCopy ext lib =
     copyPtr (zero (Druid_type ext)) (Druid_DeepCopyInto ext lib)"

definition Druid_DeepCopyObject :: "libtypes \<Rightarrow> library \<Rightarrow> gval \<Rightarrow> store \<Rightarrow> goiface \<times> store" where
  "Druid_DeepCopyObject ext lib = copyObject ''Druid'' (Druid_DeepCopy ext lib)"

definition DruidList_DeepCopyInto :: "libtypes \<Rightarrow> library \<Rightarrow> copier" where
  "DruidList_DeepCopyInto ext lib = copyStruct
    [(''TypeMeta'', assign), (''ListMeta'', lib LListMeta),
     (''Items'', copyEach (zero (Druid_type ext)) (Druid_DeepCopyInto ext lib))]"

definition DruidList_DeepCopy :: "libtypes \<Rightarrow> library \<Rightarrow> copier" where
  "DruidList_DeepCopy ext lib =
     copyPtr (zero (DruidList_type ext)) (DruidList_DeepCopyInto ext lib)"

definition DruidList_DeepCopyObject :: "libtypes \<Rightarrow> library \<Rightarrow> gval \<Rightarrow> store \<Rightarrow> goiface \<times> store" where
  "DruidList_DeepCopyObject ext lib = copyObject ''DruidList'' (DruidList_DeepCopy ext lib)"

definition IngestionSpec_DeepCopyInto :: "libtypes \<Rightarrow> library \<Rightarrow> copier" where
  "IngestionSpec_DeepCopyInto ext lib = copyStruct
    [(''NativeSpec'', lib LRawExtension), (''Compaction'', lib LRawExtension),
     (''Rules'', copyEach (zero (ext LRawExtension)) (lib LRawExtension))]"

definition IngestionSpec_DeepCopy :: "libtypes \<Rightarrow> library \<Rightarrow> copier" where
  "IngestionSpec_DeepCopy ext lib =
     copyPtr (zero (IngestionSpec_type ext)) (IngestionSpec_DeepCopyInto ext lib)"

definition DruidIngestionSpec_DeepCopyInto :: "libtypes \<Rightarrow> library \<Rightarrow> copier" where
  "DruidIngestionSpec_DeepCopyInto ext lib = copyStruct
    [(''Ingestion'', IngestionSpec_DeepCopyInto ext lib), (''Auth'', assign)]"

definition DruidIngestionSpec_DeepCopy :: "libtypes \<Rightarrow> library \<Rightarrow> copier" where
  "DruidIngestionSpec_DeepCopy ext lib =
     copyPtr (zero (DruidIngestionSpec_type ext)) (DruidIngestionSpec_DeepCopyInto ext lib)"

definition DruidIngestionStatus_DeepCopyInto :: "libtypes \<Rightarrow> library \<Rightarrow> copier" where
  "DruidIngestionStatus_DeepCopyInto ext lib = copyStruct
    [(''LastUpdateTime'', lib LTime),
     (''CurrentRules'', copyEach (zero (ext LRawExtension)) (lib LRawExtension))]"

definition DruidIngestionStatus_DeepCopy :: "libtypes \<Rightarrow> library \<Rightarrow> copier" where
  "DruidIngestionStatus_DeepCopy ext lib =
     copyPtr (zero (DruidIngestionStatus_type ext)) (DruidIngestionStatus_DeepCopyInto ext lib)"

definition DruidIngestion_DeepCopyInto :: "libtypes \<Rightarrow> library \<Rightarrow> copier" where
  "DruidIngestion_DeepCopyInto ext lib = copyStruct
    [(''TypeMeta'', assign), (''ObjectMeta'', lib LObjectMeta),
     (''Spec'', DruidIngestionSpec_DeepCopyInto ext lib),
     (''Status'', DruidIngestionStatus_DeepCopyInto ext lib)]"

definition DruidIngestion_DeepCopy :: "libtypes \<Rightarrow> library \<Rightarrow> copier" where
  "DruidIngestion_DeepCopy ext lib =
     copyPtr (zero (DruidIngestion_type ext)) (DruidIngestion_DeepCopyInto ext lib)"

definition DruidIngestion_DeepCopyObject :: "libtypes \<Rightarrow> library \<Rightarrow> gval \<Rightarrow> store \<Rightarrow> goiface \<times> store" where
  "DruidIngestion_DeepCopyObject ext lib = copyObject ''DruidIngestion'' (DruidIngestion_DeepCopy ext lib)"

definition DruidIngestionList_DeepCopyInto :: "libtypes \<Rightarrow> library \<Rightarrow> copier" where
  "DruidIngestionList_DeepCopyInto ext lib = copyStruct
    [(''TypeMeta'', assign), (''ListMeta'', lib LListMeta),
     (''Items'', copyEach (zero (DruidIngestion_type ext)) (DruidIngestion_DeepCopyInto ext lib))]"

definition DruidIngestionList_DeepCopy :: "libtypes \<Rightarrow> library \<Rightarrow> copier" where
  "DruidIngestionList_DeepCopy ext lib =
     copyPtr (zero (DruidIngestionList_type ext)) (DruidIngestionList_DeepCopyInto ext lib)"

definition DruidIngestionList_DeepCopyObject :: "libtypes \<Rightarrow> library \<Rightarrow> gval \<Rightarrow> store \<Rightarrow> goiface \<times> store" where
  "DruidIngestionList_DeepCopyObject ext lib = copyObject ''DruidIngestionList'' (DruidIngestionList_DeepCopy ext lib)"

section \<open>The generated functions follow the declarations\<close>

text \<open>
  The collection \<open>copy_rules\<close> proves that a function is a deep copy from the form of its statements.
  \<open>aligned fs stmts\<close>: the statements name fields in declaration order, each copies its field
  deeply, and the fields in between are flat.
\<close>

fun aligned :: "(string \<times> gotype) list \<Rightarrow> (string \<times> copier) list \<Rightarrow> bool" where
  "aligned [] stmts = (stmts = [])"
| "aligned ((n, t) # fs) [] = (flat t \<and> aligned fs [])"
| "aligned ((n, t) # fs) ((m, c) # stmts) =
     (if n = m then deepCopies t c \<and> aligned fs stmts else flat t \<and> aligned fs ((m, c) # stmts))"

lemma covers_absent:
  assumes "covers fs stmts" "n \<notin> fst ` set fs"
  shows "(n, u) \<notin> set fs" "(n, d) \<notin> set stmts" "n \<notin> fst ` set stmts"
proof -
  show "n \<notin> fst ` set stmts" using assms unfolding covers_def by blast
  then show "(n, u) \<notin> set fs" "(n, d) \<notin> set stmts" using assms(2) by force+
qed

lemma covers_stmt:
  assumes "covers fs stmts" "n \<notin> fst ` set fs" "deepCopies t c"
  shows "covers ((n, t) # fs) ((n, c) # stmts)"
  using assms covers_absent [OF assms(1,2)] by (auto simp: covers_def)

lemma covers_flat:
  assumes "covers fs stmts" "n \<notin> fst ` set fs" "flat t"
  shows "covers ((n, t) # fs) stmts"
  using assms covers_absent [OF assms(1,2)] by (auto simp: covers_def)

lemma aligned_covers: "aligned fs stmts \<Longrightarrow> distinct (map fst fs) \<Longrightarrow> covers fs stmts"
proof (induction fs stmts rule: aligned.induct)
  case (1 stmts)
  then show ?case by (simp add: covers_def)
qed (simp_all add: covers_stmt covers_flat split: if_splits)

lemma aligned_copies [copy_rules]:
  "aligned fs stmts \<Longrightarrow> distinct (map fst fs) \<Longrightarrow> deepCopies (TStruct fs) (copyStruct stmts)"
  by (rule copyStruct_copies) (rule aligned_covers)

section \<open>The library and what the repository's types get from it\<close>

text \<open>
  What the generated code relies on: the library's deep copy functions are deep copies, and the
  library types that are copied by assignment contain no pointer, slice or map.
\<close>

locale copy_library =
  fixes ext :: libtypes and lib :: library
  assumes lib_copies: "\<not> byAssignment n \<Longrightarrow> deepCopies (ext n) (lib n)"
    and lib_flat: "byAssignment n \<Longrightarrow> flat (ext n)"
begin

declare lib_copies [copy_rules]

lemma flat_types [copy_rules]: "flat (ext FContainerPort)" "flat (ext FLocalObjectReference)" "flat (ext FObjectReference)"
  "flat (ext FTypeMeta)" "flat (ext FSecretReference)" "flat (Auth_type ext)"
  "flat (DruidNodeTypeStatus_type ext)"
  by (simp_all add: lib_flat byAssignment_def Auth_type_def DruidNodeTypeStatus_type_def)

lemma AdditionalContainer_copies [copy_rules]:
  "deepCopies (AdditionalContainer_type ext) (AdditionalContainer_DeepCopyInto ext lib)"
  by (simp add: AdditionalContainer_type_def AdditionalContainer_DeepCopyInto_def copy_rules)

lemma DeepStorageSpec_copies [copy_rules]:
  "deepCopies (DeepStorageSpec_type ext) (DeepStorageSpec_DeepCopyInto ext lib)"
  by (simp add: DeepStorageSpec_type_def DeepStorageSpec_DeepCopyInto_def copy_rules)

lemma MetadataStoreSpec_copies [copy_rules]:
  "deepCopies (MetadataStoreSpec_type ext) (MetadataStoreSpec_DeepCopyInto ext lib)"
  by (simp add: MetadataStoreSpec_type_def MetadataStoreSpec_DeepCopyInto_def copy_rules)

lemma ZookeeperSpec_copies [copy_rules]:
  "deepCopies (ZookeeperSpec_type ext) (ZookeeperSpec_DeepCopyInto ext lib)"
  by (simp add: ZookeeperSpec_type_def ZookeeperSpec_DeepCopyInto_def copy_rules)

lemma DruidNodeTypeStatus_copies [copy_rules]:
  "deepCopies (DruidNodeTypeStatus_type ext) (DruidNodeTypeStatus_DeepCopyInto ext lib)"
  by (simp add: DruidNodeTypeStatus_type_def DruidNodeTypeStatus_DeepCopyInto_def copy_rules)

lemma DruidClusterStatus_copies [copy_rules]:
  "deepCopies (DruidClusterStatus_type ext) (DruidClusterStatus_DeepCopyInto ext lib)"
  by (simp add: DruidClusterStatus_type_def DruidClusterStatus_DeepCopyInto_def copy_rules)

lemma DruidNodeSpec_copies [copy_rules]:
  "deepCopies (DruidNodeSpec_type ext) (DruidNodeSpec_DeepCopyInto ext lib)"
  by (simp add: DruidNodeSpec_type_def DruidNodeSpec_DeepCopyInto_def copy_rules)

lemma DruidNodeSpec_DeepCopy_copies [copy_rules]:
  "deepCopies (TPtr (DruidNodeSpec_type ext)) (DruidNodeSpec_DeepCopy ext lib)"
  by (simp add: DruidNodeSpec_DeepCopy_def copy_rules)

lemma DruidSpec_copies [copy_rules]:
  "deepCopies (DruidSpec_type ext) (DruidSpec_DeepCopyInto ext lib)"
  by (simp add: DruidSpec_type_def DruidSpec_DeepCopyInto_def copy_rules)

lemma Druid_copies [copy_rules]:
  "deepCopies (Druid_type ext) (Druid_DeepCopyInto ext lib)"
  by (simp add: Druid_type_def Druid_DeepCopyInto_def copy_rules)

lemma Druid_DeepCopy_copies [copy_rules]:
  "deepCopies (TPtr (Druid_type ext)) (Druid_DeepCopy ext lib)"
  by (simp add: Druid_DeepCopy_def copy_rules)

lemma DruidList_copies [copy_rules]:
  "deepCopies (DruidList_type ext) (DruidList_DeepCopyInto ext lib)"
  by (simp add: DruidList_type_def DruidList_DeepCopyInto_def copy_rules)

lemma DruidList_DeepCopy_copies [copy_rules]:
  "deepCopies (TPtr (DruidList_type ext)) (DruidList_DeepCopy ext lib)"
  by (simp add: DruidList_DeepCopy_def copy_rules)

lemma IngestionSpec_copies [copy_rules]:
  "deepCopies (IngestionSpec_type ext) (IngestionSpec_DeepCopyInto ext lib)"
  by (simp add: IngestionSpec_type_def IngestionSpec_DeepCopyInto_def copy_rules)

lemma DruidIngestionSpec_copies [copy_rules]:
  "deepCopies (DruidIngestionSpec_type ext) (DruidIngestionSpec_DeepCopyInto ext lib)"
  by (simp add: DruidIngestionSpec_type_def DruidIngestionSpec_DeepCopyInto_def copy_rules)

lemma DruidIngestionStatus_copies [copy_rules]:
  "deepCopies (DruidIngestionStatus_type ext) (DruidIngestionStatus_DeepCopyInto ext lib)"
  by (simp add: DruidIngestionStatus_type_def DruidIngestionStatus_DeepCopyInto_def copy_rules)

lemma DruidIngestion_copies [copy_rules]:
  "deepCopies (DruidIngestion_type ext) (DruidIngestion_DeepCopyInto ext lib)"
  by (simp add: DruidIngestion_type_def DruidIngestion_DeepCopyInto_def copy_rules)

lemma DruidIngestion_DeepCopy_copies [copy_rules]:
  "deepCopies (TPtr (DruidIngestion_type ext)) (DruidIngestion_DeepCopy ext lib)"
  by (simp add: DruidIngestion_DeepCopy_def copy_rules)

lemma DruidIngestionList_copies [copy_rules]:
  "deepCopies (DruidIngestionList_type ext) (DruidIngestionList_DeepCopyInto ext lib)"
  by (simp add: DruidIngestionList_type_def DruidIngestionList_DeepCopyInto_def copy_rules)

lemma DruidIngestionList_DeepCopy_copies [copy_rules]:
  "deepCopies (TPtr (DruidIngestionList_type ext)) (DruidIngestionList_DeepCopy ext lib)"
  by (simp add: DruidIngestionList_DeepCopy_def copy_rules)

end

text \<open>The objects the API server stores, with the functions that copy them.\<close>

definition rootObjects :: "libtypes \<Rightarrow> library \<Rightarrow> (gotype \<times> copier) list" where
  "rootObjects ext lib =
    [(TPtr (Druid_type ext), Druid_DeepCopy ext lib),
     (TPtr (DruidList_type ext), DruidList_DeepCopy ext lib),
     (TPtr (DruidIngestion_type ext), DruidIngestion_DeepCopy ext lib),
     (TPtr (DruidIngestionList_type ext), DruidIngestionList_DeepCopy ext lib)]"

context copy_library
begin

lemma root_copier: "(t, f) \<in> set (rootObjects ext lib) \<Longrightarrow> deep_copier t f"
  by (auto simp: rootObjects_def deep_copier_def copy_rules)

end

sublocale copy_library \<subseteq> druid: deep_copier "TPtr (Druid_type ext)" "Druid_DeepCopy ext lib"
  by unfold_locales (rule Druid_DeepCopy_copies)

definition objectCopiers :: "libtypes \<Rightarrow> library
    \<Rightarrow> (string \<times> gotype \<times> (gval \<Rightarrow> store \<Rightarrow> goiface \<times> store)) list" where
  "objectCopiers ext lib =
    [(''Druid'', TPtr (Druid_type ext), Druid_DeepCopyObject ext lib),
     (''DruidList'', TPtr (DruidList_type ext), DruidList_DeepCopyObject ext lib),
     (''DruidIngestion'', TPtr (DruidIngestion_type ext), DruidIngestion_DeepCopyObject ext lib),
     (''DruidIngestionList'', TPtr (DruidIngestionList_type ext), DruidIngestionList_DeepCopyObject ext lib)]"

lemma copyObject_holds:
  assumes "deep_copier (TPtr t) f" "conforms s (TPtr t) p" "copyObject k f p s = (r, s')"
  shows "if p = VNil then r = NoObject
    else \<exists>q. r = Object k (VPtr q) \<and> treeOf s' (TPtr t) (VPtr q) = treeOf s (TPtr t) p"
proof -
  obtain q s1 where f: "f p s = (q, s1)" by fastforce
  note e = deep_copier.deeply_equal [OF assms(1,2) f]
  from assms(2) e show ?thesis
    using assms(3) f by (cases q) (auto simp: copyObject_def split: gval.splits)
qed

lemma objectCopiers_root:
  assumes "(k, t, f) \<in> set (objectCopiers ext lib)"
  obtains u c where "t = TPtr u" "f = copyObject k c" "(TPtr u, c) \<in> set (rootObjects ext lib)"
  using assms
  by (auto simp: objectCopiers_def rootObjects_def Druid_DeepCopyObject_def DruidList_DeepCopyObject_def
      DruidIngestion_DeepCopyObject_def DruidIngestionList_DeepCopyObject_def)

section \<open>An example of the library\<close>

text \<open>
  Layouts for the library types with maps, slices and pointers in them, copied by the
  type-directed deep copy, and a cluster with a node group in a map and a pointer in the group.
\<close>

definition someTypes :: libtypes where
  "someTypes n = (if byAssignment n then TStruct [(''Name'', TStr)]
     else if n = LObjectMeta then TStruct [(''Name'', TStr), (''Labels'', TMap TStr), (''Finalizers'', TSlice TStr)]
     else if n = LRawExtension then TStruct [(''Raw'', TSlice TInt)]
     else if n = LProbe then TStruct [(''Exec'', TPtr (TStruct [(''Command'', TSlice TStr)]))]
     else TStruct [])"

definition someLibrary :: library where
  "someLibrary n = deepCopyAt (someTypes n)"

lemma someTypes_wf: "wfType (someTypes n)"
  by (simp add: someTypes_def)

interpretation someLib: copy_library someTypes someLibrary
proof
  show "\<not> byAssignment n \<Longrightarrow> deepCopies (someTypes n) (someLibrary n)" for n
    by (simp add: someLibrary_def deepCopyAt_copies someTypes_wf)
  show "byAssignment n \<Longrightarrow> flat (someTypes n)" for n
    by (simp add: someTypes_def)
qed

fun withField :: "string \<Rightarrow> gval \<Rightarrow> gval \<Rightarrow> gval" where
  "withField n w (VStruct gs) = VStruct (AList.update n w gs)"
| "withField n w v = v"

definition someMemory :: store where
  "someMemory =
    [CBox (withField ''Spec'' (withField ''Nodes'' (VMap 1) (zero (DruidSpec_type someTypes)))
       (zero (Druid_type someTypes))),
     CMap [(''brokers'', withField ''MaxSurge'' (VPtr 2) (zero (DruidNodeSpec_type someTypes)))],
     CBox (VInt 1)]"

lemma someMemory_conforms: "conforms someMemory (TPtr (Druid_type someTypes)) (VPtr 0)"
  by code_simp

section \<open>Properties\<close>

text \<open>
  C23 (safety). The deep copy of a Druid, a DruidIngestion or a list of them is deeply equal to
  the original and independent of it: whatever is later written to a cell the copy reaches, the
  original stands for the same tree, and the other way round. The library's own deep copies and
  the layout of its types are hypotheses.
\<close>

theorem deep_copies_are_independent:
  assumes "copy_library ext lib" "(t, f) \<in> set (rootObjects ext lib)"
    and "conforms s t p" "f p s = (q, s')"
  shows "treeOf s' t q = treeOf s t p \<and> treeOf s' t p = treeOf s t p
    \<and> (\<forall>a \<in> set (owns s' t q). \<forall>c. treeOf (s'[a := c]) t p = treeOf s t p)
    \<and> (\<forall>a \<in> set (owns s t p). \<forall>c. treeOf (s'[a := c]) t q = treeOf s t p)"
proof -
  note d = copy_library.root_copier [OF assms(1,2)]
  show ?thesis
    using deep_copier.deeply_equal(1) [OF d assms(3,4)] deep_copier.original_kept(1) [OF d assms(3,4)]
      deep_copier.write_through_copy [OF d assms(3,4)] deep_copier.write_through_original [OF d assms(3,4)]
    by blast
qed

theorem deep_copies_are_independent_witness:
  "treeOf (snd (Druid_DeepCopy someTypes someLibrary (VPtr 0) someMemory)) (TPtr (Druid_type someTypes))
     (fst (Druid_DeepCopy someTypes someLibrary (VPtr 0) someMemory))
   = treeOf someMemory (TPtr (Druid_type someTypes)) (VPtr 0)"
proof -
  have r: "(TPtr (Druid_type someTypes), Druid_DeepCopy someTypes someLibrary) \<in> set (rootObjects someTypes someLibrary)"
    by (simp add: rootObjects_def)
  show ?thesis
    using deep_copies_are_independent [OF someLib.copy_library_axioms r someMemory_conforms prod.collapse [symmetric]]
    by (rule conjunct1)
qed

text \<open>
  \<^verbatim>\<open>DeepCopyObject\<close> of a nil pointer is a nil interface, never an interface around a
  nil pointer, which a caller's test for nil would not see. Of an object it is an interface with
  the dynamic type of the object around a pointer to a deeply equal copy, so that the type
  assertion \<^verbatim>\<open>di.DeepCopyObject().(*v1alpha1.DruidIngestion)\<close> in the ingestion controller succeeds.
\<close>

theorem deep_copy_object_holds_pointer:
  assumes "copy_library ext lib" "(k, t, f) \<in> set (objectCopiers ext lib)" "conforms s t p" "f p s = (r, s')"
  shows "if p = VNil then r = NoObject
    else \<exists>q. r = Object k (VPtr q) \<and> treeOf s' t (VPtr q) = treeOf s t p"
proof -
  obtain u c where u: "t = TPtr u" "f = copyObject k c" "(TPtr u, c) \<in> set (rootObjects ext lib)"
    using objectCopiers_root [OF assms(2)] by blast
  from copyObject_holds [OF copy_library.root_copier [OF assms(1) u(3)]] assms(3,4) u(1,2)
  show ?thesis by blast
qed

theorem deep_copy_object_holds_pointer_witness:
  "\<exists>q. fst (Druid_DeepCopyObject someTypes someLibrary (VPtr 0) someMemory) = Object ''Druid'' (VPtr q)"
proof -
  have "(''Druid'', TPtr (Druid_type someTypes), Druid_DeepCopyObject someTypes someLibrary)
      \<in> set (objectCopiers someTypes someLibrary)"
    by (simp add: objectCopiers_def)
  from deep_copy_object_holds_pointer [OF someLib.copy_library_axioms this someMemory_conforms prod.collapse [symmetric]]
  show ?thesis by (auto split: if_splits)
qed

end
