(* ===== verification/Dynamic_Config.thy ===== *)
theory Dynamic_Config
  imports Druid_Api
begin

text \<open>
  \<^verbatim>\<open>controllers/druid/dynamic_config.go\<close>: the dynamic configuration of the overlord and of the
  coordinator is compared with the declared one over the Druid API and posted if a declared
  setting is missing. Proved: what is posted is declared, every post follows a read of the same
  URL, and nothing is posted once the cluster has the declared settings.
\<close>

section \<open>Operations\<close>

text \<open>The reasons of the events.\<close>

abbreviation druidGetRouterSvcUrlFailed :: string where "druidGetRouterSvcUrlFailed \<equiv> ''DruidAPIGetRouterSvcUrlFailed''"
abbreviation druidGetAuthCredsFailed :: string where "druidGetAuthCredsFailed \<equiv> ''DruidAPIGetAuthCredsFailed''"
abbreviation druidFetchCurrentConfigsFailed :: string where "druidFetchCurrentConfigsFailed \<equiv> ''DruidAPIFetchCurrentConfigsFailed''"
abbreviation druidConfigComparisonFailed :: string where "druidConfigComparisonFailed \<equiv> ''DruidAPIConfigComparisonFailed''"
abbreviation druidUpdateConfigsFailed :: string where "druidUpdateConfigsFailed \<equiv> ''DruidAPIUpdateConfigsFailed''"
abbreviation druidUpdateConfigsSuccess :: string where "druidUpdateConfigsSuccess \<equiv> ''DruidAPIUpdateConfigsSuccess''"

definition StatusOK :: int where "StatusOK = 200"

text \<open>The URL path of a node type; the two node types are the only ones the loop visits.\<close>

definition dynamicConfigPath :: "golib \<Rightarrow> string \<Rightarrow> string \<Rightarrow> string option" where
  "dynamicConfigPath lib svcName nodeType =
     (if nodeType = ''middlemanagers'' then Some (MakePath lib svcName ''indexer'' ''worker'' [])
      else if nodeType = ''coordinators'' then Some (MakePath lib svcName ''coordinator'' ''config'' [])
      else None)"

text \<open>\<^verbatim>\<open>emitEvent.EmitEventGeneric(druid, reason, msg, err); return err\<close>.\<close>

definition failWith :: "string \<Rightarrow> string \<Rightarrow> goerr \<Rightarrow> ('w, 'a) io" where
  "failWith reason msg err = bindE (EmitEventGeneric reason msg (Some err)) (\<lambda>_. throw err)"

definition fetchFailed :: "string \<Rightarrow> goerr \<Rightarrow> ('w, 'a) io" where
  "fetchFailed nodeType = failWith druidFetchCurrentConfigsFailed
     (''Failed to fetch current '' @ nodeType @ '' dynamic configurations'')"

text \<open>What follows a read that was answered: compare, and post if a setting is missing.\<close>

definition postIfMissing ::
  "'w client \<Rightarrow> basic_auth \<Rightarrow> string \<Rightarrow> string \<Rightarrow> string \<Rightarrow> http_response \<Rightarrow> ('w, unit) io" where
  "postIfMissing client basicAuth nodeType path dynamicConfig currentResp =
     (if rsStatusCode currentResp \<noteq> StatusOK then
        fetchFailed nodeType (GoErr (''failed to retrieve current Druid '' @ nodeType
          @ '' dynamic configurations. Status code: '' @ formatInt (rsStatusCode currentResp)
          @ '', Response body: '' @ rsBody currentResp))
      else
        let currentConfigsJson = (if rsBody currentResp = [] then ''{}'' else rsBody currentResp)
        in case IncludesJson (libUnmarshalJson (clLib client)) currentConfigsJson dynamicConfig of
             Inl err \<Rightarrow> failWith druidConfigComparisonFailed
               (''Failed to compare '' @ nodeType @ '' configurations'') err
           | Inr equal \<Rightarrow>
               if equal then ret ()
               else handleE (httpDo client basicAuth MethodPost path dynamicConfig)
                      (failWith druidUpdateConfigsFailed
                        (''Failed to update '' @ nodeType @ '' dynamic configurations''))
                      (\<lambda>respDynamicConfigs.
                         if rsStatusCode respDynamicConfigs \<noteq> StatusOK then
                           throw (GoErr (''failed to update Druid '' @ nodeType @ '' dynamic configurations''))
                         else EmitEventGeneric druidUpdateConfigsSuccess
                           (''Successfully updated '' @ nodeType @ '' dynamic configurations'') None))"

text \<open>The exchange with Druid for one node type, after the service and the credentials are known.\<close>

definition syncDynamicConfig ::
  "'w client \<Rightarrow> basic_auth \<Rightarrow> string \<Rightarrow> string \<Rightarrow> string \<Rightarrow> ('w, unit) io" where
  "syncDynamicConfig client basicAuth nodeType path dynamicConfig =
     handleE (httpDo client basicAuth MethodGet path []) (fetchFailed nodeType)
       (postIfMissing client basicAuth nodeType path dynamicConfig)"

definition dynamicConfig_step :: "'w client \<Rightarrow> druid \<Rightarrow> string \<Rightarrow> ('w, unit) io" where
  "dynamicConfig_step client drd nodeType =
     (case map_of (crNodes (drSpec drd)) nodeType of
        None \<Rightarrow> ret ()
      | Some nodeConfig \<Rightarrow>
          (case ndDynamicConfig nodeConfig of
             None \<Rightarrow> ret ()
           | Some dynamicConfig \<Rightarrow>
               handleE (GetRouterSvcUrl (GetNamespace drd) (GetName drd) client)
                 (failWith druidGetRouterSvcUrlFailed (''Failed to get router service URL for '' @ nodeType))
                 (\<lambda>svcName.
               handleE (GetAuthCreds client (crAuth (drSpec drd)))
                 (failWith druidGetAuthCredsFailed
                   (''Failed to get authentication credentials for '' @ nodeType))
                 (\<lambda>basicAuth.
               case dynamicConfigPath (clLib client) svcName nodeType of
                 None \<Rightarrow> throw (GoErr (''unsupported node type: '' @ nodeType))
               | Some path \<Rightarrow> syncDynamicConfig client basicAuth nodeType path dynamicConfig))))"

definition updateDruidDynamicConfigs :: "'w client \<Rightarrow> druid \<Rightarrow> ('w, unit) io" where
  "updateDruidDynamicConfigs client drd =
     forE (dynamicConfig_step client drd) [''middlemanagers'', ''coordinators'']"

section \<open>Lemmas\<close>

text \<open>
  \<open>guarded P e0\<close>: in the list of effects every post satisfies \<open>P\<close> and comes right after the read of
  the same URL with the same credentials.
\<close>

fun is_post :: "effect \<Rightarrow> bool" where
  "is_post (HttpCall rq) = (rqMethod rq \<noteq> MethodGet)"
| "is_post _ = False"

fun post_guarded :: "(http_request \<Rightarrow> bool) \<Rightarrow> effect option \<Rightarrow> effect list \<Rightarrow> bool" where
  "post_guarded P before [] = True"
| "post_guarded P before (HttpCall rq # es) =
     ((rqMethod rq = MethodGet \<or> rqMethod rq = MethodPost \<and> P rq
        \<and> before = Some (HttpCall (rq\<lparr>rqMethod := MethodGet, rqBody := []\<rparr>)))
      \<and> post_guarded P (Some (HttpCall rq)) es)"
| "post_guarded P before (e # es) = post_guarded P (Some e) es"

lemma post_guarded_append:
  "post_guarded P b xs \<Longrightarrow> (\<And>b'. post_guarded P b' ys) \<Longrightarrow> post_guarded P b (xs @ ys)"
  by (induction P b xs rule: post_guarded.induct) auto

lemma post_guarded_mono: "post_guarded P b es \<Longrightarrow> (\<And>rq. P rq \<Longrightarrow> Q rq) \<Longrightarrow> post_guarded Q b es"
  by (induction P b es rule: post_guarded.induct) auto

lemma post_guarded_split:
  "post_guarded P b (xs @ HttpCall rq # ys) \<Longrightarrow> rqMethod rq \<noteq> MethodGet \<Longrightarrow>
   P rq \<and> rqMethod rq = MethodPost \<and>
   (if xs = [] then b else Some (last xs)) = Some (HttpCall (rq\<lparr>rqMethod := MethodGet, rqBody := []\<rparr>))"
proof (induction xs arbitrary: b)
  case (Cons x xs)
  then have "post_guarded P (Some x) (xs @ HttpCall rq # ys)" by (cases x) auto
  from Cons.IH [OF this Cons.prems(2)] show ?case by auto
qed simp

definition no_http :: "effect \<Rightarrow> bool" where
  "no_http e \<longleftrightarrow> (\<forall>rq. e \<noteq> HttpCall rq)"

lemma no_http_simps [simp]: "no_http (GetCall k a b)" "no_http (ListCall k a l)" "no_http (EventEff x y z)"
  by (simp_all add: no_http_def)

lemma only_no_http:
  "only no_http (EmitEventGeneric reason msg err)" "only no_http (failWith reason msg err')"
  "only no_http (fetchFailed ty err')" "only no_http (GetRouterSvcUrl ns cl c)" "only no_http (GetAuthCreds c auth)"
  unfolding failWith_def fetchFailed_def GetRouterSvcUrl_def GetAuthCreds_def Let_def EmitEventGeneric_def Event_def sdk_defs
  by (intro only_intro no_http_simps)+

lemma guarded_no_http: "only no_http m \<Longrightarrow> post_guarded P b (effs m s)"
proof -
  have "list_all no_http es \<Longrightarrow> post_guarded P b es" for es
  proof (induction es arbitrary: b)
    case (Cons e es)
    then show ?case by (cases e) (auto simp: no_http_def)
  qed simp
  then show "only no_http m \<Longrightarrow> post_guarded P b (effs m s)" by (simp add: only_def)
qed

lemma no_post: "only no_http m \<Longrightarrow> \<not> list_ex is_post (effs m w)"
proof -
  have "no_http e \<Longrightarrow> \<not> is_post e" for e by (cases e) (auto simp: no_http_def)
  then show "only no_http m \<Longrightarrow> \<not> list_ex is_post (effs m w)"
    by (auto simp: only_def list_all_iff list_ex_iff)
qed

lemma guarded_handle:
  "post_guarded P b (effs m s) \<Longrightarrow> only no_http m \<Longrightarrow> (\<And>e. only no_http (h e))
   \<Longrightarrow> (\<And>x b s. post_guarded P b (effs (f x) s)) \<Longrightarrow> post_guarded P b (effs (handleE m h f) s)"
  by (simp add: go_run post_guarded_append guarded_no_http split: outcome.split)

text \<open>The read of a URL, and the post to it right after the read.\<close>

lemma guarded_get:
  assumes "\<And>e. only no_http (h e)"
    and "\<And>x s. post_guarded P (Some (HttpCall (reqOf a MethodGet path []))) (effs (f x) s)"
  shows "post_guarded P b (effs (handleE (httpDo c a MethodGet path []) h f) s)"
  using assms guarded_no_http [OF assms(1)]
  by (simp add: go_run httpDo_run split: option.split outcome.split)

lemma guarded_post:
  assumes "\<And>e. only no_http (h e)" and "\<And>x. only no_http (f x)" and "P (reqOf a MethodPost path body)"
  shows "post_guarded P (Some (HttpCall (reqOf a MethodGet path []))) (effs (handleE (httpDo c a MethodPost path body) h f) s)"
  using assms(3) guarded_no_http [OF assms(1)] guarded_no_http [OF assms(2)]
  by (simp add: go_run httpDo_run split: option.split outcome.split)

lemma sync_guarded: "post_guarded (\<lambda>rq. rqBody rq = cfg) b (effs (syncDynamicConfig c a ty path cfg) s)"
  unfolding syncDynamicConfig_def
proof (rule guarded_get [OF only_no_http(3)])
  fix x :: http_response and s
  have post: "post_guarded (\<lambda>rq. rqBody rq = cfg) (Some (HttpCall (reqOf a MethodGet path [])))
      (effs (handleE (httpDo c a MethodPost path cfg) (failWith r t)
        (\<lambda>resp. if rsStatusCode resp \<noteq> StatusOK then throw e else EmitEventGeneric r' t' None)) s)" for r t e r' t'
    by (rule guarded_post) (simp_all add: only_no_http only_if only_throw)
  then show "post_guarded (\<lambda>rq. rqBody rq = cfg) (Some (HttpCall (reqOf a MethodGet path [])))
      (effs (postIfMissing c a ty path cfg x) s)"
    unfolding postIfMissing_def Let_def
    by (cases "IncludesJson (libUnmarshalJson (clLib c)) (if rsBody x = [] then ''{}'' else rsBody x) cfg")
      (simp_all add: guarded_no_http only_no_http only_ret del: post_guarded.simps)
qed

lemma step_guarded:
  "post_guarded (\<lambda>rq. \<exists>node. map_of (crNodes (drSpec drd)) ty = Some node \<and> ndDynamicConfig node = Some (rqBody rq)) b
     (effs (dynamicConfig_step c drd ty) s)"
proof -
  have "post_guarded P b (effs (case dynamicConfigPath (clLib c) svc ty of None \<Rightarrow> throw e
        | Some path \<Rightarrow> syncDynamicConfig c a ty path cfg) s)"
    if "\<And>rq. rqBody rq = cfg \<Longrightarrow> P rq" for P b e a cfg svc s
    by (cases "dynamicConfigPath (clLib c) svc ty")
      (auto intro: guarded_no_http only_throw that post_guarded_mono [OF sync_guarded])
  then show ?thesis
    unfolding dynamicConfig_step_def
    by (auto split: option.split intro!: guarded_handle only_no_http intro: guarded_no_http only_ret)
qed

lemma guarded_forE:
  "(\<And>x b s. x \<in> set xs \<Longrightarrow> post_guarded P b (effs (f x) s)) \<Longrightarrow> post_guarded P b (effs (forE f xs) s)"
  by (induction xs arbitrary: b s) (auto simp: go_run intro!: post_guarded_append split: outcome.split)

section \<open>Properties\<close>

text \<open>
  C25 (safety). What the operator posts to Druid: every request other than a read is a post whose
  body is the dynamic configuration that the custom resource declares for one of the two node
  types, and right before it the operator has read the same URL with the same credentials.
\<close>

theorem dynamic_config_posts_declared:
  assumes "effs (updateDruidDynamicConfigs client drd) s = es1 @ HttpCall rq # es2" and "rqMethod rq \<noteq> MethodGet"
  shows "rqMethod rq = MethodPost
    \<and> (\<exists>ty node. ty \<in> {''middlemanagers'', ''coordinators''} \<and> map_of (crNodes (drSpec drd)) ty = Some node
        \<and> ndDynamicConfig node = Some (rqBody rq))
    \<and> (\<exists>es. es1 = es @ [HttpCall (rq\<lparr>rqMethod := MethodGet, rqBody := []\<rparr>)])"
proof -
  let ?P = "\<lambda>rq. \<exists>ty node. ty \<in> {''middlemanagers'', ''coordinators''} \<and> map_of (crNodes (drSpec drd)) ty = Some node
        \<and> ndDynamicConfig node = Some (rqBody rq)"
  have "post_guarded ?P None (effs (updateDruidDynamicConfigs client drd) s)"
    unfolding updateDruidDynamicConfigs_def
    by (rule guarded_forE, rule post_guarded_mono [OF step_guarded]) auto
  from post_guarded_split [OF this [unfolded assms(1)] assms(2)] show ?thesis
    by (cases es1 rule: rev_cases) (auto split: if_splits)
qed

text \<open>
  Settled clusters are left alone: if the router can be found, the credentials can be
  read and every read of a configuration succeeds with a text that includes the declared settings,
  then the update returns without error and posts nothing, in any state.
\<close>

theorem dynamic_config_settles:
  assumes router: "\<And>w. \<exists>url. res (GetRouterSvcUrl (GetNamespace drd) (GetName drd) client) w = Ok url"
    and creds: "\<And>w. \<exists>a. res (GetAuthCreds client (crAuth (drSpec drd))) w = Ok a"
    and urls: "\<And>url. libParseURL (clLib client) url = None"
    and answers: "\<And>rq w. \<exists>b. fst (clHttp client rq w) = Inr \<lparr>rsBody = b, rsStatusCode = 200\<rparr>
        \<and> (\<forall>(k, n) \<in> set (crNodes (drSpec drd)). \<forall>cfg. ndDynamicConfig n = Some cfg \<longrightarrow>
            IncludesJson (libUnmarshalJson (clLib client)) (if b = [] then ''{}'' else b) cfg = Inr True)"
  shows "res (updateDruidDynamicConfigs client drd) s = Ok ()
    \<and> \<not> list_ex is_post (effs (updateDruidDynamicConfigs client drd) s)"
proof -
  have sync: "res (syncDynamicConfig client a ty path cfg) w = Ok () \<and> effs (syncDynamicConfig client a ty path cfg) w = [HttpCall (reqOf a MethodGet path [])]"
    if "(k, n) \<in> set (crNodes (drSpec drd))" "ndDynamicConfig n = Some cfg" for k n cfg a ty path w
  proof -
    obtain b where b: "fst (clHttp client (reqOf a MethodGet path []) w) = Inr \<lparr>rsBody = b, rsStatusCode = 200\<rparr>"
      and all: "\<forall>(k, n) \<in> set (crNodes (drSpec drd)). \<forall>cfg. ndDynamicConfig n = Some cfg \<longrightarrow>
        IncludesJson (libUnmarshalJson (clLib client)) (if b = [] then ''{}'' else b) cfg = Inr True"
      using answers [of "reqOf a MethodGet path []" w] by (elim exE conjE)
    have "IncludesJson (libUnmarshalJson (clLib client)) (if b = [] then ''{}'' else b) cfg = Inr True"
      using bspec [OF all that(1)] that(2) by simp
    with b show ?thesis
      by (cases "b = []") (simp_all add: syncDynamicConfig_def postIfMissing_def go_run httpDo_run urls StatusOK_def Let_def)
  qed
  have "res (dynamicConfig_step client drd ty) w = Ok () \<and> \<not> list_ex is_post (effs (dynamicConfig_step client drd ty) w)"
    if ty: "ty \<in> {''middlemanagers'', ''coordinators''}" for ty w
  proof -
    have path: "\<exists>path. dynamicConfigPath (clLib client) svc ty = Some path" for svc
      using ty by (auto simp: dynamicConfigPath_def)
    show ?thesis
    proof (cases "map_of (crNodes (drSpec drd)) ty")
      case (Some n)
      then have mem: "(ty, n) \<in> set (crNodes (drSpec drd))" by (rule map_of_SomeD)
      obtain url where url: "res (GetRouterSvcUrl (GetNamespace drd) (GetName drd) client) w = Ok url" using router by blast
      obtain a where a: "res (GetAuthCreds client (crAuth (drSpec drd)))
          (post (GetRouterSvcUrl (GetNamespace drd) (GetName drd) client) w) = Ok a" using creds by blast
      obtain path where path: "dynamicConfigPath (clLib client) url ty = Some path" using path by blast
      show ?thesis
        using sync [OF mem]
        by (cases "ndDynamicConfig n") (simp_all add: dynamicConfig_step_def Some go_run url a path
            no_post [OF only_no_http(4)] no_post [OF only_no_http(5)])
    qed (simp add: dynamicConfig_step_def go_run)
  qed
  then show ?thesis by (simp add: updateDruidDynamicConfigs_def go_run)
qed


section \<open>Witnesses\<close>

text \<open>
  A server with one router service. Its coordinator answers reads with the given text and accepts
  every post.
\<close>

definition routerService :: service where
  "routerService = \<lparr>tmAPIVersion = ''v1'', tmKind = ''Service'', objMeta = metaOf ''r'' (Some crLabels),
     svcSelector = None, svcPorts = None, svcClusterIP = [], svcRest = []\<rparr>"

definition druidServer :: "string \<Rightarrow> unit client" where
  "druidServer text = (stubClient (sampleSts ''x''))\<lparr>
     clServices := (stubApi ServiceKind KService None)\<lparr>apiList := (\<lambda>_ _ w. (Inr [routerService], w))\<rparr>,
     clHttp := (\<lambda>_ w. (Inr \<lparr>rsBody = text, rsStatusCode = 200\<rparr>, w))\<rparr>"

definition tunedDruid :: druid where
  "tunedDruid = sampleDruid\<lparr>drSpec := (drSpec sampleDruid)\<lparr>crNodes :=
     [(''coordinators'', zeroNode\<lparr>ndDynamicConfig := Some ''{a:1}''\<rparr>)]\<rparr>\<rparr>"

lemma server_router: "\<exists>url. res (GetRouterSvcUrl ns cl (druidServer text)) w = Ok url"
  by (simp add: GetRouterSvcUrl_def go_run sdk_defs druidServer_def stubClient_def stubApi_def routerService_def metaOf_def)

lemma server_creds: "\<exists>a. res (GetAuthCreds (druidServer text) (crAuth (drSpec tunedDruid))) w = Ok a"
  by (simp add: GetAuthCreds_def go_run tunedDruid_def sample_defs)

lemma server_http: "clHttp (druidServer text) rq w = (Inr \<lparr>rsBody = text, rsStatusCode = 200\<rparr>, w)"
  by (simp add: druidServer_def)

lemma server_lib: "clLib (druidServer text) = memLib"
  by (simp add: druidServer_def stubClient_def)

theorem dynamic_config_settles_witness:
  "res (updateDruidDynamicConfigs (druidServer ''{a:1,b:2}'') tunedDruid) () = Ok ()
    \<and> \<not> list_ex is_post (effs (updateDruidDynamicConfigs (druidServer ''{a:1,b:2}'') tunedDruid) ())"
proof (rule dynamic_config_settles [OF server_router server_creds])
  have inc: "includesMap (fmupd ''a'' (JNum 1) (fmupd ''b'' (JNum 2) fmempty)) (fmupd ''a'' (JNum 1) fmempty)"
    by (subst includesMap.simps) (simp add: fmpred_iff)
  show "libParseURL (clLib (druidServer ''{a:1,b:2}'')) url = None" for url
    by (simp add: server_lib memLib_def)
  have "fst (clHttp (druidServer ''{a:1,b:2}'') rq w) = Inr \<lparr>rsBody = ''{a:1,b:2}'', rsStatusCode = 200\<rparr>" for rq w
    by (simp add: druidServer_def)
  moreover have "IncludesJson (libUnmarshalJson memLib) ''{a:1,b:2}'' ''{a:1}'' = Inr True"
    using inc by (simp add: IncludesJson_def unmarshalMap_def memLib_def memJson_def)
  ultimately show "\<exists>b. fst (clHttp (druidServer ''{a:1,b:2}'') rq w) = Inr \<lparr>rsBody = b, rsStatusCode = 200\<rparr>
        \<and> (\<forall>(k, n) \<in> set (crNodes (drSpec tunedDruid)). \<forall>cfg. ndDynamicConfig n = Some cfg \<longrightarrow>
            IncludesJson (libUnmarshalJson (clLib (druidServer ''{a:1,b:2}''))) (if b = [] then ''{}'' else b) cfg = Inr True)" for rq w
    by (intro exI [of _ "''{a:1,b:2}''"]) (simp add: tunedDruid_def server_lib)
qed

theorem dynamic_config_posts_witness:
  "\<exists>es rq. effs (updateDruidDynamicConfigs (druidServer ''{}'') tunedDruid) () =
      es @ [HttpCall (rq\<lparr>rqMethod := MethodGet, rqBody := []\<rparr>), HttpCall rq, EventEff EventTypeNormal druidUpdateConfigsSuccess
        ''Successfully updated coordinators dynamic configurations'']
    \<and> rqBody rq = ''{a:1}''"
proof -
  have inc: "\<not> includesMap fmempty (fmupd ''a'' (JNum 1) fmempty)"
    by (subst includesMap.simps) (simp add: fmpred_iff)
  then have "IncludesJson (libUnmarshalJson memLib) ''{}'' ''{a:1}'' = Inr False"
    by (simp add: IncludesJson_def unmarshalMap_def memLib_def memJson_def)
  then have sync: "effs (syncDynamicConfig (druidServer ''{}'') a ''coordinators'' path ''{a:1}'') w =
      [HttpCall (reqOf a MethodGet path []), HttpCall (reqOf a MethodPost path ''{a:1}''),
       EventEff EventTypeNormal druidUpdateConfigsSuccess ''Successfully updated coordinators dynamic configurations'']"
    for a path w
    by (simp add: syncDynamicConfig_def postIfMissing_def go_run httpDo_run server_lib server_http StatusOK_def
        memLib_def EmitEventGeneric_def Event_def)
  obtain url a where url: "res (GetRouterSvcUrl (GetNamespace tunedDruid) (GetName tunedDruid) (druidServer ''{}'')) () = Ok url"
    and a: "res (GetAuthCreds (druidServer ''{}'') (crAuth (drSpec tunedDruid))) () = Ok a"
    using server_router server_creds by metis
  have "map_of (crNodes (drSpec tunedDruid)) ''middlemanagers'' = None"
    "map_of (crNodes (drSpec tunedDruid)) ''coordinators'' = Some (zeroNode\<lparr>ndDynamicConfig := Some ''{a:1}''\<rparr>)"
    by (simp_all add: tunedDruid_def)
  then have "\<exists>es rq. effs (updateDruidDynamicConfigs (druidServer ''{}'') tunedDruid) () = es @ HttpCall rq #
      [EventEff EventTypeNormal druidUpdateConfigsSuccess ''Successfully updated coordinators dynamic configurations'']
      \<and> rqMethod rq = MethodPost \<and> rqBody rq = ''{a:1}''"
    by (simp add: updateDruidDynamicConfigs_def dynamicConfig_step_def go_run url a dynamicConfigPath_def sync)
  then obtain es1 rq where es: "effs (updateDruidDynamicConfigs (druidServer ''{}'') tunedDruid) () = es1 @ HttpCall rq #
      [EventEff EventTypeNormal druidUpdateConfigsSuccess ''Successfully updated coordinators dynamic configurations'']"
      "rqMethod rq = MethodPost" "rqBody rq = ''{a:1}''" by blast
  have "rqMethod rq \<noteq> MethodGet" using es(2) by simp
  from dynamic_config_posts_declared [OF es(1) this] obtain es where
    "es1 = es @ [HttpCall (rq\<lparr>rqMethod := MethodGet, rqBody := []\<rparr>)]" by blast
  with es show ?thesis by (intro exI [of _ es] exI [of _ rq]) simp
qed

end
