(* ===== verification/Druid_Controller.thy ===== *)
theory Druid_Controller
  imports Cluster_Deploy Dynamic_Config
begin

text \<open>
  \<^verbatim>\<open>controllers/druid/druid_controller.go\<close> and \<^verbatim>\<open>controllers/druid/predicates.go\<close>: which changes of a
  custom resource reach the controller, and what one reconciliation does. The environment of the
  process is an argument (\<open>env\<close>, \<^verbatim>\<open>os.LookupEnv\<close>).
\<close>

section \<open>Operations\<close>

definition ignoredAnnotation :: string where "ignoredAnnotation = ''druid.apache.org/ignored''"

fun IgnoreNamespace_loop :: "string \<Rightarrow> string list \<Rightarrow> bool" where
  "IgnoreNamespace_loop ns [] = True"
| "IgnoreNamespace_loop ns (namespace # namespaces) =
     (if ns = namespace then False else IgnoreNamespace_loop ns namespaces)"

definition IgnoreNamespacePredicate :: "(string \<Rightarrow> string option) \<Rightarrow> 'a k8s_object_scheme \<Rightarrow> bool" where
  "IgnoreNamespacePredicate env obj =
     (let namespaces = getEnvAsSlice env ''DENY_LIST'' [] '',''
      in IgnoreNamespace_loop (GetNamespace obj) namespaces)"

definition IgnoreIgnoredObjectPredicate :: "'a k8s_object_scheme \<Rightarrow> bool" where
  "IgnoreIgnoredObjectPredicate obj =
     (let ignoredStatus = mapGet (GetAnnotations obj) ignoredAnnotation
      in if ignoredStatus = ''true'' then False else True)"

definition predicate_Create :: "(string \<Rightarrow> string option) \<Rightarrow> 'a k8s_object_scheme \<Rightarrow> bool" where
  "predicate_Create env obj = (IgnoreNamespacePredicate env obj \<and> IgnoreIgnoredObjectPredicate obj)"

definition predicate_Update ::
  "(string \<Rightarrow> string option) \<Rightarrow> 'a k8s_object_scheme \<Rightarrow> 'a k8s_object_scheme \<Rightarrow> bool" where
  "predicate_Update env objOld objNew = (IgnoreNamespacePredicate env objNew \<and> IgnoreIgnoredObjectPredicate objNew)"

text \<open>Durations are nanoseconds. \<open>None\<close>: the process exits (\<^verbatim>\<open>os.Exit(1)\<close>).\<close>

definition LookupReconcileTime :: "golib \<Rightarrow> (string \<Rightarrow> string option) \<Rightarrow> int option" where
  "LookupReconcileTime lib env =
     (case env ''RECONCILE_WAIT'' of
        None \<Rightarrow> Some (10 ^ 9 * 10)
      | Some val \<Rightarrow> (case libParseDuration lib val of Inl err \<Rightarrow> None | Inr v \<Rightarrow> Some v))"

definition getMaxConcurrentReconciles :: "(string \<Rightarrow> string option) \<Rightarrow> int" where
  "getMaxConcurrentReconciles env =
     (case env ''MAX_CONCURRENT_RECONCILES'' of None \<Rightarrow> 1 | Some nu \<Rightarrow> Str2Int nu)"

record ctrl_result =
  rsRequeueAfter :: int

definition noResult :: ctrl_result where "noResult = \<lparr>rsRequeueAfter = 0\<rparr>"

text \<open>
  Both steps work on the same instance: the second reads the custom resource as the first one
  left it.
\<close>

definition Reconcile :: "'w client \<Rightarrow> int \<Rightarrow> string \<Rightarrow> string \<Rightarrow> ('w, ctrl_result) io" where
  "Reconcile client reconcileWait name ns =
     handleE (sdkGet (clDruids client) name ns)
       (\<lambda>err. if isNotFound err then ret noResult else throw err)
       (\<lambda>instance0.
          bindE (deployDruidCluster client instance0) (\<lambda>instance1.
          bindE (updateDruidDynamicConfigs client instance1) (\<lambda>_.
            ret \<lparr>rsRequeueAfter = reconcileWait\<rparr>)))"

section \<open>Lemmas\<close>

lemma IgnoreNamespace_loop_iff: "IgnoreNamespace_loop ns l \<longleftrightarrow> ns \<notin> set l"
  by (induction l) auto

section \<open>Properties\<close>

text \<open>
  The event filter: a change of a custom resource is handled exactly when its
  namespace is not one of the comma-separated entries of \<^verbatim>\<open>DENY_LIST\<close> and it is not annotated as
  ignored. Entries are compared as they stand: joined again with commas they give the variable
  back, blanks included. Creation and update use the same rule.
\<close>

theorem filter_exact:
  "predicate_Create env obj = (GetNamespace obj \<notin> set (getEnvAsSlice env ''DENY_LIST'' [] '','')
      \<and> mapGet (GetAnnotations obj) ignoredAnnotation \<noteq> ''true'')
   \<and> predicate_Update env old obj = predicate_Create env obj
   \<and> joinStr '','' (getEnvAsSlice env ''DENY_LIST'' [] '','') = (case env ''DENY_LIST'' of None \<Rightarrow> [] | Some v \<Rightarrow> v)"
  by (auto simp: predicate_Create_def predicate_Update_def IgnoreNamespacePredicate_def IgnoreIgnoredObjectPredicate_def
      IgnoreNamespace_loop_iff getEnvAsSlice_def getDenyListEnv_def Let_def joinStr_Split split: option.split)

text \<open>
  One reconciliation reads the custom resource first. If it is gone nothing
  else is requested and the request is not repeated; if it cannot be read the error is returned.
  Otherwise the cluster is deployed, and only when that returns without error the dynamic
  configuration is updated. The next round is scheduled exactly when both succeed.
\<close>

theorem reconcile_exact:
  fixes client :: "'w client" and wait :: int and name ns :: string
  defines "run \<equiv> Reconcile client wait name ns" and "get \<equiv> apiGet (clDruids client) name ns"
  shows "case fst (get s) of
      Inl err \<Rightarrow> res run s = (if isNotFound err then Ok noResult else Err err)
        \<and> effs run s = [GetCall (apiKind (clDruids client)) name ns]
    | Inr m \<Rightarrow> effs run s = GetCall (apiKind (clDruids client)) name ns # effs (deployDruidCluster client m) (snd (get s))
          @ (case res (deployDruidCluster client m) (snd (get s)) of
               Ok m' \<Rightarrow> effs (updateDruidDynamicConfigs client m') (post (deployDruidCluster client m) (snd (get s)))
             | _ \<Rightarrow> [])
        \<and> (res run s = Ok r) = (r = \<lparr>rsRequeueAfter = wait\<rparr>
            \<and> (\<exists>m'. res (deployDruidCluster client m) (snd (get s)) = Ok m'
               \<and> res (updateDruidDynamicConfigs client m') (post (deployDruidCluster client m) (snd (get s))) = Ok ()))"
  unfolding run_def get_def Reconcile_def
  by (auto simp: go_run sdk_defs split: sum.split outcome.split)

end
