(* ===== verification/Operator_Main.thy ===== *)
theory Operator_Main
  imports Druid_Controller Ingestion
begin

text \<open>
  \<^verbatim>\<open>main.go\<close> and the set-up of the two controllers (\<^verbatim>\<open>NewDruidReconciler\<close>, \<^verbatim>\<open>SetupWithManager\<close> of
  \<^verbatim>\<open>druid_controller.go\<close> and \<^verbatim>\<open>ingestion_controller.go\<close>). The manager of controller-runtime is a
  parameter: what each of its calls answers is unknown. The command line is given as the values
  of the flags after \<^verbatim>\<open>flag.Parse\<close>, the environment as a function. Leaving the process with
  \<^verbatim>\<open>os.Exit(1)\<close> is the effect \<open>ExitCall\<close> and an error nothing handles. Proved: which namespaces
  are watched, which calls a start makes, and that the manager runs only if every step of the
  set-up succeeded.
\<close>

section \<open>Configuration of the process\<close>

record cli_flags =
  flMetricsAddr :: string
  flProbeAddr :: string
  flEnableLeaderElection :: bool
  flDisableIngestionController :: bool

definition defaultFlags :: cli_flags where
  "defaultFlags = \<lparr>flMetricsAddr = '':8080'', flProbeAddr = '':8081'', flEnableLeaderElection = False,
     flDisableIngestionController = False\<rparr>"

text \<open>\<^verbatim>\<open>os.Getenv\<close>: an unset variable reads as the empty text.\<close>

definition Getenv :: "(string \<Rightarrow> string option) \<Rightarrow> string \<Rightarrow> string" where
  "Getenv env name = (case env name of None \<Rightarrow> [] | Some v \<Rightarrow> v)"

text \<open>\<^verbatim>\<open>strings.TrimSpace\<close> on ASCII text.\<close>

definition isSpace :: "char \<Rightarrow> bool" where
  "isSpace c \<longleftrightarrow> c \<in> {CHR 0x09, CHR 0x0A, CHR 0x0B, CHR 0x0C, CHR 0x0D, CHR '' ''}"

definition TrimSpace :: "string \<Rightarrow> string" where
  "TrimSpace s = rev (dropWhile isSpace (rev (dropWhile isSpace s)))"

text \<open>The namespaces of a multi-namespace cache, or the manager's default (\<^verbatim>\<open>nil\<close>).\<close>

definition watchNamespaceCache :: "(string \<Rightarrow> string option) \<Rightarrow> string list option" where
  "watchNamespaceCache env =
     (let ns = Split (Getenv env ''WATCH_NAMESPACE'') '',''
      in if length ns > 1 then Some (map TrimSpace ns) else None)"

record manager_options =
  moMetricsBindAddress :: string
  moPort :: int
  moHealthProbeBindAddress :: string
  moLeaderElection :: bool
  moLeaderElectionID :: string
  moNamespace :: string
  moNewCache :: "string list option"

definition managerOptions :: "cli_flags \<Rightarrow> (string \<Rightarrow> string option) \<Rightarrow> manager_options" where
  "managerOptions flags env = \<lparr>moMetricsBindAddress = flMetricsAddr flags, moPort = 9443,
     moHealthProbeBindAddress = flProbeAddr flags, moLeaderElection = flEnableLeaderElection flags,
     moLeaderElectionID = ''e6946145.apache.org'', moNamespace = Getenv env ''WATCH_NAMESPACE'',
     moNewCache = watchNamespaceCache env\<rparr>"

section \<open>Calls of a start\<close>

text \<open>
  A controller as it is handed to the manager: the resource it is for, whether the event filter
  is installed, the number of workers if it is set, and the waiting time and the name of the
  event recorder of its reconciler.
\<close>

record controller_setup =
  ctFor :: kind
  ctEventFilter :: bool
  ctMaxConcurrentReconciles :: "int option"
  ctReconcileWait :: int
  ctRecorder :: string

datatype setup_call =
    GetConfigCall
  | NewManagerCall manager_options
  | CompleteCall controller_setup
  | AddHealthzCheckCall string
  | AddReadyzCheckCall string
  | StartCall
  | ExitCall int

text \<open>What the manager answers: \<open>None\<close> is success.\<close>

record 'w manager =
  mgGetConfig :: "'w \<Rightarrow> goerr option \<times> 'w"
  mgNew :: "manager_options \<Rightarrow> 'w \<Rightarrow> goerr option \<times> 'w"
  mgComplete :: "controller_setup \<Rightarrow> 'w \<Rightarrow> goerr option \<times> 'w"
  mgAddHealthz :: "string \<Rightarrow> 'w \<Rightarrow> goerr option \<times> 'w"
  mgAddReadyz :: "string \<Rightarrow> 'w \<Rightarrow> goerr option \<times> 'w"
  mgStart :: "'w \<Rightarrow> goerr option \<times> 'w"

definition os_Exit :: "int \<Rightarrow> ('w, setup_call, 'a) go" where
  "os_Exit code = bindE (tell (ExitCall code)) (\<lambda>_. throw (GoErr ''exit status 1''))"

text \<open>\<^verbatim>\<open>if err := call; err != nil { log; os.Exit(1) }\<close>.\<close>

definition orExit :: "setup_call \<Rightarrow> ('w \<Rightarrow> goerr option \<times> 'w) \<Rightarrow> ('w, setup_call, unit) go" where
  "orExit c answer =
     handleE (ask c (\<lambda>w. case answer w of (None, w') \<Rightarrow> (Inr (), w') | (Some e, w') \<Rightarrow> (Inl e, w')))
       (\<lambda>err. os_Exit 1) ret"

text \<open>\<^verbatim>\<open>ctrl.GetConfigOrDie\<close> logs the error of \<^verbatim>\<open>GetConfig\<close> and leaves the process.\<close>

definition GetConfigOrDie :: "'w manager \<Rightarrow> ('w, setup_call, unit) go" where
  "GetConfigOrDie mgr = orExit GetConfigCall (mgGetConfig mgr)"

record druid_reconciler =
  rcReconcileWait :: int
  rcRecorder :: string

text \<open>Reading the waiting time may end the process.\<close>

definition NewDruidReconciler :: "golib \<Rightarrow> (string \<Rightarrow> string option) \<Rightarrow> ('w, setup_call, druid_reconciler) go" where
  "NewDruidReconciler lib env =
     (case LookupReconcileTime lib env of
        None \<Rightarrow> os_Exit 1
      | Some wait \<Rightarrow> ret \<lparr>rcReconcileWait = wait, rcRecorder = ''druid-operator''\<rparr>)"

definition druid_SetupWithManager :: "(string \<Rightarrow> string option) \<Rightarrow> druid_reconciler \<Rightarrow> controller_setup" where
  "druid_SetupWithManager env r = \<lparr>ctFor = DruidKind, ctEventFilter = True,
     ctMaxConcurrentReconciles = Some (getMaxConcurrentReconciles env),
     ctReconcileWait = rcReconcileWait r, ctRecorder = rcRecorder r\<rparr>"

text \<open>The waiting time of the ingestion reconciler stays at its zero value.\<close>

definition NewDruidIngestionReconciler :: druid_reconciler where
  "NewDruidIngestionReconciler = \<lparr>rcReconcileWait = 0, rcRecorder = ''druid-ingestion''\<rparr>"

definition ingestion_SetupWithManager :: "druid_reconciler \<Rightarrow> controller_setup" where
  "ingestion_SetupWithManager r = \<lparr>ctFor = DruidIngestionKind, ctEventFilter = False,
     ctMaxConcurrentReconciles = None, ctReconcileWait = rcReconcileWait r, ctRecorder = rcRecorder r\<rparr>"

definition main :: "golib \<Rightarrow> 'w manager \<Rightarrow> cli_flags \<Rightarrow> (string \<Rightarrow> string option) \<Rightarrow> ('w, setup_call, unit) go" where
  "main lib mgr flags env =
     bindE (GetConfigOrDie mgr) (\<lambda>_.
     bindE (orExit (NewManagerCall (managerOptions flags env)) (mgNew mgr (managerOptions flags env))) (\<lambda>_.
     bindE (NewDruidReconciler lib env) (\<lambda>r.
     bindE (orExit (CompleteCall (druid_SetupWithManager env r)) (mgComplete mgr (druid_SetupWithManager env r))) (\<lambda>_.
     bindE (if \<not> flDisableIngestionController flags then
              let c = ingestion_SetupWithManager NewDruidIngestionReconciler
              in orExit (CompleteCall c) (mgComplete mgr c)
            else ret ()) (\<lambda>_.
     bindE (orExit (AddHealthzCheckCall ''healthz'') (mgAddHealthz mgr ''healthz'')) (\<lambda>_.
     bindE (orExit (AddReadyzCheckCall ''readyz'') (mgAddReadyz mgr ''readyz'')) (\<lambda>_.
     orExit StartCall (mgStart mgr))))))))"

section \<open>Lemmas\<close>

text \<open>What the manager answers to each call.\<close>

fun mgAnswer :: "'w manager \<Rightarrow> setup_call \<Rightarrow> 'w \<Rightarrow> goerr option \<times> 'w" where
  "mgAnswer mgr GetConfigCall w = mgGetConfig mgr w"
| "mgAnswer mgr (NewManagerCall opts) w = mgNew mgr opts w"
| "mgAnswer mgr (CompleteCall c) w = mgComplete mgr c w"
| "mgAnswer mgr (AddHealthzCheckCall n) w = mgAddHealthz mgr n w"
| "mgAnswer mgr (AddReadyzCheckCall n) w = mgAddReadyz mgr n w"
| "mgAnswer mgr StartCall w = mgStart mgr w"
| "mgAnswer mgr (ExitCall code) w = (None, w)"

text \<open>The call \<open>i\<close> of \<open>cs\<close> is answered with an error, in the state the calls before it left.\<close>

definition refused :: "'w manager \<Rightarrow> setup_call list \<Rightarrow> 'w \<Rightarrow> nat \<Rightarrow> bool" where
  "refused mgr cs w i \<longleftrightarrow> i < length cs \<and> fst (mgAnswer mgr (cs ! i) (served (mgAnswer mgr) (take i cs) w)) \<noteq> None"

lemma refused_append:
  "refused mgr (cs @ ds) w i \<longleftrightarrow>
     (if i < length cs then refused mgr cs w i else refused mgr ds (served (mgAnswer mgr) cs w) (i - length cs))"
  by (auto simp: refused_def nth_append)

text \<open>
  \<open>stages mgr cs m\<close>: with no call of \<open>cs\<close> refused, \<open>m\<close> makes exactly these calls and succeeds; if
  \<open>i\<close> is the first that is refused, \<open>m\<close> makes the calls up to and with \<open>i\<close> and leaves the process.
\<close>

definition stages :: "'w manager \<Rightarrow> setup_call list \<Rightarrow> ('w, setup_call, 'a) go \<Rightarrow> bool" where
  "stages mgr cs m \<longleftrightarrow> (\<forall>s.
     ((\<forall>i. \<not> refused mgr cs s i) \<longrightarrow> (\<exists>x. res m s = Ok x) \<and> effs m s = cs \<and> post m s = served (mgAnswer mgr) cs s)
     \<and> (\<forall>i. refused mgr cs s i \<and> (\<forall>j < i. \<not> refused mgr cs s j) \<longrightarrow>
          (\<exists>e. res m s = Err e) \<and> effs m s = take (Suc i) cs @ [ExitCall 1]))"

lemma stages_orExit: "(\<And>w. mgAnswer mgr c w = answer w) \<Longrightarrow> stages mgr [c] (orExit c answer)"
  by (auto simp: stages_def refused_def orExit_def os_Exit_def go_run split: option.splits prod.splits)

lemma stages_ret: "stages mgr [] (ret x)"
  by (simp add: stages_def go_run refused_def)

lemma stages_bind:
  assumes "stages mgr cs m" "\<And>x. stages mgr ds (f x)"
  shows "stages mgr (cs @ ds) (bindE m f)"
  unfolding stages_def
proof (intro allI conjI impI)
  fix s assume none: "\<forall>i. \<not> refused mgr (cs @ ds) s i"
  have c: "\<not> refused mgr cs s i" for i
    using none [rule_format, of i] by (cases "i < length cs") (simp_all add: refused_append, simp add: refused_def)
  have d: "\<not> refused mgr ds (served (mgAnswer mgr) cs s) i" for i
    using none [rule_format, of "length cs + i"] by (simp add: refused_append)
  obtain x where m: "res m s = Ok x" "effs m s = cs" "post m s = served (mgAnswer mgr) cs s"
    using assms(1) c unfolding stages_def by blast
  moreover obtain y where "res (f x) (post m s) = Ok y" "effs (f x) (post m s) = ds"
      "post (f x) (post m s) = served (mgAnswer mgr) ds (post m s)"
    using assms(2) [of x] d unfolding stages_def m(3) by blast
  ultimately show "\<exists>x. res (bindE m f) s = Ok x" "effs (bindE m f) s = cs @ ds"
    "post (bindE m f) s = served (mgAnswer mgr) (cs @ ds) s" by (simp_all add: go_run)
next
  fix s i assume first: "refused mgr (cs @ ds) s i \<and> (\<forall>j < i. \<not> refused mgr (cs @ ds) s j)"
  have "(\<exists>e. res (bindE m f) s = Err e) \<and> effs (bindE m f) s = take (Suc i) (cs @ ds) @ [ExitCall 1]"
  proof (cases "i < length cs")
    case True
    then have "refused mgr cs s i" "\<forall>j < i. \<not> refused mgr cs s j" using first by (auto simp: refused_append)
    then obtain e where "res m s = Err e" "effs m s = take (Suc i) cs @ [ExitCall 1]"
      using assms(1) unfolding stages_def by blast
    with True show ?thesis by (simp add: go_run)
  next
    case False
    have c: "\<not> refused mgr cs s j" for j
    proof (cases "j < length cs")
      case True
      then show ?thesis using first [THEN conjunct2, rule_format, of j] False by (simp add: refused_append)
    qed (simp add: refused_def)
    obtain x where m: "res m s = Ok x" "effs m s = cs" "post m s = served (mgAnswer mgr) cs s"
      using assms(1) c unfolding stages_def by blast
    have "refused mgr ds (post m s) (i - length cs)" "\<not> refused mgr ds (post m s) j" if "j < i - length cs" for j
      using first False that m(3) first [THEN conjunct2, rule_format, of "length cs + j"] by (auto simp: refused_append)
    moreover have "refused mgr ds (post m s) (i - length cs)" using first False m(3) by (simp add: refused_append)
    ultimately obtain e where "res (f x) (post m s) = Err e"
        "effs (f x) (post m s) = take (Suc (i - length cs)) ds @ [ExitCall 1]"
      using assms(2) [of x] unfolding stages_def by blast
    with m False show ?thesis by (simp add: go_run Suc_diff_le)
  qed
  then show "\<exists>e. res (bindE m f) s = Err e" "effs (bindE m f) s = take (Suc i) (cs @ ds) @ [ExitCall 1]" by blast+
qed

lemma dropWhile_hd: "dropWhile P xs = y # ys \<Longrightarrow> \<not> P y"
  by (metis hd_dropWhile list.distinct(1) list.sel(1))

lemma TrimSpace_ends: "TrimSpace s = [] \<or> \<not> isSpace (hd (TrimSpace s)) \<and> \<not> isSpace (last (TrimSpace s))"
proof -
  let ?t = "dropWhile isSpace s" and ?r = "dropWhile isSpace (rev (dropWhile isSpace s))"
  have "?r \<noteq> [] \<Longrightarrow> \<not> isSpace (hd ?r)" by (rule hd_dropWhile)
  moreover have "hd (rev ?r) = hd ?t" if "?r \<noteq> []"
  proof -
    obtain p where "rev ?t = p @ ?r" by (metis takeWhile_dropWhile_id)
    then have "?t = rev ?r @ rev p" by (metis rev_append rev_rev_ident)
    then show ?thesis using that by (metis hd_append2 rev_is_Nil_conv)
  qed
  moreover have "?r \<noteq> [] \<Longrightarrow> \<not> isSpace (hd ?t)" by (metis dropWhile.simps(1) hd_dropWhile rev.simps(1))
  ultimately show ?thesis unfolding TrimSpace_def by (metis last_rev rev.simps(1))
qed

lemma TrimSpace_idem: "TrimSpace (TrimSpace s) = TrimSpace s"
proof (cases "TrimSpace s")
  case (Cons c t)
  then have "\<not> isSpace c" "\<not> isSpace (last (c # t))" using TrimSpace_ends [of s] by simp_all
  then have "dropWhile isSpace (c # t) = c # t" "dropWhile isSpace (rev (c # t)) = rev (c # t)"
    by (simp, metis dropWhile_eq_self_iff hd_rev)
  then show ?thesis unfolding Cons by (simp add: TrimSpace_def [of "c # t"])
next
  case Nil
  show ?thesis unfolding Nil by (simp add: TrimSpace_def)
qed

text \<open>Splitting at a comma gives one entry more than there are commas.\<close>

lemma splitGo_one: "length (splitGo [c] acc s) = Suc (count_list s c)"
  by (induction "[c]" acc s rule: splitGo.induct) auto

lemma Split_length: "length (Split s [c]) = Suc (count_list s c)"
  by (simp add: Split_def splitGo_one)

section \<open>Properties\<close>

text \<open>
  The namespaces the operator watches: with a comma in \<^verbatim>\<open>WATCH_NAMESPACE\<close> its
  entries, without blanks at either end, one entry more than there are commas; without a comma
  the manager's own cache, for the text of the variable as it stands.
\<close>

theorem watched_namespaces:
  "watchNamespaceCache env =
     (if CHR '','' \<in> set (Getenv env ''WATCH_NAMESPACE'')
      then Some (map TrimSpace (Split (Getenv env ''WATCH_NAMESPACE'') '','')) else None)
   \<and> moNamespace (managerOptions flags env) = Getenv env ''WATCH_NAMESPACE''
   \<and> length (Split (Getenv env ''WATCH_NAMESPACE'') '','') = Suc (count_list (Getenv env ''WATCH_NAMESPACE'') CHR '','')
   \<and> TrimSpace (TrimSpace v) = TrimSpace v"
  using Split_length [of "Getenv env ''WATCH_NAMESPACE''" "CHR '',''"] TrimSpace_idem [of v]
    count_list_0_iff [of "Getenv env ''WATCH_NAMESPACE''" "CHR '',''"]
  by (auto simp: watchNamespaceCache_def managerOptions_def Let_def)

text \<open>The calls of a complete start, for the waiting time read from the environment.\<close>

definition startupCalls :: "int \<Rightarrow> cli_flags \<Rightarrow> (string \<Rightarrow> string option) \<Rightarrow> setup_call list" where
  "startupCalls wait flags env =
     [GetConfigCall, NewManagerCall (managerOptions flags env),
      CompleteCall \<lparr>ctFor = DruidKind, ctEventFilter = True, ctMaxConcurrentReconciles = Some (getMaxConcurrentReconciles env),
        ctReconcileWait = wait, ctRecorder = ''druid-operator''\<rparr>]
     @ (if flDisableIngestionController flags then []
        else [CompleteCall \<lparr>ctFor = DruidIngestionKind, ctEventFilter = False, ctMaxConcurrentReconciles = None,
          ctReconcileWait = 0, ctRecorder = ''druid-ingestion''\<rparr>])
     @ [AddHealthzCheckCall ''healthz'', AddReadyzCheckCall ''readyz'', StartCall]"

text \<open>
  C39 (error). A start of the operator, for every manager: the calls are, in this order, the
  configuration, the manager, the Druid controller, the ingestion controller unless it is
  disabled, the health check, the readiness check and the run. If each of them is answered
  without error, in the state that the ones before it left, exactly these calls are made and
  \<^verbatim>\<open>main\<close> returns; otherwise the calls made are those up to and with the first that is answered
  with an error, and the process exits with status 1. With an unreadable \<^verbatim>\<open>RECONCILE_WAIT\<close> it
  exits with status 1 after the call for the configuration, if that fails, or else after the call
  for the manager: no controller is set up.
\<close>

theorem operator_starts_in_order:
  "case LookupReconcileTime lib env of
     None \<Rightarrow> (\<exists>e. res (main lib mgr flags env) s = Err e)
       \<and> effs (main lib mgr flags env) s =
           (if fst (mgGetConfig mgr s) = None then [GetConfigCall, NewManagerCall (managerOptions flags env), ExitCall 1]
            else [GetConfigCall, ExitCall 1])
   | Some wait \<Rightarrow>
       ((\<forall>i. \<not> refused mgr (startupCalls wait flags env) s i) \<longrightarrow>
          res (main lib mgr flags env) s = Ok () \<and> effs (main lib mgr flags env) s = startupCalls wait flags env)
       \<and> (\<forall>i. refused mgr (startupCalls wait flags env) s i \<and> (\<forall>j < i. \<not> refused mgr (startupCalls wait flags env) s j) \<longrightarrow>
          (\<exists>e. res (main lib mgr flags env) s = Err e)
          \<and> effs (main lib mgr flags env) s = take (Suc i) (startupCalls wait flags env) @ [ExitCall 1])"
proof (cases "LookupReconcileTime lib env")
  case None
  then show ?thesis
    by (auto simp: main_def GetConfigOrDie_def NewDruidReconciler_def os_Exit_def orExit_def go_run
        split: option.split prod.split sum.split)
next
  case (Some wait)
  let ?c = "ingestion_SetupWithManager NewDruidIngestionReconciler"
  have ing: "stages mgr (if flDisableIngestionController flags then [] else [CompleteCall ?c])
      (if \<not> flDisableIngestionController flags then let c = ?c in orExit (CompleteCall c) (mgComplete mgr c) else ret ())"
    by (simp add: stages_orExit stages_ret Let_def)
  have "stages mgr ([GetConfigCall] @ [NewManagerCall (managerOptions flags env)]
      @ [CompleteCall (druid_SetupWithManager env \<lparr>rcReconcileWait = wait, rcRecorder = ''druid-operator''\<rparr>)]
      @ (if flDisableIngestionController flags then [] else [CompleteCall ?c])
      @ [AddHealthzCheckCall ''healthz''] @ [AddReadyzCheckCall ''readyz''] @ [StartCall]) (main lib mgr flags env)"
    unfolding main_def GetConfigOrDie_def NewDruidReconciler_def Some option.case bindE_ret
    by (intro stages_bind stages_orExit ing) simp_all
  then have "stages mgr (startupCalls wait flags env) (main lib mgr flags env)"
    by (cases "flDisableIngestionController flags")
       (simp_all add: startupCalls_def druid_SetupWithManager_def ingestion_SetupWithManager_def NewDruidIngestionReconciler_def)
  then show ?thesis by (simp add: Some stages_def)
qed

text \<open>A start with a manager that accepts everything, and one whose health check cannot be added.\<close>

definition readyManager :: "unit manager" where
  "readyManager = \<lparr>mgGetConfig = Pair None, mgNew = (\<lambda>_. Pair None), mgComplete = (\<lambda>_. Pair None),
     mgAddHealthz = (\<lambda>_. Pair None), mgAddReadyz = (\<lambda>_. Pair None), mgStart = Pair None\<rparr>"

theorem operator_start_witness:
  "effs (main memLib readyManager defaultFlags (\<lambda>_. None)) ()
     = startupCalls 10000000000 defaultFlags (\<lambda>_. None)
   \<and> effs (main memLib (readyManager\<lparr>mgAddHealthz := (\<lambda>_. Pair (Some (GoErr ''taken'')))\<rparr>) defaultFlags (\<lambda>_. None)) ()
     = take 5 (startupCalls 10000000000 defaultFlags (\<lambda>_. None)) @ [ExitCall 1]"
proof -
  let ?none = "\<lambda>_. None" and ?bad = "readyManager\<lparr>mgAddHealthz := (\<lambda>_. Pair (Some (GoErr ''taken'')))\<rparr>"
  have wait: "LookupReconcileTime memLib ?none = Some 10000000000" by (simp add: LookupReconcileTime_def)
  have "mgAnswer readyManager c w = (None, w)" for c w by (cases c) (simp_all add: readyManager_def)
  then have "\<not> refused readyManager cs () i" for cs i by (simp add: refused_def)
  moreover have "refused ?bad (startupCalls 10000000000 defaultFlags ?none) () 4"
      "\<forall>j < 4. \<not> refused ?bad (startupCalls 10000000000 defaultFlags ?none) () j"
    by (simp_all add: refused_def startupCalls_def defaultFlags_def readyManager_def less_Suc_eq numeral_eq_Suc)
  ultimately show ?thesis
    using operator_starts_in_order [where lib = memLib and env = ?none and mgr = readyManager and flags = defaultFlags and s = "()"]
      operator_starts_in_order [where lib = memLib and env = ?none and mgr = ?bad and flags = defaultFlags and s = "()"]
    unfolding wait option.case by (auto simp: numeral_eq_Suc)
qed

end
