(* ===== verification/Event_Push.thy ===== *)
theory Event_Push
  imports Client_Interface
begin

text \<open>
  \<^verbatim>\<open>sendEvent\<close> of \<^verbatim>\<open>handler.go\<close>, which creates an event object itself instead of handing it to the
  recorder of controller-runtime. Nothing in the repository calls it. The clock (\<^verbatim>\<open>metav1.Now\<close> in
  nanoseconds since the epoch) and the request that creates the object are parameters. Proved:
  one creation and no failure, whatever the server answers, and names that differ for two
  events of one cluster at different times.
\<close>

section \<open>Operations\<close>

text \<open>The verb \<^verbatim>\<open>%x\<close> on an integer: lower-case hexadecimal digits after an optional minus sign.\<close>

definition hexChar :: "nat \<Rightarrow> char" where
  "hexChar d = (if d < 10 then char_of (48 + d) else char_of (87 + d))"

fun formatHexNat :: "nat \<Rightarrow> string" where
  "formatHexNat n = (if n < 16 then [hexChar n] else formatHexNat (n div 16) @ [hexChar (n mod 16)])"

declare formatHexNat.simps [simp del]

definition formatHex :: "int \<Rightarrow> string" where
  "formatHex i = (if i < 0 then CHR ''-'' # formatHexNat (nat (- i)) else formatHexNat (nat i))"

record event_reference =
  ivKind :: string
  ivAPIVersion :: string
  ivName :: string
  ivNamespace :: string
  ivUID :: string
  ivResourceVersion :: string

record api_event =
  evAPIVersion :: string
  evKind :: string
  evName :: string
  evNamespace :: string
  evInvolvedObject :: event_reference
  evReason :: string
  evMessage :: string
  evFirstTimestamp :: int
  evLastTimestamp :: int
  evCount :: int
  evType :: string
  evComponent :: string

definition referenceTo :: "druid \<Rightarrow> event_reference" where
  "referenceTo drd = \<lparr>ivKind = tmKind drd, ivAPIVersion = tmAPIVersion drd, ivName = GetName drd,
     ivNamespace = GetNamespace drd, ivUID = metaUID (objMeta drd), ivResourceVersion = GetResourceVersion drd\<rparr>"

definition eventFor :: "druid \<Rightarrow> int \<Rightarrow> string \<Rightarrow> string \<Rightarrow> string \<Rightarrow> api_event" where
  "eventFor drd t eventtype reason message =
     (let ref = referenceTo drd;
          namespace = ivNamespace ref;
          namespace = (if namespace = [] then ''default'' else namespace)
      in \<lparr>evAPIVersion = ''v1'', evKind = ''Event'', evName = ivName ref @ ''.'' @ formatHex t,
          evNamespace = namespace, evInvolvedObject = ref, evReason = reason, evMessage = message,
          evFirstTimestamp = t, evLastTimestamp = t, evCount = 1, evType = eventtype,
          evComponent = ''druid-operator''\<rparr>)"

definition metav1_Now :: "('w \<Rightarrow> int \<times> 'w) \<Rightarrow> ('w, api_event, int) go" where
  "metav1_Now now = (\<lambda>s. case now s of (t, s') \<Rightarrow> (Ok t, [], s'))"

text \<open>A failing creation is only logged.\<close>

definition sendEvent ::
  "('w \<Rightarrow> int \<times> 'w) \<Rightarrow> (api_event \<Rightarrow> 'w \<Rightarrow> (goerr + unit) \<times> 'w) \<Rightarrow> druid
    \<Rightarrow> string \<Rightarrow> string \<Rightarrow> string \<Rightarrow> ('w, api_event, unit) go" where
  "sendEvent now create drd eventtype reason message =
     bindE (metav1_Now now) (\<lambda>t.
       let event = eventFor drd t eventtype reason message
       in handleE (ask event (create event)) (\<lambda>err. ret ()) ret)"

section \<open>Lemmas\<close>

definition hexVal :: "char \<Rightarrow> nat" where
  "hexVal c = (if of_char c < (58 :: nat) then of_char c - 48 else of_char c - 87)"

definition hexDigitsVal :: "string \<Rightarrow> nat" where
  "hexDigitsVal s = foldl (\<lambda>n c. 16 * n + hexVal c) 0 s"

lemma hexVal_hexChar: "d < 16 \<Longrightarrow> hexVal (hexChar d) = d"
  by (simp add: hexVal_def hexChar_def)

lemma hexChar_no_sign: "d < 16 \<Longrightarrow> hexChar d \<noteq> CHR ''-''"
proof
  assume "d < 16" "hexChar d = CHR ''-''"
  then have "of_char (hexChar d) = (45 :: nat)" by simp
  with \<open>d < 16\<close> show False by (simp add: hexChar_def split: if_splits)
qed

lemma hexDigitsVal_formatHexNat: "hexDigitsVal (formatHexNat n) = n"
proof (induction n rule: formatHexNat.induct)
  case (1 n)
  then show ?case
    by (subst formatHexNat.simps) (simp add: hexDigitsVal_def hexVal_hexChar)
qed

lemma formatHexNat_no_sign: "CHR ''-'' \<notin> set (formatHexNat n)"
proof (induction n rule: formatHexNat.induct)
  case (1 n)
  then show ?case
    using hexChar_no_sign [of n] hexChar_no_sign [of "n mod 16"] by (subst formatHexNat.simps) auto
qed

text \<open>The text determines the number.\<close>

lemma formatHex_inject: "formatHex i = formatHex j \<longleftrightarrow> i = j"
proof
  assume eq: "formatHex i = formatHex j"
  have sign: "i < 0 \<longleftrightarrow> CHR ''-'' \<in> set (formatHex i)" for i
    using formatHexNat_no_sign by (auto simp: formatHex_def)
  then have "i < 0 \<longleftrightarrow> j < 0" by (simp add: eq)
  then have "formatHexNat (nat \<bar>i\<bar>) = formatHexNat (nat \<bar>j\<bar>)"
    using eq by (auto simp: formatHex_def split: if_splits)
  then have "nat \<bar>i\<bar> = nat \<bar>j\<bar>" by (metis hexDigitsVal_formatHexNat)
  then show "i = j" using \<open>i < 0 \<longleftrightarrow> j < 0\<close> by linarith
qed simp

lemma metav1_Now_run:
  "res (metav1_Now now) s = Ok (fst (now s))" "effs (metav1_Now now) s = []"
  by (simp_all add: metav1_Now_def go_defs split: prod.split)

text \<open>
  Sending an event never fails: it is one attempt to create one event about the custom resource,
  in the namespace of the custom resource or the default one.
\<close>

lemma sendEvent_exact:
  "res (sendEvent now create drd eventtype reason message) s = Ok ()
   \<and> effs (sendEvent now create drd eventtype reason message) s = [eventFor drd (fst (now s)) eventtype reason message]
   \<and> evNamespace (eventFor drd (fst (now s)) eventtype reason message) \<noteq> []"
  by (simp add: sendEvent_def metav1_Now_run go_run Let_def split: prod.split sum.split) (simp add: eventFor_def Let_def)

lemma event_names_distinct:
  "evName (eventFor drd t a b c) = evName (eventFor drd t' a' b' c') \<longleftrightarrow> t = t'"
  by (simp add: eventFor_def Let_def formatHex_inject)

end
