(* ===== verification/Spec2Isabelle.thy ===== *)
theory Spec2Isabelle
  imports Cluster_Isolation Request_Order Faulty_Deploy Orphan_Lifecycle Ingestion_Lifecycle Volume_Lifecycle Deep_Copy Operator_Main Event_Push
begin

text \<open>
  A verification development of the Druid operator (\<^verbatim>\<open>src/controllers\<close>, \<^verbatim>\<open>src/pkg\<close>, \<^verbatim>\<open>src/apis\<close>), a
  Kubernetes operator in Go. It has two controllers. The \<^emph>\<open>Druid controller\<close> brings the objects of a
  Druid cluster (ConfigMaps, Services, StatefulSets, Deployments, claims, ...) into the state that a
  custom resource \<^verbatim>\<open>Druid\<close> declares, one node group after the other, and then compares the dynamic
  configuration over Druid's HTTP API. The \<^emph>\<open>ingestion controller\<close> submits the task that a custom
  resource \<^verbatim>\<open>DruidIngestion\<close> declares and keeps its compaction settings and rules up to date.

  \<^bold>\<open>How code becomes definitions.\<close> A Go function with effects is a function from the state of the
  outside world to its outcome (a value, an error value, or a panic), the list of effects it issued in
  order (requests to the API server, events, HTTP requests), and the state left behind (\<open>Prelude\<close>:
  \<open>outcome\<close>, \<open>go\<close>, \<open>bindE\<close>, \<open>handleE\<close>, \<open>foldE\<close>, \<open>loopE\<close>). The state of the world is a type variable and
  the Kubernetes client, the HTTP transport, the clock and the library functions on texts
  (\<^verbatim>\<open>json.Marshal\<close>, SHA-1, \<^verbatim>\<open>url.Parse\<close>, ...) are fields of a record \<open>'w client\<close>, an argument of every
  operation: the theorems hold for every server and every answer. Where a theorem needs something of
  the server it is a named hypothesis (\<open>typed_client\<close>: each kind is served under its own type;
  \<open>patch_keeps_identity\<close>: patching finalizers leaves identity and spec alone; \<open>reads_back\<close>: a stored
  object is read back). \<open>Memory_Client\<close> gives concrete servers, on which the witnesses run.
  Custom resources are records with the fields of the Go structs; a pointer, slice or map whose
  nil value matters is an \<open>option\<close>; maps with string keys are finite maps; the node map is an
  association list in the iteration order of one run; theorems on several runs let every run have
  another one. Builders that write through maps and pointers of the custom
  resource return the custom resource they leave behind. Loops are structural recursions or folds
  over the lists they range over, so every definition is total; no fuel is used anywhere.

  \<^bold>\<open>The theories.\<close>
  \<^item> \<open>Prelude\<close>, \<open>Go_Lib\<close>: the effect type and its laws, decimal numbers, \<^verbatim>\<open>strings.Split\<close>, saturating
    time differences, regular expressions.
  \<^item> \<open>K8s_Objects\<close>, \<open>Druid_Types\<close>, \<open>Ingestion_Types\<close>: the API objects (\<^verbatim>\<open>druid_types.go\<close>,
    \<^verbatim>\<open>druidingestion_types.go\<close>).
  \<^item> \<open>Util_Funcs\<close>, \<open>Json_Includes\<close>: \<^verbatim>\<open>util.go\<close> of the controller and of \<^verbatim>\<open>pkg\<close>; the recursive JSON
    comparison decides the inductive relation \<open>covered\<close>.
  \<^item> \<open>Client_Interface\<close>: \<^verbatim>\<open>interface.go\<close>, the readers, writers and event emitters. The locale
    \<open>api_operation\<close> states what they all share (one request, whose answer is the result); it is
    interpreted for every reader and writer.
  \<^item> \<open>Memory_Client\<close>: an API server in memory and a stateless one, with sample objects.
  \<^item> \<open>Ordering\<close> (\<^verbatim>\<open>ordering.go\<close>): the node groups come in the order of their types.
  \<^item> \<open>Spec_Validation\<close> (\<^verbatim>\<open>verifyDruidSpec\<close>, \<^verbatim>\<open>additional_containers.go\<close>): what is accepted, exactly.
  \<^item> \<open>Configuration\<close> (\<^verbatim>\<open>configuration.go\<close>, the dependency managers): the locale \<open>dependency_manager\<close> is
    interpreted for Zookeeper, metadata store and deep storage.
  \<^item> \<open>Resource_Sync\<close> (\<^verbatim>\<open>sdkCreateOrUpdateAsNeeded\<close>, \<^verbatim>\<open>deleteUnusedResources\<close>): the requests of each branch,
    that a second run is quiet, that the cleanup deletes exactly what nobody asked for.
  \<^item> \<open>Workload_Builder\<close> (the builders of \<^verbatim>\<open>handler.go\<close>): labels, probes, volumes, pod templates, all objects.
  \<^item> \<open>Finalizers\<close>, \<open>Orphan_Pvc\<close>, \<open>Volume_Expansion\<close>, \<open>Rollout\<close>, \<open>Status\<close>: \<^verbatim>\<open>finalizers.go\<close>,
    \<^verbatim>\<open>deleteOrphanPVC\<close>, \<^verbatim>\<open>volume_expansion.go\<close>, \<^verbatim>\<open>isObjFullyDeployed\<close> and \<^verbatim>\<open>checkCrashStatus\<close>, \<^verbatim>\<open>status.go\<close>.
  \<^item> \<open>Cluster_Deploy\<close>, \<open>Deploy_Safety\<close>: \<^verbatim>\<open>deployDruidCluster\<close> as a whole and its safety: one rollout at a
    time, ownership of everything created, what an invalid or deleted resource leads to.
  \<^item> \<open>Object_Store\<close>: what a server promises for one kind of object (locale \<open>kind_store\<close>: a view of the
    stored objects as hash and labels per name, and how each request changes it), and that
    synchronising and cleaning up implement two actions on that view, \<open>Ensure\<close> and \<open>Sweep\<close>. The
    server in memory keeps the promise for every kind.
  \<^item> \<open>Cluster_Plan\<close>: the abstract specification of a deployment, the list of actions a custom
    resource asks for (\<open>clusterPlan\<close>), computed without any request; applying a plan settles it, a
    settled plan changes nothing, and nothing outside the plan and the cluster's labels is touched.
  \<^item> \<open>Node_Order\<close>: the resource as another reconciliation reads it (\<open>reread\<close>: the node map in any other
    order, the rest of the metadata and the status free), and that the plan asks for the same actions
    then, if the cluster level of the spec has nothing that builders write through (\<open>unshared\<close>).
    \<open>Workload_Builder\<close> shows that this condition is needed.
  \<^item> \<open>Plan_Following\<close>: how a deployment follows its plan, for any claim about a run. \<open>follows\<close> says that a
    claim on actions, effects and states holds of a piece of code and the actions it is to take; the
    locales \<open>composable\<close>, \<open>frame_follower\<close> and \<open>plan_follower\<close> ask it of single requests and give it for
    the whole of \<^verbatim>\<open>deployDruidCluster\<close>, block by block. The next theories instantiate it three times.
  \<^item> \<open>Cluster_Refinement\<close>: the locales \<open>other_requests\<close>, \<open>frame_store\<close> and \<open>cluster_store\<close> join the kinds of
    objects without and with the workloads; a run of \<^verbatim>\<open>deployDruidCluster\<close> performs its plan, a second
    run is quiet. Interpreted on the server in memory.
  \<^item> \<open>Rolling_Progress\<close>: rolling deployments. A run that stops early performs a beginning of the plan
    (\<open>rolls\<close>, \<open>advances\<close>); the locale \<open>rolling_store\<close> adds to the contract what it means that the
    workloads are rolled out; the number of unsettled actions decreases with every run, so repeated
    runs (\<open>deploy_runs\<close>, each with an iteration order of its own) finish. Interpreted on the server in memory.
  \<^item> \<open>Cluster_Isolation\<close>: two clusters on one server; the actions of one plan leave the other cluster
    as it stands.
  \<^item> \<open>Request_Order\<close>: for every server, failing ones included, the writes of a deployment follow its
    plan in order.
  \<^item> \<open>Faulty_Connection\<close>, \<open>Faulty_Deploy\<close>: a connection on which requests fail, with or without effect
    (\<open>lossy\<close>), code that is the same over it as long as nothing fails (\<open>mirrors\<close>), and a concrete one with
    a list of faults. Over any number of deployments with failures, each for the resource as it is
    read then, nothing outside the plan happens (\<open>plan_step\<close>), what a successful run completed lasts,
    and the desired state is reached after as many runs as failures and one more. Locales
    \<open>connection\<close>, \<open>lossy_kind\<close>, \<open>lossy_store\<close>, \<open>lossy_deploy\<close> (one run), \<open>lossy_runs\<close> (many), interpreted on the server in memory behind the concrete connection.
  \<^item> \<open>Orphan_Lifecycle\<close>: the life cycle of a claim as a step relation (\<open>claim_step\<close>: unmarked, marked
    since, deleted), the locale \<open>claim_server\<close>, the simulation of a round of \<^verbatim>\<open>deleteOrphanPVC\<close>,
    successful or failed, and what any number of rounds can do to a claim.
  \<^item> \<open>Round_Logic\<close>: triples with a postcondition for results and one for errors, and properties that
    code keeps whatever it returns; used for the lives of volumes and ingestions.
  \<^item> \<open>Volume_Lifecycle\<close>: the sizes of a StatefulSet's claim template and of the claims as a step
    relation (\<open>vol_step\<close>), the locale \<open>volume_server\<close> (any request may fail, with or without effect),
    the simulation of a run of \<open>node_statefulset\<close>, and what any number of rounds lead to. Interpreted
    on the server in memory behind a connection with faults.
  \<^item> \<open>Druid_Api\<close>, \<open>Dynamic_Config\<close>: \<^verbatim>\<open>druidapi.go\<close>, \<^verbatim>\<open>http.go\<close>, \<^verbatim>\<open>dynamic_config.go\<close>.
  \<^item> \<open>Druid_Controller\<close>: \<^verbatim>\<open>predicates.go\<close>, \<^verbatim>\<open>druid_controller.go\<close>.
  \<^item> \<open>Ingestion\<close>: \<^verbatim>\<open>controllers/ingestion\<close>. \<open>Ingestion_Lifecycle\<close>: the life of an ingestion as a step
    relation (\<open>ing_step\<close>: nothing, an old spec, the declared spec recorded), the locale
    \<open>ingestion_server\<close> (a server any of whose requests may fail), the simulation of a round of the
    controller, proved with triples over the effect type, and what any number of rounds send to
    Druid.
  \<^item> \<open>Go_Memory\<close>, \<open>Deep_Copy\<close>: an explicit memory with structs in place and pointers, slices and maps
    as references; the declared structs as types and the functions of \<^verbatim>\<open>zz_generated.deepcopy.go\<close>,
    statement by statement. The locale \<open>deep_copier\<close> states what a caller gets, \<open>copy_library\<close> what the
    generated code needs of the library's types; a copy is deeply equal to the original and shares
    no cell with it, which justifies that the other theories treat values as immutable.
  \<^item> \<open>Operator_Main\<close>: \<^verbatim>\<open>main.go\<close> and the set-up of both controllers. \<open>Event_Push\<close>: \<^verbatim>\<open>sendEvent\<close>.
  \<^item> this theory: properties of a whole reconciliation.

  Some theorems state behaviour that departs from what the code means to do (a probe port that leaks
  from one node group to the next, claims resized to another template's size, a settled StatefulSet
  deleted in every round, a task id that is overwritten by an older one, ...); their texts say so.

  \<^bold>\<open>Not modelled.\<close> Logging (with \<^verbatim>\<open>stringifyForLogging\<close>), the parsing of the command line, the
  manager and the event recorder of controller-runtime (parameters), the
  registration of the types with a scheme. API values the operator only copies (tolerations, affinities, security contexts) are opaque
  texts. The answer of a \<^verbatim>\<open>Create\<close> or \<^verbatim>\<open>Update\<close> is decoded into the object that was sent; the
  model keeps the object as it was sent.

  \<^bold>\<open>Limits.\<close> Reads answer from the current state of the server: stale answers of a cache are not among
  the failures. The theorems on many runs with failures are for resources without volume expansion
  and orphan cleanup, which have their own theories, and with a common ConfigMap built from the
  resource alone; a failed read of an extra ConfigMap is the subject of a theorem of its own. The theorems on
  several runs ask for a spec that is \<open>unshared\<close>, since the iteration order of the node map decides
  what the workloads look like otherwise. The time stamps of orphaned claims are within \<open>2^61\<close>
  seconds. The message of an invalid spec is kept as it is built; \<^verbatim>\<open>fmt.Errorf\<close>, to which the code
  passes it as a format, would alter a percent sign in it.
\<close>

section \<open>A whole reconciliation\<close>

text \<open>Updating the dynamic configuration writes nothing to the cluster.\<close>

lemma only_httpDo: "only (\<lambda>e. \<not> is_write e) (httpDo c a mt url body)"
  by (simp add: only_def httpDo_run split: option.split)

lemma dynamic_config_no_write: "only (\<lambda>e. \<not> is_write e) (updateDruidDynamicConfigs client drd)"
  unfolding updateDruidDynamicConfigs_def dynamicConfig_step_def syncDynamicConfig_def postIfMissing_def
    failWith_def fetchFailed_def EmitEventGeneric_def Event_def GetRouterSvcUrl_def GetAuthCreds_def Let_def sdk_defs
  by (intro only_intro only_httpDo; simp)

text \<open>The writes of a reconciliation are those of the deployment.\<close>

lemma reconcile_writes:
  assumes "fst (apiGet (clDruids client) name ns s) = Inr m"
  shows "\<exists>es. effs (Reconcile client wait name ns) s =
      GetCall (apiKind (clDruids client)) name ns # effs (deployDruidCluster client m) (snd (apiGet (clDruids client) name ns s)) @ es
    \<and> list_all (\<lambda>e. \<not> is_write e) es"
  using assms dynamic_config_no_write [of client]
  by (auto simp: Reconcile_def go_run sdk_defs only_def split: outcome.split)

section \<open>Properties\<close>

text \<open>
  C7 (invariant). Every object that a reconciliation creates, in any branch of the run and whatever
  the server answers, is in the namespace of the custom resource that was read, carries an
  owner reference to it, so that deleting the custom resource lets the cluster's garbage collector
  remove it, and has the labels by which the cleanup of a later reconciliation finds it. The hypotheses on the client say that each kind is served under its own type and that
  patching the finalizers leaves the identity and the spec alone.
\<close>

theorem reconcile_creates_owned_objects:
  assumes "typed_client client" and "patch_keeps_identity client"
    and "fst (apiGet (clDruids client) name ns s) = Inr m"
    and "CreateCall k \<in> set (effs (Reconcile client wait name ns) s)"
  shows "asOwner m \<in> set (metaOwnerReferences (kobjMeta k)) \<and> metaNamespace (kobjMeta k) = GetNamespace m
    \<and> hasLabels (makeLabelsForDruid m) k"
proof -
  obtain es where run: "effs (Reconcile client wait name ns) s =
      GetCall (apiKind (clDruids client)) name ns # effs (deployDruidCluster client m) (snd (apiGet (clDruids client) name ns s)) @ es"
    and "list_all (\<lambda>e. \<not> is_write e) es"
    using reconcile_writes [OF assms(3)] by blast
  then have "CreateCall k \<in> set (effs (deployDruidCluster client m) (snd (apiGet (clDruids client) name ns s)))"
    using assms(4) by (auto simp: list_all_iff)
  from onlyD [OF only_adopted [OF assms(1,2)] this] show ?thesis by simp
qed

theorem reconcile_creates_witness:
  "\<exists>k. CreateCall k \<in> set (effs (Reconcile (stubClient (sampleSts ''x'')) 0 ''c'' ''ns'') ())
     \<and> asOwner rollingDruid \<in> set (metaOwnerReferences (kobjMeta k)) \<and> metaNamespace (kobjMeta k) = ''ns''
     \<and> hasLabels (makeLabelsForDruid rollingDruid) k"
proof -
  let ?c = "stubClient (sampleSts ''x'')"
  have get: "fst (apiGet (clDruids ?c) ''c'' ''ns'' ()) = Inr rollingDruid" by (simp add: stubApi_def)
  obtain k where "CreateCall k \<in> set (effs (deployDruidCluster ?c rollingDruid) ())"
    using deploy_creates [of "''x''"] by (auto simp: list_ex_iff)
  then have k: "CreateCall k \<in> set (effs (Reconcile ?c 0 ''c'' ''ns'') ())"
    using reconcile_writes [OF get, of 0] by auto
  have "GetNamespace rollingDruid = ''ns''" by (simp add: rollingDruid_def sample_defs)
  with k reconcile_creates_owned_objects [OF typed_stub get k] show ?thesis by auto
qed

text \<open>
  C6 (safety). Under rolling deployment one reconciliation updates at most one workload: after the
  update of a StatefulSet or a Deployment the whole reconciliation, the update of the dynamic
  configuration included, writes nothing more to the cluster.
\<close>

theorem reconcile_updates_one_workload:
  assumes "typed_client client" and "patch_keeps_identity client"
    and "fst (apiGet (clDruids client) name ns s) = Inr m" and "crRollingDeploy (drSpec m)"
    and "effs (Reconcile client wait name ns) s = es1 @ UpdateCall k # es2"
    and "(\<exists>x. k = KStatefulSet x) \<or> (\<exists>x. k = KDeployment x)"
  shows "writes es2 = []"
proof -
  obtain es where run: "effs (Reconcile client wait name ns) s =
      GetCall (apiKind (clDruids client)) name ns # effs (deployDruidCluster client m) (snd (apiGet (clDruids client) name ns s)) @ es"
    (is "_ = _ # ?D @ es") and quiet: "list_all (\<lambda>e. \<not> is_write e) es"
    using reconcile_writes [OF assms(3)] by blast
  have roll: "is_rollout (UpdateCall k)" using assms(6) by auto
  have "?D @ es = tl es1 @ UpdateCall k # es2" using run assms(5) by (cases es1) auto
  from split_append_elem [OF this] quiet obtain us where D: "?D = tl es1 @ UpdateCall k # us" and es2: "es2 = us @ es"
    by auto
  from ends_deploy [OF assms(1,2,4)] D roll have "requests us = []" unfolding ends_run_def by blast
  then have "writes us = []" using writes_requests [of us] by simp
  moreover have "writes es = []" using quiet by (simp add: writes_def list_all_iff filter_empty_conv)
  ultimately show ?thesis by (simp add: es2)
qed

theorem reconcile_updates_witness:
  "\<exists>es1 k es2. effs (Reconcile (stubClient (sampleSts ''druid-c-h'')) 0 ''c'' ''ns'') () = es1 @ UpdateCall k # es2
     \<and> is_rollout (UpdateCall k) \<and> writes es2 = []"
proof -
  let ?c = "stubClient (sampleSts ''druid-c-h'')"
  have get: "fst (apiGet (clDruids ?c) ''c'' ''ns'' ()) = Inr rollingDruid" by (simp add: stubApi_def)
  obtain e where "e \<in> set (effs (deployDruidCluster ?c rollingDruid) ())" and e: "is_rollout e"
    using deploy_update [of "''druid-c-h''"] by (auto simp: list_ex_iff)
  then have "e \<in> set (effs (Reconcile ?c 0 ''c'' ''ns'') ())" using reconcile_writes [OF get, of 0] by auto
  moreover obtain k where k: "e = UpdateCall k" "(\<exists>x. k = KStatefulSet x) \<or> (\<exists>x. k = KDeployment x)"
    using e by (cases e rule: is_rollout.cases) auto
  ultimately obtain es1 es2 where es: "effs (Reconcile ?c 0 ''c'' ''ns'') () = es1 @ UpdateCall k # es2"
    by (auto dest: split_list)
  show ?thesis
    using reconcile_updates_one_workload [OF typed_stub get _ es k(2)] es e k(1) by auto
qed

end
